(* ===== verification/Smb_Prelude.thy ===== *)
theory Smb_Prelude
  imports Main "HOL-Library.Word"
begin

text \<open>
  Shared vocabulary of the development: the machine integers of the Rust sources, the
  \<open>Result\<close> type with panics made explicit, the state-and-error computations that model
  methods on \<open>&mut self\<close> returning \<open>Result\<close>, byte-order conversions, and the generic
  list and word lemmas the components use.

  \<^item> A Rust integer \<open>uN\<close> is an \<open>N word\<close>; \<open>usize\<close> is \<open>nat\<close> (a position or length of a
    buffer that exists in memory, so additions of lengths cannot wrap on the 64-bit targets).
  \<^item> \<open>Ok\<close> and \<open>Err\<close> are Rust's; \<open>Panic\<close> is what an out-of-range slice, an \<open>unwrap\<close> of a
    missing value or an underflowing \<open>usize\<close> subtraction gives.
  \<^item> \<open>('s, 'a, 'e) comp\<close> is a method that reads and writes a state \<open>'s\<close>; \<open>bnd\<close> is the
    \<open>?\<close> operator, \<open>seq\<close> a block of statements, \<open>repeat\<close> a counted \<open>for\<close> loop that
    pushes one result per round.
\<close>

unbundle bit_operations_syntax

section \<open>Types\<close>

type_synonym u8 = "8 word"
type_synonym u16 = "16 word"
type_synonym u32 = "32 word"
type_synonym u64 = "64 word"
type_synonym u128 = "128 word"
type_synonym usize = nat
type_synonym bytes = "u8 list"

datatype ('a, 'e) result = Ok 'a | Err 'e | Panic

type_synonym ('s, 'a, 'e) comp = "'s \<Rightarrow> ('a \<times> 's, 'e) result"

text \<open>
  Collections: \<open>rd_simps\<close> evaluates readers on a buffer whose next bytes are known,
  \<open>wr_simps\<close> evaluates writers, \<open>safe_intros\<close> proves readers panic-free.
\<close>

named_theorems rd_simps
named_theorems wr_simps
named_theorems safe_intros

section \<open>Results\<close>

fun is_ok :: "('a, 'e) result \<Rightarrow> bool" where
  "is_ok (Ok _) = True"
| "is_ok _ = False"

definition result_bind :: "('a, 'e) result \<Rightarrow> ('a \<Rightarrow> ('b, 'e) result) \<Rightarrow> ('b, 'e) result" where
  "result_bind r f = (case r of Ok x \<Rightarrow> f x | Err e \<Rightarrow> Err e | Panic \<Rightarrow> Panic)"

lemma result_bind_simps [simp]:
  "result_bind (Ok x) f = f x"
  "result_bind (Err e) f = Err e"
  "result_bind Panic f = Panic"
  by (simp_all add: result_bind_def)

lemma result_bind_eq_Ok: "result_bind r f = Ok y \<longleftrightarrow> (\<exists>x. r = Ok x \<and> f x = Ok y)"
  by (cases r) simp_all

lemma result_bind_eq_Panic: "result_bind r f = Panic \<longleftrightarrow> r = Panic \<or> (\<exists>x. r = Ok x \<and> f x = Panic)"
  by (cases r) simp_all

lemma result_bind_cong [fundef_cong]:
  "r = r' \<Longrightarrow> (\<And>x. r' = Ok x \<Longrightarrow> f x = g x) \<Longrightarrow> result_bind r f = result_bind r' g"
  by (cases r') simp_all

fun map_err :: "('e \<Rightarrow> 'f) \<Rightarrow> ('a, 'e) result \<Rightarrow> ('a, 'f) result" where
  "map_err f (Ok x) = Ok x"
| "map_err f (Err e) = Err (f e)"
| "map_err f Panic = Panic"

section \<open>Computations over a mutable state\<close>

definition ret :: "'a \<Rightarrow> ('s, 'a, 'e) comp" where
  "ret x s = Ok (x, s)"

definition fail :: "'e \<Rightarrow> ('s, 'a, 'e) comp" where
  "fail e s = Err e"

definition bnd :: "('s, 'a, 'e) comp \<Rightarrow> ('a \<Rightarrow> ('s, 'b, 'e) comp) \<Rightarrow> ('s, 'b, 'e) comp" where
  "bnd m f s = (case m s of Ok (x, s') \<Rightarrow> f x s' | Err e \<Rightarrow> Err e | Panic \<Rightarrow> Panic)"

definition lift :: "('a, 'e) result \<Rightarrow> ('s, 'a, 'e) comp" where
  "lift r s = (case r of Ok x \<Rightarrow> Ok (x, s) | Err e \<Rightarrow> Err e | Panic \<Rightarrow> Panic)"

primrec seq :: "('s, unit, 'e) comp list \<Rightarrow> ('s, unit, 'e) comp" where
  "seq [] = ret ()"
| "seq (m # ms) = bnd m (\<lambda>_. seq ms)"

primrec repeat :: "nat \<Rightarrow> ('s, 'a, 'e) comp \<Rightarrow> ('s, 'a list, 'e) comp" where
  "repeat 0 m = ret []"
| "repeat (Suc n) m = bnd m (\<lambda>x. bnd (repeat n m) (\<lambda>xs. ret (x # xs)))"

definition guard :: "bool \<Rightarrow> 'e \<Rightarrow> ('s, unit, 'e) comp" where
  "guard b e = (if b then ret () else fail e)"

lemma comp_simps [simp]:
  "ret x s = Ok (x, s)"
  "fail e s = Err e"
  "bnd m f s = (case m s of Ok (y, s') \<Rightarrow> f y s' | Err e \<Rightarrow> Err e | Panic \<Rightarrow> Panic)"
  "guard b e s = (if b then Ok ((), s) else Err e)"
  "lift (Ok x) s = Ok (x, s)"
  "lift (Err e) s = Err e"
  "lift Panic s = Panic"
  by (simp_all add: ret_def fail_def bnd_def guard_def lift_def)

lemma bnd_cong [fundef_cong]:
  "m s = m' s' \<Longrightarrow> s = s' \<Longrightarrow> (\<And>x t. m' s' = Ok (x, t) \<Longrightarrow> f x t = g x t) \<Longrightarrow>
   bnd m f s = bnd m' g s'"
  by (auto split: result.splits)

lemma bnd_eq_Ok:
  "bnd m f s = Ok (y, u) \<longleftrightarrow> (\<exists>x t. m s = Ok (x, t) \<and> f x t = Ok (y, u))"
  by (auto split: result.splits)

lemma lift_apply: "lift r s = result_bind r (\<lambda>x. Ok (x, s))"
  by (cases r) simp_all

section \<open>Byte order\<close>

text \<open>\<open>to_le_bytes\<close>, \<open>from_le_bytes\<close>, \<open>to_be_bytes\<close>, \<open>from_be_bytes\<close> of the integer types.\<close>

primrec le_bytes_of_nat :: "nat \<Rightarrow> nat \<Rightarrow> bytes" where
  "le_bytes_of_nat 0 x = []"
| "le_bytes_of_nat (Suc n) x = word_of_nat x # le_bytes_of_nat n (x div 256)"

primrec nat_of_le_bytes :: "bytes \<Rightarrow> nat" where
  "nat_of_le_bytes [] = 0"
| "nat_of_le_bytes (b # bs) = unat b + 256 * nat_of_le_bytes bs"

definition to_le_bytes :: "'a::len word \<Rightarrow> bytes" where
  "to_le_bytes w = le_bytes_of_nat (LENGTH('a) div 8) (unat w)"

definition from_le_bytes :: "bytes \<Rightarrow> 'a::len word" where
  "from_le_bytes bs = word_of_nat (nat_of_le_bytes bs)"

definition to_be_bytes :: "'a::len word \<Rightarrow> bytes" where
  "to_be_bytes w = rev (to_le_bytes w)"

definition from_be_bytes :: "bytes \<Rightarrow> 'a::len word" where
  "from_be_bytes bs = from_le_bytes (rev bs)"

lemma length_le_bytes_of_nat [simp]: "length (le_bytes_of_nat n x) = n"
  by (induction n arbitrary: x) simp_all

lemma length_to_le_bytes [simp]: "length (to_le_bytes (w :: 'a::len word)) = LENGTH('a) div 8"
  by (simp add: to_le_bytes_def)

lemma length_to_be_bytes [simp]: "length (to_be_bytes (w :: 'a::len word)) = LENGTH('a) div 8"
  by (simp add: to_be_bytes_def)

lemma nat_of_le_bytes_of_nat: "nat_of_le_bytes (le_bytes_of_nat n x) = x mod 256 ^ n"
proof (induction n arbitrary: x)
  case 0
  then show ?case by simp
next
  case (Suc n)
  have "unat (word_of_nat x :: u8) = x mod 256"
    by (simp add: unat_of_nat)
  then show ?case
    using Suc by (simp add: mod_mult2_eq)
qed

lemma nat_of_le_bytes_less: "nat_of_le_bytes bs < 256 ^ length bs"
proof (induction bs)
  case Nil
  then show ?case by simp
next
  case (Cons b bs)
  have "unat b < 256" using unsigned_less [of b] by simp
  then show ?case using Cons.IH by simp
qed

lemma le_bytes_of_nat_of_le: "le_bytes_of_nat (length bs) (nat_of_le_bytes bs) = bs"
proof (induction bs)
  case Nil
  then show ?case by simp
next
  case (Cons b bs)
  have b: "unat b < 256" using unsigned_less [of b] by simp
  have "unat (word_of_nat (unat b + 256 * nat_of_le_bytes bs) :: u8) = unat b"
    by (rule trans [OF unat_of_nat]) (use b in simp)
  then have "(word_of_nat (unat b + 256 * nat_of_le_bytes bs) :: u8) = b"
    by (rule word_unat_eq_iff [THEN iffD2])
  with b Cons.IH show ?case by simp
qed

lemma pow256: "(256 :: nat) ^ n = 2 ^ (8 * n)"
  by (simp add: power_mult)

lemma from_to_le_bytes:
  fixes w :: "'a::len word"
  assumes "8 dvd LENGTH('a)"
  shows "from_le_bytes (to_le_bytes w) = w"
proof -
  have "(256::nat) ^ (LENGTH('a) div 8) = 2 ^ LENGTH('a)"
    using assms by (simp add: pow256)
  then have "unat w mod 256 ^ (LENGTH('a) div 8) = unat w"
    using unsigned_less [of w] by simp
  then show ?thesis
    by (simp add: from_le_bytes_def to_le_bytes_def nat_of_le_bytes_of_nat)
qed

lemma to_from_le_bytes:
  assumes "8 * length bs = LENGTH('a::len)"
  shows "to_le_bytes (from_le_bytes bs :: 'a word) = bs"
proof -
  have "nat_of_le_bytes bs < 2 ^ LENGTH('a)"
    using nat_of_le_bytes_less [of bs] assms by (simp add: pow256)
  then have "unat (word_of_nat (nat_of_le_bytes bs) :: 'a word) = nat_of_le_bytes bs"
    by (simp add: unat_of_nat)
  moreover have "LENGTH('a) div 8 = length bs"
    using assms by linarith
  ultimately show ?thesis
    by (simp add: from_le_bytes_def to_le_bytes_def le_bytes_of_nat_of_le)
qed

lemma from_to_le [simp]:
  "from_le_bytes (to_le_bytes (a :: u8)) = a"
  "from_le_bytes (to_le_bytes (b :: u16)) = b"
  "from_le_bytes (to_le_bytes (c :: u32)) = c"
  "from_le_bytes (to_le_bytes (d :: u64)) = d"
  "from_le_bytes (to_le_bytes (e :: u128)) = e"
  by (simp_all add: from_to_le_bytes)

lemma from_to_be [simp]:
  "from_be_bytes (to_be_bytes (b :: u16)) = b"
  "from_be_bytes (to_be_bytes (c :: u32)) = c"
  "from_be_bytes (to_be_bytes (d :: u64)) = d"
  by (simp_all add: from_be_bytes_def to_be_bytes_def)

lemma to_le_bytes_inject [simp]:
  "to_le_bytes (b :: u16) = to_le_bytes b' \<longleftrightarrow> b = b'"
  "to_le_bytes (c :: u32) = to_le_bytes c' \<longleftrightarrow> c = c'"
  "to_le_bytes (d :: u64) = to_le_bytes d' \<longleftrightarrow> d = d'"
  using from_to_le by metis+

section \<open>Slices, lists and words\<close>

text \<open>Rust's \<open>&data[a..b]\<close>.\<close>

definition slice :: "'a list \<Rightarrow> nat \<Rightarrow> nat \<Rightarrow> ('a list, 'e) result" where
  "slice xs a b = (if a \<le> b \<and> b \<le> length xs then Ok (take (b - a) (drop a xs)) else Panic)"

text \<open>Rust's checked \<open>usize\<close> subtraction: it panics where it would underflow.\<close>

definition usub :: "nat \<Rightarrow> nat \<Rightarrow> (nat, 'e) result" where
  "usub a b = (if b \<le> a then Ok (a - b) else Panic)"

lemma slice_append [simp]: "slice (xs @ ys @ zs) (length xs) (length xs + length ys) = Ok ys"
  by (simp add: slice_def)

text \<open>\<open>&data[pos..]\<close>.\<close>

definition slice_from :: "'a list \<Rightarrow> usize \<Rightarrow> ('a list, 'e) result" where
  "slice_from xs pos = slice xs pos (length xs)"

lemma slice_from_Ok: "pos \<le> length xs \<Longrightarrow> slice_from xs pos = Ok (drop pos xs)"
  by (simp add: slice_from_def slice_def)

text \<open>\<open>from_le_bytes(data[off..off + n].try_into().unwrap())\<close>.\<close>

definition le_at :: "usize \<Rightarrow> bytes \<Rightarrow> usize \<Rightarrow> ('a::len word, 'e) result" where
  "le_at n data off = result_bind (slice data off (off + n)) (\<lambda>bs. Ok (from_le_bytes bs))"

text \<open>\<open>msg[a..b].copy_from_slice(src)\<close>: panics unless the range exists and has the source's length.\<close>

definition copy_from_slice :: "bytes \<Rightarrow> usize \<Rightarrow> usize \<Rightarrow> bytes \<Rightarrow> (bytes, 'e) result" where
  "copy_from_slice msg a b src =
     (if a \<le> b \<and> b \<le> length msg \<and> length src = b - a then Ok (take a msg @ src @ drop b msg) else Panic)"

lemma slice_at: "length pre = a \<Longrightarrow> b = a + length mid \<Longrightarrow> slice (pre @ mid @ post) a b = Ok mid"
  by (simp add: slice_def)

lemma le_at_append [simp]:
  "length pre = off \<Longrightarrow> le_at 2 (pre @ to_le_bytes (w :: u16) @ post) off = Ok w"
  "length pre = off \<Longrightarrow> le_at 4 (pre @ to_le_bytes (x :: u32) @ post) off = Ok x"
  by (simp_all add: le_at_def slice_def)

lemma le_at_no_panic: "off + n \<le> length data \<Longrightarrow> le_at n data off \<noteq> Panic"
  by (simp add: le_at_def slice_def)

lemma le_at_cases: "off + n \<le> length data \<Longrightarrow> \<exists>w. le_at n data off = Ok w"
  by (simp add: le_at_def slice_def)

lemma unat_of_nat_small:
  "n < 2 ^ LENGTH('a) \<Longrightarrow> unat (word_of_nat n :: 'a::len word) = n"
  by (simp add: unat_of_nat)

lemma unat_of_nat_u8 [simp]: "n < 256 \<Longrightarrow> unat (word_of_nat n :: u8) = n"
  by (simp add: unat_of_nat)

lemma unat_of_nat_u16 [simp]: "n < 65536 \<Longrightarrow> unat (word_of_nat n :: u16) = n"
  by (simp add: unat_of_nat)

lemma unat_of_nat_u32 [simp]: "n < 4294967296 \<Longrightarrow> unat (word_of_nat n :: u32) = n"
  by (simp add: unat_of_nat)

lemma unat_of_nat_u64 [simp]: "n < 18446744073709551616 \<Longrightarrow> unat (word_of_nat n :: u64) = n"
  by (simp add: unat_of_nat)

lemma unat_u8_less: "unat (w :: u8) < 256"
  using unsigned_less [of w] by simp

lemma unat_u8_bound [simp]: "256 \<le> n \<Longrightarrow> unat (w :: u8) < n"
  using unat_u8_less [of w] by linarith

lemma unat_u16_less: "unat (w :: u16) < 65536"
  using unsigned_less [of w] by simp

lemma unat_u16_bound [simp]: "65536 \<le> n \<Longrightarrow> unat (w :: u16) < n"
  using unat_u16_less [of w] by linarith

lemma unat_u32_less: "unat (w :: u32) < 4294967296"
  using unsigned_less [of w] by simp

lemma unat_u32_bound [simp]: "4294967296 \<le> n \<Longrightarrow> unat (w :: u32) < n"
  using unat_u32_less [of w] by linarith

lemma unat_u64_less: "unat (w :: u64) < 18446744073709551616"
  using unsigned_less [of w] by simp

lemma unat_u64_bound [simp]: "18446744073709551616 \<le> n \<Longrightarrow> unat (w :: u64) < n"
  using unat_u64_less [of w] by linarith

end
