(* ===== verification/Smb_Types.thy ===== *)
theory Smb_Types
  imports Smb_Prelude
begin

text \<open>
  The protocol types of \<open>src/types/\<close> and the error type of \<open>src/error.rs\<close>: command codes,
  dialects, oplock levels, identifiers, bit-flag words, NTSTATUS codes with their severity
  and names, the crate's \<open>Error\<close> with its \<open>ErrorKind\<close> classification and its retry rule.

  Newtypes around an integer (\<open>SessionId\<close>, \<open>MessageId\<close>, \<open>TreeId\<close>, \<open>CreditCharge\<close>, the flag
  words, \<open>NtStatus\<close>) are that integer. A Rust \<open>char\<close> is its code point, a \<open>String\<close> the
  list of its code points. The message of an \<open>InvalidData\<close> error is kept as a constructor
  of \<open>invalid_data\<close>, one per format string of the sources, holding the values it prints.
\<close>

section \<open>Identifiers, command codes and dialects\<close>

type_synonym rchar = nat
type_synonym rstring = "rchar list"
type_synonym duration = nat
type_synonym session_id = u64
type_synonym message_id = u64
type_synonym tree_id = u32
type_synonym credit_charge = u16

definition UNSOLICITED :: message_id where
  "UNSOLICITED = 0xFFFFFFFFFFFFFFFF"

record file_id =
  persistent :: u64
  volatile :: u64

definition SENTINEL :: file_id where
  "SENTINEL = \<lparr>persistent = 0xFFFFFFFFFFFFFFFF, volatile = 0xFFFFFFFFFFFFFFFF\<rparr>"

datatype oplock_level = OplockNone | LevelII | Exclusive | Batch | Lease

fun oplock_level_code :: "oplock_level \<Rightarrow> u8" where
  "oplock_level_code OplockNone = 0x00"
| "oplock_level_code LevelII = 0x01"
| "oplock_level_code Exclusive = 0x08"
| "oplock_level_code Batch = 0x09"
| "oplock_level_code Lease = 0xFF"

datatype command =
    Negotiate | SessionSetup | Logoff | TreeConnect | TreeDisconnect | Create | Close | Flush
  | Read | Write | Lock | Ioctl | Cancel | Echo | QueryDirectory | ChangeNotify | QueryInfo
  | SetInfo | OplockBreak

fun command_code :: "command \<Rightarrow> u16" where
  "command_code Negotiate = 0x0000"
| "command_code SessionSetup = 0x0001"
| "command_code Logoff = 0x0002"
| "command_code TreeConnect = 0x0003"
| "command_code TreeDisconnect = 0x0004"
| "command_code Create = 0x0005"
| "command_code Close = 0x0006"
| "command_code Flush = 0x0007"
| "command_code Read = 0x0008"
| "command_code Write = 0x0009"
| "command_code Lock = 0x000A"
| "command_code Ioctl = 0x000B"
| "command_code Cancel = 0x000C"
| "command_code Echo = 0x000D"
| "command_code QueryDirectory = 0x000E"
| "command_code ChangeNotify = 0x000F"
| "command_code QueryInfo = 0x0010"
| "command_code SetInfo = 0x0011"
| "command_code OplockBreak = 0x0012"

text \<open>\<open>TryFromPrimitive\<close>: the inverse of the discriminants, over all variants.\<close>

definition all_commands :: "command list" where
  "all_commands =
     [Negotiate, SessionSetup, Logoff, TreeConnect, TreeDisconnect, Create, Close, Flush,
      Read, Write, Lock, Ioctl, Cancel, Echo, QueryDirectory, ChangeNotify, QueryInfo,
      SetInfo, OplockBreak]"

definition command_try_from :: "u16 \<Rightarrow> command option" where
  "command_try_from v = find (\<lambda>c. command_code c = v) all_commands"

datatype dialect = Smb2_0_2 | Smb2_1 | Smb3_0 | Smb3_0_2 | Smb3_1_1

fun dialect_code :: "dialect \<Rightarrow> u16" where
  "dialect_code Smb2_0_2 = 0x0202"
| "dialect_code Smb2_1 = 0x0210"
| "dialect_code Smb3_0 = 0x0300"
| "dialect_code Smb3_0_2 = 0x0302"
| "dialect_code Smb3_1_1 = 0x0311"

definition ALL_dialects :: "dialect list" where
  "ALL_dialects = [Smb2_0_2, Smb2_1, Smb3_0, Smb3_0_2, Smb3_1_1]"

definition dialect_try_from :: "u16 \<Rightarrow> dialect option" where
  "dialect_try_from v = find (\<lambda>d. dialect_code d = v) ALL_dialects"

text \<open>\<open>derive(PartialOrd, Ord)\<close>: dialects are ordered by their discriminants.\<close>

instantiation dialect :: linorder
begin

definition less_eq_dialect :: "dialect \<Rightarrow> dialect \<Rightarrow> bool" where
  "less_eq_dialect a b \<longleftrightarrow> dialect_code a \<le> dialect_code b"

definition less_dialect :: "dialect \<Rightarrow> dialect \<Rightarrow> bool" where
  "less_dialect a b \<longleftrightarrow> dialect_code a < dialect_code b"

instance
proof
  fix a b c :: dialect
  show "a < b \<longleftrightarrow> a \<le> b \<and> \<not> b \<le> a"
    by (auto simp: less_eq_dialect_def less_dialect_def)
  show "a \<le> a"
    by (simp add: less_eq_dialect_def)
  show "a \<le> b \<Longrightarrow> b \<le> c \<Longrightarrow> a \<le> c"
    by (simp add: less_eq_dialect_def)
  show "a \<le> b \<Longrightarrow> b \<le> a \<Longrightarrow> a = b"
    by (cases a; cases b) (simp_all add: less_eq_dialect_def)
  show "a \<le> b \<or> b \<le> a"
    by (auto simp: less_eq_dialect_def)
qed

end

section \<open>Bit flags\<close>

text \<open>The methods \<open>impl_flags!\<close> generates for every flag word.\<close>

definition flag_contains :: "'a::len word \<Rightarrow> 'a word \<Rightarrow> bool" where
  "flag_contains fl b \<longleftrightarrow> fl AND b = b"

definition flag_set :: "'a::len word \<Rightarrow> 'a word \<Rightarrow> 'a word" where
  "flag_set fl b = fl OR b"

definition flag_clear :: "'a::len word \<Rightarrow> 'a word \<Rightarrow> 'a word" where
  "flag_clear fl b = fl AND NOT b"

definition HF_SERVER_TO_REDIR :: u32 where "HF_SERVER_TO_REDIR = 0x00000001"
definition HF_ASYNC_COMMAND :: u32 where "HF_ASYNC_COMMAND = 0x00000002"
definition HF_RELATED_OPERATIONS :: u32 where "HF_RELATED_OPERATIONS = 0x00000004"
definition HF_SIGNED :: u32 where "HF_SIGNED = 0x00000008"
definition HF_PRIORITY_MASK :: u32 where "HF_PRIORITY_MASK = 0x00000070"
definition HF_DFS_OPERATIONS :: u32 where "HF_DFS_OPERATIONS = 0x10000000"
definition HF_REPLAY_OPERATION :: u32 where "HF_REPLAY_OPERATION = 0x20000000"
definition SM_SIGNING_ENABLED :: u16 where "SM_SIGNING_ENABLED = 0x0001"
definition SM_SIGNING_REQUIRED :: u16 where "SM_SIGNING_REQUIRED = 0x0002"
definition CAP_DFS :: u32 where "CAP_DFS = 0x00000001"
definition CAP_LEASING :: u32 where "CAP_LEASING = 0x00000002"
definition CAP_LARGE_MTU :: u32 where "CAP_LARGE_MTU = 0x00000004"
definition CAP_MULTI_CHANNEL :: u32 where "CAP_MULTI_CHANNEL = 0x00000008"
definition CAP_PERSISTENT_HANDLES :: u32 where "CAP_PERSISTENT_HANDLES = 0x00000010"
definition CAP_DIRECTORY_LEASING :: u32 where "CAP_DIRECTORY_LEASING = 0x00000020"
definition CAP_ENCRYPTION :: u32 where "CAP_ENCRYPTION = 0x00000040"
definition SHF_DFS :: u32 where "SHF_DFS = 0x00000001"
definition SHF_DFS_ROOT :: u32 where "SHF_DFS_ROOT = 0x00000002"
definition SHF_MANUAL_CACHING :: u32 where "SHF_MANUAL_CACHING = 0x00000000"
definition SHF_AUTO_CACHING :: u32 where "SHF_AUTO_CACHING = 0x00000010"
definition SHF_VDO_CACHING :: u32 where "SHF_VDO_CACHING = 0x00000020"
definition SHF_NO_CACHING :: u32 where "SHF_NO_CACHING = 0x00000030"
definition SHF_RESTRICT_EXCLUSIVE_OPENS :: u32 where "SHF_RESTRICT_EXCLUSIVE_OPENS = 0x00000100"
definition SHF_FORCE_SHARED_DELETE :: u32 where "SHF_FORCE_SHARED_DELETE = 0x00000200"
definition SHF_ALLOW_NAMESPACE_CACHING :: u32 where "SHF_ALLOW_NAMESPACE_CACHING = 0x00000400"
definition SHF_ACCESS_BASED_DIRECTORY_ENUM :: u32 where "SHF_ACCESS_BASED_DIRECTORY_ENUM = 0x00000800"
definition SHF_FORCE_LEVELII_OPLOCK :: u32 where "SHF_FORCE_LEVELII_OPLOCK = 0x00001000"
definition SHF_ENABLE_HASH_V1 :: u32 where "SHF_ENABLE_HASH_V1 = 0x00002000"
definition SHF_ENABLE_HASH_V2 :: u32 where "SHF_ENABLE_HASH_V2 = 0x00004000"
definition SHF_ENCRYPT_DATA :: u32 where "SHF_ENCRYPT_DATA = 0x00008000"
definition SHF_IDENTITY_REMOTING :: u32 where "SHF_IDENTITY_REMOTING = 0x00040000"
definition SHF_COMPRESS_DATA :: u32 where "SHF_COMPRESS_DATA = 0x00100000"
definition SHF_ISOLATED_TRANSPORT :: u32 where "SHF_ISOLATED_TRANSPORT = 0x00200000"
definition SHC_DFS :: u32 where "SHC_DFS = 0x00000008"
definition SHC_CONTINUOUS_AVAILABILITY :: u32 where "SHC_CONTINUOUS_AVAILABILITY = 0x00000010"
definition SHC_SCALEOUT :: u32 where "SHC_SCALEOUT = 0x00000020"
definition SHC_CLUSTER :: u32 where "SHC_CLUSTER = 0x00000040"
definition SHC_ASYMMETRIC :: u32 where "SHC_ASYMMETRIC = 0x00000080"
definition SHC_REDIRECT_TO_OWNER :: u32 where "SHC_REDIRECT_TO_OWNER = 0x00000100"
definition FAM_FILE_READ_DATA :: u32 where "FAM_FILE_READ_DATA = 0x00000001"
definition FAM_FILE_WRITE_DATA :: u32 where "FAM_FILE_WRITE_DATA = 0x00000002"
definition FAM_FILE_APPEND_DATA :: u32 where "FAM_FILE_APPEND_DATA = 0x00000004"
definition FAM_FILE_READ_EA :: u32 where "FAM_FILE_READ_EA = 0x00000008"
definition FAM_FILE_WRITE_EA :: u32 where "FAM_FILE_WRITE_EA = 0x00000010"
definition FAM_FILE_EXECUTE :: u32 where "FAM_FILE_EXECUTE = 0x00000020"
definition FAM_FILE_READ_ATTRIBUTES :: u32 where "FAM_FILE_READ_ATTRIBUTES = 0x00000080"
definition FAM_FILE_WRITE_ATTRIBUTES :: u32 where "FAM_FILE_WRITE_ATTRIBUTES = 0x00000100"
definition FAM_DELETE :: u32 where "FAM_DELETE = 0x00010000"
definition FAM_READ_CONTROL :: u32 where "FAM_READ_CONTROL = 0x00020000"
definition FAM_WRITE_DAC :: u32 where "FAM_WRITE_DAC = 0x00040000"
definition FAM_WRITE_OWNER :: u32 where "FAM_WRITE_OWNER = 0x00080000"
definition FAM_SYNCHRONIZE :: u32 where "FAM_SYNCHRONIZE = 0x00100000"
definition FAM_MAXIMUM_ALLOWED :: u32 where "FAM_MAXIMUM_ALLOWED = 0x02000000"
definition FAM_GENERIC_ALL :: u32 where "FAM_GENERIC_ALL = 0x10000000"
definition FAM_GENERIC_EXECUTE :: u32 where "FAM_GENERIC_EXECUTE = 0x20000000"
definition FAM_GENERIC_WRITE :: u32 where "FAM_GENERIC_WRITE = 0x40000000"
definition FAM_GENERIC_READ :: u32 where "FAM_GENERIC_READ = 0x80000000"

definition hf_is_response :: "u32 \<Rightarrow> bool" where
  "hf_is_response fl = flag_contains fl HF_SERVER_TO_REDIR"

definition hf_is_async :: "u32 \<Rightarrow> bool" where
  "hf_is_async fl = flag_contains fl HF_ASYNC_COMMAND"

definition hf_is_related :: "u32 \<Rightarrow> bool" where
  "hf_is_related fl = flag_contains fl HF_RELATED_OPERATIONS"

definition hf_is_signed :: "u32 \<Rightarrow> bool" where
  "hf_is_signed fl = flag_contains fl HF_SIGNED"

definition hf_set_response :: "u32 \<Rightarrow> u32" where
  "hf_set_response fl = flag_set fl HF_SERVER_TO_REDIR"

definition hf_set_async :: "u32 \<Rightarrow> u32" where
  "hf_set_async fl = flag_set fl HF_ASYNC_COMMAND"

definition hf_set_related :: "u32 \<Rightarrow> u32" where
  "hf_set_related fl = flag_set fl HF_RELATED_OPERATIONS"

definition hf_set_signed :: "u32 \<Rightarrow> u32" where
  "hf_set_signed fl = flag_set fl HF_SIGNED"

definition signing_enabled :: "u16 \<Rightarrow> bool" where
  "signing_enabled m = flag_contains m SM_SIGNING_ENABLED"

definition signing_required :: "u16 \<Rightarrow> bool" where
  "signing_required m = flag_contains m SM_SIGNING_REQUIRED"

section \<open>NTSTATUS\<close>

type_synonym nt_status = u32

definition STATUS_SUCCESS :: nt_status where "STATUS_SUCCESS = 0x00000000"
definition STATUS_PENDING :: nt_status where "STATUS_PENDING = 0x00000103"
definition STATUS_NOTIFY_ENUM_DIR :: nt_status where "STATUS_NOTIFY_ENUM_DIR = 0x0000010C"
definition STATUS_MORE_PROCESSING_REQUIRED :: nt_status where "STATUS_MORE_PROCESSING_REQUIRED = 0xC0000016"
definition STATUS_BUFFER_OVERFLOW :: nt_status where "STATUS_BUFFER_OVERFLOW = 0x80000005"
definition STATUS_NO_MORE_FILES :: nt_status where "STATUS_NO_MORE_FILES = 0x80000006"
definition STATUS_UNSUCCESSFUL :: nt_status where "STATUS_UNSUCCESSFUL = 0xC0000001"
definition STATUS_NOT_IMPLEMENTED :: nt_status where "STATUS_NOT_IMPLEMENTED = 0xC0000002"
definition STATUS_INVALID_PARAMETER :: nt_status where "STATUS_INVALID_PARAMETER = 0xC000000D"
definition STATUS_NO_SUCH_DEVICE :: nt_status where "STATUS_NO_SUCH_DEVICE = 0xC000000E"
definition STATUS_NO_SUCH_FILE :: nt_status where "STATUS_NO_SUCH_FILE = 0xC000000F"
definition STATUS_INVALID_DEVICE_REQUEST :: nt_status where "STATUS_INVALID_DEVICE_REQUEST = 0xC0000010"
definition STATUS_END_OF_FILE :: nt_status where "STATUS_END_OF_FILE = 0xC0000011"
definition STATUS_ACCESS_DENIED :: nt_status where "STATUS_ACCESS_DENIED = 0xC0000022"
definition STATUS_BUFFER_TOO_SMALL :: nt_status where "STATUS_BUFFER_TOO_SMALL = 0xC0000023"
definition STATUS_OBJECT_NAME_INVALID :: nt_status where "STATUS_OBJECT_NAME_INVALID = 0xC0000033"
definition STATUS_OBJECT_NAME_NOT_FOUND :: nt_status where "STATUS_OBJECT_NAME_NOT_FOUND = 0xC0000034"
definition STATUS_OBJECT_NAME_COLLISION :: nt_status where "STATUS_OBJECT_NAME_COLLISION = 0xC0000035"
definition STATUS_OBJECT_PATH_NOT_FOUND :: nt_status where "STATUS_OBJECT_PATH_NOT_FOUND = 0xC000003A"
definition STATUS_SHARING_VIOLATION :: nt_status where "STATUS_SHARING_VIOLATION = 0xC0000043"
definition STATUS_FILE_LOCK_CONFLICT :: nt_status where "STATUS_FILE_LOCK_CONFLICT = 0xC0000054"
definition STATUS_DELETE_PENDING :: nt_status where "STATUS_DELETE_PENDING = 0xC0000056"
definition STATUS_DISK_FULL :: nt_status where "STATUS_DISK_FULL = 0xC000007F"
definition STATUS_LOGON_FAILURE :: nt_status where "STATUS_LOGON_FAILURE = 0xC000006D"
definition STATUS_ACCOUNT_RESTRICTION :: nt_status where "STATUS_ACCOUNT_RESTRICTION = 0xC000006E"
definition STATUS_INVALID_LOGON_HOURS :: nt_status where "STATUS_INVALID_LOGON_HOURS = 0xC000006F"
definition STATUS_INVALID_WORKSTATION :: nt_status where "STATUS_INVALID_WORKSTATION = 0xC0000070"
definition STATUS_PASSWORD_EXPIRED :: nt_status where "STATUS_PASSWORD_EXPIRED = 0xC0000071"
definition STATUS_ACCOUNT_DISABLED :: nt_status where "STATUS_ACCOUNT_DISABLED = 0xC0000072"
definition STATUS_ACCOUNT_EXPIRED :: nt_status where "STATUS_ACCOUNT_EXPIRED = 0xC0000193"
definition STATUS_PASSWORD_MUST_CHANGE :: nt_status where "STATUS_PASSWORD_MUST_CHANGE = 0xC0000224"
definition STATUS_ACCOUNT_LOCKED_OUT :: nt_status where "STATUS_ACCOUNT_LOCKED_OUT = 0xC0000234"
definition STATUS_INSUFFICIENT_RESOURCES :: nt_status where "STATUS_INSUFFICIENT_RESOURCES = 0xC000009A"
definition STATUS_FILE_IS_A_DIRECTORY :: nt_status where "STATUS_FILE_IS_A_DIRECTORY = 0xC00000BA"
definition STATUS_NOT_SUPPORTED :: nt_status where "STATUS_NOT_SUPPORTED = 0xC00000BB"
definition STATUS_BAD_NETWORK_PATH :: nt_status where "STATUS_BAD_NETWORK_PATH = 0xC00000BE"
definition STATUS_NETWORK_NAME_DELETED :: nt_status where "STATUS_NETWORK_NAME_DELETED = 0xC00000C9"
definition STATUS_BAD_NETWORK_NAME :: nt_status where "STATUS_BAD_NETWORK_NAME = 0xC00000CC"
definition STATUS_REQUEST_NOT_ACCEPTED :: nt_status where "STATUS_REQUEST_NOT_ACCEPTED = 0xC00000D0"
definition STATUS_DIRECTORY_NOT_EMPTY :: nt_status where "STATUS_DIRECTORY_NOT_EMPTY = 0xC0000101"
definition STATUS_NOT_A_DIRECTORY :: nt_status where "STATUS_NOT_A_DIRECTORY = 0xC0000103"
definition STATUS_CANCELLED :: nt_status where "STATUS_CANCELLED = 0xC0000120"
definition STATUS_FILE_CLOSED :: nt_status where "STATUS_FILE_CLOSED = 0xC0000128"
definition STATUS_USER_SESSION_DELETED :: nt_status where "STATUS_USER_SESSION_DELETED = 0xC0000203"
definition STATUS_INSUFF_SERVER_RESOURCES :: nt_status where "STATUS_INSUFF_SERVER_RESOURCES = 0xC0000205"
definition STATUS_NOT_FOUND :: nt_status where "STATUS_NOT_FOUND = 0xC0000225"
definition STATUS_PATH_NOT_COVERED :: nt_status where "STATUS_PATH_NOT_COVERED = 0xC0000257"
definition STATUS_NETWORK_SESSION_EXPIRED :: nt_status where "STATUS_NETWORK_SESSION_EXPIRED = 0xC000035C"

lemmas status_defs =
  STATUS_SUCCESS_def STATUS_PENDING_def STATUS_NOTIFY_ENUM_DIR_def 
  STATUS_MORE_PROCESSING_REQUIRED_def STATUS_BUFFER_OVERFLOW_def STATUS_NO_MORE_FILES_def 
  STATUS_UNSUCCESSFUL_def STATUS_NOT_IMPLEMENTED_def STATUS_INVALID_PARAMETER_def 
  STATUS_NO_SUCH_DEVICE_def STATUS_NO_SUCH_FILE_def STATUS_INVALID_DEVICE_REQUEST_def 
  STATUS_END_OF_FILE_def STATUS_ACCESS_DENIED_def STATUS_BUFFER_TOO_SMALL_def 
  STATUS_OBJECT_NAME_INVALID_def STATUS_OBJECT_NAME_NOT_FOUND_def 
  STATUS_OBJECT_NAME_COLLISION_def STATUS_OBJECT_PATH_NOT_FOUND_def 
  STATUS_SHARING_VIOLATION_def STATUS_FILE_LOCK_CONFLICT_def STATUS_DELETE_PENDING_def 
  STATUS_DISK_FULL_def STATUS_LOGON_FAILURE_def STATUS_ACCOUNT_RESTRICTION_def 
  STATUS_INVALID_LOGON_HOURS_def STATUS_INVALID_WORKSTATION_def STATUS_PASSWORD_EXPIRED_def 
  STATUS_ACCOUNT_DISABLED_def STATUS_ACCOUNT_EXPIRED_def STATUS_PASSWORD_MUST_CHANGE_def 
  STATUS_ACCOUNT_LOCKED_OUT_def STATUS_INSUFFICIENT_RESOURCES_def 
  STATUS_FILE_IS_A_DIRECTORY_def STATUS_NOT_SUPPORTED_def STATUS_BAD_NETWORK_PATH_def 
  STATUS_NETWORK_NAME_DELETED_def STATUS_BAD_NETWORK_NAME_def 
  STATUS_REQUEST_NOT_ACCEPTED_def STATUS_DIRECTORY_NOT_EMPTY_def STATUS_NOT_A_DIRECTORY_def 
  STATUS_CANCELLED_def STATUS_FILE_CLOSED_def STATUS_USER_SESSION_DELETED_def 
  STATUS_INSUFF_SERVER_RESOURCES_def STATUS_NOT_FOUND_def STATUS_PATH_NOT_COVERED_def 
  STATUS_NETWORK_SESSION_EXPIRED_def

text \<open>The table behind the constants and the \<open>name\<close> match arms.\<close>

definition nt_status_codes :: "(nt_status \<times> string) list" where
  "nt_status_codes =
     [(0x00000000, ''STATUS_SUCCESS''),
      (0x00000103, ''STATUS_PENDING''),
      (0x0000010C, ''STATUS_NOTIFY_ENUM_DIR''),
      (0xC0000016, ''STATUS_MORE_PROCESSING_REQUIRED''),
      (0x80000005, ''STATUS_BUFFER_OVERFLOW''),
      (0x80000006, ''STATUS_NO_MORE_FILES''),
      (0xC0000001, ''STATUS_UNSUCCESSFUL''),
      (0xC0000002, ''STATUS_NOT_IMPLEMENTED''),
      (0xC000000D, ''STATUS_INVALID_PARAMETER''),
      (0xC000000E, ''STATUS_NO_SUCH_DEVICE''),
      (0xC000000F, ''STATUS_NO_SUCH_FILE''),
      (0xC0000010, ''STATUS_INVALID_DEVICE_REQUEST''),
      (0xC0000011, ''STATUS_END_OF_FILE''),
      (0xC0000022, ''STATUS_ACCESS_DENIED''),
      (0xC0000023, ''STATUS_BUFFER_TOO_SMALL''),
      (0xC0000033, ''STATUS_OBJECT_NAME_INVALID''),
      (0xC0000034, ''STATUS_OBJECT_NAME_NOT_FOUND''),
      (0xC0000035, ''STATUS_OBJECT_NAME_COLLISION''),
      (0xC000003A, ''STATUS_OBJECT_PATH_NOT_FOUND''),
      (0xC0000043, ''STATUS_SHARING_VIOLATION''),
      (0xC0000054, ''STATUS_FILE_LOCK_CONFLICT''),
      (0xC0000056, ''STATUS_DELETE_PENDING''),
      (0xC000007F, ''STATUS_DISK_FULL''),
      (0xC000006D, ''STATUS_LOGON_FAILURE''),
      (0xC000006E, ''STATUS_ACCOUNT_RESTRICTION''),
      (0xC000006F, ''STATUS_INVALID_LOGON_HOURS''),
      (0xC0000070, ''STATUS_INVALID_WORKSTATION''),
      (0xC0000071, ''STATUS_PASSWORD_EXPIRED''),
      (0xC0000072, ''STATUS_ACCOUNT_DISABLED''),
      (0xC0000193, ''STATUS_ACCOUNT_EXPIRED''),
      (0xC0000224, ''STATUS_PASSWORD_MUST_CHANGE''),
      (0xC0000234, ''STATUS_ACCOUNT_LOCKED_OUT''),
      (0xC000009A, ''STATUS_INSUFFICIENT_RESOURCES''),
      (0xC00000BA, ''STATUS_FILE_IS_A_DIRECTORY''),
      (0xC00000BB, ''STATUS_NOT_SUPPORTED''),
      (0xC00000BE, ''STATUS_BAD_NETWORK_PATH''),
      (0xC00000C9, ''STATUS_NETWORK_NAME_DELETED''),
      (0xC00000CC, ''STATUS_BAD_NETWORK_NAME''),
      (0xC00000D0, ''STATUS_REQUEST_NOT_ACCEPTED''),
      (0xC0000101, ''STATUS_DIRECTORY_NOT_EMPTY''),
      (0xC0000103, ''STATUS_NOT_A_DIRECTORY''),
      (0xC0000120, ''STATUS_CANCELLED''),
      (0xC0000128, ''STATUS_FILE_CLOSED''),
      (0xC0000203, ''STATUS_USER_SESSION_DELETED''),
      (0xC0000205, ''STATUS_INSUFF_SERVER_RESOURCES''),
      (0xC0000225, ''STATUS_NOT_FOUND''),
      (0xC0000257, ''STATUS_PATH_NOT_COVERED''),
      (0xC000035C, ''STATUS_NETWORK_SESSION_EXPIRED'')]"

definition nt_status_name :: "nt_status \<Rightarrow> string option" where
  "nt_status_name s = map_of nt_status_codes s"

definition severity :: "nt_status \<Rightarrow> u8" where
  "severity s = ucast (drop_bit 30 s)"

definition is_success :: "nt_status \<Rightarrow> bool" where
  "is_success s \<longleftrightarrow> severity s = 0"

definition is_warning :: "nt_status \<Rightarrow> bool" where
  "is_warning s \<longleftrightarrow> severity s = 2"

definition is_error :: "nt_status \<Rightarrow> bool" where
  "is_error s \<longleftrightarrow> severity s = 3"

definition is_pending :: "nt_status \<Rightarrow> bool" where
  "is_pending s \<longleftrightarrow> s = STATUS_PENDING"

definition is_success_or_partial :: "nt_status \<Rightarrow> bool" where
  "is_success_or_partial s \<longleftrightarrow> is_success s \<or> s = STATUS_BUFFER_OVERFLOW"

definition is_more_processing_required :: "nt_status \<Rightarrow> bool" where
  "is_more_processing_required s \<longleftrightarrow> s = STATUS_MORE_PROCESSING_REQUIRED"

end
