(* ===== verification/Smb_Error.thy ===== *)
theory Smb_Error
  imports Smb_Types
begin

text \<open>
  \<open>src/error.rs\<close>: the crate's error type, the classification of an error into an
  \<open>ErrorKind\<close>, the retry rule, and the conversions from raw integers that fail with an
  \<open>InvalidData\<close> error.
\<close>

section \<open>The error type\<close>

datatype durable_loss = Expired | IdentityUnavailable | IdentityMismatch | NotDurable

datatype io_error_kind =
    UnexpectedEof | ConnectionReset | ConnectionRefused | BrokenPipe | Interrupted | OtherIo

datatype error_kind =
    AuthRequiredK | SigningRequiredK | AccessDeniedK | NotFoundK | AlreadyExistsK
  | SharingViolationK | IsADirectoryK | NotADirectoryK | DiskFullK | ConnectionLostK | TimedOutK
  | CancelledK | SessionExpiredK | DfsReferralK | InvalidDataK | TooLargeK | IoK | InvalidNameK
  | UnsupportedK | OtherK

text \<open>One constructor per format string passed to \<open>Error::invalid_data\<close>.\<close>

datatype invalid_data =
    NeedBytes usize usize usize
      \<comment> \<open>need \<open>n\<close> bytes but only \<open>r\<close> remain at offset \<open>p\<close>\<close>
  | OddUtf16Length usize
  | BadUtf16
  | BufferTooLarge usize
  | BadProtocolId bytes
  | BadStructureSize u16 u16
      \<comment> \<open>invalid structure size: expected, got\<close>
  | BadCommandCode u16
  | BadOplockLevel u8
  | BadEnumValue u32
      \<comment> \<open>an integer outside the variants of a protocol enum\<close>
  | BadDialect u16
  | MessageTooLarge usize
  | BadFrameStart u8
  | FrameTooLong usize
  | Malformed string "nat list"
      \<comment> \<open>the other messages: the text and the numbers it prints\<close>

datatype error =
    InvalidData invalid_data
  | Protocol nt_status command
  | Auth rstring
  | Io io_error_kind
  | Timeout
  | Disconnected
  | ReconnectFailed u32 duration error_kind rstring
  | DurableHandleLost rstring durable_loss
  | DfsReferralRequired rstring
  | Cancelled
  | SessionExpired
  | FileTooLargeForSingleRead u64 u32
  | CreditStarvation u16 u16 duration
  | SendTimeout command usize duration
  | ServerUnresponsive duration

type_synonym 'a res = "('a, error) result"

section \<open>Classification\<close>

definition is_retryable :: "error \<Rightarrow> bool" where
  "is_retryable e =
     (case e of
        Timeout \<Rightarrow> True
      | Disconnected \<Rightarrow> True
      | CreditStarvation _ _ _ \<Rightarrow> True
      | SendTimeout _ _ _ \<Rightarrow> True
      | ServerUnresponsive _ \<Rightarrow> True
      | ReconnectFailed _ _ _ _ \<Rightarrow> True
      | DurableHandleLost _ _ \<Rightarrow> True
      | Protocol s _ \<Rightarrow> s = STATUS_INSUFFICIENT_RESOURCES \<or> s = STATUS_INSUFF_SERVER_RESOURCES
      | _ \<Rightarrow> False)"

definition error_status :: "error \<Rightarrow> nt_status option" where
  "error_status e = (case e of Protocol s _ \<Rightarrow> Some s | _ \<Rightarrow> None)"

definition classify_status :: "nt_status \<Rightarrow> error_kind" where
  "classify_status s =
     (if s \<in> set [STATUS_LOGON_FAILURE, STATUS_ACCOUNT_RESTRICTION, STATUS_INVALID_LOGON_HOURS,
                  STATUS_INVALID_WORKSTATION, STATUS_PASSWORD_EXPIRED, STATUS_ACCOUNT_DISABLED,
                  STATUS_ACCOUNT_EXPIRED, STATUS_PASSWORD_MUST_CHANGE, STATUS_ACCOUNT_LOCKED_OUT]
      then AuthRequiredK
      else if s = STATUS_ACCESS_DENIED then AccessDeniedK
      else if s = STATUS_OBJECT_NAME_INVALID then InvalidNameK
      else if s \<in> set [STATUS_NO_SUCH_FILE, STATUS_OBJECT_NAME_NOT_FOUND,
                       STATUS_OBJECT_PATH_NOT_FOUND, STATUS_BAD_NETWORK_NAME]
      then NotFoundK
      else if s = STATUS_OBJECT_NAME_COLLISION then AlreadyExistsK
      else if s = STATUS_FILE_IS_A_DIRECTORY then IsADirectoryK
      else if s = STATUS_NOT_A_DIRECTORY then NotADirectoryK
      else if s \<in> set [STATUS_SHARING_VIOLATION, STATUS_FILE_LOCK_CONFLICT] then SharingViolationK
      else if s = STATUS_DISK_FULL then DiskFullK
      else if s = STATUS_NETWORK_SESSION_EXPIRED then SessionExpiredK
      else if s \<in> set [STATUS_NETWORK_NAME_DELETED, STATUS_USER_SESSION_DELETED]
      then ConnectionLostK
      else if s = STATUS_PATH_NOT_COVERED then DfsReferralK
      else if s \<in> set [STATUS_NOT_SUPPORTED, STATUS_INVALID_DEVICE_REQUEST, STATUS_NOT_IMPLEMENTED]
      then UnsupportedK
      else OtherK)"

fun error_kind_of :: "error \<Rightarrow> error_kind" where
  "error_kind_of (InvalidData _) = InvalidDataK"
| "error_kind_of (Auth _) = AuthRequiredK"
| "error_kind_of (Io _) = IoK"
| "error_kind_of Disconnected = ConnectionLostK"
| "error_kind_of Timeout = TimedOutK"
| "error_kind_of Cancelled = CancelledK"
| "error_kind_of SessionExpired = SessionExpiredK"
| "error_kind_of (DfsReferralRequired _) = DfsReferralK"
| "error_kind_of (FileTooLargeForSingleRead _ _) = TooLargeK"
| "error_kind_of (CreditStarvation _ _ _) = TimedOutK"
| "error_kind_of (SendTimeout _ _ _) = TimedOutK"
| "error_kind_of (ServerUnresponsive _) = ConnectionLostK"
| "error_kind_of (ReconnectFailed _ _ _ _) = ConnectionLostK"
| "error_kind_of (DurableHandleLost _ _) = ConnectionLostK"
| "error_kind_of (Protocol s _) = classify_status s"

section \<open>Fallible conversions\<close>

definition oplock_level_try_from :: "u8 \<Rightarrow> oplock_level res" where
  "oplock_level_try_from v =
     (if v = 0x00 then Ok OplockNone
      else if v = 0x01 then Ok LevelII
      else if v = 0x08 then Ok Exclusive
      else if v = 0x09 then Ok Batch
      else if v = 0xFF then Ok Lease
      else Err (InvalidData (BadOplockLevel v)))"

section \<open>Lemmas\<close>

text \<open>Raw codes and their variants are in one-to-one correspondence.\<close>

lemma command_try_from_code [simp]: "command_try_from (command_code c) = Some c"
  by (cases c) (simp_all add: command_try_from_def all_commands_def)

lemma command_try_from_SomeD: "command_try_from v = Some c \<Longrightarrow> command_code c = v"
  by (auto simp: command_try_from_def find_Some_iff)

lemma command_code_inject [simp]: "command_code a = command_code b \<longleftrightarrow> a = b"
  by (metis command_try_from_code option.inject)

lemma dialect_try_from_code [simp]: "dialect_try_from (dialect_code d) = Some d"
  by (cases d) (simp_all add: dialect_try_from_def ALL_dialects_def)

lemma dialect_try_from_SomeD: "dialect_try_from v = Some d \<Longrightarrow> dialect_code d = v"
  by (auto simp: dialect_try_from_def find_Some_iff)

lemma dialect_code_inject [simp]: "dialect_code a = dialect_code b \<longleftrightarrow> a = b"
  by (metis dialect_try_from_code option.inject)

lemma oplock_level_try_from_code [simp]: "oplock_level_try_from (oplock_level_code l) = Ok l"
  by (cases l) (simp_all add: oplock_level_try_from_def)

lemma oplock_level_try_from_OkD:
  "oplock_level_try_from v = Ok l \<Longrightarrow> oplock_level_code l = v"
  by (auto simp: oplock_level_try_from_def split: if_splits)

lemma oplock_level_try_from_no_panic [simp]: "oplock_level_try_from v \<noteq> Panic"
  by (simp add: oplock_level_try_from_def)

text \<open>Flag words.\<close>

lemma flag_contains_set [simp]: "flag_contains (flag_set fl b) b"
  by (auto simp: flag_contains_def flag_set_def bit_eq_iff bit_simps)

lemma flag_contains_set_other:
  "b AND c = 0 \<Longrightarrow> flag_contains (flag_set fl c) b = flag_contains fl b"
  by (simp add: flag_contains_def flag_set_def bit_eq_iff bit_simps) blast

lemma flag_contains_clear: "b \<noteq> 0 \<Longrightarrow> \<not> flag_contains (flag_clear fl b) b"
  by (auto simp: flag_contains_def flag_clear_def bit_eq_iff bit_simps)

text \<open>Severity: the two top bits, so exactly four values.\<close>

lemma drop_bit_30_less: "drop_bit 30 (s :: u32) < 4"
proof -
  have "unat (drop_bit 30 s) = unat s div 2 ^ 30"
    by (simp add: drop_bit_eq_div unat_div)
  also have "\<dots> < 4"
    by (rule less_mult_imp_div_less) (use unat_u32_less [of s] in simp)
  finally show ?thesis by (simp add: word_less_nat_alt)
qed

lemma severity_range: "severity s \<in> {0, 1, 2, 3}"
proof -
  have "unat (severity s) = unat (drop_bit 30 s)"
    using drop_bit_30_less [of s] by (simp add: severity_def unsigned_ucast_eq word_less_nat_alt take_bit_nat_eq_self)
  then have "unat (severity s) < 4"
    using drop_bit_30_less [of s] by (simp add: word_less_nat_alt)
  then have "unat (severity s) \<in> {0, 1, 2, 3}"
    by auto
  then show ?thesis
    by (auto simp: word_unat_eq_iff)
qed


end
