(* ===== verification/Smb_Pack.thy ===== *)
theory Smb_Pack
  imports Smb_Error
begin

text \<open>
  \<open>src/pack/\<close>: the read cursor over a byte slice, the growing write cursor, UTF-16LE
  strings, and the two primitive structured types, \<open>Guid\<close> and \<open>FileTime\<close>.

  A reader is a computation over \<open>read_cursor\<close>, a writer a computation over the written
  bytes. The locale \<open>codec\<close> is the contract of a type that implements both \<open>Pack\<close> and
  \<open>Unpack\<close>; every message of the protocol interprets it.
\<close>

section \<open>ReadCursor\<close>

record read_cursor =
  rc_data :: bytes
  rc_pos :: usize

type_synonym 'a reader = "(read_cursor, 'a, error) comp"
type_synonym write_cursor = bytes
type_synonym 'a writer = "(write_cursor, 'a, error) comp"

definition read_cursor_new :: "bytes \<Rightarrow> read_cursor" where
  "read_cursor_new d = \<lparr>rc_data = d, rc_pos = 0\<rparr>"

text \<open>\<open>self.data.len() - self.pos\<close>: panics if the position is past the end.\<close>

definition remaining :: "usize reader" where
  "remaining c = result_bind (usub (length (rc_data c)) (rc_pos c)) (\<lambda>n. Ok (n, c))"

definition position :: "usize reader" where
  "position c = Ok (rc_pos c, c)"

definition rc_is_empty :: "bool reader" where
  "rc_is_empty = bnd remaining (\<lambda>n. ret (n = 0))"

definition ensure :: "usize \<Rightarrow> unit reader" where
  "ensure n =
     bnd remaining (\<lambda>r.
     bnd position (\<lambda>p.
     guard (\<not> r < n) (InvalidData (NeedBytes n r p))))"

text \<open>\<open>&self.data[self.pos..self.pos + n]\<close> followed by \<open>self.pos += n\<close>.\<close>

definition take_slice :: "usize \<Rightarrow> bytes reader" where
  "take_slice n c =
     result_bind (slice (rc_data c) (rc_pos c) (rc_pos c + n)) (\<lambda>bs.
       Ok (bs, c\<lparr>rc_pos := rc_pos c + n\<rparr>))"

definition read_array :: "usize \<Rightarrow> bytes reader" where
  "read_array n = bnd (ensure n) (\<lambda>_. take_slice n)"

definition read_u8 :: "u8 reader" where
  "read_u8 = bnd (ensure 1) (\<lambda>_. bnd (take_slice 1) (\<lambda>bs. ret (hd bs)))"

definition read_u16_le :: "u16 reader" where
  "read_u16_le = bnd (read_array 2) (\<lambda>bs. ret (from_le_bytes bs))"

definition read_u32_le :: "u32 reader" where
  "read_u32_le = bnd (read_array 4) (\<lambda>bs. ret (from_le_bytes bs))"

definition read_u64_le :: "u64 reader" where
  "read_u64_le = bnd (read_array 8) (\<lambda>bs. ret (from_le_bytes bs))"

definition read_u128_le :: "u128 reader" where
  "read_u128_le = bnd (read_array 16) (\<lambda>bs. ret (from_le_bytes bs))"

definition read_bytes :: "usize \<Rightarrow> bytes reader" where
  "read_bytes n = bnd (ensure n) (\<lambda>_. take_slice n)"

definition MAX_UNPACK_BUFFER :: usize where
  "MAX_UNPACK_BUFFER = 16 * 1024 * 1024"

definition read_bytes_bounded :: "usize \<Rightarrow> bytes reader" where
  "read_bytes_bounded n =
     (if n > MAX_UNPACK_BUFFER then fail (InvalidData (BufferTooLarge n)) else read_bytes n)"

definition skip :: "usize \<Rightarrow> unit reader" where
  "skip n = bnd (ensure n) (\<lambda>_. \<lambda>c. Ok ((), c\<lparr>rc_pos := rc_pos c + n\<rparr>))"

section \<open>UTF-16\<close>

text \<open>A Rust \<open>char\<close> is a Unicode scalar value: a code point that is not a surrogate.\<close>

definition is_char :: "rchar \<Rightarrow> bool" where
  "is_char c \<longleftrightarrow> c < 0xD800 \<or> 0xE000 \<le> c \<and> c < 0x110000"

definition valid_str :: "rstring \<Rightarrow> bool" where
  "valid_str s = list_all is_char s"

text \<open>\<open>str::encode_utf16\<close> and \<open>String::from_utf16\<close> of the standard library.\<close>

definition encode_utf16_char :: "rchar \<Rightarrow> u16 list" where
  "encode_utf16_char c =
     (if c < 0x10000 then [word_of_nat c]
      else [word_of_nat (0xD800 + (c - 0x10000) div 0x400), word_of_nat (0xDC00 + (c - 0x10000) mod 0x400)])"

definition encode_utf16 :: "rstring \<Rightarrow> u16 list" where
  "encode_utf16 s = concat (map encode_utf16_char s)"

fun decode_utf16 :: "u16 list \<Rightarrow> rstring option" where
  "decode_utf16 [] = Some []"
| "decode_utf16 (u # us) =
     (let x = unat u in
      if x < 0xD800 \<or> 0xE000 \<le> x then map_option ((#) x) (decode_utf16 us)
      else if 0xDC00 \<le> x then None
      else case us of
             [] \<Rightarrow> None
           | v # vs \<Rightarrow>
               (let y = unat v in
                if 0xDC00 \<le> y \<and> y < 0xE000
                then map_option ((#) (0x10000 + (x - 0xD800) * 0x400 + (y - 0xDC00))) (decode_utf16 vs)
                else None))"

text \<open>\<open>chunks_exact(2)\<close> mapped with \<open>u16::from_le_bytes\<close>.\<close>

fun u16_chunks :: "bytes \<Rightarrow> u16 list" where
  "u16_chunks (a # b # bs) = from_le_bytes [a, b] # u16_chunks bs"
| "u16_chunks _ = []"

definition from_utf16 :: "u16 list \<Rightarrow> rstring res" where
  "from_utf16 us = (case decode_utf16 us of Some s \<Rightarrow> Ok s | None \<Rightarrow> Err (InvalidData BadUtf16))"

definition read_utf16_le :: "usize \<Rightarrow> rstring reader" where
  "read_utf16_le byte_len =
     (if byte_len mod 2 \<noteq> 0 then fail (InvalidData (OddUtf16Length byte_len))
      else bnd (read_bytes byte_len) (\<lambda>raw. lift (from_utf16 (u16_chunks raw))))"

section \<open>WriteCursor\<close>

definition wc_position :: "usize writer" where
  "wc_position w = Ok (length w, w)"

definition write_bytes :: "bytes \<Rightarrow> unit writer" where
  "write_bytes bs w = Ok ((), w @ bs)"

definition write_u8 :: "u8 \<Rightarrow> unit writer" where
  "write_u8 v w = Ok ((), w @ [v])"

definition write_u16_le :: "u16 \<Rightarrow> unit writer" where
  "write_u16_le v w = Ok ((), w @ to_le_bytes v)"

definition write_u32_le :: "u32 \<Rightarrow> unit writer" where
  "write_u32_le v w = Ok ((), w @ to_le_bytes v)"

definition write_u64_le :: "u64 \<Rightarrow> unit writer" where
  "write_u64_le v w = Ok ((), w @ to_le_bytes v)"

definition write_u128_le :: "u128 \<Rightarrow> unit writer" where
  "write_u128_le v w = Ok ((), w @ to_le_bytes v)"

definition utf16_le_bytes :: "rstring \<Rightarrow> bytes" where
  "utf16_le_bytes s = concat (map to_le_bytes (encode_utf16 s))"

definition write_utf16_le :: "rstring \<Rightarrow> unit writer" where
  "write_utf16_le s w = Ok ((), w @ utf16_le_bytes s)"

definition write_zeros :: "usize \<Rightarrow> unit writer" where
  "write_zeros n w = Ok ((), w @ replicate n 0)"

definition align_to :: "usize \<Rightarrow> unit writer" where
  "align_to alignment =
     (if alignment \<le> 1 then ret ()
      else bnd wc_position (\<lambda>n.
             if n mod alignment \<noteq> 0 then write_zeros (alignment - n mod alignment) else ret ()))"

text \<open>\<open>self.buf[pos..pos + k].copy_from_slice(bs)\<close>: panics when the range is not written yet.\<close>

definition overwrite_at :: "usize \<Rightarrow> bytes \<Rightarrow> unit writer" where
  "overwrite_at pos bs w =
     (if pos + length bs \<le> length w
      then Ok ((), take pos w @ bs @ drop (pos + length bs) w) else Panic)"

definition set_u16_le_at :: "usize \<Rightarrow> u16 \<Rightarrow> unit writer" where
  "set_u16_le_at pos v = overwrite_at pos (to_le_bytes v)"

definition set_u32_le_at :: "usize \<Rightarrow> u32 \<Rightarrow> unit writer" where
  "set_u32_le_at pos v = overwrite_at pos (to_le_bytes v)"

section \<open>Guid and FileTime\<close>

record guid =
  data1 :: u32
  data2 :: u16
  data3 :: u16
  data4 :: bytes \<comment> \<open>\<open>[u8; 8]\<close>\<close>

definition guid_ZERO :: guid where
  "guid_ZERO = \<lparr>data1 = 0, data2 = 0, data3 = 0, data4 = replicate 8 0\<rparr>"

definition wf_guid :: "guid \<Rightarrow> bool" where
  "wf_guid g \<longleftrightarrow> length (data4 g) = 8"

definition pack_guid :: "guid \<Rightarrow> unit writer" where
  "pack_guid g = seq [
     write_u32_le (data1 g),
     write_u16_le (data2 g),
     write_u16_le (data3 g),
     write_bytes (data4 g)]"

definition unpack_guid :: "guid reader" where
  "unpack_guid =
     bnd read_u32_le (\<lambda>d1.
     bnd read_u16_le (\<lambda>d2.
     bnd read_u16_le (\<lambda>d3.
     bnd (read_bytes 8) (\<lambda>raw.
     ret \<lparr>data1 = d1, data2 = d2, data3 = d3, data4 = raw\<rparr>))))"

type_synonym file_time = u64

definition EPOCH_DIFF_100NS :: u64 where
  "EPOCH_DIFF_100NS = 116444736000000000"

text \<open>
  A \<open>SystemTime\<close> is its distance from \<open>UNIX_EPOCH\<close> in nanoseconds, negative before it.
  \<open>intervals as u64\<close> truncates; the addition is the wrapping one of a release build.
\<close>

definition from_system_time :: "int \<Rightarrow> file_time" where
  "from_system_time t =
     (if 0 \<le> t then word_of_int (t div 100) + EPOCH_DIFF_100NS
      else let i = word_of_int ((- t) div 100) :: u64 in
           if i \<le> EPOCH_DIFF_100NS then EPOCH_DIFF_100NS - i else 0)"

definition to_system_time :: "file_time \<Rightarrow> int option" where
  "to_system_time ft =
     (if ft < EPOCH_DIFF_100NS then None
      else Some (uint (ft - EPOCH_DIFF_100NS) * 100))"

definition pack_file_time :: "file_time \<Rightarrow> unit writer" where
  "pack_file_time t = write_u64_le t"

definition unpack_file_time :: "file_time reader" where
  "unpack_file_time = read_u64_le"

section \<open>Cursors as a consumed and a remaining part\<close>

definition cur :: "bytes \<Rightarrow> bytes \<Rightarrow> read_cursor" where
  "cur pre post = \<lparr>rc_data = pre @ post, rc_pos = length pre\<rparr>"

definition rc_wf :: "read_cursor \<Rightarrow> bool" where
  "rc_wf c \<longleftrightarrow> rc_pos c \<le> length (rc_data c)"

lemma cur_sel [simp]:
  "rc_data (cur pre post) = pre @ post"
  "rc_pos (cur pre post) = length pre"
  by (simp_all add: cur_def)

lemma cur_eq_iff: "cur pre post = cur pre' post' \<longleftrightarrow> pre = pre' \<and> post = post'"
  by (auto simp: cur_def append_eq_append_conv)

lemma rc_wf_cur [simp]: "rc_wf (cur pre post)"
  by (simp add: rc_wf_def)

lemma read_cursor_new_cur: "read_cursor_new bs = cur [] bs"
  by (simp add: read_cursor_new_def cur_def)

lemma rc_wf_eq_cur: "rc_wf c \<Longrightarrow> c = cur (take (rc_pos c) (rc_data c)) (drop (rc_pos c) (rc_data c))"
  by (simp add: rc_wf_def cur_def min_absorb2)

lemma cur_advance: "(cur pre (bs @ post))\<lparr>rc_pos := length pre + length bs\<rparr> = cur (pre @ bs) post"
  by (simp add: cur_def)

section \<open>Readers on known input\<close>

lemma remaining_cur: "remaining (cur pre post) = Ok (length post, cur pre post)"
  by (simp add: remaining_def usub_def)

lemma position_cur [rd_simps]: "position (cur pre post) = Ok (length pre, cur pre post)"
  by (simp add: position_def)

lemma ensure_cur:
  "ensure n (cur pre post) =
     (if n \<le> length post then Ok ((), cur pre post)
      else Err (InvalidData (NeedBytes n (length post) (length pre))))"
  by (simp add: ensure_def remaining_cur position_cur)

lemma take_slice_cur: "length bs = n \<Longrightarrow> take_slice n (cur pre (bs @ post)) = Ok (bs, cur (pre @ bs) post)"
  by (auto simp: take_slice_def cur_advance)

lemma read_array_cur: "length bs = n \<Longrightarrow> read_array n (cur pre (bs @ post)) = Ok (bs, cur (pre @ bs) post)"
  by (simp add: read_array_def ensure_cur take_slice_cur)

lemma read_bytes_cur [rd_simps]:
  "length bs = n \<Longrightarrow> read_bytes n (cur pre (bs @ post)) = Ok (bs, cur (pre @ bs) post)"
  by (simp add: read_bytes_def ensure_cur take_slice_cur)

lemma read_bytes_bounded_cur [rd_simps]:
  "length bs = n \<Longrightarrow> n \<le> MAX_UNPACK_BUFFER \<Longrightarrow>
   read_bytes_bounded n (cur pre (bs @ post)) = Ok (bs, cur (pre @ bs) post)"
  by (simp add: read_bytes_bounded_def read_bytes_cur)

lemma skip_cur [rd_simps]:
  "length bs = n \<Longrightarrow> skip n (cur pre (bs @ post)) = Ok ((), cur (pre @ bs) post)"
  using cur_advance [of pre bs post] by (simp add: skip_def ensure_cur)

lemma read_uint_cur [rd_simps]:
  "read_u8 (cur pre (a # post)) = Ok (a, cur (pre @ [a]) post)"
  "read_u16_le (cur pre (to_le_bytes b @ post)) = Ok (b, cur (pre @ to_le_bytes b) post)"
  "read_u32_le (cur pre (to_le_bytes c @ post)) = Ok (c, cur (pre @ to_le_bytes c) post)"
  "read_u64_le (cur pre (to_le_bytes d @ post)) = Ok (d, cur (pre @ to_le_bytes d) post)"
  "read_u128_le (cur pre (to_le_bytes e @ post)) = Ok (e, cur (pre @ to_le_bytes e) post)"
  using take_slice_cur [of "[a]" 1 pre post]
  by (simp_all add: read_u8_def read_u16_le_def read_u32_le_def read_u64_le_def read_u128_le_def
        read_array_cur ensure_cur)

text \<open>Too little input is the error the source reports, never a panic.\<close>

lemma read_bytes_short:
  "length post < n \<Longrightarrow>
   read_bytes n (cur pre post) = Err (InvalidData (NeedBytes n (length post) (length pre)))"
  by (simp add: read_bytes_def ensure_cur)

section \<open>Panic-free readers\<close>

text \<open>
  \<open>safe p r\<close>: from a well-formed cursor at position \<open>p\<close> or later, the reader \<open>r\<close> does not
  panic, fails with \<open>InvalidData\<close> only, keeps the data, never moves back and stays in range.
\<close>

definition safe :: "usize \<Rightarrow> 'a reader \<Rightarrow> bool" where
  "safe p r \<longleftrightarrow>
     (\<forall>c. rc_wf c \<longrightarrow> p \<le> rc_pos c \<longrightarrow>
        (case r c of
           Ok (x, c') \<Rightarrow> rc_data c' = rc_data c \<and> rc_pos c \<le> rc_pos c' \<and> rc_wf c'
         | Err e \<Rightarrow> error_kind_of e = InvalidDataK
         | Panic \<Rightarrow> False))"

lemma safe_OkD:
  "safe p r \<Longrightarrow> rc_wf c \<Longrightarrow> p \<le> rc_pos c \<Longrightarrow> r c = Ok (x, c') \<Longrightarrow>
   rc_data c' = rc_data c \<and> rc_pos c \<le> rc_pos c' \<and> rc_wf c'"
  by (fastforce simp: safe_def)

lemma safe_no_panic: "safe p r \<Longrightarrow> rc_wf c \<Longrightarrow> p \<le> rc_pos c \<Longrightarrow> r c \<noteq> Panic"
  by (fastforce simp: safe_def)

lemma safe_ErrD:
  "safe p r \<Longrightarrow> rc_wf c \<Longrightarrow> p \<le> rc_pos c \<Longrightarrow> r c = Err e \<Longrightarrow> error_kind_of e = InvalidDataK"
  by (fastforce simp: safe_def)

lemma safe_mono: "safe p r \<Longrightarrow> p \<le> q \<Longrightarrow> safe q r"
  by (simp add: safe_def)

lemma safe_0: "safe 0 r \<Longrightarrow> safe p r"
  by (erule safe_mono) simp

lemma safe_bnd [safe_intros]:
  assumes m: "safe p m" and f: "\<And>x. safe p (f x)"
  shows "safe p (bnd m f)"
proof -
  have "case bnd m f c of
           Ok (x, c') \<Rightarrow> rc_data c' = rc_data c \<and> rc_pos c \<le> rc_pos c' \<and> rc_wf c'
         | Err e \<Rightarrow> error_kind_of e = InvalidDataK
         | Panic \<Rightarrow> False" if c: "rc_wf c" "p \<le> rc_pos c" for c
  proof (cases "m c")
    case (Ok y)
    obtain x c' where y: "y = (x, c')" by force
    from safe_OkD [OF m c] Ok y
    have c': "rc_data c' = rc_data c" "rc_pos c \<le> rc_pos c'" "rc_wf c'" by auto
    with f [of x] c(2) have "case f x c' of
           Ok (x, c'') \<Rightarrow> rc_data c'' = rc_data c' \<and> rc_pos c' \<le> rc_pos c'' \<and> rc_wf c''
         | Err e \<Rightarrow> error_kind_of e = InvalidDataK
         | Panic \<Rightarrow> False"
      unfolding safe_def by (meson order_trans)
    then show ?thesis
      using Ok y c' by (auto split: result.splits)
  next
    case (Err e)
    with safe_ErrD [OF m c] show ?thesis by simp
  next
    case Panic
    with safe_no_panic [OF m c] show ?thesis by simp
  qed
  then show ?thesis by (simp add: safe_def)
qed

lemma safe_bnd_position [safe_intros]:
  "(\<And>q. p \<le> q \<Longrightarrow> safe q (f q)) \<Longrightarrow> safe p (bnd position f)"
  by (simp add: safe_def position_def)

lemma safe_ret [safe_intros]: "safe p (ret x)"
  by (simp add: safe_def)

lemma safe_fail [safe_intros]: "safe p (fail (InvalidData i))"
  by (simp add: safe_def)

lemma safe_guard [safe_intros]: "safe p (guard b (InvalidData i))"
  by (simp add: safe_def)

lemma safe_if [safe_intros]: "(b \<Longrightarrow> safe p r) \<Longrightarrow> (\<not> b \<Longrightarrow> safe p s) \<Longrightarrow> safe p (if b then r else s)"
  by simp

lemma safe_let [safe_intros]: "safe p (f x) \<Longrightarrow> safe p (let y = x in f y)"
  by simp

lemma safe_option [safe_intros]:
  "(v = None \<Longrightarrow> safe p r) \<Longrightarrow> (\<And>x. v = Some x \<Longrightarrow> safe p (s x)) \<Longrightarrow>
   safe p (case v of None \<Rightarrow> r | Some x \<Rightarrow> s x)"
  by (cases v) simp_all

lemma safe_lift:
  "r \<noteq> Panic \<Longrightarrow> (\<And>e. r = Err e \<Longrightarrow> error_kind_of e = InvalidDataK) \<Longrightarrow> safe p (lift r)"
  by (cases r) (simp_all add: safe_def)

lemma safe_usub [safe_intros]: "b \<le> a \<Longrightarrow> safe p (lift (usub a b))"
  by (simp add: usub_def safe_def)

lemma safe_repeat [safe_intros]: "safe p m \<Longrightarrow> safe p (repeat n m)"
  by (induction n) (auto intro!: safe_intros)

lemma ensure_wf:
  "rc_wf c \<Longrightarrow> ensure n c =
     (if rc_pos c + n \<le> length (rc_data c) then Ok ((), c)
      else Err (InvalidData (NeedBytes n (length (rc_data c) - rc_pos c) (rc_pos c))))"
  by (auto simp: ensure_def remaining_def position_def rc_wf_def usub_def)

lemma safe_read_array [safe_intros]: "safe p (read_array n)"
  by (auto simp: safe_def read_array_def ensure_wf take_slice_def slice_def rc_wf_def)

lemma safe_read_bytes [safe_intros]: "safe p (read_bytes n)"
  using safe_read_array by (simp add: read_array_def read_bytes_def)

lemma safe_read_bytes_bounded [safe_intros]: "safe p (read_bytes_bounded n)"
  by (auto simp: read_bytes_bounded_def intro!: safe_intros)

lemma safe_skip [safe_intros]: "safe p (skip n)"
  by (auto simp: safe_def skip_def ensure_wf rc_wf_def)

lemma safe_read_u8 [safe_intros]: "safe p read_u8"
  by (auto simp: safe_def read_u8_def ensure_wf take_slice_def slice_def rc_wf_def)

lemma safe_read_uint [safe_intros]:
  "safe p read_u16_le" "safe p read_u32_le" "safe p read_u64_le" "safe p read_u128_le"
  by (auto simp: read_u16_le_def read_u32_le_def read_u64_le_def read_u128_le_def
        intro!: safe_intros)

lemma safe_from_utf16 [safe_intros]: "safe p (lift (from_utf16 us))"
  by (rule safe_lift) (auto simp: from_utf16_def split: option.splits)

lemma safe_read_utf16_le [safe_intros]: "safe p (read_utf16_le n)"
  by (auto simp: read_utf16_le_def intro!: safe_intros)

lemma safe_oplock_level [safe_intros]: "safe p (lift (oplock_level_try_from v))"
  by (rule safe_lift) (auto simp: oplock_level_try_from_def split: if_splits)

section \<open>UTF-16 round trip\<close>

lemma is_char_bound: "is_char c \<Longrightarrow> c < 0x110000"
  by (auto simp: is_char_def)

lemma decode_encode_utf16_char:
  assumes "is_char c"
  shows "decode_utf16 (encode_utf16_char c @ us) = map_option ((#) c) (decode_utf16 us)"
proof (cases "c < 0x10000")
  case True
  with assms show ?thesis
    by (auto simp: encode_utf16_char_def is_char_def Let_def)
next
  case False
  define d where "d = c - 0x10000"
  have c: "c = 0x10000 + d" and d: "d < 0x100000"
    using False is_char_bound [OF assms] by (auto simp: d_def)
  have q: "d div 0x400 < 0x400" using d by (simp add: less_mult_imp_div_less)
  have hi: "unat (word_of_nat (0xD800 + d div 0x400) :: u16) = 0xD800 + d div 0x400"
    by (rule unat_of_nat_u16) (use q in simp)
  have lo: "unat (word_of_nat (0xDC00 + d mod 0x400) :: u16) = 0xDC00 + d mod 0x400"
    by (rule unat_of_nat_u16) (use mod_less_divisor [of "0x400" d] in simp)
  have dm: "d div 0x400 * 0x400 + d mod 0x400 = d" by simp
  have m: "d mod 0x400 < 0x400" by simp
  show ?thesis
    using False q m dm
    by (simp add: encode_utf16_char_def Let_def d_def [symmetric] hi lo c add.commute [of d] del: of_nat_add)
qed

lemma decode_encode_utf16: "valid_str s \<Longrightarrow> decode_utf16 (encode_utf16 s) = Some s"
  unfolding encode_utf16_def valid_str_def
  by (induction s) (simp_all add: decode_encode_utf16_char)

lemma valid_str_Nil [simp]: "valid_str []"
  by (simp add: valid_str_def)

lemma encode_utf16_append: "encode_utf16 (s @ t) = encode_utf16 s @ encode_utf16 t"
  by (simp add: encode_utf16_def)

lemma encode_utf16_Nil [simp]: "encode_utf16 [] = []"
  by (simp add: encode_utf16_def)

lemma encode_utf16_eq_Nil [simp]: "encode_utf16 s = [] \<longleftrightarrow> s = []"
  by (cases s) (simp_all add: encode_utf16_def encode_utf16_char_def)

lemma length_concat_u16: "length (concat (map to_le_bytes (us :: u16 list))) = 2 * length us"
  by (induction us) simp_all

lemma length_utf16_le_bytes [simp]: "length (utf16_le_bytes s) = 2 * length (encode_utf16 s)"
  by (simp add: utf16_le_bytes_def length_concat_u16)

lemma utf16_le_bytes_Nil [simp]: "utf16_le_bytes [] = []"
  by (simp add: utf16_le_bytes_def)

lemma u16_chunks_to_le: "u16_chunks (to_le_bytes (u :: u16) @ bs) = u # u16_chunks bs"
proof -
  obtain a b where ab: "to_le_bytes u = [a, b]"
    by (simp add: to_le_bytes_def numeral_2_eq_2)
  then have "from_le_bytes [a, b] = u" using from_to_le(2) [of u] by simp
  with ab show ?thesis by simp
qed

lemma u16_chunks_concat [simp]: "u16_chunks (concat (map to_le_bytes us)) = us"
  by (induction us) (simp_all add: u16_chunks_to_le)

lemma read_utf16_le_cur [rd_simps]:
  assumes "valid_str s" "n = 2 * length (encode_utf16 s)"
  shows "read_utf16_le n (cur pre (utf16_le_bytes s @ post)) = Ok (s, cur (pre @ utf16_le_bytes s) post)"
  using assms
  by (simp add: read_utf16_le_def read_bytes_cur from_utf16_def utf16_le_bytes_def
        length_concat_u16 decode_encode_utf16)

text \<open>What comes out of the decoder is a string of scalar values.\<close>

lemma decode_utf16_valid: "decode_utf16 us = Some s \<Longrightarrow> valid_str s"
proof (induction us arbitrary: s rule: decode_utf16.induct)
  case 1
  then show ?case by simp
next
  case (2 u us)
  then show ?case
    by (auto simp: Let_def valid_str_def is_char_def split: if_splits list.splits)
qed

section \<open>Writers\<close>

lemma write_simps [wr_simps]:
  "wc_position w = Ok (length w, w)"
  "write_bytes bs w = Ok ((), w @ bs)"
  "write_u8 a w = Ok ((), w @ [a])"
  "write_u16_le b w = Ok ((), w @ to_le_bytes b)"
  "write_u32_le c w = Ok ((), w @ to_le_bytes c)"
  "write_u64_le d w = Ok ((), w @ to_le_bytes d)"
  "write_u128_le e w = Ok ((), w @ to_le_bytes e)"
  "write_utf16_le s w = Ok ((), w @ utf16_le_bytes s)"
  "write_zeros n w = Ok ((), w @ replicate n 0)"
  by (simp_all add: wc_position_def write_bytes_def write_u8_def write_u16_le_def write_u32_le_def
        write_u64_le_def write_u128_le_def write_utf16_le_def write_zeros_def)

definition pad_len :: "nat \<Rightarrow> nat \<Rightarrow> nat" where
  "pad_len a n = (if n mod a = 0 then 0 else a - n mod a)"

lemma pad_len_aligned: "1 < a \<Longrightarrow> (n + pad_len a n) mod a = 0"
proof -
  assume a: "1 < a"
  show ?thesis
  proof (cases "n mod a = 0")
    case True
    then show ?thesis by (simp add: pad_len_def)
  next
    case False
    have "n mod a < a" using a by simp
    then have "n + (a - n mod a) = a * (n div a) + a"
      using mult_div_mod_eq [of a n] by linarith
    with False show ?thesis by (simp add: pad_len_def)
  qed
qed

lemma pad_len_less: "0 < a \<Longrightarrow> pad_len a n < a"
  by (simp add: pad_len_def)

lemma pad_8_bound [simp]: "m + 8 \<le> k \<Longrightarrow> m + pad_len 8 n < k"
  using pad_len_less [of 8 n] by simp

lemma align_to_apply [wr_simps]: "1 < a \<Longrightarrow> align_to a w = Ok ((), w @ replicate (pad_len a (length w)) 0)"
  by (simp add: align_to_def wr_simps pad_len_def)

lemma overwrite_at_append:
  "length old = length bs \<Longrightarrow> p = length pre \<Longrightarrow>
   overwrite_at p bs (pre @ old @ post) = Ok ((), pre @ bs @ post)"
  by (simp add: overwrite_at_def)

text \<open>Packing and unpacking a list of elements with a fixed byte image.\<close>

lemma seq_map_pack:
  "(\<And>x w. x \<in> set xs \<Longrightarrow> pk x w = Ok ((), w @ img x)) \<Longrightarrow>
   seq (map pk xs) w = Ok ((), w @ concat (map img xs))"
  by (induction xs arbitrary: w) simp_all

lemma repeat_unpack:
  "(\<And>x pre post. x \<in> set xs \<Longrightarrow> upk (cur pre (img x @ post)) = Ok (x, cur (pre @ img x) post)) \<Longrightarrow>
   n = length xs \<Longrightarrow>
   repeat n upk (cur pre (concat (map img xs) @ post)) = Ok (xs, cur (pre @ concat (map img xs)) post)"
  by (induction xs arbitrary: n pre) simp_all

section \<open>Whole buffers\<close>

text \<open>
  Parsing a whole slice with a fresh \<open>ReadCursor\<close>, collecting what a fresh \<open>WriteCursor\<close>
  receives, and \<open>Vec::resize(n, 0)\<close>.
\<close>

definition run_reader :: "'a reader \<Rightarrow> bytes \<Rightarrow> 'a res" where
  "run_reader r bs = result_bind (r (read_cursor_new bs)) (\<lambda>(x, _). Ok x)"

definition run_writer :: "unit writer \<Rightarrow> bytes res" where
  "run_writer w = result_bind (w []) (\<lambda>(_, bs). Ok bs)"

definition vec_resize :: "bytes \<Rightarrow> nat \<Rightarrow> bytes" where
  "vec_resize bs n = take n bs @ replicate (n - length bs) 0"

lemma length_vec_resize [simp]: "length (vec_resize bs n) = n"
  by (simp add: vec_resize_def)

lemma vec_resize_grow: "length bs \<le> n \<Longrightarrow> vec_resize bs n = bs @ replicate (n - length bs) 0"
  by (simp add: vec_resize_def)

lemma run_reader_safe:
  assumes "safe 0 r"
  shows "run_reader r bs \<noteq> Panic"
    and "run_reader r bs = Err e \<Longrightarrow> error_kind_of e = InvalidDataK"
proof -
  have "rc_wf (read_cursor_new bs)" by (simp add: rc_wf_def read_cursor_new_def)
  with assms show "run_reader r bs \<noteq> Panic"
    "run_reader r bs = Err e \<Longrightarrow> error_kind_of e = InvalidDataK"
    by (cases "r (read_cursor_new bs)"; auto simp: run_reader_def safe_def)+
qed

section \<open>The contract of a packable type\<close>

text \<open>
  \<open>pack\<close> only appends; \<open>unpack\<close>, started where the value was packed and with anything behind
  it, returns the value; on arbitrary input \<open>unpack\<close> does not panic.
\<close>

locale codec =
  fixes pack :: "'a \<Rightarrow> unit writer" and unpack :: "'a reader" and valid :: "'a \<Rightarrow> bool"
  assumes pack_appends: "valid x \<Longrightarrow> \<exists>bs. pack x w = Ok ((), w @ bs)"
    and unpack_pack: "valid x \<Longrightarrow> pack x w = Ok ((), w @ bs) \<Longrightarrow>
          \<exists>c. unpack (cur w (bs @ post)) = Ok (x, c)"
    and unpack_safe: "safe 0 unpack"
begin

lemma pack_no_panic: "valid x \<Longrightarrow> pack x w \<noteq> Panic"
  using pack_appends [of x w] by auto

lemma roundtrip: "valid x \<Longrightarrow> \<exists>bs c. pack x [] = Ok ((), bs) \<and> unpack (read_cursor_new bs) = Ok (x, c)"
proof -
  assume v: "valid x"
  then obtain bs where bs: "pack x [] = Ok ((), bs)"
    using pack_appends [of x "[]"] by auto
  with unpack_pack [OF v, of "[]" bs "[]"] show ?thesis
    by (auto simp: read_cursor_new_cur)
qed

lemma run_roundtrip: "valid x \<Longrightarrow> \<exists>bs. run_writer (pack x) = Ok bs \<and> run_reader unpack bs = Ok x"
  using roundtrip [of x] by (auto simp: run_writer_def run_reader_def)

lemma pack_prefix_free:
  assumes "valid x" "valid y"
    and "pack x w = Ok ((), w @ a)" "pack y w = Ok ((), w @ a @ b)"
  shows "x = y"
proof -
  obtain c where "unpack (cur w (a @ b)) = Ok (x, c)"
    using unpack_pack [OF assms(1,3)] by blast
  moreover obtain d where "unpack (cur w ((a @ b) @ [])) = Ok (y, d)"
    using unpack_pack [of y w "a @ b" "[]"] assms(2,4) by auto
  ultimately show ?thesis by simp
qed

lemma pack_inject:
  assumes "valid x" "valid y" "pack x w = pack y w"
  shows "x = y"
proof -
  obtain a where a: "pack x w = Ok ((), w @ a)" using pack_appends [OF assms(1)] by blast
  show ?thesis by (rule pack_prefix_free [of x y w a "[]"]) (use assms a in auto)
qed

lemma unpack_total:
  "rc_wf c \<Longrightarrow> (\<exists>x c'. unpack c = Ok (x, c') \<and> rc_wf c' \<and> rc_data c' = rc_data c \<and> rc_pos c \<le> rc_pos c')
     \<or> (\<exists>e. unpack c = Err e \<and> error_kind_of e = InvalidDataK)"
  using safe_OkD [OF unpack_safe, of c] safe_ErrD [OF unpack_safe, of c]
    safe_no_panic [OF unpack_safe, of c]
  by (cases "unpack c") auto

end

text \<open>A codec that consumes exactly what it wrote, so that values can follow one another.\<close>

locale exact_codec = codec +
  assumes unpack_exact: "valid x \<Longrightarrow> pack x w = Ok ((), w @ bs) \<Longrightarrow>
          unpack (cur w (bs @ post)) = Ok (x, cur (w @ bs) post)"
begin

lemma unpack_list:
  assumes "\<forall>x\<in>set xs. valid x"
  shows "\<exists>bs. seq (map pack xs) w = Ok ((), w @ bs) \<and>
           repeat (length xs) unpack (cur w (bs @ post)) = Ok (xs, cur (w @ bs) post)"
  using assms
proof (induction xs arbitrary: w)
  case Nil
  then show ?case by simp
next
  case (Cons x xs)
  then obtain a where a: "pack x w = Ok ((), w @ a)" using pack_appends [of x w] by auto
  obtain b where b: "seq (map pack xs) (w @ a) = Ok ((), (w @ a) @ b)"
    "repeat (length xs) unpack (cur (w @ a) (b @ post)) = Ok (xs, cur ((w @ a) @ b) post)"
    using Cons.IH [of "w @ a"] Cons.prems by auto
  have "unpack (cur w ((a @ b) @ post)) = Ok (x, cur (w @ a) (b @ post))"
    using unpack_exact [OF _ a, of "b @ post"] Cons.prems by simp
  with a b show ?case by (intro exI [of _ "a @ b"]) simp
qed

end

section \<open>Guid and FileTime\<close>

definition guid_bytes :: "guid \<Rightarrow> bytes" where
  "guid_bytes g = to_le_bytes (data1 g) @ to_le_bytes (data2 g) @ to_le_bytes (data3 g) @ data4 g"

lemma length_guid_bytes [simp]: "wf_guid g \<Longrightarrow> length (guid_bytes g) = 16"
  by (simp add: guid_bytes_def wf_guid_def)

lemma pack_guid_apply [wr_simps]: "pack_guid g w = Ok ((), w @ guid_bytes g)"
  by (simp add: pack_guid_def guid_bytes_def wr_simps)

lemma unpack_guid_cur [rd_simps]:
  "wf_guid g \<Longrightarrow> unpack_guid (cur pre (guid_bytes g @ post)) = Ok (g, cur (pre @ guid_bytes g) post)"
  by (simp add: unpack_guid_def guid_bytes_def wf_guid_def rd_simps)

lemma safe_unpack_guid [safe_intros]: "safe p unpack_guid"
  by (auto simp: unpack_guid_def intro!: safe_intros)

lemma pack_file_time_apply [wr_simps]: "pack_file_time t w = Ok ((), w @ to_le_bytes t)"
  by (simp add: pack_file_time_def wr_simps)

lemma unpack_file_time_cur [rd_simps]:
  "unpack_file_time (cur pre (to_le_bytes t @ post)) = Ok (t, cur (pre @ to_le_bytes t) post)"
  by (simp add: unpack_file_time_def rd_simps)

lemma safe_unpack_file_time [safe_intros]: "safe p unpack_file_time"
  by (auto simp: unpack_file_time_def intro!: safe_intros)

interpretation guid: exact_codec pack_guid unpack_guid wf_guid
  by unfold_locales (auto simp: wr_simps rd_simps intro!: safe_intros)

interpretation file_time: exact_codec pack_file_time unpack_file_time "\<lambda>_. True"
  by unfold_locales (auto simp: wr_simps rd_simps intro!: safe_intros)

end
