(* ===== verification/Smb_Header.thy ===== *)
theory Smb_Header
  imports Smb_Pack
begin

text \<open>
  \<open>src/msg/header.rs\<close>: the 64-byte SMB2 packet header in its synchronous and asynchronous
  variants, and the body of an error response.
\<close>

section \<open>Definitions\<close>

definition PROTOCOL_ID :: bytes where
  "PROTOCOL_ID = [0xFE, 0x53, 0x4D, 0x42]"

record header =
  hdr_credit_charge :: credit_charge
  hdr_status :: nt_status
  hdr_command :: command
  hdr_credits :: u16
  hdr_flags :: u32
  hdr_next_command :: u32
  hdr_message_id :: message_id
  hdr_tree_id :: "tree_id option"
  hdr_async_id :: "u64 option"
  hdr_session_id :: session_id
  hdr_signature :: bytes \<comment> \<open>\<open>[u8; 16]\<close>\<close>

definition header_STRUCTURE_SIZE :: u16 where
  "header_STRUCTURE_SIZE = 64"

definition header_SIZE :: usize where
  "header_SIZE = 64"

definition new_request :: "command \<Rightarrow> header" where
  "new_request c = \<lparr>
     hdr_credit_charge = 0,
     hdr_status = STATUS_SUCCESS,
     hdr_command = c,
     hdr_credits = 1,
     hdr_flags = 0,
     hdr_next_command = 0,
     hdr_message_id = 0,
     hdr_tree_id = Some 0,
     hdr_async_id = None,
     hdr_session_id = 0,
     hdr_signature = replicate 16 0\<rparr>"

definition header_is_response :: "header \<Rightarrow> bool" where
  "header_is_response h = hf_is_response (hdr_flags h)"

definition pack_header :: "header \<Rightarrow> unit writer" where
  "pack_header h = seq [
     write_bytes PROTOCOL_ID,
     write_u16_le header_STRUCTURE_SIZE,
     write_u16_le (hdr_credit_charge h),
     write_u32_le (hdr_status h),
     write_u16_le (command_code (hdr_command h)),
     write_u16_le (hdr_credits h),
     write_u32_le (hdr_flags h),
     write_u32_le (hdr_next_command h),
     write_u64_le (hdr_message_id h),
     (if hf_is_async (hdr_flags h)
      then write_u64_le (case hdr_async_id h of None \<Rightarrow> 0 | Some a \<Rightarrow> a)
      else seq [write_u32_le 0,
                write_u32_le (case hdr_tree_id h of None \<Rightarrow> 0 | Some t \<Rightarrow> t)]),
     write_u64_le (hdr_session_id h),
     write_bytes (hdr_signature h)]"

definition unpack_header :: "header reader" where
  "unpack_header =
     bnd (read_bytes 4) (\<lambda>proto.
     bnd (guard (proto = PROTOCOL_ID) (InvalidData (BadProtocolId proto))) (\<lambda>_.
     bnd read_u16_le (\<lambda>structure_size.
     bnd (guard (structure_size = header_STRUCTURE_SIZE)
            (InvalidData (BadStructureSize header_STRUCTURE_SIZE structure_size))) (\<lambda>_.
     bnd read_u16_le (\<lambda>credit_charge.
     bnd read_u32_le (\<lambda>status.
     bnd read_u16_le (\<lambda>command_raw.
     bnd (case command_try_from command_raw of
            None \<Rightarrow> fail (InvalidData (BadCommandCode command_raw))
          | Some c \<Rightarrow> ret c) (\<lambda>command.
     bnd read_u16_le (\<lambda>credits.
     bnd read_u32_le (\<lambda>flags.
     bnd read_u32_le (\<lambda>next_command.
     bnd read_u64_le (\<lambda>message_id.
     bnd (if hf_is_async flags
          then bnd read_u64_le (\<lambda>async_id. ret (None, Some async_id))
          else bnd read_u32_le (\<lambda>_. bnd read_u32_le (\<lambda>tree_id. ret (Some tree_id, None)))) (\<lambda>ids.
     bnd read_u64_le (\<lambda>session_id.
     bnd (read_bytes 16) (\<lambda>signature.
     ret \<lparr>
       hdr_credit_charge = credit_charge,
       hdr_status = status,
       hdr_command = command,
       hdr_credits = credits,
       hdr_flags = flags,
       hdr_next_command = next_command,
       hdr_message_id = message_id,
       hdr_tree_id = fst ids,
       hdr_async_id = snd ids,
       hdr_session_id = session_id,
       hdr_signature = signature\<rparr>)))))))))))))))"

record error_response =
  er_context_count :: u8
  er_data :: bytes

definition error_response_STRUCTURE_SIZE :: u16 where
  "error_response_STRUCTURE_SIZE = 9"

definition pack_error_response :: "error_response \<Rightarrow> unit writer" where
  "pack_error_response r = seq [
     write_u16_le error_response_STRUCTURE_SIZE,
     write_u8 (er_context_count r),
     write_u8 0,
     write_u32_le (word_of_nat (length (er_data r))),
     write_bytes (er_data r)]"

definition unpack_error_response :: "error_response reader" where
  "unpack_error_response =
     bnd read_u16_le (\<lambda>structure_size.
     bnd (guard (structure_size = error_response_STRUCTURE_SIZE)
            (InvalidData (BadStructureSize error_response_STRUCTURE_SIZE structure_size))) (\<lambda>_.
     bnd read_u8 (\<lambda>error_context_count.
     bnd read_u8 (\<lambda>_.
     bnd read_u32_le (\<lambda>byte_count.
     bnd (if unat byte_count > 0 then read_bytes_bounded (unat byte_count) else ret []) (\<lambda>error_data.
     ret \<lparr>er_context_count = error_context_count, er_data = error_data\<rparr>))))))"

section \<open>Well-formed values\<close>

text \<open>
  The identifier fields agree with the asynchronous flag, as in every header the client
  builds or parses; the signature is the 16-byte array of the source.
\<close>

definition wf_header :: "header \<Rightarrow> bool" where
  "wf_header h \<longleftrightarrow>
     length (hdr_signature h) = 16 \<and>
     (if hf_is_async (hdr_flags h) then hdr_tree_id h = None \<and> hdr_async_id h \<noteq> None
      else hdr_tree_id h \<noteq> None \<and> hdr_async_id h = None)"

definition wf_error_response :: "error_response \<Rightarrow> bool" where
  "wf_error_response r \<longleftrightarrow> length (er_data r) \<le> MAX_UNPACK_BUFFER"

section \<open>Lemmas\<close>

lemma length_PROTOCOL_ID [simp]: "length PROTOCOL_ID = 4"
  by (simp add: PROTOCOL_ID_def)

definition header_bytes :: "header \<Rightarrow> bytes" where
  "header_bytes h =
     PROTOCOL_ID @ to_le_bytes header_STRUCTURE_SIZE @ to_le_bytes (hdr_credit_charge h) @
     to_le_bytes (hdr_status h) @ to_le_bytes (command_code (hdr_command h)) @
     to_le_bytes (hdr_credits h) @ to_le_bytes (hdr_flags h) @ to_le_bytes (hdr_next_command h) @
     to_le_bytes (hdr_message_id h) @
     (if hf_is_async (hdr_flags h)
      then to_le_bytes (case hdr_async_id h of None \<Rightarrow> 0 | Some a \<Rightarrow> a)
      else to_le_bytes (0 :: u32) @ to_le_bytes (case hdr_tree_id h of None \<Rightarrow> 0 | Some t \<Rightarrow> t)) @
     to_le_bytes (hdr_session_id h) @ hdr_signature h"

lemma length_header_bytes [simp]: "length (hdr_signature h) = 16 \<Longrightarrow> length (header_bytes h) = 64"
  by (simp add: header_bytes_def)

lemma pack_header_apply [wr_simps]: "pack_header h w = Ok ((), w @ header_bytes h)"
  by (simp add: pack_header_def header_bytes_def wr_simps)

lemma unpack_header_cur [rd_simps]:
  assumes "wf_header h"
  shows "unpack_header (cur pre (header_bytes h @ post)) = Ok (h, cur (pre @ header_bytes h) post)"
  using assms
  by (auto simp: unpack_header_def header_bytes_def wf_header_def rd_simps split: if_splits)

lemma safe_unpack_header [safe_intros]: "safe p unpack_header"
  by (auto simp: unpack_header_def intro!: safe_intros)

lemma pack_error_response_apply [wr_simps]:
  "pack_error_response r w = Ok ((), w @ to_le_bytes error_response_STRUCTURE_SIZE @
     er_context_count r # 0 # to_le_bytes (word_of_nat (length (er_data r)) :: u32) @ er_data r)"
  by (simp add: pack_error_response_def wr_simps)

lemma safe_unpack_error_response [safe_intros]: "safe p unpack_error_response"
  by (auto simp: unpack_error_response_def intro!: safe_intros)

interpretation header: exact_codec pack_header unpack_header wf_header
  by unfold_locales (auto simp: wr_simps rd_simps intro!: safe_intros)

interpretation error_response: exact_codec pack_error_response unpack_error_response wf_error_response
proof unfold_locales
  fix x :: error_response and w bs post
  assume "wf_error_response x" and p: "pack_error_response x w = Ok ((), w @ bs)"
  then have "length (er_data x) < 4294967296" "length (er_data x) \<le> MAX_UNPACK_BUFFER"
    by (auto simp: wf_error_response_def MAX_UNPACK_BUFFER_def)
  with p show "unpack_error_response (cur w (bs @ post)) = Ok (x, cur (w @ bs) post)"
    by (auto simp: wr_simps rd_simps unpack_error_response_def)
  then show "\<exists>c. unpack_error_response (cur w (bs @ post)) = Ok (x, c)" by blast
qed (auto simp: wr_simps intro!: safe_intros)

end
