(* ===== verification/Smb_Msg_Session.thy ===== *)
theory Smb_Msg_Session
  imports Smb_Header
begin

text \<open>
  The session-level messages of \<open>src/msg/\<close>: the four-byte stub messages generated by
  \<open>trivial_message!\<close> (ECHO, CANCEL, LOGOFF, TREE_DISCONNECT, FLUSH response, LOCK response),
  FLUSH, CLOSE, SESSION_SETUP and TREE_CONNECT. Each message is an instance of the codec
  contract: what is packed unpacks to the same value and arbitrary input cannot panic.
\<close>

section \<open>Shared fragments\<close>

text \<open>
  Three blocks that the message parsers repeat: the check of \<open>StructureSize\<close>, a 16-byte
  file id, and a buffer that is read only when its length field is not zero.
\<close>

definition check_size :: "u16 \<Rightarrow> unit reader" where
  "check_size expected =
     bnd read_u16_le (\<lambda>structure_size.
     guard (structure_size = expected) (InvalidData (BadStructureSize expected structure_size)))"

definition read_file_id :: "file_id reader" where
  "read_file_id =
     bnd read_u64_le (\<lambda>p. bnd read_u64_le (\<lambda>v. ret \<lparr>persistent = p, volatile = v\<rparr>))"

definition write_file_id :: "file_id \<Rightarrow> unit writer" where
  "write_file_id f = seq [write_u64_le (persistent f), write_u64_le (volatile f)]"

definition read_buffer :: "usize \<Rightarrow> bytes reader" where
  "read_buffer n = (if n > 0 then read_bytes_bounded n else ret [])"

definition file_id_bytes :: "file_id \<Rightarrow> bytes" where
  "file_id_bytes f = to_le_bytes (persistent f) @ to_le_bytes (volatile f)"

lemma length_file_id_bytes [simp]: "length (file_id_bytes f) = 16"
  by (simp add: file_id_bytes_def)

lemma check_size_cur [rd_simps]:
  "check_size n (cur pre (to_le_bytes m @ post)) =
     (if m = n then Ok ((), cur (pre @ to_le_bytes m) post)
      else Err (InvalidData (BadStructureSize n m)))"
  by (simp add: check_size_def rd_simps)

lemma read_file_id_cur [rd_simps]:
  "read_file_id (cur pre (file_id_bytes f @ post)) = Ok (f, cur (pre @ file_id_bytes f) post)"
  by (simp add: read_file_id_def file_id_bytes_def rd_simps)

lemma write_file_id_apply [wr_simps]: "write_file_id f w = Ok ((), w @ file_id_bytes f)"
  by (simp add: write_file_id_def file_id_bytes_def wr_simps)

lemma read_buffer_cur [rd_simps]:
  "length bs = n \<Longrightarrow> n \<le> MAX_UNPACK_BUFFER \<Longrightarrow>
   read_buffer n (cur pre (bs @ post)) = Ok (bs, cur (pre @ bs) post)"
  by (auto simp: read_buffer_def rd_simps)

lemma max_unpack_u16 [simp]: "n < 65536 \<Longrightarrow> n \<le> MAX_UNPACK_BUFFER"
  by (simp add: MAX_UNPACK_BUFFER_def)

lemma max_unpack_u32 [simp]:
  "n \<le> MAX_UNPACK_BUFFER \<Longrightarrow> unat (word_of_nat n :: u32) = n"
  by (rule unat_of_nat_u32) (simp add: MAX_UNPACK_BUFFER_def)

lemma safe_fragments [safe_intros]:
  "safe p (check_size n)" "safe p read_file_id" "safe p (read_buffer k)"
  by (auto simp: check_size_def read_file_id_def read_buffer_def intro!: safe_intros)

section \<open>Trivial messages\<close>

text \<open>
  The struct has no fields; \<open>EchoRequest\<close>, \<open>EchoResponse\<close>, \<open>CancelRequest\<close>,
  \<open>LogoffRequest\<close>, \<open>LogoffResponse\<close>, \<open>TreeDisconnectRequest\<close>, \<open>TreeDisconnectResponse\<close>,
  \<open>FlushResponse\<close> and \<open>LockResponse\<close> all have this code.
\<close>

definition trivial_STRUCTURE_SIZE :: u16 where
  "trivial_STRUCTURE_SIZE = 4"

definition pack_trivial :: "unit \<Rightarrow> unit writer" where
  "pack_trivial _ = seq [write_u16_le trivial_STRUCTURE_SIZE, write_u16_le 0]"

definition unpack_trivial :: "unit reader" where
  "unpack_trivial = bnd (check_size trivial_STRUCTURE_SIZE) (\<lambda>_. bnd read_u16_le (\<lambda>_. ret ()))"

interpretation trivial_message: exact_codec pack_trivial unpack_trivial "\<lambda>_. True"
  by unfold_locales
    (auto simp: pack_trivial_def unpack_trivial_def wr_simps rd_simps intro!: safe_intros)

section \<open>FLUSH\<close>

record flush_request =
  flq_file_id :: file_id

definition flush_request_STRUCTURE_SIZE :: u16 where
  "flush_request_STRUCTURE_SIZE = 24"

definition pack_flush_request :: "flush_request \<Rightarrow> unit writer" where
  "pack_flush_request r = seq [
     write_u16_le flush_request_STRUCTURE_SIZE,
     write_u16_le 0,
     write_u32_le 0,
     write_file_id (flq_file_id r)]"

definition unpack_flush_request :: "flush_request reader" where
  "unpack_flush_request =
     bnd (check_size flush_request_STRUCTURE_SIZE) (\<lambda>_.
     bnd read_u16_le (\<lambda>_.
     bnd read_u32_le (\<lambda>_.
     bnd read_file_id (\<lambda>f.
     ret \<lparr>flq_file_id = f\<rparr>))))"

interpretation flush_request: exact_codec pack_flush_request unpack_flush_request "\<lambda>_. True"
  by unfold_locales
    (auto simp: pack_flush_request_def unpack_flush_request_def wr_simps rd_simps intro!: safe_intros)

section \<open>CLOSE\<close>

record close_request =
  clq_flags :: u16
  clq_file_id :: file_id

definition close_request_STRUCTURE_SIZE :: u16 where
  "close_request_STRUCTURE_SIZE = 24"

definition pack_close_request :: "close_request \<Rightarrow> unit writer" where
  "pack_close_request r = seq [
     write_u16_le close_request_STRUCTURE_SIZE,
     write_u16_le (clq_flags r),
     write_u32_le 0,
     write_file_id (clq_file_id r)]"

definition unpack_close_request :: "close_request reader" where
  "unpack_close_request =
     bnd (check_size close_request_STRUCTURE_SIZE) (\<lambda>_.
     bnd read_u16_le (\<lambda>flags.
     bnd read_u32_le (\<lambda>_.
     bnd read_file_id (\<lambda>f.
     ret \<lparr>clq_flags = flags, clq_file_id = f\<rparr>))))"

interpretation close_request: exact_codec pack_close_request unpack_close_request "\<lambda>_. True"
  by unfold_locales
    (auto simp: pack_close_request_def unpack_close_request_def wr_simps rd_simps intro!: safe_intros)

record close_response =
  clr_flags :: u16
  clr_creation_time :: file_time
  clr_last_access_time :: file_time
  clr_last_write_time :: file_time
  clr_change_time :: file_time
  clr_allocation_size :: u64
  clr_end_of_file :: u64
  clr_file_attributes :: u32

definition close_response_STRUCTURE_SIZE :: u16 where
  "close_response_STRUCTURE_SIZE = 60"

definition pack_close_response :: "close_response \<Rightarrow> unit writer" where
  "pack_close_response r = seq [
     write_u16_le close_response_STRUCTURE_SIZE,
     write_u16_le (clr_flags r),
     write_u32_le 0,
     pack_file_time (clr_creation_time r),
     pack_file_time (clr_last_access_time r),
     pack_file_time (clr_last_write_time r),
     pack_file_time (clr_change_time r),
     write_u64_le (clr_allocation_size r),
     write_u64_le (clr_end_of_file r),
     write_u32_le (clr_file_attributes r)]"

definition unpack_close_response :: "close_response reader" where
  "unpack_close_response =
     bnd (check_size close_response_STRUCTURE_SIZE) (\<lambda>_.
     bnd read_u16_le (\<lambda>flags.
     bnd read_u32_le (\<lambda>_.
     bnd unpack_file_time (\<lambda>creation_time.
     bnd unpack_file_time (\<lambda>last_access_time.
     bnd unpack_file_time (\<lambda>last_write_time.
     bnd unpack_file_time (\<lambda>change_time.
     bnd read_u64_le (\<lambda>allocation_size.
     bnd read_u64_le (\<lambda>end_of_file.
     bnd read_u32_le (\<lambda>file_attributes.
     ret \<lparr>
       clr_flags = flags,
       clr_creation_time = creation_time,
       clr_last_access_time = last_access_time,
       clr_last_write_time = last_write_time,
       clr_change_time = change_time,
       clr_allocation_size = allocation_size,
       clr_end_of_file = end_of_file,
       clr_file_attributes = file_attributes\<rparr>))))))))))"

interpretation close_response: exact_codec pack_close_response unpack_close_response "\<lambda>_. True"
  by unfold_locales
    (auto simp: pack_close_response_def unpack_close_response_def wr_simps rd_simps
      intro!: safe_intros)

section \<open>SESSION_SETUP\<close>

definition SSF_BINDING :: u8 where "SSF_BINDING = 0x01"
definition SF_IS_GUEST :: u16 where "SF_IS_GUEST = 0x0001"
definition SF_IS_NULL :: u16 where "SF_IS_NULL = 0x0002"
definition SF_ENCRYPT_DATA :: u16 where "SF_ENCRYPT_DATA = 0x0004"

definition is_binding :: "u8 \<Rightarrow> bool" where
  "is_binding fl \<longleftrightarrow> fl AND SSF_BINDING \<noteq> 0"

definition is_guest :: "u16 \<Rightarrow> bool" where
  "is_guest fl \<longleftrightarrow> fl AND SF_IS_GUEST \<noteq> 0"

definition is_null :: "u16 \<Rightarrow> bool" where
  "is_null fl \<longleftrightarrow> fl AND SF_IS_NULL \<noteq> 0"

definition encrypt_data :: "u16 \<Rightarrow> bool" where
  "encrypt_data fl \<longleftrightarrow> fl AND SF_ENCRYPT_DATA \<noteq> 0"

record session_setup_request =
  ssq_flags :: u8
  ssq_security_mode :: u16
  ssq_capabilities :: u32
  ssq_channel :: u32
  ssq_previous_session_id :: u64
  ssq_security_buffer :: bytes

definition session_setup_request_STRUCTURE_SIZE :: u16 where
  "session_setup_request_STRUCTURE_SIZE = 25"

definition pack_session_setup_request :: "session_setup_request \<Rightarrow> unit writer" where
  "pack_session_setup_request r = seq [
     write_u16_le session_setup_request_STRUCTURE_SIZE,
     write_u8 (ssq_flags r),
     write_u8 (ucast (ssq_security_mode r)),
     write_u32_le (ssq_capabilities r),
     write_u32_le (ssq_channel r),
     write_u16_le (word_of_nat (header_SIZE + 24)),
     write_u16_le (word_of_nat (length (ssq_security_buffer r))),
     write_u64_le (ssq_previous_session_id r),
     write_bytes (ssq_security_buffer r)]"

definition unpack_session_setup_request :: "session_setup_request reader" where
  "unpack_session_setup_request =
     bnd (check_size session_setup_request_STRUCTURE_SIZE) (\<lambda>_.
     bnd read_u8 (\<lambda>flags.
     bnd read_u8 (\<lambda>security_mode.
     bnd read_u32_le (\<lambda>capabilities.
     bnd read_u32_le (\<lambda>channel.
     bnd read_u16_le (\<lambda>_.
     bnd read_u16_le (\<lambda>buffer_length.
     bnd read_u64_le (\<lambda>previous_session_id.
     bnd (read_buffer (unat buffer_length)) (\<lambda>security_buffer.
     ret \<lparr>
       ssq_flags = flags,
       ssq_security_mode = ucast security_mode,
       ssq_capabilities = capabilities,
       ssq_channel = channel,
       ssq_previous_session_id = previous_session_id,
       ssq_security_buffer = security_buffer\<rparr>)))))))))"

text \<open>
  The mode travels as one byte and the buffer length as two, so only these values survive
  the round trip.
\<close>

definition wf_session_setup_request :: "session_setup_request \<Rightarrow> bool" where
  "wf_session_setup_request r \<longleftrightarrow>
     unat (ssq_security_mode r) < 256 \<and> length (ssq_security_buffer r) < 65536"

lemma ucast_u8_u16: "unat (m :: u16) < 256 \<Longrightarrow> (ucast (ucast m :: u8) :: u16) = m"
  by (simp add: word_unat_eq_iff unsigned_ucast_eq unsigned_take_bit_eq take_bit_nat_eq_self)

interpretation session_setup_request:
  exact_codec pack_session_setup_request unpack_session_setup_request wf_session_setup_request
  by unfold_locales
    (auto simp: pack_session_setup_request_def unpack_session_setup_request_def
      wf_session_setup_request_def ucast_u8_u16 wr_simps rd_simps intro!: safe_intros)

record session_setup_response =
  ssr_session_flags :: u16
  ssr_security_buffer :: bytes

definition session_setup_response_STRUCTURE_SIZE :: u16 where
  "session_setup_response_STRUCTURE_SIZE = 9"

definition pack_session_setup_response :: "session_setup_response \<Rightarrow> unit writer" where
  "pack_session_setup_response r = seq [
     write_u16_le session_setup_response_STRUCTURE_SIZE,
     write_u16_le (ssr_session_flags r),
     write_u16_le (word_of_nat (header_SIZE + 8)),
     write_u16_le (word_of_nat (length (ssr_security_buffer r))),
     write_bytes (ssr_security_buffer r)]"

definition unpack_session_setup_response :: "session_setup_response reader" where
  "unpack_session_setup_response =
     bnd (check_size session_setup_response_STRUCTURE_SIZE) (\<lambda>_.
     bnd read_u16_le (\<lambda>session_flags.
     bnd read_u16_le (\<lambda>_.
     bnd read_u16_le (\<lambda>buffer_length.
     bnd (read_buffer (unat buffer_length)) (\<lambda>security_buffer.
     ret \<lparr>ssr_session_flags = session_flags, ssr_security_buffer = security_buffer\<rparr>)))))"

definition wf_session_setup_response :: "session_setup_response \<Rightarrow> bool" where
  "wf_session_setup_response r \<longleftrightarrow> length (ssr_security_buffer r) < 65536"

interpretation session_setup_response:
  exact_codec pack_session_setup_response unpack_session_setup_response wf_session_setup_response
  by unfold_locales
    (auto simp: pack_session_setup_response_def unpack_session_setup_response_def
      wf_session_setup_response_def wr_simps rd_simps intro!: safe_intros)

section \<open>TREE_CONNECT\<close>

datatype share_type = Disk | Pipe | Print

fun share_type_code :: "share_type \<Rightarrow> u8" where
  "share_type_code Disk = 0x01"
| "share_type_code Pipe = 0x02"
| "share_type_code Print = 0x03"

definition share_type_try_from_u8 :: "u8 \<Rightarrow> share_type res" where
  "share_type_try_from_u8 v =
     (if v = 0x01 then Ok Disk
      else if v = 0x02 then Ok Pipe
      else if v = 0x03 then Ok Print
      else Err (InvalidData (BadEnumValue (ucast v))))"

lemma share_type_try_from_code [simp]: "share_type_try_from_u8 (share_type_code t) = Ok t"
  by (cases t) (simp_all add: share_type_try_from_u8_def)

lemma safe_share_type [safe_intros]: "safe p (lift (share_type_try_from_u8 v))"
  by (rule safe_lift) (auto simp: share_type_try_from_u8_def split: if_splits)

record tree_connect_request =
  tcq_flags :: u16
  tcq_path :: rstring

definition tree_connect_request_STRUCTURE_SIZE :: u16 where
  "tree_connect_request_STRUCTURE_SIZE = 9"

definition pack_tree_connect_request :: "tree_connect_request \<Rightarrow> unit writer" where
  "pack_tree_connect_request r = seq [
     write_u16_le tree_connect_request_STRUCTURE_SIZE,
     write_u16_le (tcq_flags r),
     write_u16_le (word_of_nat (header_SIZE + 8)),
     write_u16_le (word_of_nat (length (encode_utf16 (tcq_path r)) * 2)),
     write_utf16_le (tcq_path r)]"

definition unpack_tree_connect_request :: "tree_connect_request reader" where
  "unpack_tree_connect_request =
     bnd (check_size tree_connect_request_STRUCTURE_SIZE) (\<lambda>_.
     bnd read_u16_le (\<lambda>flags.
     bnd read_u16_le (\<lambda>_.
     bnd read_u16_le (\<lambda>path_length.
     bnd (guard (\<not> unat path_length > MAX_UNPACK_BUFFER)
            (InvalidData (BufferTooLarge (unat path_length)))) (\<lambda>_.
     bnd (read_utf16_le (unat path_length)) (\<lambda>path.
     ret \<lparr>tcq_flags = flags, tcq_path = path\<rparr>))))))"

definition wf_tree_connect_request :: "tree_connect_request \<Rightarrow> bool" where
  "wf_tree_connect_request r \<longleftrightarrow>
     valid_str (tcq_path r) \<and> 2 * length (encode_utf16 (tcq_path r)) < 65536"

interpretation tree_connect_request:
  exact_codec pack_tree_connect_request unpack_tree_connect_request wf_tree_connect_request
  by unfold_locales
    (auto simp: pack_tree_connect_request_def unpack_tree_connect_request_def
      wf_tree_connect_request_def MAX_UNPACK_BUFFER_def mult.commute [of _ 2] wr_simps rd_simps
      simp del: of_nat_mult intro!: safe_intros)

record tree_connect_response =
  tcr_share_type :: share_type
  tcr_share_flags :: u32
  tcr_capabilities :: u32
  tcr_maximal_access :: u32

definition tree_connect_response_STRUCTURE_SIZE :: u16 where
  "tree_connect_response_STRUCTURE_SIZE = 16"

definition pack_tree_connect_response :: "tree_connect_response \<Rightarrow> unit writer" where
  "pack_tree_connect_response r = seq [
     write_u16_le tree_connect_response_STRUCTURE_SIZE,
     write_u8 (share_type_code (tcr_share_type r)),
     write_u8 0,
     write_u32_le (tcr_share_flags r),
     write_u32_le (tcr_capabilities r),
     write_u32_le (tcr_maximal_access r)]"

definition unpack_tree_connect_response :: "tree_connect_response reader" where
  "unpack_tree_connect_response =
     bnd (check_size tree_connect_response_STRUCTURE_SIZE) (\<lambda>_.
     bnd read_u8 (\<lambda>raw.
     bnd (lift (share_type_try_from_u8 raw)) (\<lambda>share_type.
     bnd read_u8 (\<lambda>_.
     bnd read_u32_le (\<lambda>share_flags.
     bnd read_u32_le (\<lambda>capabilities.
     bnd read_u32_le (\<lambda>maximal_access.
     ret \<lparr>
       tcr_share_type = share_type,
       tcr_share_flags = share_flags,
       tcr_capabilities = capabilities,
       tcr_maximal_access = maximal_access\<rparr>)))))))"

interpretation tree_connect_response:
  exact_codec pack_tree_connect_response unpack_tree_connect_response "\<lambda>_. True"
  by unfold_locales
    (auto simp: pack_tree_connect_response_def unpack_tree_connect_response_def wr_simps rd_simps
      intro!: safe_intros)

end
