(* ===== verification/Smb_Msg_File.thy ===== *)
theory Smb_Msg_File
  imports Smb_Msg_Session
begin

text \<open>
  The messages that work on an open file: READ, WRITE, LOCK, IOCTL, oplock breaks,
  QUERY_INFO, SET_INFO, QUERY_DIRECTORY and CHANGE_NOTIFY (\<open>src/msg/\<close>). The ones with a
  buffer behind an offset write the offset as a placeholder and patch it afterwards; their
  parsers follow the offset with \<open>seek_body\<close>.
\<close>

section \<open>Offsets from the header\<close>

text \<open>\<open>Header::SIZE + (cursor.position() - start)\<close>.\<close>

definition offset_from_header :: "usize \<Rightarrow> usize writer" where
  "offset_from_header start =
     bnd wc_position (\<lambda>p. bnd (lift (usub p start)) (\<lambda>d. ret (header_SIZE + d)))"

text \<open>
  The block that moves a read cursor to \<open>start + offset.saturating_sub(Header::SIZE)\<close>, never
  backwards.
\<close>

definition seek_body :: "usize \<Rightarrow> usize \<Rightarrow> unit reader" where
  "seek_body start offset =
     bnd position (\<lambda>current.
       let target = start + (offset - header_SIZE) in
       if target > current then skip (target - current) else ret ())"

lemma seek_body_here [rd_simps]:
  "start + (offset - header_SIZE) \<le> length pre \<Longrightarrow> seek_body start offset (cur pre post) = Ok ((), cur pre post)"
  by (simp add: seek_body_def rd_simps)

lemma seek_body_pad [rd_simps]:
  "start + (offset - header_SIZE) = length pre + n \<Longrightarrow>
   seek_body start offset (cur pre (replicate n 0 @ post)) = Ok ((), cur (pre @ replicate n 0) post)"
  by (auto simp: seek_body_def rd_simps)

lemma offset_from_header_apply [wr_simps]:
  "start \<le> length w \<Longrightarrow> offset_from_header start w = Ok (header_SIZE + (length w - start), w)"
  by (simp add: offset_from_header_def wr_simps usub_def)

lemma safe_seek_body [safe_intros]: "safe p (seek_body start offset)"
  by (auto simp: seek_body_def intro!: safe_intros)

lemma set_at_apply [wr_simps]:
  "set_u16_le_at p v w = (if p + 2 \<le> length w then Ok ((), take p w @ to_le_bytes v @ drop (p + 2) w) else Panic)"
  "set_u32_le_at p u w = (if p + 4 \<le> length w then Ok ((), take p w @ to_le_bytes u @ drop (p + 4) w) else Panic)"
  by (simp_all add: set_u16_le_at_def set_u32_le_at_def overwrite_at_def)

section \<open>READ\<close>

record read_request =
  rdq_padding :: u8
  rdq_flags :: u8
  rdq_length :: u32
  rdq_offset :: u64
  rdq_file_id :: file_id
  rdq_minimum_count :: u32
  rdq_channel :: u32
  rdq_remaining_bytes :: u32
  rdq_read_channel_info :: bytes

definition read_request_STRUCTURE_SIZE :: u16 where
  "read_request_STRUCTURE_SIZE = 49"

definition pack_read_request :: "read_request \<Rightarrow> unit writer" where
  "pack_read_request r = seq [
     write_u16_le read_request_STRUCTURE_SIZE,
     write_u8 (rdq_padding r),
     write_u8 (rdq_flags r),
     write_u32_le (rdq_length r),
     write_u64_le (rdq_offset r),
     write_file_id (rdq_file_id r),
     write_u32_le (rdq_minimum_count r),
     write_u32_le (rdq_channel r),
     write_u32_le (rdq_remaining_bytes r),
     (if rdq_read_channel_info r = []
      then seq [write_u16_le 0, write_u16_le 0]
      else seq [write_u16_le 0, write_u16_le (word_of_nat (length (rdq_read_channel_info r)))]),
     (if rdq_read_channel_info r = []
      then write_u8 0
      else write_bytes (rdq_read_channel_info r))]"

definition unpack_read_request :: "read_request reader" where
  "unpack_read_request =
     bnd (check_size read_request_STRUCTURE_SIZE) (\<lambda>_.
     bnd read_u8 (\<lambda>padding.
     bnd read_u8 (\<lambda>flags.
     bnd read_u32_le (\<lambda>len.
     bnd read_u64_le (\<lambda>offset.
     bnd read_file_id (\<lambda>f.
     bnd read_u32_le (\<lambda>minimum_count.
     bnd read_u32_le (\<lambda>channel.
     bnd read_u32_le (\<lambda>remaining_bytes.
     bnd read_u16_le (\<lambda>_.
     bnd read_u16_le (\<lambda>info_length.
     bnd (if info_length > 0 then read_bytes (unat info_length)
          else bnd (skip 1) (\<lambda>_. ret [])) (\<lambda>read_channel_info.
     ret \<lparr>
       rdq_padding = padding,
       rdq_flags = flags,
       rdq_length = len,
       rdq_offset = offset,
       rdq_file_id = f,
       rdq_minimum_count = minimum_count,
       rdq_channel = channel,
       rdq_remaining_bytes = remaining_bytes,
       rdq_read_channel_info = read_channel_info\<rparr>))))))))))))"

definition wf_read_request :: "read_request \<Rightarrow> bool" where
  "wf_read_request r \<longleftrightarrow> length (rdq_read_channel_info r) < 65536"

lemma word_of_nat_pos_u16: "n < 65536 \<Longrightarrow> (0 :: u16) < word_of_nat n \<longleftrightarrow> 0 < n"
  by (simp add: word_less_nat_alt)

lemma word_of_nat_pos_u32: "n \<le> MAX_UNPACK_BUFFER \<Longrightarrow> (0 :: u32) < word_of_nat n \<longleftrightarrow> 0 < n"
  by (simp add: word_less_nat_alt)

lemma skip_one_cur [rd_simps]: "skip (Suc 0) (cur pre (b # post)) = Ok ((), cur (pre @ [b]) post)"
  using skip_cur [of "[b]" "Suc 0" pre post] by simp

interpretation read_request: exact_codec pack_read_request unpack_read_request wf_read_request
  by unfold_locales
    (auto simp: pack_read_request_def unpack_read_request_def wf_read_request_def
      word_of_nat_pos_u16 wr_simps rd_simps split: if_splits intro!: safe_intros)

record read_response =
  rdr_data_offset :: u8
  rdr_data_remaining :: u32
  rdr_flags :: u32
  rdr_data :: bytes

definition read_response_STRUCTURE_SIZE :: u16 where
  "read_response_STRUCTURE_SIZE = 17"

definition pack_read_response :: "read_response \<Rightarrow> unit writer" where
  "pack_read_response r = seq [
     write_u16_le read_response_STRUCTURE_SIZE,
     write_u8 (rdr_data_offset r),
     write_u8 0,
     write_u32_le (word_of_nat (length (rdr_data r))),
     write_u32_le (rdr_data_remaining r),
     write_u32_le (rdr_flags r),
     write_bytes (rdr_data r)]"

definition unpack_read_response :: "read_response reader" where
  "unpack_read_response =
     bnd (check_size read_response_STRUCTURE_SIZE) (\<lambda>_.
     bnd read_u8 (\<lambda>data_offset.
     bnd read_u8 (\<lambda>_.
     bnd read_u32_le (\<lambda>data_length.
     bnd read_u32_le (\<lambda>data_remaining.
     bnd read_u32_le (\<lambda>flags.
     bnd (read_buffer (unat data_length)) (\<lambda>data.
     ret \<lparr>
       rdr_data_offset = data_offset,
       rdr_data_remaining = data_remaining,
       rdr_flags = flags,
       rdr_data = data\<rparr>)))))))"

definition wf_read_response :: "read_response \<Rightarrow> bool" where
  "wf_read_response r \<longleftrightarrow> length (rdr_data r) \<le> MAX_UNPACK_BUFFER"

interpretation read_response: exact_codec pack_read_response unpack_read_response wf_read_response
  by unfold_locales
    (auto simp: pack_read_response_def unpack_read_response_def wf_read_response_def
      wr_simps rd_simps intro!: safe_intros)

section \<open>WRITE\<close>

record write_request =
  wrq_data_offset :: u16
  wrq_offset :: u64
  wrq_file_id :: file_id
  wrq_channel :: u32
  wrq_remaining_bytes :: u32
  wrq_write_channel_info_offset :: u16
  wrq_write_channel_info_length :: u16
  wrq_flags :: u32
  wrq_data :: bytes

definition write_request_STRUCTURE_SIZE :: u16 where
  "write_request_STRUCTURE_SIZE = 49"

definition pack_write_request :: "write_request \<Rightarrow> unit writer" where
  "pack_write_request r = seq [
     write_u16_le write_request_STRUCTURE_SIZE,
     write_u16_le (wrq_data_offset r),
     write_u32_le (word_of_nat (length (wrq_data r))),
     write_u64_le (wrq_offset r),
     write_file_id (wrq_file_id r),
     write_u32_le (wrq_channel r),
     write_u32_le (wrq_remaining_bytes r),
     write_u16_le (wrq_write_channel_info_offset r),
     write_u16_le (wrq_write_channel_info_length r),
     write_u32_le (wrq_flags r),
     (if wrq_data r = [] then write_u8 0 else write_bytes (wrq_data r))]"

definition unpack_write_request :: "write_request reader" where
  "unpack_write_request =
     bnd (check_size write_request_STRUCTURE_SIZE) (\<lambda>_.
     bnd read_u16_le (\<lambda>data_offset.
     bnd read_u32_le (\<lambda>len.
     bnd read_u64_le (\<lambda>offset.
     bnd read_file_id (\<lambda>f.
     bnd read_u32_le (\<lambda>channel.
     bnd read_u32_le (\<lambda>remaining_bytes.
     bnd read_u16_le (\<lambda>info_offset.
     bnd read_u16_le (\<lambda>info_length.
     bnd read_u32_le (\<lambda>flags.
     bnd (if len > 0 then read_bytes_bounded (unat len)
          else bnd (skip 1) (\<lambda>_. ret [])) (\<lambda>data.
     ret \<lparr>
       wrq_data_offset = data_offset,
       wrq_offset = offset,
       wrq_file_id = f,
       wrq_channel = channel,
       wrq_remaining_bytes = remaining_bytes,
       wrq_write_channel_info_offset = info_offset,
       wrq_write_channel_info_length = info_length,
       wrq_flags = flags,
       wrq_data = data\<rparr>)))))))))))"

definition wf_write_request :: "write_request \<Rightarrow> bool" where
  "wf_write_request r \<longleftrightarrow> length (wrq_data r) \<le> MAX_UNPACK_BUFFER"

interpretation write_request: exact_codec pack_write_request unpack_write_request wf_write_request
  by unfold_locales
    (auto simp: pack_write_request_def unpack_write_request_def wf_write_request_def
      word_of_nat_pos_u32 wr_simps rd_simps split: if_splits intro!: safe_intros)

record write_response =
  wrr_count :: u32
  wrr_remaining :: u32
  wrr_write_channel_info_offset :: u16
  wrr_write_channel_info_length :: u16

definition write_response_STRUCTURE_SIZE :: u16 where
  "write_response_STRUCTURE_SIZE = 17"

definition pack_write_response :: "write_response \<Rightarrow> unit writer" where
  "pack_write_response r = seq [
     write_u16_le write_response_STRUCTURE_SIZE,
     write_u16_le 0,
     write_u32_le (wrr_count r),
     write_u32_le (wrr_remaining r),
     write_u16_le (wrr_write_channel_info_offset r),
     write_u16_le (wrr_write_channel_info_length r)]"

definition unpack_write_response :: "write_response reader" where
  "unpack_write_response =
     bnd (check_size write_response_STRUCTURE_SIZE) (\<lambda>_.
     bnd read_u16_le (\<lambda>_.
     bnd read_u32_le (\<lambda>count.
     bnd read_u32_le (\<lambda>remaining.
     bnd read_u16_le (\<lambda>info_offset.
     bnd read_u16_le (\<lambda>info_length.
     ret \<lparr>
       wrr_count = count,
       wrr_remaining = remaining,
       wrr_write_channel_info_offset = info_offset,
       wrr_write_channel_info_length = info_length\<rparr>))))))"

interpretation write_response: exact_codec pack_write_response unpack_write_response "\<lambda>_. True"
  by unfold_locales
    (auto simp: pack_write_response_def unpack_write_response_def wr_simps rd_simps
      intro!: safe_intros)

section \<open>LOCK\<close>

record lock_element =
  le_offset :: u64
  le_length :: u64
  le_flags :: u32

definition pack_lock_element :: "lock_element \<Rightarrow> unit writer" where
  "pack_lock_element l = seq [
     write_u64_le (le_offset l),
     write_u64_le (le_length l),
     write_u32_le (le_flags l),
     write_u32_le 0]"

definition unpack_lock_element :: "lock_element reader" where
  "unpack_lock_element =
     bnd read_u64_le (\<lambda>offset.
     bnd read_u64_le (\<lambda>len.
     bnd read_u32_le (\<lambda>flags.
     bnd read_u32_le (\<lambda>_.
     ret \<lparr>le_offset = offset, le_length = len, le_flags = flags\<rparr>))))"

lemma safe_unpack_lock_element [safe_intros]: "safe p unpack_lock_element"
  by (auto simp: unpack_lock_element_def intro!: safe_intros)

definition lock_element_bytes :: "lock_element \<Rightarrow> bytes" where
  "lock_element_bytes l =
     to_le_bytes (le_offset l) @ to_le_bytes (le_length l) @ to_le_bytes (le_flags l) @ to_le_bytes (0 :: u32)"

lemma pack_lock_element_apply [wr_simps]: "pack_lock_element l w = Ok ((), w @ lock_element_bytes l)"
  by (simp add: pack_lock_element_def lock_element_bytes_def wr_simps)

lemma unpack_lock_element_cur [rd_simps]:
  "unpack_lock_element (cur pre (lock_element_bytes l @ post)) = Ok (l, cur (pre @ lock_element_bytes l) post)"
  by (simp add: unpack_lock_element_def lock_element_bytes_def rd_simps)

interpretation lock_element: exact_codec pack_lock_element unpack_lock_element "\<lambda>_. True"
  by unfold_locales (auto simp: wr_simps rd_simps intro!: safe_intros)

record lock_request =
  lkq_lock_sequence :: u32
  lkq_file_id :: file_id
  lkq_locks :: "lock_element list"

definition lock_request_STRUCTURE_SIZE :: u16 where
  "lock_request_STRUCTURE_SIZE = 48"

definition pack_lock_request :: "lock_request \<Rightarrow> unit writer" where
  "pack_lock_request r = seq [
     write_u16_le lock_request_STRUCTURE_SIZE,
     write_u16_le (word_of_nat (length (lkq_locks r))),
     write_u32_le (lkq_lock_sequence r),
     write_file_id (lkq_file_id r),
     seq (map pack_lock_element (lkq_locks r))]"

definition unpack_lock_request :: "lock_request reader" where
  "unpack_lock_request =
     bnd (check_size lock_request_STRUCTURE_SIZE) (\<lambda>_.
     bnd read_u16_le (\<lambda>lock_count.
     bnd read_u32_le (\<lambda>lock_sequence.
     bnd read_file_id (\<lambda>f.
     bnd (repeat (unat lock_count) unpack_lock_element) (\<lambda>locks.
     ret \<lparr>lkq_lock_sequence = lock_sequence, lkq_file_id = f, lkq_locks = locks\<rparr>)))))"

definition wf_lock_request :: "lock_request \<Rightarrow> bool" where
  "wf_lock_request r \<longleftrightarrow> length (lkq_locks r) < 65536"

lemmas lock_list_apply = seq_map_pack [of _ pack_lock_element lock_element_bytes, OF pack_lock_element_apply]
lemmas lock_list_cur = repeat_unpack [of _ unpack_lock_element lock_element_bytes, OF unpack_lock_element_cur]

interpretation lock_request: exact_codec pack_lock_request unpack_lock_request wf_lock_request
  by unfold_locales
    (auto simp: pack_lock_request_def unpack_lock_request_def wf_lock_request_def
      lock_list_apply lock_list_cur wr_simps rd_simps intro!: safe_intros)

section \<open>IOCTL\<close>

definition FSCTL_PIPE_TRANSCEIVE :: u32 where "FSCTL_PIPE_TRANSCEIVE = 0x0011C017"
definition FSCTL_SRV_COPYCHUNK :: u32 where "FSCTL_SRV_COPYCHUNK = 0x001440F2"
definition FSCTL_SRV_REQUEST_RESUME_KEY :: u32 where "FSCTL_SRV_REQUEST_RESUME_KEY = 0x00140078"
definition FSCTL_DFS_GET_REFERRALS :: u32 where "FSCTL_DFS_GET_REFERRALS = 0x00060194"

record ioctl_request =
  ioq_ctl_code :: u32
  ioq_file_id :: file_id
  ioq_max_input_response :: u32
  ioq_max_output_response :: u32
  ioq_flags :: u32
  ioq_input_data :: bytes

definition ioctl_request_STRUCTURE_SIZE :: u16 where
  "ioctl_request_STRUCTURE_SIZE = 57"

definition ioctl_request_FIXED_SIZE :: u32 where
  "ioctl_request_FIXED_SIZE = 56"

definition pack_ioctl_request :: "ioctl_request \<Rightarrow> unit writer" where
  "pack_ioctl_request r =
     bnd wc_position (\<lambda>start.
       let input_count = word_of_nat (length (ioq_input_data r)) :: u32;
           input_offset = (if input_count > 0 then word_of_nat start + ioctl_request_FIXED_SIZE else 0)
       in seq [
         write_u16_le ioctl_request_STRUCTURE_SIZE,
         write_u16_le 0,
         write_u32_le (ioq_ctl_code r),
         write_file_id (ioq_file_id r),
         write_u32_le input_offset,
         write_u32_le input_count,
         write_u32_le (ioq_max_input_response r),
         write_u32_le 0,
         write_u32_le 0,
         write_u32_le (ioq_max_output_response r),
         write_u32_le (ioq_flags r),
         write_u32_le 0,
         write_bytes (ioq_input_data r)])"

definition unpack_ioctl_request :: "ioctl_request reader" where
  "unpack_ioctl_request =
     bnd (check_size ioctl_request_STRUCTURE_SIZE) (\<lambda>_.
     bnd read_u16_le (\<lambda>_.
     bnd read_u32_le (\<lambda>ctl_code.
     bnd read_file_id (\<lambda>f.
     bnd read_u32_le (\<lambda>_.
     bnd read_u32_le (\<lambda>input_count.
     bnd read_u32_le (\<lambda>max_input_response.
     bnd read_u32_le (\<lambda>_.
     bnd read_u32_le (\<lambda>_.
     bnd read_u32_le (\<lambda>max_output_response.
     bnd read_u32_le (\<lambda>flags.
     bnd read_u32_le (\<lambda>_.
     bnd (read_buffer (unat input_count)) (\<lambda>input_data.
     ret \<lparr>
       ioq_ctl_code = ctl_code,
       ioq_file_id = f,
       ioq_max_input_response = max_input_response,
       ioq_max_output_response = max_output_response,
       ioq_flags = flags,
       ioq_input_data = input_data\<rparr>)))))))))))))"

definition wf_ioctl_request :: "ioctl_request \<Rightarrow> bool" where
  "wf_ioctl_request r \<longleftrightarrow> length (ioq_input_data r) \<le> MAX_UNPACK_BUFFER"

interpretation ioctl_request: exact_codec pack_ioctl_request unpack_ioctl_request wf_ioctl_request
  by unfold_locales
    (auto simp: pack_ioctl_request_def unpack_ioctl_request_def wf_ioctl_request_def Let_def
      wr_simps rd_simps intro!: safe_intros)

record ioctl_response =
  ior_ctl_code :: u32
  ior_file_id :: file_id
  ior_flags :: u32
  ior_output_data :: bytes

definition ioctl_response_STRUCTURE_SIZE :: u16 where
  "ioctl_response_STRUCTURE_SIZE = 49"

definition ioctl_response_FIXED_SIZE :: u32 where
  "ioctl_response_FIXED_SIZE = 48"

definition pack_ioctl_response :: "ioctl_response \<Rightarrow> unit writer" where
  "pack_ioctl_response r =
     bnd wc_position (\<lambda>start.
       let output_count = word_of_nat (length (ior_output_data r)) :: u32;
           output_offset = (if output_count > 0 then word_of_nat start + ioctl_response_FIXED_SIZE else 0)
       in seq [
         write_u16_le ioctl_response_STRUCTURE_SIZE,
         write_u16_le 0,
         write_u32_le (ior_ctl_code r),
         write_file_id (ior_file_id r),
         write_u32_le 0,
         write_u32_le 0,
         write_u32_le output_offset,
         write_u32_le output_count,
         write_u32_le (ior_flags r),
         write_u32_le 0,
         write_bytes (ior_output_data r)])"

definition unpack_ioctl_response :: "ioctl_response reader" where
  "unpack_ioctl_response =
     bnd (check_size ioctl_response_STRUCTURE_SIZE) (\<lambda>_.
     bnd read_u16_le (\<lambda>_.
     bnd read_u32_le (\<lambda>ctl_code.
     bnd read_file_id (\<lambda>f.
     bnd read_u32_le (\<lambda>_.
     bnd read_u32_le (\<lambda>_.
     bnd read_u32_le (\<lambda>_.
     bnd read_u32_le (\<lambda>output_count.
     bnd read_u32_le (\<lambda>flags.
     bnd read_u32_le (\<lambda>_.
     bnd (read_buffer (unat output_count)) (\<lambda>output_data.
     ret \<lparr>
       ior_ctl_code = ctl_code,
       ior_file_id = f,
       ior_flags = flags,
       ior_output_data = output_data\<rparr>)))))))))))"

definition wf_ioctl_response :: "ioctl_response \<Rightarrow> bool" where
  "wf_ioctl_response r \<longleftrightarrow> length (ior_output_data r) \<le> MAX_UNPACK_BUFFER"

interpretation ioctl_response:
  exact_codec pack_ioctl_response unpack_ioctl_response wf_ioctl_response
  by unfold_locales
    (auto simp: pack_ioctl_response_def unpack_ioctl_response_def wf_ioctl_response_def Let_def
      wr_simps rd_simps intro!: safe_intros)

section \<open>Oplock breaks\<close>

record oplock_break =
  ob_oplock_level :: oplock_level
  ob_file_id :: file_id

definition oplock_break_STRUCTURE_SIZE :: u16 where
  "oplock_break_STRUCTURE_SIZE = 24"

definition pack_oplock_break :: "oplock_break \<Rightarrow> unit writer" where
  "pack_oplock_break r = seq [
     write_u16_le oplock_break_STRUCTURE_SIZE,
     write_u8 (oplock_level_code (ob_oplock_level r)),
     write_u8 0,
     write_u32_le 0,
     write_file_id (ob_file_id r)]"

definition unpack_oplock_break :: "oplock_break reader" where
  "unpack_oplock_break =
     bnd (check_size oplock_break_STRUCTURE_SIZE) (\<lambda>_.
     bnd read_u8 (\<lambda>raw.
     bnd (lift (oplock_level_try_from raw)) (\<lambda>level.
     bnd read_u8 (\<lambda>_.
     bnd read_u32_le (\<lambda>_.
     bnd read_file_id (\<lambda>f.
     ret \<lparr>ob_oplock_level = level, ob_file_id = f\<rparr>))))))"

interpretation oplock_break: exact_codec pack_oplock_break unpack_oplock_break "\<lambda>_. True"
  by unfold_locales
    (auto simp: pack_oplock_break_def unpack_oplock_break_def wr_simps rd_simps intro!: safe_intros)

section \<open>QUERY_INFO and SET_INFO\<close>

datatype info_type = InfoFile | InfoFilesystem | InfoSecurity | InfoQuota

fun info_type_code :: "info_type \<Rightarrow> u8" where
  "info_type_code InfoFile = 0x01"
| "info_type_code InfoFilesystem = 0x02"
| "info_type_code InfoSecurity = 0x03"
| "info_type_code InfoQuota = 0x04"

definition info_type_try_from :: "u8 \<Rightarrow> info_type res" where
  "info_type_try_from v =
     (if v = 0x01 then Ok InfoFile
      else if v = 0x02 then Ok InfoFilesystem
      else if v = 0x03 then Ok InfoSecurity
      else if v = 0x04 then Ok InfoQuota
      else Err (InvalidData (BadEnumValue (ucast v))))"

lemma info_type_try_from_code [simp]: "info_type_try_from (info_type_code t) = Ok t"
  by (cases t) (simp_all add: info_type_try_from_def)

lemma safe_info_type [safe_intros]: "safe p (lift (info_type_try_from v))"
  by (rule safe_lift) (auto simp: info_type_try_from_def split: if_splits)

record query_info_request =
  qiq_info_type :: info_type
  qiq_file_info_class :: u8
  qiq_output_buffer_length :: u32
  qiq_additional_information :: u32
  qiq_flags :: u32
  qiq_file_id :: file_id
  qiq_input_buffer :: bytes

definition query_info_request_STRUCTURE_SIZE :: u16 where
  "query_info_request_STRUCTURE_SIZE = 41"

definition pack_query_info_request :: "query_info_request \<Rightarrow> unit writer" where
  "pack_query_info_request r =
     bnd wc_position (\<lambda>start. seq [
       write_u16_le query_info_request_STRUCTURE_SIZE,
       write_u8 (info_type_code (qiq_info_type r)),
       write_u8 (qiq_file_info_class r),
       write_u32_le (qiq_output_buffer_length r),
       bnd wc_position (\<lambda>input_offset_pos. seq [
         write_u16_le 0,
         write_u16_le 0,
         write_u32_le (word_of_nat (length (qiq_input_buffer r))),
         write_u32_le (qiq_additional_information r),
         write_u32_le (qiq_flags r),
         write_file_id (qiq_file_id r),
         (if qiq_input_buffer r \<noteq> []
          then bnd (offset_from_header start) (\<lambda>buf_offset. seq [
                 write_bytes (qiq_input_buffer r),
                 set_u16_le_at input_offset_pos (word_of_nat buf_offset)])
          else ret ())])])"

definition unpack_query_info_request :: "query_info_request reader" where
  "unpack_query_info_request =
     bnd position (\<lambda>start.
     bnd (check_size query_info_request_STRUCTURE_SIZE) (\<lambda>_.
     bnd read_u8 (\<lambda>raw.
     bnd (lift (info_type_try_from raw)) (\<lambda>info_type.
     bnd read_u8 (\<lambda>file_info_class.
     bnd read_u32_le (\<lambda>output_buffer_length.
     bnd read_u16_le (\<lambda>input_offset.
     bnd read_u16_le (\<lambda>_.
     bnd read_u32_le (\<lambda>input_length.
     bnd read_u32_le (\<lambda>additional_information.
     bnd read_u32_le (\<lambda>flags.
     bnd read_file_id (\<lambda>f.
     bnd (if unat input_length > 0
          then bnd (seek_body start (unat input_offset)) (\<lambda>_. read_bytes_bounded (unat input_length))
          else ret []) (\<lambda>input_buffer.
     ret \<lparr>
       qiq_info_type = info_type,
       qiq_file_info_class = file_info_class,
       qiq_output_buffer_length = output_buffer_length,
       qiq_additional_information = additional_information,
       qiq_flags = flags,
       qiq_file_id = f,
       qiq_input_buffer = input_buffer\<rparr>)))))))))))))"

definition wf_query_info_request :: "query_info_request \<Rightarrow> bool" where
  "wf_query_info_request r \<longleftrightarrow> length (qiq_input_buffer r) \<le> MAX_UNPACK_BUFFER"

interpretation query_info_request:
  exact_codec pack_query_info_request unpack_query_info_request wf_query_info_request
  by unfold_locales
    (auto simp: pack_query_info_request_def unpack_query_info_request_def
      wf_query_info_request_def header_SIZE_def wr_simps rd_simps split: if_splits
      intro!: safe_intros)

text \<open>\<open>QueryInfoResponse\<close> and \<open>QueryDirectoryResponse\<close> have the same fields and code.\<close>

record output_response =
  or_output_buffer :: bytes

type_synonym query_info_response = output_response
type_synonym query_directory_response = output_response

definition output_response_STRUCTURE_SIZE :: u16 where
  "output_response_STRUCTURE_SIZE = 9"

definition pack_output_response :: "output_response \<Rightarrow> unit writer" where
  "pack_output_response r =
     bnd wc_position (\<lambda>start. seq [
       write_u16_le output_response_STRUCTURE_SIZE,
       bnd wc_position (\<lambda>offset_pos. seq [
         write_u16_le 0,
         write_u32_le (word_of_nat (length (or_output_buffer r))),
         (if or_output_buffer r \<noteq> []
          then bnd (offset_from_header start) (\<lambda>buf_offset. seq [
                 write_bytes (or_output_buffer r),
                 set_u16_le_at offset_pos (word_of_nat buf_offset)])
          else ret ())])])"

definition unpack_output_response :: "output_response reader" where
  "unpack_output_response =
     bnd position (\<lambda>start.
     bnd (check_size output_response_STRUCTURE_SIZE) (\<lambda>_.
     bnd read_u16_le (\<lambda>buf_offset.
     bnd read_u32_le (\<lambda>buf_length.
     bnd (if unat buf_length > 0
          then bnd (seek_body start (unat buf_offset)) (\<lambda>_. read_bytes_bounded (unat buf_length))
          else ret []) (\<lambda>output_buffer.
     ret \<lparr>or_output_buffer = output_buffer\<rparr>)))))"

definition wf_output_response :: "output_response \<Rightarrow> bool" where
  "wf_output_response r \<longleftrightarrow> length (or_output_buffer r) \<le> MAX_UNPACK_BUFFER"

interpretation output_response:
  exact_codec pack_output_response unpack_output_response wf_output_response
  by unfold_locales
    (auto simp: pack_output_response_def unpack_output_response_def wf_output_response_def
      header_SIZE_def wr_simps rd_simps split: if_splits intro!: safe_intros)

record set_info_request =
  siq_info_type :: info_type
  siq_file_info_class :: u8
  siq_additional_information :: u32
  siq_file_id :: file_id
  siq_buffer :: bytes

definition set_info_request_STRUCTURE_SIZE :: u16 where
  "set_info_request_STRUCTURE_SIZE = 33"

definition pack_set_info_request :: "set_info_request \<Rightarrow> unit writer" where
  "pack_set_info_request r =
     bnd wc_position (\<lambda>start. seq [
       write_u16_le set_info_request_STRUCTURE_SIZE,
       write_u8 (info_type_code (siq_info_type r)),
       write_u8 (siq_file_info_class r),
       write_u32_le (word_of_nat (length (siq_buffer r))),
       bnd wc_position (\<lambda>offset_pos. seq [
         write_u16_le 0,
         write_u16_le 0,
         write_u32_le (siq_additional_information r),
         write_file_id (siq_file_id r),
         (if siq_buffer r \<noteq> []
          then bnd (offset_from_header start) (\<lambda>buf_offset. seq [
                 write_bytes (siq_buffer r),
                 set_u16_le_at offset_pos (word_of_nat buf_offset)])
          else ret ())])])"

definition unpack_set_info_request :: "set_info_request reader" where
  "unpack_set_info_request =
     bnd position (\<lambda>start.
     bnd (check_size set_info_request_STRUCTURE_SIZE) (\<lambda>_.
     bnd read_u8 (\<lambda>raw.
     bnd (lift (info_type_try_from raw)) (\<lambda>info_type.
     bnd read_u8 (\<lambda>file_info_class.
     bnd read_u32_le (\<lambda>buffer_length.
     bnd read_u16_le (\<lambda>buf_offset.
     bnd read_u16_le (\<lambda>_.
     bnd read_u32_le (\<lambda>additional_information.
     bnd read_file_id (\<lambda>f.
     bnd (if unat buffer_length > 0
          then bnd (seek_body start (unat buf_offset)) (\<lambda>_. read_bytes_bounded (unat buffer_length))
          else ret []) (\<lambda>buffer.
     ret \<lparr>
       siq_info_type = info_type,
       siq_file_info_class = file_info_class,
       siq_additional_information = additional_information,
       siq_file_id = f,
       siq_buffer = buffer\<rparr>)))))))))))"

definition wf_set_info_request :: "set_info_request \<Rightarrow> bool" where
  "wf_set_info_request r \<longleftrightarrow> length (siq_buffer r) \<le> MAX_UNPACK_BUFFER"

interpretation set_info_request:
  exact_codec pack_set_info_request unpack_set_info_request wf_set_info_request
  by unfold_locales
    (auto simp: pack_set_info_request_def unpack_set_info_request_def wf_set_info_request_def
      header_SIZE_def wr_simps rd_simps split: if_splits intro!: safe_intros)

definition set_info_response_STRUCTURE_SIZE :: u16 where
  "set_info_response_STRUCTURE_SIZE = 2"

definition pack_set_info_response :: "unit \<Rightarrow> unit writer" where
  "pack_set_info_response _ = write_u16_le set_info_response_STRUCTURE_SIZE"

definition unpack_set_info_response :: "unit reader" where
  "unpack_set_info_response = bnd (check_size set_info_response_STRUCTURE_SIZE) (\<lambda>_. ret ())"

interpretation set_info_response:
  exact_codec pack_set_info_response unpack_set_info_response "\<lambda>_. True"
  by unfold_locales
    (auto simp: pack_set_info_response_def unpack_set_info_response_def wr_simps rd_simps
      intro!: safe_intros)

section \<open>QUERY_DIRECTORY\<close>

datatype file_information_class =
    FileDirectoryInformation | FileFullDirectoryInformation | FileBothDirectoryInformation
  | FileNamesInformation | FileIdBothDirectoryInformation | FileIdFullDirectoryInformation

fun file_information_class_code :: "file_information_class \<Rightarrow> u8" where
  "file_information_class_code FileDirectoryInformation = 0x01"
| "file_information_class_code FileFullDirectoryInformation = 0x02"
| "file_information_class_code FileBothDirectoryInformation = 0x03"
| "file_information_class_code FileNamesInformation = 0x0C"
| "file_information_class_code FileIdBothDirectoryInformation = 0x25"
| "file_information_class_code FileIdFullDirectoryInformation = 0x26"

definition file_information_class_try_from :: "u8 \<Rightarrow> file_information_class res" where
  "file_information_class_try_from v =
     (if v = 0x01 then Ok FileDirectoryInformation
      else if v = 0x02 then Ok FileFullDirectoryInformation
      else if v = 0x03 then Ok FileBothDirectoryInformation
      else if v = 0x0C then Ok FileNamesInformation
      else if v = 0x25 then Ok FileIdBothDirectoryInformation
      else if v = 0x26 then Ok FileIdFullDirectoryInformation
      else Err (InvalidData (BadEnumValue (ucast v))))"

lemma file_information_class_try_from_code [simp]:
  "file_information_class_try_from (file_information_class_code t) = Ok t"
  by (cases t) (simp_all add: file_information_class_try_from_def)

lemma safe_file_information_class [safe_intros]: "safe p (lift (file_information_class_try_from v))"
  by (rule safe_lift) (auto simp: file_information_class_try_from_def split: if_splits)

record query_directory_request =
  qdq_file_information_class :: file_information_class
  qdq_flags :: u8
  qdq_file_index :: u32
  qdq_file_id :: file_id
  qdq_output_buffer_length :: u32
  qdq_file_name :: rstring

definition query_directory_request_STRUCTURE_SIZE :: u16 where
  "query_directory_request_STRUCTURE_SIZE = 33"

definition pack_query_directory_request :: "query_directory_request \<Rightarrow> unit writer" where
  "pack_query_directory_request r =
     bnd wc_position (\<lambda>start. seq [
       write_u16_le query_directory_request_STRUCTURE_SIZE,
       write_u8 (file_information_class_code (qdq_file_information_class r)),
       write_u8 (qdq_flags r),
       write_u32_le (qdq_file_index r),
       write_file_id (qdq_file_id r),
       bnd wc_position (\<lambda>name_offset_pos. seq [
         write_u16_le 0,
         bnd wc_position (\<lambda>name_length_pos. seq [
           write_u16_le 0,
           write_u32_le (qdq_output_buffer_length r),
           (if qdq_file_name r = [] then write_u8 0
            else bnd (offset_from_header start) (\<lambda>name_offset.
                 bnd wc_position (\<lambda>name_start.
                 bnd (write_utf16_le (qdq_file_name r)) (\<lambda>_.
                 bnd wc_position (\<lambda>name_end.
                 bnd (lift (usub name_end name_start)) (\<lambda>name_byte_len. seq [
                   set_u16_le_at name_offset_pos (word_of_nat name_offset),
                   set_u16_le_at name_length_pos (word_of_nat name_byte_len)]))))))])])])"

definition unpack_query_directory_request :: "query_directory_request reader" where
  "unpack_query_directory_request =
     bnd position (\<lambda>start.
     bnd (check_size query_directory_request_STRUCTURE_SIZE) (\<lambda>_.
     bnd read_u8 (\<lambda>raw.
     bnd (lift (file_information_class_try_from raw)) (\<lambda>info_class.
     bnd read_u8 (\<lambda>flags.
     bnd read_u32_le (\<lambda>file_index.
     bnd read_file_id (\<lambda>f.
     bnd read_u16_le (\<lambda>name_offset.
     bnd read_u16_le (\<lambda>name_length.
     bnd read_u32_le (\<lambda>output_buffer_length.
     bnd (if unat name_length > 0
          then bnd (seek_body start (unat name_offset)) (\<lambda>_. read_utf16_le (unat name_length))
          else ret []) (\<lambda>file_name.
     ret \<lparr>
       qdq_file_information_class = info_class,
       qdq_flags = flags,
       qdq_file_index = file_index,
       qdq_file_id = f,
       qdq_output_buffer_length = output_buffer_length,
       qdq_file_name = file_name\<rparr>)))))))))))"

definition wf_query_directory_request :: "query_directory_request \<Rightarrow> bool" where
  "wf_query_directory_request r \<longleftrightarrow>
     valid_str (qdq_file_name r) \<and> 2 * length (encode_utf16 (qdq_file_name r)) < 65536"

text \<open>
  Not an exact codec: for an empty pattern the writer adds a padding byte that the reader
  leaves behind.
\<close>

interpretation query_directory_request:
  codec pack_query_directory_request unpack_query_directory_request wf_query_directory_request
  by unfold_locales
    (auto simp: pack_query_directory_request_def unpack_query_directory_request_def
      wf_query_directory_request_def header_SIZE_def usub_def wr_simps rd_simps
      simp del: of_nat_mult split: if_splits intro!: safe_intros)

section \<open>CHANGE_NOTIFY\<close>

record change_notify_request =
  cnq_flags :: u16
  cnq_output_buffer_length :: u32
  cnq_file_id :: file_id
  cnq_completion_filter :: u32

definition change_notify_request_STRUCTURE_SIZE :: u16 where
  "change_notify_request_STRUCTURE_SIZE = 32"

definition pack_change_notify_request :: "change_notify_request \<Rightarrow> unit writer" where
  "pack_change_notify_request r = seq [
     write_u16_le change_notify_request_STRUCTURE_SIZE,
     write_u16_le (cnq_flags r),
     write_u32_le (cnq_output_buffer_length r),
     write_file_id (cnq_file_id r),
     write_u32_le (cnq_completion_filter r),
     write_u32_le 0]"

definition unpack_change_notify_request :: "change_notify_request reader" where
  "unpack_change_notify_request =
     bnd (check_size change_notify_request_STRUCTURE_SIZE) (\<lambda>_.
     bnd read_u16_le (\<lambda>flags.
     bnd read_u32_le (\<lambda>output_buffer_length.
     bnd read_file_id (\<lambda>f.
     bnd read_u32_le (\<lambda>completion_filter.
     bnd read_u32_le (\<lambda>_.
     ret \<lparr>
       cnq_flags = flags,
       cnq_output_buffer_length = output_buffer_length,
       cnq_file_id = f,
       cnq_completion_filter = completion_filter\<rparr>))))))"

interpretation change_notify_request:
  exact_codec pack_change_notify_request unpack_change_notify_request "\<lambda>_. True"
  by unfold_locales
    (auto simp: pack_change_notify_request_def unpack_change_notify_request_def wr_simps rd_simps
      intro!: safe_intros)

record change_notify_response =
  cnr_output_data :: bytes

definition change_notify_response_STRUCTURE_SIZE :: u16 where
  "change_notify_response_STRUCTURE_SIZE = 9"

definition change_notify_response_FIXED_SIZE :: u32 where
  "change_notify_response_FIXED_SIZE = 8"

definition pack_change_notify_response :: "change_notify_response \<Rightarrow> unit writer" where
  "pack_change_notify_response r =
     bnd wc_position (\<lambda>start.
       let output_len = word_of_nat (length (cnr_output_data r)) :: u32;
           output_offset = (if output_len > 0 then word_of_nat start + change_notify_response_FIXED_SIZE else 0)
       in seq [
         write_u16_le change_notify_response_STRUCTURE_SIZE,
         write_u16_le (ucast output_offset),
         write_u32_le output_len,
         write_bytes (cnr_output_data r)])"

definition unpack_change_notify_response :: "change_notify_response reader" where
  "unpack_change_notify_response =
     bnd (check_size change_notify_response_STRUCTURE_SIZE) (\<lambda>_.
     bnd read_u16_le (\<lambda>_.
     bnd read_u32_le (\<lambda>output_buffer_length.
     bnd (read_buffer (unat output_buffer_length)) (\<lambda>output_data.
     ret \<lparr>cnr_output_data = output_data\<rparr>))))"

definition wf_change_notify_response :: "change_notify_response \<Rightarrow> bool" where
  "wf_change_notify_response r \<longleftrightarrow> length (cnr_output_data r) \<le> MAX_UNPACK_BUFFER"

interpretation change_notify_response:
  exact_codec pack_change_notify_response unpack_change_notify_response wf_change_notify_response
  by unfold_locales
    (auto simp: pack_change_notify_response_def unpack_change_notify_response_def
      wf_change_notify_response_def Let_def wr_simps rd_simps intro!: safe_intros)

end
