(* ===== verification/Smb_Msg_Create.thy ===== *)
theory Smb_Msg_Create
  imports Smb_Msg_File
begin

text \<open>
  \<open>src/msg/create.rs\<close>: the CREATE exchange. Name and create contexts sit behind offsets that
  are patched in after the fixed part; the contexts are aligned to eight bytes of the buffer,
  which can put padding between the two.
\<close>

section \<open>Enumerations\<close>

datatype impersonation_level = Anonymous | Identification | Impersonation | Delegate

fun impersonation_level_code :: "impersonation_level \<Rightarrow> u32" where
  "impersonation_level_code Anonymous = 0"
| "impersonation_level_code Identification = 1"
| "impersonation_level_code Impersonation = 2"
| "impersonation_level_code Delegate = 3"

definition impersonation_level_try_from :: "u32 \<Rightarrow> impersonation_level res" where
  "impersonation_level_try_from v =
     (if v = 0 then Ok Anonymous
      else if v = 1 then Ok Identification
      else if v = 2 then Ok Impersonation
      else if v = 3 then Ok Delegate
      else Err (InvalidData (BadEnumValue v)))"

definition FILE_SHARE_READ :: u32 where "FILE_SHARE_READ = 0x00000001"
definition FILE_SHARE_WRITE :: u32 where "FILE_SHARE_WRITE = 0x00000002"
definition FILE_SHARE_DELETE :: u32 where "FILE_SHARE_DELETE = 0x00000004"

datatype create_disposition =
  FileSupersede | FileOpen | FileCreate | FileOpenIf | FileOverwrite | FileOverwriteIf

fun create_disposition_code :: "create_disposition \<Rightarrow> u32" where
  "create_disposition_code FileSupersede = 0"
| "create_disposition_code FileOpen = 1"
| "create_disposition_code FileCreate = 2"
| "create_disposition_code FileOpenIf = 3"
| "create_disposition_code FileOverwrite = 4"
| "create_disposition_code FileOverwriteIf = 5"

definition create_disposition_try_from :: "u32 \<Rightarrow> create_disposition res" where
  "create_disposition_try_from v =
     (if v = 0 then Ok FileSupersede
      else if v = 1 then Ok FileOpen
      else if v = 2 then Ok FileCreate
      else if v = 3 then Ok FileOpenIf
      else if v = 4 then Ok FileOverwrite
      else if v = 5 then Ok FileOverwriteIf
      else Err (InvalidData (BadEnumValue v)))"

datatype create_action = FileSuperseded | FileOpened | FileCreated | FileOverwritten

fun create_action_code :: "create_action \<Rightarrow> u32" where
  "create_action_code FileSuperseded = 0"
| "create_action_code FileOpened = 1"
| "create_action_code FileCreated = 2"
| "create_action_code FileOverwritten = 3"

definition create_action_try_from :: "u32 \<Rightarrow> create_action res" where
  "create_action_try_from v =
     (if v = 0 then Ok FileSuperseded
      else if v = 1 then Ok FileOpened
      else if v = 2 then Ok FileCreated
      else if v = 3 then Ok FileOverwritten
      else Err (InvalidData (BadEnumValue v)))"

lemma create_enum_try_from_code [simp]:
  "impersonation_level_try_from (impersonation_level_code i) = Ok i"
  "create_disposition_try_from (create_disposition_code d) = Ok d"
  "create_action_try_from (create_action_code a) = Ok a"
  by (cases i, simp_all add: impersonation_level_try_from_def)
    (cases d, simp_all add: create_disposition_try_from_def,
     cases a, simp_all add: create_action_try_from_def)

lemma safe_create_enums [safe_intros]:
  "safe p (lift (impersonation_level_try_from v))"
  "safe p (lift (create_disposition_try_from v))"
  "safe p (lift (create_action_try_from v))"
  by (auto intro!: safe_lift simp: impersonation_level_try_from_def create_disposition_try_from_def
        create_action_try_from_def split: if_splits)

lemmas create_code_simps =
  impersonation_level_code.simps create_disposition_code.simps create_action_code.simps

section \<open>CreateRequest\<close>

record create_request =
  crq_requested_oplock_level :: oplock_level
  crq_impersonation_level :: impersonation_level
  crq_desired_access :: u32
  crq_file_attributes :: u32
  crq_share_access :: u32
  crq_create_disposition :: create_disposition
  crq_create_options :: u32
  crq_name :: rstring
  crq_create_contexts :: bytes

definition create_request_STRUCTURE_SIZE :: u16 where
  "create_request_STRUCTURE_SIZE = 57"

text \<open>
  The tail of the CREATE messages: align, write the contexts, patch their offset and length.
\<close>

definition pack_create_contexts :: "usize \<Rightarrow> usize \<Rightarrow> usize \<Rightarrow> bytes \<Rightarrow> unit writer" where
  "pack_create_contexts start ctx_offset_pos ctx_length_pos ctxs = seq [
     align_to 8,
     bnd (offset_from_header start) (\<lambda>ctx_offset. seq [
       write_bytes ctxs,
       set_u32_le_at ctx_offset_pos (word_of_nat ctx_offset),
       set_u32_le_at ctx_length_pos (word_of_nat (length ctxs))])]"

definition pack_create_request :: "create_request \<Rightarrow> unit writer" where
  "pack_create_request r =
     bnd wc_position (\<lambda>start. seq [
       write_u16_le create_request_STRUCTURE_SIZE,
       write_u8 0,
       write_u8 (oplock_level_code (crq_requested_oplock_level r)),
       write_u32_le (impersonation_level_code (crq_impersonation_level r)),
       write_u64_le 0,
       write_u64_le 0,
       write_u32_le (crq_desired_access r),
       write_u32_le (crq_file_attributes r),
       write_u32_le (crq_share_access r),
       write_u32_le (create_disposition_code (crq_create_disposition r)),
       write_u32_le (crq_create_options r),
       bnd wc_position (\<lambda>name_offset_pos.
       bnd (write_u16_le 0) (\<lambda>_.
       bnd wc_position (\<lambda>name_length_pos.
       bnd (write_u16_le 0) (\<lambda>_.
       bnd wc_position (\<lambda>ctx_offset_pos.
       bnd (write_u32_le 0) (\<lambda>_.
       bnd wc_position (\<lambda>ctx_length_pos.
       bnd (write_u32_le 0) (\<lambda>_.
       bnd (offset_from_header start) (\<lambda>name_offset.
       bnd wc_position (\<lambda>name_start.
       bnd (write_utf16_le (crq_name r)) (\<lambda>_.
       bnd wc_position (\<lambda>name_end.
       bnd (lift (usub name_end name_start)) (\<lambda>name_byte_len. seq [
         set_u16_le_at name_offset_pos (word_of_nat name_offset),
         set_u16_le_at name_length_pos (word_of_nat name_byte_len),
         (if crq_create_contexts r \<noteq> [] then
            pack_create_contexts start ctx_offset_pos ctx_length_pos (crq_create_contexts r)
          else if name_byte_len = 0 then write_u8 0
          else ret ())])))))))))))))])"

definition unpack_create_request :: "create_request reader" where
  "unpack_create_request =
     bnd position (\<lambda>start.
     bnd (check_size create_request_STRUCTURE_SIZE) (\<lambda>_.
     bnd read_u8 (\<lambda>_.
     bnd read_u8 (\<lambda>oplock_raw.
     bnd (lift (oplock_level_try_from oplock_raw)) (\<lambda>requested_oplock_level.
     bnd read_u32_le (\<lambda>imp_raw.
     bnd (lift (impersonation_level_try_from imp_raw)) (\<lambda>impersonation_level.
     bnd read_u64_le (\<lambda>_.
     bnd read_u64_le (\<lambda>_.
     bnd read_u32_le (\<lambda>desired_access.
     bnd read_u32_le (\<lambda>file_attributes.
     bnd read_u32_le (\<lambda>share_access.
     bnd read_u32_le (\<lambda>disp_raw.
     bnd (lift (create_disposition_try_from disp_raw)) (\<lambda>create_disposition.
     bnd read_u32_le (\<lambda>create_options.
     bnd read_u16_le (\<lambda>name_offset.
     bnd read_u16_le (\<lambda>name_length.
     bnd read_u32_le (\<lambda>ctx_offset.
     bnd read_u32_le (\<lambda>ctx_length.
     bnd (if unat name_length > 0 then
            bnd (seek_body start (unat name_offset)) (\<lambda>_. read_utf16_le (unat name_length))
          else ret []) (\<lambda>name.
     bnd (if unat ctx_length > 0 then
            bnd (seek_body start (unat ctx_offset)) (\<lambda>_. read_bytes_bounded (unat ctx_length))
          else ret []) (\<lambda>create_contexts.
     ret \<lparr>
       crq_requested_oplock_level = requested_oplock_level,
       crq_impersonation_level = impersonation_level,
       crq_desired_access = desired_access,
       crq_file_attributes = file_attributes,
       crq_share_access = share_access,
       crq_create_disposition = create_disposition,
       crq_create_options = create_options,
       crq_name = name,
       crq_create_contexts = create_contexts\<rparr>)))))))))))))))))))))"

definition wf_create_request :: "create_request \<Rightarrow> bool" where
  "wf_create_request r \<longleftrightarrow>
     valid_str (crq_name r) \<and> 2 * length (encode_utf16 (crq_name r)) < 65536 \<and>
     length (crq_create_contexts r) \<le> MAX_UNPACK_BUFFER"

interpretation create_request: codec pack_create_request unpack_create_request wf_create_request
proof unfold_locales
  show "safe 0 unpack_create_request"
    by (auto simp: unpack_create_request_def intro!: safe_intros)
next
  fix x :: create_request and w bs post
  assume wf: "wf_create_request x"
  then show "\<exists>bs. pack_create_request x w = Ok ((), w @ bs)"
    by (auto simp: pack_create_request_def pack_create_contexts_def wf_create_request_def usub_def
          wr_simps)
  assume "pack_create_request x w = Ok ((), w @ bs)"
  with wf show "\<exists>c. unpack_create_request (cur w (bs @ post)) = Ok (x, c)"
    by (auto simp: pack_create_request_def unpack_create_request_def pack_create_contexts_def
          wf_create_request_def header_SIZE_def usub_def MAX_UNPACK_BUFFER_def add.assoc [symmetric]
          wr_simps rd_simps
        simp del: create_code_simps of_nat_add of_nat_mult add.assoc split: if_splits)
qed

section \<open>CreateResponse\<close>

record create_response =
  crr_oplock_level :: oplock_level
  crr_flags :: u8
  crr_create_action :: create_action
  crr_creation_time :: file_time
  crr_last_access_time :: file_time
  crr_last_write_time :: file_time
  crr_change_time :: file_time
  crr_allocation_size :: u64
  crr_end_of_file :: u64
  crr_file_attributes :: u32
  crr_file_id :: file_id
  crr_create_contexts :: bytes

definition create_response_STRUCTURE_SIZE :: u16 where
  "create_response_STRUCTURE_SIZE = 89"

definition pack_create_response :: "create_response \<Rightarrow> unit writer" where
  "pack_create_response r =
     bnd wc_position (\<lambda>start. seq [
       write_u16_le create_response_STRUCTURE_SIZE,
       write_u8 (oplock_level_code (crr_oplock_level r)),
       write_u8 (crr_flags r),
       write_u32_le (create_action_code (crr_create_action r)),
       pack_file_time (crr_creation_time r),
       pack_file_time (crr_last_access_time r),
       pack_file_time (crr_last_write_time r),
       pack_file_time (crr_change_time r),
       write_u64_le (crr_allocation_size r),
       write_u64_le (crr_end_of_file r),
       write_u32_le (crr_file_attributes r),
       write_u32_le 0,
       write_file_id (crr_file_id r),
       bnd wc_position (\<lambda>ctx_offset_pos.
       bnd (write_u32_le 0) (\<lambda>_.
       bnd wc_position (\<lambda>ctx_length_pos.
       bnd (write_u32_le 0) (\<lambda>_.
         if crr_create_contexts r \<noteq> [] then
           pack_create_contexts start ctx_offset_pos ctx_length_pos (crr_create_contexts r)
         else ret ()))))])"

definition unpack_create_response :: "create_response reader" where
  "unpack_create_response =
     bnd position (\<lambda>start.
     bnd (check_size create_response_STRUCTURE_SIZE) (\<lambda>_.
     bnd read_u8 (\<lambda>oplock_raw.
     bnd (lift (oplock_level_try_from oplock_raw)) (\<lambda>oplock_level.
     bnd read_u8 (\<lambda>flags.
     bnd read_u32_le (\<lambda>action_raw.
     bnd (lift (create_action_try_from action_raw)) (\<lambda>create_action.
     bnd unpack_file_time (\<lambda>creation_time.
     bnd unpack_file_time (\<lambda>last_access_time.
     bnd unpack_file_time (\<lambda>last_write_time.
     bnd unpack_file_time (\<lambda>change_time.
     bnd read_u64_le (\<lambda>allocation_size.
     bnd read_u64_le (\<lambda>end_of_file.
     bnd read_u32_le (\<lambda>file_attributes.
     bnd read_u32_le (\<lambda>_.
     bnd read_file_id (\<lambda>f.
     bnd read_u32_le (\<lambda>ctx_offset.
     bnd read_u32_le (\<lambda>ctx_length.
     bnd (if unat ctx_length > 0 then
            bnd (seek_body start (unat ctx_offset)) (\<lambda>_. read_bytes_bounded (unat ctx_length))
          else ret []) (\<lambda>create_contexts.
     ret \<lparr>
       crr_oplock_level = oplock_level,
       crr_flags = flags,
       crr_create_action = create_action,
       crr_creation_time = creation_time,
       crr_last_access_time = last_access_time,
       crr_last_write_time = last_write_time,
       crr_change_time = change_time,
       crr_allocation_size = allocation_size,
       crr_end_of_file = end_of_file,
       crr_file_attributes = file_attributes,
       crr_file_id = f,
       crr_create_contexts = create_contexts\<rparr>)))))))))))))))))))"

definition wf_create_response :: "create_response \<Rightarrow> bool" where
  "wf_create_response r \<longleftrightarrow> length (crr_create_contexts r) \<le> MAX_UNPACK_BUFFER"

interpretation create_response: exact_codec pack_create_response unpack_create_response wf_create_response
  by unfold_locales
    (auto simp: pack_create_response_def unpack_create_response_def pack_create_contexts_def
      wf_create_response_def header_SIZE_def usub_def MAX_UNPACK_BUFFER_def add.assoc [symmetric]
      wr_simps rd_simps
     simp del: create_code_simps of_nat_add of_nat_mult add.assoc split: if_splits
     intro!: safe_intros)

end
