(* ===== verification/Smb_Create_Context.thy ===== *)
theory Smb_Create_Context
  imports Smb_Msg_Session
begin

text \<open>
  \<open>src/msg/create_context.rs\<close>: the chain of name-tagged blobs a CREATE carries, the parser that
  walks it, and the durable-handle and on-disk-id contexts.
\<close>

section \<open>The chain\<close>

definition NAME_DH2Q :: bytes where "NAME_DH2Q = [0x44, 0x48, 0x32, 0x51]"
definition NAME_DH2C :: bytes where "NAME_DH2C = [0x44, 0x48, 0x32, 0x43]"
definition NAME_QFID :: bytes where "NAME_QFID = [0x51, 0x46, 0x69, 0x64]"
definition FLAG_PERSISTENT :: u32 where "FLAG_PERSISTENT = 0x00000002"

record create_context =
  cc_name :: bytes
  cc_data :: bytes

definition create_context_new :: "bytes \<Rightarrow> bytes \<Rightarrow> create_context" where
  "create_context_new name data = \<lparr>cc_name = name, cc_data = data\<rparr>"

text \<open>\<open>n.div_ceil(8) * 8\<close>\<close>

definition align8 :: "usize \<Rightarrow> usize" where
  "align8 n = ((n + 7) div 8) * 8"

text \<open>One turn of the first loop of \<open>pack_contexts\<close>: an entry whose \<open>Next\<close> is still zero.\<close>

definition pack_context_entry :: "create_context \<Rightarrow> bytes res" where
  "pack_context_entry ctx =
     (let name_offset = 16 :: u16;
          name_end = unat name_offset + length (cc_name ctx);
          data_offset = (if cc_data ctx = [] then 0 else word_of_nat (align8 name_end)) :: u16
      in result_bind (run_writer (seq [
           write_u32_le 0,
           write_u16_le name_offset,
           write_u16_le (word_of_nat (length (cc_name ctx))),
           write_u16_le 0,
           write_u16_le data_offset,
           write_u32_le (word_of_nat (length (cc_data ctx))),
           write_bytes (cc_name ctx)])) (\<lambda>bytes.
         Ok (if cc_data ctx \<noteq> [] then vec_resize bytes (unat data_offset) @ cc_data ctx else bytes)))"

primrec pack_context_entries :: "create_context list \<Rightarrow> bytes list res" where
  "pack_context_entries [] = Ok []"
| "pack_context_entries (ctx # ctxs) =
     result_bind (pack_context_entry ctx) (\<lambda>b.
     result_bind (pack_context_entries ctxs) (\<lambda>bs. Ok (b # bs)))"

text \<open>The second loop, from index \<open>i\<close> of \<open>n\<close> on: pad every entry and link all but the last.\<close>

primrec link_contexts :: "usize \<Rightarrow> bytes list \<Rightarrow> usize \<Rightarrow> bytes res" where
  "link_contexts n [] i = Ok []"
| "link_contexts n (b # bs) i =
     (let bytes = vec_resize b (align8 (length b)) in
      result_bind (if i + 1 \<noteq> n
          then result_bind (set_u32_le_at 0 (word_of_nat (length bytes)) bytes) (\<lambda>(_, bytes'). Ok bytes')
          else Ok bytes) (\<lambda>bytes'.
      result_bind (link_contexts n bs (i + 1)) (\<lambda>rest. Ok (bytes' @ rest))))"

definition pack_contexts :: "create_context list \<Rightarrow> bytes res" where
  "pack_contexts contexts =
     result_bind (pack_context_entries contexts) (\<lambda>out. link_contexts (length contexts) out 0)"

text \<open>
  One turn of the loop of \<open>parse_contexts\<close>: the entry at the front of the buffer and its
  \<open>Next\<close>. The two \<open>checked_add\<close> of 16- and 32-bit values cannot overflow a 64-bit \<open>usize\<close>.
\<close>

definition context_entry_header :: "(usize \<times> usize \<times> usize \<times> usize \<times> usize) reader" where
  "context_entry_header =
     bnd read_u32_le (\<lambda>next.
     bnd read_u16_le (\<lambda>name_offset.
     bnd read_u16_le (\<lambda>name_length.
     bnd read_u16_le (\<lambda>_.
     bnd read_u16_le (\<lambda>data_offset.
     bnd read_u32_le (\<lambda>data_length.
     ret (unat next, unat name_offset, unat name_length, unat data_offset, unat data_length)))))))"

definition parse_context_entry :: "bytes \<Rightarrow> (usize \<times> create_context) res" where
  "parse_context_entry buf =
     result_bind (run_reader context_entry_header buf)
       (\<lambda>(next, name_offset, name_length, data_offset, data_length).
        let entry_len = (if next = 0 then length buf else next) in
        if next \<noteq> 0 \<and> next > length buf then
          Err (InvalidData (Malformed ''create context Next points past the end of the chain'' []))
        else let name_end = name_offset + name_length in
        if name_end > entry_len then
          Err (InvalidData (Malformed ''create context name runs past the entry'' []))
        else
          result_bind
            (if data_length = 0 then Ok []
             else let data_end = data_offset + data_length in
               if data_end > entry_len then
                 Err (InvalidData (Malformed ''create context data runs past the entry'' []))
               else slice buf data_offset data_end) (\<lambda>data.
          result_bind (slice buf name_offset name_end) (\<lambda>name.
          Ok (next, \<lparr>cc_name = name, cc_data = data\<rparr>))))"

function parse_contexts_loop :: "bytes \<Rightarrow> create_context list \<Rightarrow> create_context list res" where
  "parse_contexts_loop buf out =
     (if length buf < 16 then
        if buf = [] then Ok out
        else Err (InvalidData (Malformed ''create context chain ends inside an entry header'' []))
      else case parse_context_entry buf of
        Ok (next, ctx) \<Rightarrow>
          if next = 0 then Ok (out @ [ctx])
          else parse_contexts_loop (drop next buf) (out @ [ctx])
      | Err e \<Rightarrow> Err e
      | Panic \<Rightarrow> Panic)"
  by pat_completeness auto
termination
  by (relation "measure (\<lambda>(buf, out). length buf)") auto

definition parse_contexts :: "bytes \<Rightarrow> create_context list res" where
  "parse_contexts buf = parse_contexts_loop buf []"

definition find_context :: "create_context list \<Rightarrow> bytes \<Rightarrow> create_context option" where
  "find_context contexts name = find (\<lambda>c. cc_name c = name) contexts"

declare parse_contexts_loop.simps [simp del]

section \<open>Durable handles and on-disk ids\<close>

record durable_request_v2 =
  drq_timeout_ms :: u32
  drq_persistent :: bool
  drq_create_guid :: guid

definition durable_request_to_bytes :: "durable_request_v2 \<Rightarrow> bytes res" where
  "durable_request_to_bytes r = run_writer (seq [
     write_u32_le (drq_timeout_ms r),
     write_u32_le (if drq_persistent r then FLAG_PERSISTENT else 0),
     write_u64_le 0,
     pack_guid (drq_create_guid r)])"

definition durable_request_context :: "durable_request_v2 \<Rightarrow> create_context res" where
  "durable_request_context r =
     result_bind (durable_request_to_bytes r) (\<lambda>b. Ok (create_context_new NAME_DH2Q b))"

record durable_grant =
  dg_timeout_ms :: u32
  dg_persistent :: bool

definition durable_grant_from_bytes :: "bytes \<Rightarrow> durable_grant res" where
  "durable_grant_from_bytes data = run_reader
     (bnd read_u32_le (\<lambda>timeout_ms.
      bnd read_u32_le (\<lambda>flags.
      ret \<lparr>dg_timeout_ms = timeout_ms, dg_persistent = (flags AND FLAG_PERSISTENT \<noteq> 0)\<rparr>))) data"

record durable_reconnect_v2 =
  drc_file_id :: file_id
  drc_create_guid :: guid
  drc_persistent :: bool

definition durable_reconnect_to_bytes :: "durable_reconnect_v2 \<Rightarrow> bytes res" where
  "durable_reconnect_to_bytes r = run_writer (seq [
     write_u64_le (persistent (drc_file_id r)),
     write_u64_le (volatile (drc_file_id r)),
     pack_guid (drc_create_guid r),
     write_u32_le (if drc_persistent r then FLAG_PERSISTENT else 0)])"

definition durable_reconnect_context :: "durable_reconnect_v2 \<Rightarrow> create_context res" where
  "durable_reconnect_context r =
     result_bind (durable_reconnect_to_bytes r) (\<lambda>b. Ok (create_context_new NAME_DH2C b))"

record on_disk_id =
  odi_disk_file_id :: u64
  odi_volume_id :: u64

definition on_disk_id_request :: create_context where
  "on_disk_id_request = create_context_new NAME_QFID []"

definition on_disk_id_from_bytes :: "bytes \<Rightarrow> on_disk_id res" where
  "on_disk_id_from_bytes data = run_reader
     (bnd read_u64_le (\<lambda>d. bnd read_u64_le (\<lambda>v.
      ret \<lparr>odi_disk_file_id = d, odi_volume_id = v\<rparr>))) data"

section \<open>The parser cannot leave the buffer\<close>

lemma safe_context_entry_header [safe_intros]: "safe p context_entry_header"
  by (auto simp: context_entry_header_def intro!: safe_intros)

lemma parse_context_entry_no_panic [simp]: "parse_context_entry buf \<noteq> Panic"
  using run_reader_safe(1) [OF safe_context_entry_header [of 0], of buf]
  by (auto simp: parse_context_entry_def result_bind_eq_Panic slice_def Let_def split: if_splits)

lemma parse_context_entry_bounds:
  assumes "parse_context_entry buf = Ok (next, ctx)"
  shows "next \<le> length buf"
    and "length (cc_name ctx) \<le> length buf" and "length (cc_data ctx) \<le> length buf"
  using assms
  by (auto simp: parse_context_entry_def result_bind_eq_Ok slice_def Let_def split: if_splits)

lemma parse_contexts_loop_no_panic: "parse_contexts_loop buf out \<noteq> Panic"
proof (induction buf out rule: parse_contexts_loop.induct)
  case (1 buf out)
  then show ?case
    by (subst parse_contexts_loop.simps)
      (auto split: result.splits dest: parse_context_entry_bounds(1))
qed

text \<open>A chain of \<open>n\<close> bytes yields at most \<open>n\<close> contexts beyond those already read.\<close>

lemma parse_contexts_loop_length:
  "parse_contexts_loop buf out = Ok cs \<Longrightarrow> length cs \<le> length out + length buf"
proof (induction buf out rule: parse_contexts_loop.induct)
  case (1 buf out)
  from "1.prems" show ?case
    apply (subst (asm) parse_contexts_loop.simps)
    using "1.IH"
    by (fastforce split: if_splits result.splits prod.splits)
qed

section \<open>Round trip\<close>

text \<open>Names and data that fit the 16-bit offset and the 32-bit lengths of an entry.\<close>

definition wf_create_context :: "create_context \<Rightarrow> bool" where
  "wf_create_context ctx \<longleftrightarrow> length (cc_name ctx) \<le> 65512 \<and> length (cc_data ctx) \<le> 2 ^ 31"

lemma align8_ge: "n \<le> align8 n" and align8_less: "align8 n < n + 8"
  unfolding align8_def by linarith+

lemma align8_mod [simp]: "align8 n mod 8 = 0"
  by (simp add: align8_def)

lemma align8_name_bound: "n \<le> 65512 \<Longrightarrow> align8 (16 + n) < 65536"
  unfolding align8_def by linarith

definition entry_image :: "u32 \<Rightarrow> create_context \<Rightarrow> bytes" where
  "entry_image nxt ctx =
     to_le_bytes nxt @ to_le_bytes (16 :: u16) @ to_le_bytes (word_of_nat (length (cc_name ctx)) :: u16) @
     to_le_bytes (0 :: u16) @
     to_le_bytes (if cc_data ctx = [] then 0 else word_of_nat (align8 (16 + length (cc_name ctx))) :: u16) @
     to_le_bytes (word_of_nat (length (cc_data ctx)) :: u32) @ cc_name ctx @
     (if cc_data ctx = [] then []
      else replicate (align8 (16 + length (cc_name ctx)) - (16 + length (cc_name ctx))) 0 @ cc_data ctx)"

definition entry_padded :: "u32 \<Rightarrow> create_context \<Rightarrow> bytes" where
  "entry_padded nxt ctx =
     entry_image nxt ctx @ replicate (align8 (length (entry_image 0 ctx)) - length (entry_image 0 ctx)) 0"

lemma length_entry_image: "length (entry_image nxt ctx) = length (entry_image 0 ctx)"
  by (simp add: entry_image_def)

lemma length_entry_image_value:
  "length (entry_image nxt ctx) =
     (if cc_data ctx = [] then 16 + length (cc_name ctx)
      else align8 (16 + length (cc_name ctx)) + length (cc_data ctx))"
  using align8_ge [of "16 + length (cc_name ctx)"] by (simp add: entry_image_def)

lemma length_entry_padded: "length (entry_padded nxt ctx) = align8 (length (entry_image 0 ctx))"
  using align8_ge [of "length (entry_image 0 ctx)"]
  by (simp add: entry_padded_def length_entry_image [of nxt])

lemma length_entry_padded_bounds:
  assumes "wf_create_context ctx"
  shows "16 \<le> length (entry_padded nxt ctx)" "length (entry_padded nxt ctx) < 4294967296"
  using assms align8_ge [of "length (entry_image 0 ctx)"] align8_less [of "length (entry_image 0 ctx)"]
    align8_ge [of "16 + length (cc_name ctx)"] align8_less [of "16 + length (cc_name ctx)"]
  by (auto simp: length_entry_padded length_entry_image_value wf_create_context_def split: if_splits)

lemma pack_context_entry_image:
  "wf_create_context ctx \<Longrightarrow> pack_context_entry ctx = Ok (entry_image 0 ctx)"
  using align8_ge [of "16 + length (cc_name ctx)"] align8_name_bound [of "length (cc_name ctx)"]
  by (auto simp: pack_context_entry_def entry_image_def wf_create_context_def run_writer_def wr_simps
      vec_resize_def Let_def)

primrec chain_image :: "create_context list \<Rightarrow> bytes" where
  "chain_image [] = []"
| "chain_image (ctx # ctxs) =
     entry_padded (if ctxs = [] then 0 else word_of_nat (align8 (length (entry_image 0 ctx)))) ctx @
     chain_image ctxs"

lemma set_next:
  "set_u32_le_at 0 v (entry_padded 0 ctx) = Ok ((), entry_padded v ctx)"
  by (simp add: set_u32_le_at_def overwrite_at_def entry_padded_def entry_image_def)

lemma pack_context_entries_image:
  "\<forall>ctx\<in>set ctxs. wf_create_context ctx \<Longrightarrow> pack_context_entries ctxs = Ok (map (entry_image 0) ctxs)"
  by (induction ctxs) (simp_all add: pack_context_entry_image)

lemma link_contexts_image:
  "i + length ctxs = n \<Longrightarrow> link_contexts n (map (entry_image 0) ctxs) i = Ok (chain_image ctxs)"
proof (induction ctxs arbitrary: i)
  case (Cons ctx ctxs)
  have pad: "vec_resize (entry_image 0 ctx) (align8 (length (entry_image 0 ctx))) = entry_padded 0 ctx"
    by (simp add: vec_resize_grow align8_ge entry_padded_def)
  from Cons.prems have "i + 1 = n \<longleftrightarrow> ctxs = []" by auto
  with Cons show ?case
    by (simp add: Let_def pad set_next length_entry_padded)
qed simp

lemma pack_contexts_image:
  "\<forall>ctx\<in>set ctxs. wf_create_context ctx \<Longrightarrow> pack_contexts ctxs = Ok (chain_image ctxs)"
  by (simp add: pack_contexts_def pack_context_entries_image link_contexts_image)

lemma run_header_image:
  assumes "wf_create_context ctx"
  shows "run_reader context_entry_header (entry_padded nxt ctx @ rest) =
    Ok (unat nxt, 16, length (cc_name ctx),
        if cc_data ctx = [] then 0 else align8 (16 + length (cc_name ctx)), length (cc_data ctx))"
  using assms align8_name_bound [of "length (cc_name ctx)"]
  by (auto simp: run_reader_def context_entry_header_def read_cursor_new_cur entry_padded_def
      entry_image_def wf_create_context_def rd_simps)

lemma slice_name:
  "slice (entry_padded nxt ctx @ rest) 16 (16 + length (cc_name ctx)) = Ok (cc_name ctx)"
  by (simp add: slice_def entry_padded_def entry_image_def)

lemma slice_data:
  assumes "cc_data ctx \<noteq> []"
  shows "slice (entry_padded nxt ctx @ rest) (align8 (16 + length (cc_name ctx)))
           (align8 (16 + length (cc_name ctx)) + length (cc_data ctx)) = Ok (cc_data ctx)"
proof -
  obtain k where "align8 (16 + length (cc_name ctx)) = 16 + length (cc_name ctx) + k"
    using align8_ge le_Suc_ex by blast
  with assms show ?thesis
    by (simp add: slice_def entry_padded_def entry_image_def)
qed

lemma parse_context_entry_image:
  assumes "wf_create_context ctx"
    and "nxt = 0 \<and> rest = [] \<or> unat nxt = length (entry_padded nxt ctx)"
  shows "parse_context_entry (entry_padded nxt ctx @ rest) = Ok (unat nxt, ctx)"
  using assms length_entry_padded_bounds(1) [OF assms(1), of nxt]
    align8_ge [of "length (entry_image 0 ctx)"] align8_ge [of "16 + length (cc_name ctx)"]
  by (auto simp: parse_context_entry_def slice_name slice_data slice_name [where rest = "[]", simplified]
      slice_data [where rest = "[]", simplified] run_header_image Let_def length_entry_padded
      length_entry_image_value split: if_splits)

lemma parse_contexts_loop_image:
  "\<forall>ctx\<in>set ctxs. wf_create_context ctx \<Longrightarrow> parse_contexts_loop (chain_image ctxs) out = Ok (out @ ctxs)"
proof (induction ctxs arbitrary: out)
  case (Cons ctx ctxs)
  let ?n = "align8 (length (entry_image 0 ctx))"
  have b: "16 \<le> ?n" "?n < 4294967296"
    using length_entry_padded_bounds [of ctx 0] Cons.prems by (simp_all add: length_entry_padded)
  then have u: "unat (word_of_nat ?n :: u32) = ?n" by simp
  show ?case
  proof (cases "ctxs = []")
    case True
    then show ?thesis
      using Cons.prems b parse_context_entry_image [of ctx 0 "[]"]
      by (subst parse_contexts_loop.simps) (simp add: length_entry_padded)
  next
    case False
    then show ?thesis
      using Cons b u parse_context_entry_image [of ctx "word_of_nat ?n" "chain_image ctxs"]
      by (subst parse_contexts_loop.simps) (simp add: length_entry_padded)
  qed
qed (simp add: parse_contexts_loop.simps)

lemma parse_pack_contexts:
  "\<forall>ctx\<in>set ctxs. wf_create_context ctx \<Longrightarrow> result_bind (pack_contexts ctxs) parse_contexts = Ok ctxs"
  by (simp add: pack_contexts_image parse_contexts_def parse_contexts_loop_image)

lemma chain_image_aligned: "length (chain_image ctxs) mod 8 = 0"
  by (induction ctxs) (simp_all add: length_entry_padded mod_add_eq [symmetric])

text \<open>The fixed body sizes named in the source.\<close>

lemma durable_body_sizes:
  "wf_guid (drq_create_guid q) \<Longrightarrow> \<exists>b. durable_request_to_bytes q = Ok b \<and> length b = 32"
  "wf_guid (drc_create_guid r) \<Longrightarrow> \<exists>b. durable_reconnect_to_bytes r = Ok b \<and> length b = 36"
  by (auto simp: durable_request_to_bytes_def durable_reconnect_to_bytes_def run_writer_def wr_simps)

section \<open>Properties\<close>

text \<open>
  A chain of create contexts parses back to the same list of names and payloads, and parsing
  never panics on any bytes.
\<close>

lemma create_contexts_roundtrip:
  assumes "list_all wf_create_context ctxs"
  shows "result_bind (pack_contexts ctxs) parse_contexts = Ok ctxs \<and> parse_contexts buf \<noteq> Panic"
  using parse_pack_contexts [of ctxs] assms parse_contexts_loop_no_panic [of buf "[]"]
  by (simp add: list_all_iff parse_contexts_def)

end
