(* ===== verification/Smb_Transport.thy ===== *)
theory Smb_Transport
  imports Smb_Pack
begin

unbundle bit_operations_syntax

text \<open>
  \<open>src/transport/\<close>: the send and receive halves of a transport and their direct-TCP
  implementation, which frames a message with a zero byte and a 24-bit big-endian length.
  The connection is the byte stream between the two ends: \<open>send\<close> appends to it, \<open>receive\<close>
  takes from its front and sees the end of the stream as a disconnect. Errors of the
  operating system are not in the model.
\<close>

section \<open>TCP framing\<close>

definition MAX_FRAME_SIZE :: usize where
  "MAX_FRAME_SIZE = 16 * 1024 * 1024"

text \<open>The four header bytes built by \<open>send\<close>; the \<open>as u8\<close> casts keep the low eight bits.\<close>

definition frame_header :: "usize \<Rightarrow> bytes" where
  "frame_header len =
     [0x00, word_of_nat (drop_bit 16 len), word_of_nat (drop_bit 8 len), word_of_nat len]"

definition tcp_send :: "bytes \<Rightarrow> (bytes, unit, error) comp" where
  "tcp_send data stream =
     (let len = length data in
      if len > MAX_FRAME_SIZE then Err (InvalidData (MessageTooLarge len))
      else Ok ((), stream @ frame_header len @ data))"

text \<open>\<open>read_exact\<close> with the end of the stream mapped to \<open>Disconnected\<close>.\<close>

definition read_exact :: "usize \<Rightarrow> (bytes, bytes, error) comp" where
  "read_exact n stream =
     (if length stream < n then Err Disconnected else Ok (take n stream, drop n stream))"

definition frame_length :: "bytes \<Rightarrow> usize" where
  "frame_length h =
     push_bit 16 (unat (h ! 1)) OR push_bit 8 (unat (h ! 2)) OR unat (h ! 3)"

definition tcp_receive :: "(bytes, bytes, error) comp" where
  "tcp_receive =
     bnd (read_exact 4) (\<lambda>frame_header.
       if frame_header ! 0 \<noteq> 0x00 then fail (InvalidData (BadFrameStart (frame_header ! 0)))
       else let msg_len = frame_length frame_header in
         if msg_len > MAX_FRAME_SIZE then fail (InvalidData (FrameTooLong msg_len))
         else read_exact msg_len)"

section \<open>The contract of a message transport\<close>

text \<open>
  What \<open>TransportSend\<close> and \<open>TransportReceive\<close> promise each other: a message that was accepted
  for sending is appended as one frame, and a receiver in front of a frame gets the message
  and nothing of what follows.
\<close>

locale transport =
  fixes send :: "bytes \<Rightarrow> (bytes, unit, error) comp"
    and receive :: "(bytes, bytes, error) comp"
    and deliverable :: "bytes \<Rightarrow> bool"
  assumes send_frame: "deliverable d \<Longrightarrow> \<exists>f. \<forall>s. send d s = Ok ((), s @ f)"
    and receive_frame: "deliverable d \<Longrightarrow> send d [] = Ok ((), f) \<Longrightarrow> receive (f @ s) = Ok (d, s)"
begin

lemma receive_send:
  "deliverable d \<Longrightarrow> \<exists>f. send d s = Ok ((), s @ f) \<and> receive (f @ t) = Ok (d, t)"
proof -
  assume d: "deliverable d"
  then obtain f where "\<And>s. send d s = Ok ((), s @ f)" using send_frame by blast
  then show ?thesis using receive_frame [OF d, of f t] by auto
qed

text \<open>Any sequence of messages arrives complete, in order, with message boundaries kept.\<close>

lemma receive_send_all:
  assumes "\<forall>d\<in>set ds. deliverable d"
  shows "\<exists>fs. seq (map send ds) s = Ok ((), s @ fs) \<and> repeat (length ds) receive (fs @ t) = Ok (ds, t)"
  using assms
proof (induction ds arbitrary: s)
  case Nil
  then show ?case by simp
next
  case (Cons d ds)
  then have "deliverable d" by simp
  from send_frame [OF this] obtain f where f: "\<And>s. send d s = Ok ((), s @ f)" by blast
  from Cons obtain fs where fs: "seq (map send ds) (s @ f) = Ok ((), (s @ f) @ fs)"
    and r: "repeat (length ds) receive (fs @ t) = Ok (ds, t)"
    by (metis list.set_intros(2))
  have "receive (f @ fs @ t) = Ok (d, fs @ t)"
    using receive_frame [OF \<open>deliverable d\<close>, of f] f [of "[]"] by simp
  with f fs r show ?case by (intro exI [of _ "f @ fs"]) simp
qed

end

section \<open>TCP implements it\<close>

definition tcp_deliverable :: "bytes \<Rightarrow> bool" where
  "tcp_deliverable d \<longleftrightarrow> length d < MAX_FRAME_SIZE"

lemma length_frame_header [simp]: "length (frame_header n) = 4"
  by (simp add: frame_header_def)

lemma or_nat_add: "b < 2 ^ n \<Longrightarrow> push_bit n a OR b = 2 ^ n * a + (b :: nat)"
proof -
  assume "b < 2 ^ n"
  then have b: "take_bit n b = b" by (simp add: take_bit_nat_eq_self)
  have "push_bit n a AND take_bit n b = 0"
    by (rule bit_eqI) (simp add: bit_and_iff bit_push_bit_iff bit_take_bit_iff)
  then have "push_bit n a AND b = 0" by (simp only: b)
  then have "push_bit n a OR b = push_bit n a + b" by (rule disjunctive_add_eq_or [symmetric])
  then show ?thesis by (simp add: push_bit_eq_mult mult.commute)
qed

lemma frame_length_value:
  "frame_length [z, a, b, c] = 65536 * unat a + 256 * unat b + unat c"
proof -
  have "push_bit 8 (unat b) OR unat c = 2 ^ 8 * unat b + unat c"
    using or_nat_add [of "unat c" 8 "unat b"] by simp
  moreover have "256 * unat b + unat c < 65536"
    using unat_u8_less [of b] unat_u8_less [of c] by linarith
  ultimately show ?thesis
    using or_nat_add [of "256 * unat b + unat c" 16 "unat a"] by (simp add: frame_length_def or.assoc)
qed

lemma unat_word_of_nat_u8: "unat (word_of_nat n :: u8) = n mod 256"
  by (simp add: unat_of_nat)

text \<open>The header carries the length modulo \<open>2^24\<close>.\<close>

lemma mod_2_24: "65536 * (n div 65536 mod 256) + 256 * (n div 256 mod 256) + n mod 256 = n mod (16777216 :: nat)"
proof -
  have "n mod 16777216 = 65536 * (n div 65536 mod 256) + n mod 65536"
    using mod_mult2_eq [of n 65536 256] by simp
  moreover have "n mod 65536 = 256 * (n div 256 mod 256) + n mod 256"
    using mod_mult2_eq [of n 256 256] by simp
  ultimately show ?thesis by simp
qed

lemma frame_length_header: "frame_length (frame_header n) = n mod 16777216"
  using mod_2_24 [of n]
  by (simp add: frame_header_def frame_length_value unat_word_of_nat_u8 drop_bit_eq_div)

lemma read_exact_append [simp]: "length a = n \<Longrightarrow> read_exact n (a @ b) = Ok (a, b)"
  by (simp add: read_exact_def)

lemma tcp_receive_frame:
  assumes "length d mod 16777216 = length a" "d = a @ b"
  shows "tcp_receive (frame_header (length d) @ d @ s) = Ok (a, b @ s)"
proof -
  have "length a \<le> MAX_FRAME_SIZE" "frame_header (length d) ! 0 = 0"
    using assms(1) mod_less_divisor [of "16777216" "length d"]
    by (simp_all add: MAX_FRAME_SIZE_def frame_header_def)
  with assms show ?thesis by (simp add: tcp_receive_def frame_length_header)
qed

interpretation tcp: transport tcp_send tcp_receive tcp_deliverable
proof unfold_locales
  fix d f s
  assume d: "tcp_deliverable d"
  then show "\<exists>f. \<forall>s. tcp_send d s = Ok ((), s @ f)"
    by (simp add: tcp_send_def tcp_deliverable_def)
  from d have "length d mod 16777216 = length d"
    by (simp add: tcp_deliverable_def MAX_FRAME_SIZE_def)
  moreover assume "tcp_send d [] = Ok ((), f)"
  ultimately show "tcp_receive (f @ s) = Ok (d, s)"
    using d tcp_receive_frame [of d d "[]" s] by (auto simp: tcp_send_def tcp_deliverable_def)
qed

lemma tcp_receive_bound:
  assumes "tcp_receive s = Ok (d, t)"
  shows "length d < MAX_FRAME_SIZE" and "\<exists>h. length h = 4 \<and> s = h @ d @ t"
proof -
  from assms have l: "4 \<le> length s" and n: "frame_length (take 4 s) \<le> length (drop 4 s)"
    and d: "d = take (frame_length (take 4 s)) (drop 4 s)" "t = drop (frame_length (take 4 s)) (drop 4 s)"
    by (auto simp: tcp_receive_def read_exact_def Let_def split: if_splits)
  obtain z a b c where "take 4 s = [z, a, b, c]"
    using l by (auto simp: numeral_eq_Suc Suc_le_length_iff)
  then have "frame_length (take 4 s) < MAX_FRAME_SIZE"
    using unat_u8_less [of a] unat_u8_less [of b] unat_u8_less [of c]
    by (simp only: MAX_FRAME_SIZE_def frame_length_value)
  with n d show "length d < MAX_FRAME_SIZE" by simp
  show "\<exists>h. length h = 4 \<and> s = h @ d @ t"
    using l d by (intro exI [of _ "take 4 s"]) (simp del: drop_drop)
qed

lemma tcp_receive_no_panic: "tcp_receive s \<noteq> Panic"
  by (simp add: tcp_receive_def read_exact_def Let_def)

section \<open>Properties\<close>

text \<open>
  C30: Any sequence of messages below the frame limit that is sent on the TCP transport is
  received complete, in order and with its boundaries, and what follows in the stream is left
  untouched.
\<close>

theorem tcp_delivers_in_order:
  assumes "list_all (\<lambda>d. length d < MAX_FRAME_SIZE) ds"
  shows "\<exists>fs. seq (map tcp_send ds) s = Ok ((), s @ fs) \<and>
    repeat (length ds) tcp_receive (fs @ t) = Ok (ds, t)"
  using tcp.receive_send_all [of ds s t] assms by (simp add: tcp_deliverable_def list_all_iff)

theorem tcp_delivers_in_order_witness:
  "\<exists>fs. seq (map tcp_send [[1, 2], [], [3]]) [] = Ok ((), fs) \<and> repeat 3 tcp_receive (fs @ [9]) = Ok ([[1, 2], [], [3]], [9])"
  using tcp_delivers_in_order [of "[[1, 2], [], [3]]" "[]" "[9]"] by (simp add: MAX_FRAME_SIZE_def numeral_3_eq_3)

text \<open>
  C40: A message of exactly 16 MiB passes the size check of \<open>send\<close> although its length does not fit
  the 24-bit field: the receiver reads an empty message and then takes the payload for frames.
\<close>

theorem tcp_sixteen_mib_desync:
  assumes "length d = 16777216"
  shows "tcp_send d [] = Ok ((), frame_header 16777216 @ d) \<and>
    tcp_receive (frame_header 16777216 @ d @ s) = Ok ([], d @ s)"
  using tcp_receive_frame [of d "[]" d s] assms by (simp add: tcp_send_def MAX_FRAME_SIZE_def)

theorem tcp_sixteen_mib_desync_witness:
  "tcp_receive (frame_header 16777216 @ replicate 16777216 0 @ [1]) = Ok ([], replicate 16777216 0 @ [1])"
  using tcp_sixteen_mib_desync [of "replicate 16777216 0" "[1]"] by (simp only: length_replicate)

end
