(* ===== verification/Smb_Name.thy ===== *)
theory Smb_Name
  imports Smb_Types
begin

text \<open>
  \<open>src/name.rs\<close>: the mapping between caller names and the names SMB2 allows on the wire, and
  its lifting to paths. Characters are code points.
\<close>

section \<open>Characters\<close>

definition PUA_BASE :: nat where "PUA_BASE = 0xF000"
definition PUA_LAST :: nat where "PUA_LAST = 0xF029"
definition WIRE_TRAILING_SPACE :: rchar where "WIRE_TRAILING_SPACE = 0xF028"
definition WIRE_TRAILING_PERIOD :: rchar where "WIRE_TRAILING_PERIOD = 0xF029"

abbreviation SPACE :: rchar where "SPACE \<equiv> 32"
abbreviation PERIOD :: rchar where "PERIOD \<equiv> 46"
abbreviation SLASH :: rchar where "SLASH \<equiv> 47"
abbreviation BACKSLASH :: rchar where "BACKSLASH \<equiv> 92"

definition encode_char :: "rchar \<Rightarrow> rchar option" where
  "encode_char c =
     (if 0x01 \<le> c \<and> c \<le> 0x1F then Some (PUA_BASE + c)
      else if c = 34 then Some 0xF020
      else if c = 42 then Some 0xF021
      else if c = 58 then Some 0xF022
      else if c = 60 then Some 0xF023
      else if c = 62 then Some 0xF024
      else if c = 63 then Some 0xF025
      else if c = 92 then Some 0xF026
      else if c = 124 then Some 0xF027
      else None)"

definition decode_char :: "rchar \<Rightarrow> rchar option" where
  "decode_char c =
     (if 0xF001 \<le> c \<and> c \<le> 0xF01F then Some (c - PUA_BASE)
      else if c = 0xF020 then Some 34
      else if c = 0xF021 then Some 42
      else if c = 0xF022 then Some 58
      else if c = 0xF023 then Some 60
      else if c = 0xF024 then Some 62
      else if c = 0xF025 then Some 63
      else if c = 0xF026 then Some 92
      else if c = 0xF027 then Some 124
      else if c = 0xF028 then Some 32
      else if c = 0xF029 then Some 46
      else None)"

definition is_mapped :: "rchar \<Rightarrow> bool" where
  "is_mapped c \<longleftrightarrow> c > PUA_BASE \<and> c \<le> PUA_LAST"

lemmas char_defs = encode_char_def decode_char_def is_mapped_def PUA_BASE_def PUA_LAST_def
  WIRE_TRAILING_SPACE_def WIRE_TRAILING_PERIOD_def

text \<open>\<open>Option::unwrap_or\<close>\<close>

definition unwrap_or :: "'a option \<Rightarrow> 'a \<Rightarrow> 'a" where
  "unwrap_or v d = (case v of None \<Rightarrow> d | Some x \<Rightarrow> x)"

lemma unwrap_or_simps [simp]: "unwrap_or None d = d" "unwrap_or (Some x) d = x"
  by (simp_all add: unwrap_or_def)

section \<open>Names\<close>

text \<open>The \<open>while let Some(c) = chars.next()\<close> loop with its one-character lookahead.\<close>

fun encode_loop :: "rstring \<Rightarrow> rstring" where
  "encode_loop [] = []"
| "encode_loop (c # cs) =
     (let is_last = (cs = []);
          mapped = (if c = SPACE \<and> is_last then Some WIRE_TRAILING_SPACE
                    else if c = PERIOD \<and> is_last then Some WIRE_TRAILING_PERIOD
                    else encode_char c)
      in unwrap_or mapped c # encode_loop cs)"

definition ends_illegally :: "rstring \<Rightarrow> bool" where
  "ends_illegally name \<longleftrightarrow> name \<noteq> [] \<and> (last name = SPACE \<or> last name = PERIOD)"

definition encode_name :: "rstring \<Rightarrow> rstring" where
  "encode_name name =
     (if \<not> ends_illegally name \<and> \<not> (\<exists>c\<in>set name. encode_char c \<noteq> None) then name
      else encode_loop name)"

definition decode_name :: "rstring \<Rightarrow> rstring" where
  "decode_name name =
     (if \<not> (\<exists>c\<in>set name. is_mapped c) then name
      else map (\<lambda>c. unwrap_or (decode_char c) c) name)"

text \<open>A name the server accepts: no illegal character, no space or period at the end.\<close>

definition legal_name :: "rstring \<Rightarrow> bool" where
  "legal_name name \<longleftrightarrow> \<not> ends_illegally name \<and> (\<forall>c\<in>set name. encode_char c = None)"

lemma decode_char_mapped: "decode_char c = None \<longleftrightarrow> \<not> is_mapped c"
  by (auto simp: char_defs; presburger)

lemma decode_encode_char: "encode_char c = Some d \<Longrightarrow> decode_char d = Some c"
  by (auto simp: char_defs split: if_splits)

lemma encode_decode_char:
  "decode_char c = Some d \<Longrightarrow> c \<noteq> WIRE_TRAILING_SPACE \<Longrightarrow> c \<noteq> WIRE_TRAILING_PERIOD \<Longrightarrow> encode_char d = Some c"
  by (auto simp: char_defs split: if_splits; arith)

lemma encode_char_range: "encode_char c = Some d \<Longrightarrow> is_mapped d"
  by (auto simp: char_defs split: if_splits)

lemma encode_char_legal [simp]: "encode_char (unwrap_or (encode_char c) c) = None"
  by (cases "encode_char c") (auto simp: char_defs split: if_splits)

lemma encode_char_plain [simp]:
  "encode_char SPACE = None" "encode_char PERIOD = None" "encode_char SLASH = None"
  "encode_char WIRE_TRAILING_SPACE = None" "encode_char WIRE_TRAILING_PERIOD = None"
  by (simp_all add: char_defs)

lemma decode_char_trailing [simp]:
  "decode_char WIRE_TRAILING_SPACE = Some SPACE" "decode_char WIRE_TRAILING_PERIOD = Some PERIOD"
  by (simp_all add: char_defs)

lemma encode_loop_eq_Nil [simp]: "encode_loop s = [] \<longleftrightarrow> s = []"
  by (cases s) (simp_all add: Let_def)

text \<open>The borrowed fast path returns what the loop would have built.\<close>

lemma encode_loop_legal: "legal_name name \<Longrightarrow> encode_loop name = name"
  by (induction name) (auto simp: legal_name_def ends_illegally_def Let_def split: if_splits)

lemma encode_name_loop: "encode_name name = encode_loop name"
  using encode_loop_legal [of name] by (auto simp: encode_name_def legal_name_def)

lemma decode_name_map: "decode_name name = map (\<lambda>c. unwrap_or (decode_char c) c) name"
  by (auto simp: decode_name_def decode_char_mapped [symmetric] intro!: map_idI [symmetric])

lemma encode_name_legal: "legal_name (encode_name name)"
proof -
  have "(\<forall>c\<in>set (encode_loop name). encode_char c = None) \<and> \<not> ends_illegally (encode_loop name)"
  proof (induction name)
    case (Cons c cs)
    then show ?case
      by (cases "encode_char c") (auto simp: ends_illegally_def Let_def char_defs split: if_splits)
  qed (simp add: ends_illegally_def)
  then show ?thesis by (simp add: encode_name_loop legal_name_def)
qed

lemma encode_name_id_iff: "encode_name name = name \<longleftrightarrow> legal_name name"
  using encode_name_legal [of name] encode_loop_legal [of name] by (auto simp: encode_name_loop)

lemma decode_encode_name:
  "\<forall>c\<in>set name. \<not> is_mapped c \<Longrightarrow> decode_name (encode_name name) = name"
  unfolding encode_name_loop decode_name_map
proof (induction name)
  case (Cons c cs)
  then have "unwrap_or (decode_char (unwrap_or (encode_char c) c)) c = c"
    by (cases "encode_char c") (auto simp: decode_encode_char decode_char_mapped [symmetric])
  moreover have "unwrap_or (decode_char (unwrap_or (encode_char c) c)) (unwrap_or (encode_char c) c) = c"
    using Cons.prems
    by (cases "encode_char c") (auto simp: decode_encode_char decode_char_mapped [symmetric])
  ultimately show ?case using Cons by (simp add: Let_def)
qed simp

text \<open>
  The other direction needs a name a mapping client could have stored: legal, with the two
  trailing substitutes nowhere but at the end.
\<close>

definition canonical_wire :: "rstring \<Rightarrow> bool" where
  "canonical_wire w \<longleftrightarrow> legal_name w \<and>
     (\<forall>c\<in>set (butlast w). c \<noteq> WIRE_TRAILING_SPACE \<and> c \<noteq> WIRE_TRAILING_PERIOD)"

lemma encode_decode_name: "canonical_wire w \<Longrightarrow> encode_name (decode_name w) = w"
  unfolding encode_name_loop decode_name_map
proof (induction w)
  case (Cons c cs)
  show ?case
  proof (cases "cs = []")
    case True
    with Cons.prems have c: "encode_char c = None" "c \<noteq> SPACE" "c \<noteq> PERIOD"
      by (auto simp: canonical_wire_def legal_name_def ends_illegally_def)
    consider "c = WIRE_TRAILING_SPACE" | "c = WIRE_TRAILING_PERIOD" | "decode_char c = None"
      | d where "decode_char c = Some d" "encode_char d = Some c"
      using encode_decode_char by fastforce
    then show ?thesis
      using True c by cases (auto simp: Let_def)
  next
    case False
    with Cons.prems have cs: "canonical_wire cs" "encode_char c = None"
      "c \<noteq> WIRE_TRAILING_SPACE" "c \<noteq> WIRE_TRAILING_PERIOD"
      by (auto simp: canonical_wire_def legal_name_def ends_illegally_def)
    then have "unwrap_or (encode_char (unwrap_or (decode_char c) c)) (unwrap_or (decode_char c) c) = c"
      by (cases "decode_char c") (auto simp: encode_decode_char)
    with Cons.IH [OF cs(1)] False show ?thesis by (simp add: Let_def)
  qed
qed simp

section \<open>Paths\<close>

text \<open>\<open>str::split(d)\<close>: the pieces between the separators, at least one.\<close>

fun str_split :: "rchar \<Rightarrow> rstring \<Rightarrow> rstring list" where
  "str_split d [] = [[]]"
| "str_split d (c # cs) =
     (if c = d then [] # str_split d cs
      else case str_split d cs of [] \<Rightarrow> [[c]] | w # ws \<Rightarrow> (c # w) # ws)"

text \<open>The loop over \<open>split(..).enumerate()\<close> that pushes a separator before every piece but the first.\<close>

primrec push_components :: "rchar \<Rightarrow> (rstring \<Rightarrow> rstring) \<Rightarrow> rstring list \<Rightarrow> usize \<Rightarrow> rstring" where
  "push_components sep f [] i = []"
| "push_components sep f (w # ws) i =
     (if i > 0 then [sep] else []) @ f w @ push_components sep f ws (Suc i)"

definition encode_component :: "rstring \<Rightarrow> rstring" where
  "encode_component w = (if w = [PERIOD] \<or> w = [PERIOD, PERIOD] then w else encode_name w)"

definition encode_path :: "rstring \<Rightarrow> rstring" where
  "encode_path path =
     push_components BACKSLASH encode_component (str_split SLASH (dropWhile (\<lambda>c. c = SLASH) path)) 0"

definition decode_path :: "rstring \<Rightarrow> rstring" where
  "decode_path path = push_components SLASH decode_name (str_split BACKSLASH path) 0"

lemma str_split_neq_Nil [simp]: "str_split d s \<noteq> []"
  by (cases s) (auto split: list.splits)

lemma str_split_no_sep: "w \<in> set (str_split d s) \<Longrightarrow> d \<notin> set w"
  by (induction s arbitrary: w) (auto split: if_splits list.splits)

lemma str_split_subset: "w \<in> set (str_split d s) \<Longrightarrow> set w \<subseteq> set s"
  by (induction s arbitrary: w) (fastforce split: if_splits list.splits)+

lemma str_split_append_sep: "d \<notin> set w \<Longrightarrow> str_split d (w @ d # s) = w # str_split d s"
  by (induction w) auto

lemma str_split_plain: "d \<notin> set w \<Longrightarrow> str_split d w = [w]"
  by (induction w) auto

lemma push_components_Suc: "push_components sep f ws (Suc i) = concat (map (\<lambda>w. sep # f w) ws)"
  by (induction ws arbitrary: i) simp_all

lemma split_push:
  assumes "ws \<noteq> []" "\<forall>w\<in>set ws. d \<notin> set (f w)"
  shows "str_split d (push_components d f ws 0) = map f ws"
  using assms
proof (induction ws)
  case (Cons w ws)
  show ?case
  proof (cases ws)
    case Nil
    with Cons.prems show ?thesis by (simp add: str_split_plain)
  next
    case (Cons v vs)
    have "push_components d f (w # v # vs) 0 = f w @ d # push_components d f (v # vs) 0"
      by (simp add: push_components_Suc)
    with Cons.IH Cons.prems Cons show ?thesis by (simp add: str_split_append_sep)
  qed
qed simp

lemma push_split: "push_components d id (str_split d s) 0 = s"
proof (induction s)
  case (Cons c cs)
  then show ?case
    by (cases "str_split d cs") (auto simp: push_components_Suc)
qed simp

lemma push_map: "push_components sep f (map g ws) i = push_components sep (f \<circ> g) ws i"
  by (induction ws arbitrary: i) simp_all

lemma push_cong: "(\<And>w. w \<in> set ws \<Longrightarrow> f w = g w) \<Longrightarrow> push_components sep f ws i = push_components sep g ws i"
  by (induction ws arbitrary: i) simp_all

lemma legal_no_backslash: "legal_name w \<Longrightarrow> BACKSLASH \<notin> set w"
  by (auto simp: legal_name_def encode_char_def)

lemma encode_component_no_backslash: "BACKSLASH \<notin> set (encode_component w)"
  using legal_no_backslash [OF encode_name_legal [of w]] by (simp add: encode_component_def)

lemma decode_encode_component:
  "\<forall>c\<in>set w. \<not> is_mapped c \<Longrightarrow> decode_name (encode_component w) = w"
  using decode_encode_name [of w] by (auto simp: encode_component_def decode_name_map char_defs)

text \<open>A separator of the wire path comes from a separator of the caller's path and from nothing else.\<close>

lemma split_encode_path:
  "str_split BACKSLASH (encode_path p) = map encode_component (str_split SLASH (dropWhile (\<lambda>c. c = SLASH) p))"
  unfolding encode_path_def by (rule split_push) (simp_all add: encode_component_no_backslash)

lemma decode_encode_path:
  assumes "\<forall>c\<in>set p. \<not> is_mapped c"
  shows "decode_path (encode_path p) = dropWhile (\<lambda>c. c = SLASH) p"
proof -
  let ?q = "dropWhile (\<lambda>c. c = SLASH) p"
  have "decode_name (encode_component w) = w" if "w \<in> set (str_split SLASH ?q)" for w
  proof (rule decode_encode_component, rule ballI)
    fix c assume "c \<in> set w"
    with str_split_subset [OF that] have "c \<in> set ?q" by blast
    then have "c \<in> set p" by (auto dest: set_dropWhileD)
    with assms show "\<not> is_mapped c" by blast
  qed
  then have "decode_path (encode_path p) = push_components SLASH id (str_split SLASH ?q) 0"
    unfolding decode_path_def split_encode_path push_map by (intro push_cong) simp
  then show ?thesis by (simp only: push_split)
qed

section \<open>Properties\<close>

text \<open>
  A path of the caller whose characters are all outside the private mapping range comes back
  from the wire form unchanged but for its leading slashes, and each component of the wire form is
  a name the server accepts, or one of the two directory references.
\<close>

lemma path_roundtrip:
  assumes "list_all (\<lambda>c. \<not> is_mapped c) p"
  shows "decode_path (encode_path p) = dropWhile (\<lambda>c. c = SLASH) p \<and>
    list_all (\<lambda>w. legal_name w \<or> w = [PERIOD] \<or> w = [PERIOD, PERIOD]) (str_split BACKSLASH (encode_path p))"
  using decode_encode_path [of p] assms
  by (auto simp: list_all_iff split_encode_path encode_component_def encode_name_legal)

theorem path_roundtrip_witness:
  "decode_path (encode_path [SLASH, 97, 58, SLASH, 98, PERIOD]) = [97, 58, SLASH, 98, PERIOD]"
  using path_roundtrip [of "[SLASH, 97, 58, SLASH, 98, PERIOD]"]
  by (simp add: is_mapped_def PUA_BASE_def PUA_LAST_def)

text \<open>
  \<open>encode_name\<close> always yields a name the server accepts, changes a name exactly when it is not
  one already, and its allocation-free fast path returns what the character loop would build.
\<close>

lemma encode_name_spec:
  "legal_name (encode_name name) \<and> (encode_name name = name \<longleftrightarrow> legal_name name) \<and> encode_name name = encode_loop name"
  using encode_name_legal encode_name_id_iff encode_name_loop by auto

end
