(* ===== verification/Smb_Spnego.thy ===== *)
theory Smb_Spnego
  imports Smb_Pack
begin

text \<open>
  \<open>src/auth/der.rs\<close> and \<open>src/auth/spnego.rs\<close>: the DER tag-length-value primitives and the
  SPNEGO tokens that carry an authentication mechanism's messages in SESSION_SETUP.
\<close>

section \<open>DER\<close>

definition der_length :: "usize \<Rightarrow> bytes" where
  "der_length len =
     (if len < 128 then [word_of_nat len]
      else if len < 256 then [0x81, word_of_nat len]
      else [0x82, word_of_nat (drop_bit 8 len), word_of_nat (len AND 0xff)])"

definition der_tlv :: "u8 \<Rightarrow> bytes \<Rightarrow> bytes" where
  "der_tlv tag data = [tag] @ der_length (length data) @ data"

definition parse_der_length :: "bytes \<Rightarrow> (usize \<times> usize) res" where
  "parse_der_length data =
     (case data of
        [] \<Rightarrow> Err (InvalidData (Malformed ''DER: truncated length'' []))
      | first # _ \<Rightarrow>
          if first < 128 then Ok (unat first, 1)
          else if first = 0x81 then
            (if length data < 2 then Err (InvalidData (Malformed ''DER: truncated length (0x81)'' []))
             else Ok (unat (data ! 1), 2))
          else if first = 0x82 then
            (if length data < 3 then Err (InvalidData (Malformed ''DER: truncated length (0x82)'' []))
             else Ok (push_bit 8 (unat (data ! 1)) OR unat (data ! 2), 3))
          else if first = 0x83 then
            (if length data < 4 then Err (InvalidData (Malformed ''DER: truncated length (0x83)'' []))
             else Ok (push_bit 16 (unat (data ! 1)) OR push_bit 8 (unat (data ! 2)) OR unat (data ! 3), 4))
          else Err (InvalidData (Malformed ''DER: unsupported length encoding'' [unat first])))"

definition parse_der_tlv :: "bytes \<Rightarrow> (u8 \<times> bytes \<times> usize) res" where
  "parse_der_tlv data =
     (case data of
        [] \<Rightarrow> Err (InvalidData (Malformed ''DER: truncated TLV'' []))
      | tag # after_tag \<Rightarrow>
          result_bind (parse_der_length after_tag) (\<lambda>(len, len_bytes).
            let header_len = 1 + len_bytes;
                total = header_len + len
            in if length data < total
               then Err (InvalidData (Malformed ''DER: TLV truncated'' [total, length data]))
               else result_bind (slice data header_len total) (\<lambda>value. Ok (tag, value, total))))"

section \<open>SPNEGO constants\<close>

definition OID_SPNEGO :: bytes where
  "OID_SPNEGO = [0x06, 0x06, 0x2b, 0x06, 0x01, 0x05, 0x05, 0x02]"
definition OID_NTLMSSP :: bytes where
  "OID_NTLMSSP = [0x06, 0x0a, 0x2b, 0x06, 0x01, 0x04, 0x01, 0x82, 0x37, 0x02, 0x02, 0x0a]"
definition OID_KERBEROS :: bytes where
  "OID_KERBEROS = [0x06, 0x09, 0x2a, 0x86, 0x48, 0x86, 0xf7, 0x12, 0x01, 0x02, 0x02]"
definition OID_MS_KERBEROS :: bytes where
  "OID_MS_KERBEROS = [0x06, 0x09, 0x2a, 0x86, 0x48, 0x82, 0xf7, 0x12, 0x01, 0x02, 0x02]"

abbreviation TAG_OID :: u8 where "TAG_OID \<equiv> 0x06"
abbreviation TAG_SEQUENCE :: u8 where "TAG_SEQUENCE \<equiv> 0x30"
abbreviation TAG_OCTET_STRING :: u8 where "TAG_OCTET_STRING \<equiv> 0x04"
abbreviation TAG_ENUMERATED :: u8 where "TAG_ENUMERATED \<equiv> 0x0a"
abbreviation TAG_APPLICATION_0 :: u8 where "TAG_APPLICATION_0 \<equiv> 0x60"
abbreviation TAG_CONTEXT_0 :: u8 where "TAG_CONTEXT_0 \<equiv> 0xa0"
abbreviation TAG_CONTEXT_1 :: u8 where "TAG_CONTEXT_1 \<equiv> 0xa1"
abbreviation TAG_CONTEXT_2 :: u8 where "TAG_CONTEXT_2 \<equiv> 0xa2"
abbreviation TAG_CONTEXT_3 :: u8 where "TAG_CONTEXT_3 \<equiv> 0xa3"

section \<open>SPNEGO tokens\<close>

datatype neg_state = AcceptCompleted | AcceptIncomplete | Reject

fun neg_state_from_value :: "u8 \<Rightarrow> neg_state option" where
  "neg_state_from_value v =
     (if v = 0 then Some AcceptCompleted
      else if v = 1 then Some AcceptIncomplete
      else if v = 2 then Some Reject
      else None)"

record neg_token_resp =
  neg_state :: "neg_state option"
  supported_mech :: "bytes option"
  response_token :: "bytes option"
  mech_list_mic :: "bytes option"

definition wrap_neg_token_init :: "bytes list \<Rightarrow> bytes \<Rightarrow> bytes" where
  "wrap_neg_token_init mech_oids mech_token =
     (let mech_list_seq = der_tlv TAG_SEQUENCE (concat mech_oids);
          mech_types = der_tlv TAG_CONTEXT_0 mech_list_seq;
          mech_token_octet = der_tlv TAG_OCTET_STRING mech_token;
          mech_token_ctx = der_tlv TAG_CONTEXT_2 mech_token_octet;
          init_seq = der_tlv TAG_SEQUENCE (mech_types @ mech_token_ctx);
          choice = der_tlv TAG_CONTEXT_0 init_seq
      in der_tlv TAG_APPLICATION_0 (OID_SPNEGO @ choice))"

definition wrap_neg_token_resp :: "bytes \<Rightarrow> bytes" where
  "wrap_neg_token_resp mech_token =
     (let mech_token_octet = der_tlv TAG_OCTET_STRING mech_token;
          response_token_ctx = der_tlv TAG_CONTEXT_2 mech_token_octet;
          resp_seq = der_tlv TAG_SEQUENCE response_token_ctx
      in der_tlv TAG_CONTEXT_1 resp_seq)"

text \<open>One field of the SEQUENCE of a NegTokenResp, stored into the token being built.\<close>

definition neg_token_resp_field :: "u8 \<Rightarrow> bytes \<Rightarrow> neg_token_resp \<Rightarrow> neg_token_resp res" where
  "neg_token_resp_field ctx_tag ctx_value t =
     (if ctx_tag = TAG_CONTEXT_0 then
        result_bind (parse_der_tlv ctx_value) (\<lambda>(enum_tag, enum_value, _).
          if enum_tag \<noteq> TAG_ENUMERATED
          then Err (InvalidData (Malformed ''SPNEGO: expected ENUMERATED for negState'' [unat enum_tag]))
          else case enum_value of
                 [] \<Rightarrow> Err (InvalidData (Malformed ''SPNEGO: empty ENUMERATED for negState'' []))
               | v # _ \<Rightarrow>
                   (case neg_state_from_value v of
                      None \<Rightarrow> Err (InvalidData (Malformed ''SPNEGO: unknown negState value'' [unat v]))
                    | Some st \<Rightarrow> Ok (t\<lparr>neg_state := Some st\<rparr>)))
      else if ctx_tag = TAG_CONTEXT_1 then Ok (t\<lparr>supported_mech := Some ctx_value\<rparr>)
      else if ctx_tag = TAG_CONTEXT_2 then
        result_bind (parse_der_tlv ctx_value) (\<lambda>(oct_tag, oct_value, _).
          if oct_tag \<noteq> TAG_OCTET_STRING
          then Err (InvalidData (Malformed ''SPNEGO: expected OCTET STRING for responseToken'' [unat oct_tag]))
          else Ok (t\<lparr>response_token := Some oct_value\<rparr>))
      else if ctx_tag = TAG_CONTEXT_3 then
        result_bind (parse_der_tlv ctx_value) (\<lambda>(oct_tag, oct_value, _).
          if oct_tag \<noteq> TAG_OCTET_STRING
          then Err (InvalidData (Malformed ''SPNEGO: expected OCTET STRING for mechListMIC'' [unat oct_tag]))
          else Ok (t\<lparr>mech_list_mic := Some oct_value\<rparr>))
      else Ok t)"

text \<open>One field of the SEQUENCE of a server's NegTokenInit2.\<close>

definition neg_token_init2_field :: "u8 \<Rightarrow> bytes \<Rightarrow> neg_token_resp \<Rightarrow> neg_token_resp res" where
  "neg_token_init2_field ctx_tag ctx_value t =
     (if ctx_tag = TAG_CONTEXT_0 then
        result_bind (parse_der_tlv ctx_value) (\<lambda>(seq_tag, mech_list_data, _).
          if seq_tag \<noteq> TAG_SEQUENCE
          then Err (InvalidData (Malformed ''SPNEGO: expected SEQUENCE for mechTypes'' []))
          else if mech_list_data = [] then Ok t
          else result_bind (parse_der_tlv mech_list_data) (\<lambda>(oid_tag, _, oid_total).
                 if oid_tag = TAG_OID
                 then result_bind (slice mech_list_data 0 oid_total) (\<lambda>oid.
                        Ok (t\<lparr>supported_mech := Some oid\<rparr>))
                 else Ok t))
      else if ctx_tag = TAG_CONTEXT_2 then
        result_bind (parse_der_tlv ctx_value) (\<lambda>(oct_tag, oct_value, _).
          Ok (if oct_tag = TAG_OCTET_STRING then t\<lparr>response_token := Some oct_value\<rparr> else t))
      else Ok t)"

lemma parse_der_length_OkD:
  "parse_der_length data = Ok (len, n) \<Longrightarrow> 1 \<le> n \<and> n \<le> length data"
  by (auto simp: parse_der_length_def Suc_le_eq split: list.splits if_splits)

lemma parse_der_length_no_panic [simp]: "parse_der_length data \<noteq> Panic"
  by (auto simp: parse_der_length_def split: list.splits)

lemma parse_der_tlv_no_panic [simp]: "parse_der_tlv data \<noteq> Panic"
  by (auto simp: parse_der_tlv_def result_bind_eq_Panic slice_def Let_def split: list.splits if_splits)

lemma parse_der_tlv_OkD:
  assumes "parse_der_tlv data = Ok (tag, v, tot)"
  shows "2 \<le> tot \<and> tot \<le> length data \<and> length v + 2 \<le> tot \<and>
         (\<exists>n. 2 \<le> n \<and> v = drop n (take tot data)) \<and> tag = hd data"
  using assms
  by (auto simp: parse_der_tlv_def result_bind_eq_Ok slice_def Let_def drop_take
           split: list.splits if_splits dest!: parse_der_length_OkD intro!: exI [of _ "Suc _"])

text \<open>
  The loop \<open>while pos < seq_data.len()\<close> over the fields of a SEQUENCE, for the two kinds of
  token; every round consumes at least two bytes.
\<close>

function spnego_fields ::
    "(u8 \<Rightarrow> bytes \<Rightarrow> neg_token_resp \<Rightarrow> neg_token_resp res) \<Rightarrow> bytes \<Rightarrow> usize \<Rightarrow> neg_token_resp \<Rightarrow>
     neg_token_resp res" where
  "spnego_fields field seq_data pos t =
     (if pos < length seq_data
      then result_bind (slice_from seq_data pos) (\<lambda>rest.
           result_bind (parse_der_tlv rest) (\<lambda>(ctx_tag, ctx_value, ctx_total).
           result_bind (field ctx_tag ctx_value t) (\<lambda>t'.
             spnego_fields field seq_data (pos + ctx_total) t')))
      else Ok t)"
  by pat_completeness auto
termination
  by (relation "measure (\<lambda>(f, d, p, t). length d - p)")
     (auto dest!: parse_der_tlv_OkD)

declare spnego_fields.simps [simp del]

definition empty_token :: neg_token_resp where
  "empty_token = \<lparr>neg_state = None, supported_mech = None, response_token = None, mech_list_mic = None\<rparr>"

definition parse_neg_token_resp_inner :: "bytes \<Rightarrow> neg_token_resp res" where
  "parse_neg_token_resp_inner data =
     result_bind (parse_der_tlv data) (\<lambda>(tag, seq_data, _).
       if tag \<noteq> TAG_SEQUENCE
       then Err (InvalidData (Malformed ''SPNEGO: expected SEQUENCE in NegTokenResp'' [unat tag]))
       else spnego_fields neg_token_resp_field seq_data 0 empty_token)"

definition parse_neg_token_init2_as_resp :: "bytes \<Rightarrow> neg_token_resp res" where
  "parse_neg_token_init2_as_resp data =
     result_bind (parse_der_tlv data) (\<lambda>(tag, seq_data, _).
       if tag \<noteq> TAG_SEQUENCE
       then Err (InvalidData (Malformed ''SPNEGO: expected SEQUENCE in NegTokenInit2'' [unat tag]))
       else spnego_fields neg_token_init2_field seq_data 0 empty_token)"

definition parse_neg_token_resp :: "bytes \<Rightarrow> neg_token_resp res" where
  "parse_neg_token_resp data =
     (if data = [] then Err (InvalidData (Malformed ''SPNEGO: empty token'' []))
      else result_bind (parse_der_tlv data) (\<lambda>(tag, value, _).
        if tag = TAG_CONTEXT_1 then parse_neg_token_resp_inner value
        else if tag = TAG_APPLICATION_0 then
          result_bind (parse_der_tlv value) (\<lambda>(oid_tag, _, oid_total).
            if oid_tag \<noteq> TAG_OID
            then Err (InvalidData (Malformed ''SPNEGO: expected OID in APPLICATION [0]'' [unat oid_tag]))
            else result_bind (slice_from value oid_total) (\<lambda>remaining_bytes.
                 result_bind (parse_der_tlv remaining_bytes) (\<lambda>(inner_tag, inner_value, _).
                   if inner_tag = TAG_CONTEXT_0 then parse_neg_token_init2_as_resp inner_value
                   else if inner_tag = TAG_CONTEXT_1 then parse_neg_token_resp_inner inner_value
                   else Err (InvalidData (Malformed ''SPNEGO: unexpected tag inside APPLICATION [0]''
                                            [unat inner_tag])))))
        else Err (InvalidData (Malformed ''SPNEGO: expected NegTokenResp [1] or APPLICATION [0]''
                                 [unat tag]))))"

section \<open>Lemmas\<close>

lemma and_255: "n AND 0xff = n mod (256 :: nat)"
  using take_bit_eq_mod [of 8 n] take_bit_eq_mask [of 8 n] by (simp add: mask_eq_exp_minus_1)

lemma push_bit_8_or_u8: "push_bit 8 n OR unat (b :: u8) = 256 * n + unat b"
proof -
  have b: "unat b = take_bit 8 (unat b)" using unat_u8_less [of b] by (simp add: take_bit_eq_mod)
  have "push_bit 8 n AND unat b = 0"
    by (subst b) (simp add: bit_eq_iff bit_simps)
  then show ?thesis
    by (simp add: push_bit_eq_mult flip: disjunctive_add_eq_or)
qed

lemma push_bit_8_or_mod: "push_bit 8 n OR m mod 256 = 256 * n + m mod (256 :: nat)"
  using push_bit_8_or_u8 [of n "word_of_nat m"] by (simp add: unat_of_nat)

lemma parse_der_length_of:
  assumes "n < 65536"
  shows "parse_der_length (der_length n @ rest) = Ok (n, length (der_length n))"
proof -
  consider "n < 128" | "128 \<le> n" "n < 256" | "256 \<le> n" by linarith
  then show ?thesis
  proof cases
    case 1
    then have "(word_of_nat n :: u8) < 128" by (simp add: word_less_nat_alt)
    with 1 show ?thesis by (simp add: der_length_def parse_der_length_def)
  next
    case 2
    then show ?thesis by (simp add: der_length_def parse_der_length_def)
  next
    case 3
    have hi: "drop_bit 8 n = n div 256" by (simp add: drop_bit_eq_div)
    have "n div 256 < 256" using assms by (simp add: less_mult_imp_div_less)
    with 3 show ?thesis
      by (simp add: der_length_def parse_der_length_def hi and_255 push_bit_8_or_mod)
  qed
qed


lemma parse_der_tlv_of:
  assumes "length data < 65536"
  shows "parse_der_tlv (der_tlv tag data @ rest) = Ok (tag, data, length (der_tlv tag data))"
proof -
  have "parse_der_length (der_length (length data) @ data @ rest)
        = Ok (length data, length (der_length (length data)))"
    by (rule parse_der_length_of [OF assms])
  then show ?thesis
    by (simp add: parse_der_tlv_def der_tlv_def slice_def)
qed

lemma parse_der_tlv_of0:
  "length data < 65536 \<Longrightarrow> parse_der_tlv (der_tlv tag data) = Ok (tag, data, length (der_tlv tag data))"
  using parse_der_tlv_of [of data tag "[]"] by simp

lemma length_der_length: "length (der_length n) \<le> 3"
  by (simp add: der_length_def)

lemma length_der_tlv: "length (der_tlv tag data) \<le> length data + 4" "2 \<le> length (der_tlv tag data)"
  by (simp_all add: der_tlv_def der_length_def)

lemma der_tlv_nonempty [simp]: "der_tlv tag data \<noteq> []"
  by (simp add: der_tlv_def)

text \<open>The loop of \<open>spnego_fields\<close> at the start of a field, and at the end.\<close>

lemma spnego_fields_step:
  assumes "length v < 65536" "f tag v t = Ok t'"
  shows "spnego_fields f (pre @ der_tlv tag v @ post) (length pre) t
         = spnego_fields f (pre @ der_tlv tag v @ post) (length (pre @ der_tlv tag v)) t'"
  using assms parse_der_tlv_of [of v tag post]
  by (subst spnego_fields.simps) (simp add: slice_from_Ok length_der_tlv)

lemma spnego_fields_end [simp]: "length d \<le> pos \<Longrightarrow> spnego_fields f d pos t = Ok t"
  by (simp add: spnego_fields.simps)

lemma spnego_fields_no_panic:
  assumes "\<And>tag v t. f tag v t \<noteq> Panic"
  shows "spnego_fields f d pos t \<noteq> Panic"
  using assms
proof (induction f d pos t rule: spnego_fields.induct)
  case (1 f d pos t)
  then show ?case
    by (subst spnego_fields.simps) (auto simp: result_bind_eq_Panic slice_from_Ok)
qed

lemma neg_token_resp_field_no_panic: "neg_token_resp_field tag v t \<noteq> Panic"
  by (auto simp: neg_token_resp_field_def result_bind_eq_Panic split: list.splits option.splits if_splits)

lemma neg_token_init2_field_no_panic: "neg_token_init2_field tag v t \<noteq> Panic"
  by (auto simp: neg_token_init2_field_def result_bind_eq_Panic slice_def
           split: if_splits dest: parse_der_tlv_OkD)

lemma parse_neg_token_resp_no_panic: "parse_neg_token_resp data \<noteq> Panic"
proof -
  have resp: "parse_neg_token_resp_inner d \<noteq> Panic" and init: "parse_neg_token_init2_as_resp d \<noteq> Panic" for d
    by (auto simp: parse_neg_token_resp_inner_def parse_neg_token_init2_as_resp_def result_bind_eq_Panic
          spnego_fields_no_panic neg_token_resp_field_no_panic neg_token_init2_field_no_panic split: if_splits)
  show ?thesis
    by (auto simp: parse_neg_token_resp_def result_bind_eq_Panic slice_from_Ok resp init
             split: if_splits dest!: parse_der_tlv_OkD)
qed

lemma wrap_resp_parses:
  assumes "length tok + 12 < 65536"
  shows "parse_neg_token_resp (wrap_neg_token_resp tok) = Ok (empty_token\<lparr>response_token := Some tok\<rparr>)"
proof -
  let ?oct = "der_tlv TAG_OCTET_STRING tok"
  let ?ctx = "der_tlv TAG_CONTEXT_2 ?oct"
  let ?seq = "der_tlv TAG_SEQUENCE ?ctx"
  have len: "length ?oct < 65536" "length ?ctx < 65536" "length ?seq < 65536" "length tok < 65536"
    using assms length_der_tlv(1) [of TAG_OCTET_STRING tok] length_der_tlv(1) [of TAG_CONTEXT_2 ?oct]
      length_der_tlv(1) [of TAG_SEQUENCE ?ctx] by linarith+
  have field: "neg_token_resp_field TAG_CONTEXT_2 ?oct empty_token = Ok (empty_token\<lparr>response_token := Some tok\<rparr>)"
    using len by (simp add: neg_token_resp_field_def parse_der_tlv_of0)
  have "spnego_fields neg_token_resp_field ?ctx 0 empty_token = Ok (empty_token\<lparr>response_token := Some tok\<rparr>)"
    using spnego_fields_step [where f = neg_token_resp_field and tag = TAG_CONTEXT_2 and pre = "[]" and post = "[]",
        of ?oct, OF _ field] len by simp
  then show ?thesis
    using len by (simp add: parse_neg_token_resp_def wrap_neg_token_resp_def Let_def
        parse_neg_token_resp_inner_def parse_der_tlv_of0)
qed

text \<open>Our own NegTokenInit, read the way the client reads a server's: the first mechanism and the token.\<close>

lemma wrap_init_parses:
  assumes "length oid < 65536" "length (concat oids) + length oid + length tok + 50 < 65536"
  shows "parse_neg_token_resp (wrap_neg_token_init (der_tlv TAG_OID oid # oids) tok)
         = Ok (empty_token\<lparr>supported_mech := Some (der_tlv TAG_OID oid), response_token := Some tok\<rparr>)"
proof -
  let ?oid = "der_tlv TAG_OID oid"
  let ?list = "der_tlv TAG_SEQUENCE (?oid @ concat oids)"
  let ?types = "der_tlv TAG_CONTEXT_0 ?list"
  let ?oct = "der_tlv TAG_OCTET_STRING tok"
  let ?ctx = "der_tlv TAG_CONTEXT_2 ?oct"
  let ?seq = "der_tlv TAG_SEQUENCE (?types @ ?ctx)"
  let ?choice = "der_tlv TAG_CONTEXT_0 ?seq"
  have len: "length tok < 65536" "length (?oid @ concat oids) < 65536" "length ?list < 65536"
      "length ?types < 65536" "length ?oct < 65536" "length ?ctx < 65536"
      "length (?types @ ?ctx) < 65536" "length ?seq < 65536" "length (OID_SPNEGO @ ?choice) < 65536"
      "length ?choice < 65536"
    using assms length_der_tlv(1) [of TAG_OID oid] length_der_tlv(1) [of TAG_SEQUENCE "?oid @ concat oids"]
      length_der_tlv(1) [of TAG_CONTEXT_0 ?list] length_der_tlv(1) [of TAG_OCTET_STRING tok]
      length_der_tlv(1) [of TAG_CONTEXT_2 ?oct] length_der_tlv(1) [of TAG_SEQUENCE "?types @ ?ctx"]
      length_der_tlv(1) [of TAG_CONTEXT_0 ?seq]
    unfolding length_append OID_SPNEGO_def list.size by linarith+
  let ?t = "empty_token\<lparr>supported_mech := Some ?oid\<rparr>"
  have mech: "neg_token_init2_field TAG_CONTEXT_0 ?list empty_token = Ok ?t"
    using len assms parse_der_tlv_of [of oid TAG_OID "concat oids"]
    by (simp add: neg_token_init2_field_def parse_der_tlv_of0 slice_def)
  have token: "neg_token_init2_field TAG_CONTEXT_2 ?oct ?t = Ok (?t\<lparr>response_token := Some tok\<rparr>)"
    using len by (simp add: neg_token_init2_field_def parse_der_tlv_of0)
  have fields: "spnego_fields neg_token_init2_field (?types @ ?ctx) 0 empty_token = Ok (?t\<lparr>response_token := Some tok\<rparr>)"
    using spnego_fields_step [where f = neg_token_init2_field and tag = TAG_CONTEXT_0 and pre = "[]" and post = ?ctx,
        of ?list, OF _ mech]
      spnego_fields_step [where f = neg_token_init2_field and tag = TAG_CONTEXT_2 and pre = ?types and post = "[]",
        of ?oct, OF _ token] len by simp
  have oid: "OID_SPNEGO @ ?choice = der_tlv TAG_OID (drop 2 OID_SPNEGO) @ ?choice"
    by (simp add: OID_SPNEGO_def der_tlv_def der_length_def)
  have "parse_der_tlv (OID_SPNEGO @ ?choice) = Ok (TAG_OID, drop 2 OID_SPNEGO, length OID_SPNEGO)"
    unfolding oid by (subst parse_der_tlv_of) (simp_all add: OID_SPNEGO_def der_tlv_def der_length_def)
  with len fields show ?thesis
    by (simp add: parse_neg_token_resp_def wrap_neg_token_init_def Let_def
        parse_neg_token_init2_as_resp_def parse_der_tlv_of0 slice_from_Ok)
qed

text \<open>From 65,536 bytes on the two length bytes wrap: the reader sees a shorter value.\<close>

lemma der_length_wraps: "256 \<le> n \<Longrightarrow> der_length (n + 65536) = der_length n"
  by (simp add: der_length_def drop_bit_eq_div div_add1_eq and_255 mod_add_eq [symmetric])

section \<open>Properties\<close>

text \<open>
  SPNEGO tokens parse back: the token the client wraps for its second round, and its
  initial token with any list of mechanisms, come back from the parser with the mechanism token
  and the first mechanism intact, as long as everything fits the two length bytes of the encoder.
\<close>

lemma spnego_tokens_roundtrip:
  assumes "length (concat oids) + length oid + length tok + 50 < 65536"
  shows "parse_neg_token_resp (wrap_neg_token_resp tok) = Ok (empty_token\<lparr>response_token := Some tok\<rparr>) \<and>
    parse_neg_token_resp (wrap_neg_token_init (der_tlv TAG_OID oid # oids) tok)
      = Ok (empty_token\<lparr>supported_mech := Some (der_tlv TAG_OID oid), response_token := Some tok\<rparr>)"
  using assms wrap_resp_parses [of tok] wrap_init_parses [of oid oids tok] by simp

theorem spnego_tokens_roundtrip_witness:
  "parse_neg_token_resp (wrap_neg_token_init [OID_NTLMSSP, OID_KERBEROS] [1, 2, 3])
   = Ok (empty_token\<lparr>supported_mech := Some OID_NTLMSSP, response_token := Some [1, 2, 3]\<rparr>)"
proof -
  have "OID_NTLMSSP = der_tlv TAG_OID (drop 2 OID_NTLMSSP)"
    by (simp add: OID_NTLMSSP_def der_tlv_def der_length_def)
  with spnego_tokens_roundtrip [of "[OID_KERBEROS]" "drop 2 OID_NTLMSSP" "[1, 2, 3]"] show ?thesis
    by (simp add: OID_NTLMSSP_def OID_KERBEROS_def)
qed

text \<open>
  The encoder has no form for lengths from 65,536 on: it drops the upper bits, so a token of
  64 KiB is announced as an empty one and the reader sees an empty value, although the parser
  knows the three-byte form.
\<close>

lemma der_drops_long_lengths:
  "length data = 65536 \<Longrightarrow> parse_der_tlv (der_tlv tag data) = Ok (tag, [], 4)"
  by (simp add: parse_der_tlv_def der_tlv_def der_length_def parse_der_length_def slice_def drop_bit_eq_div and_255)

end
