(* ===== verification/Smb_Ntlm.thy ===== *)
theory Smb_Ntlm
  imports Smb_Spnego
begin

text \<open>
  \<open>src/auth/ntlm.rs\<close>: the three messages of NTLMv2. MD4 and HMAC-MD5 (crates) and the
  Unicode upper-casing tables are the fields of \<open>ntlm_prims\<close>; the clock and the random source
  are the fields of \<open>ntlm_env\<close>. RC4 is the crate's own code and is modelled in full.
\<close>

section \<open>Parameters\<close>

record ntlm_prims =
  md4 :: "bytes \<Rightarrow> bytes"
  hmac_md5 :: "bytes \<Rightarrow> bytes \<Rightarrow> bytes"
  to_uppercase :: "rstring \<Rightarrow> rstring"

record ntlm_env =
  ne_now_secs :: u64
  ne_now_nanos :: u32
  ne_client_challenge :: bytes
  ne_random_key :: bytes

text \<open>The documented output size of HMAC-MD5, and the array types \<open>[u8; 8]\<close> and \<open>[u8; 16]\<close> of the random values.\<close>

definition hmac_md5_ok :: "ntlm_prims \<Rightarrow> bool" where
  "hmac_md5_ok P \<longleftrightarrow> (\<forall>k m. length (hmac_md5 P k m) = 16)"

definition ntlm_env_ok :: "ntlm_env \<Rightarrow> bool" where
  "ntlm_env_ok E \<longleftrightarrow> length (ne_client_challenge E) = 8 \<and> length (ne_random_key E) = 16"

section \<open>Constants\<close>

definition NTLM_SIGNATURE :: bytes where
  "NTLM_SIGNATURE = [0x4e, 0x54, 0x4c, 0x4d, 0x53, 0x53, 0x50, 0x00]"

definition MSG_TYPE_NEGOTIATE :: u32 where "MSG_TYPE_NEGOTIATE = 0x00000001"
definition MSG_TYPE_CHALLENGE :: u32 where "MSG_TYPE_CHALLENGE = 0x00000002"
definition MSG_TYPE_AUTHENTICATE :: u32 where "MSG_TYPE_AUTHENTICATE = 0x00000003"

definition NTLMSSP_NEGOTIATE_UNICODE :: u32 where "NTLMSSP_NEGOTIATE_UNICODE = 0x00000001"
definition NTLMSSP_REQUEST_TARGET :: u32 where "NTLMSSP_REQUEST_TARGET = 0x00000004"
definition NTLMSSP_NEGOTIATE_SIGN :: u32 where "NTLMSSP_NEGOTIATE_SIGN = 0x00000010"
definition NTLMSSP_NEGOTIATE_SEAL :: u32 where "NTLMSSP_NEGOTIATE_SEAL = 0x00000020"
definition NTLMSSP_NEGOTIATE_NTLM :: u32 where "NTLMSSP_NEGOTIATE_NTLM = 0x00000200"
definition NTLMSSP_NEGOTIATE_ALWAYS_SIGN :: u32 where "NTLMSSP_NEGOTIATE_ALWAYS_SIGN = 0x00008000"
definition NTLMSSP_NEGOTIATE_EXTENDED_SESSIONSECURITY :: u32 where
  "NTLMSSP_NEGOTIATE_EXTENDED_SESSIONSECURITY = 0x00080000"
definition NTLMSSP_NEGOTIATE_TARGET_INFO :: u32 where "NTLMSSP_NEGOTIATE_TARGET_INFO = 0x00800000"
definition NTLMSSP_NEGOTIATE_128 :: u32 where "NTLMSSP_NEGOTIATE_128 = 0x20000000"
definition NTLMSSP_NEGOTIATE_KEY_EXCH :: u32 where "NTLMSSP_NEGOTIATE_KEY_EXCH = 0x40000000"
definition NTLMSSP_NEGOTIATE_56 :: u32 where "NTLMSSP_NEGOTIATE_56 = 0x80000000"

definition DEFAULT_NEGOTIATE_FLAGS :: u32 where
  "DEFAULT_NEGOTIATE_FLAGS =
     NTLMSSP_NEGOTIATE_UNICODE OR NTLMSSP_REQUEST_TARGET OR NTLMSSP_NEGOTIATE_NTLM
     OR NTLMSSP_NEGOTIATE_ALWAYS_SIGN OR NTLMSSP_NEGOTIATE_EXTENDED_SESSIONSECURITY
     OR NTLMSSP_NEGOTIATE_TARGET_INFO OR NTLMSSP_NEGOTIATE_128 OR NTLMSSP_NEGOTIATE_KEY_EXCH
     OR NTLMSSP_NEGOTIATE_56 OR NTLMSSP_NEGOTIATE_SIGN OR NTLMSSP_NEGOTIATE_SEAL"

definition MSV_AV_EOL :: u16 where "MSV_AV_EOL = 0x0000"
definition MSV_AV_FLAGS :: u16 where "MSV_AV_FLAGS = 0x0006"
definition MSV_AV_TIMESTAMP :: u16 where "MSV_AV_TIMESTAMP = 0x0007"

section \<open>State\<close>

record ntlm_credentials =
  nc_username :: rstring
  nc_password :: rstring
  nc_domain :: rstring

record ntlm_authenticator =
  na_credentials :: ntlm_credentials
  na_negotiate_bytes :: "bytes option"
  na_challenge_bytes :: "bytes option"
  na_session_key :: "bytes option"

definition ntlm_authenticator_new :: "ntlm_credentials \<Rightarrow> ntlm_authenticator" where
  "ntlm_authenticator_new c =
     \<lparr>na_credentials = c, na_negotiate_bytes = None, na_challenge_bytes = None, na_session_key = None\<rparr>"

definition ntlm_negotiate :: "ntlm_authenticator \<Rightarrow> bytes \<times> ntlm_authenticator" where
  "ntlm_negotiate a =
     (let buf = NTLM_SIGNATURE @ to_le_bytes MSG_TYPE_NEGOTIATE @ to_le_bytes DEFAULT_NEGOTIATE_FLAGS
                @ replicate 8 0 @ replicate 8 0
      in (buf, a\<lparr>na_negotiate_bytes := Some buf\<rparr>))"

section \<open>CHALLENGE_MESSAGE\<close>

record challenge_message =
  cm_negotiate_flags :: u32
  cm_server_challenge :: bytes
  cm_target_info :: bytes

definition parse_target_info :: "bytes \<Rightarrow> bytes res" where
  "parse_target_info data =
     (if 48 \<le> length data
      then result_bind (le_at 2 data 40) (\<lambda>len :: u16.
           result_bind (le_at 4 data 44) (\<lambda>off :: u32.
             let ti_len = unat len; ti_offset = unat off
             in if 0 < ti_len \<and> ti_offset + ti_len \<le> length data
                then slice data ti_offset (ti_offset + ti_len)
                else Ok []))
      else Ok [])"

definition parse_challenge_message :: "bytes \<Rightarrow> challenge_message res" where
  "parse_challenge_message data =
     (if length data < 32 then Err (InvalidData (Malformed ''CHALLENGE_MESSAGE too short'' []))
      else result_bind (slice data 0 8) (\<lambda>sig.
        if sig \<noteq> NTLM_SIGNATURE
        then Err (InvalidData (Malformed ''invalid NTLM signature in CHALLENGE_MESSAGE'' []))
        else result_bind (le_at 4 data 8) (\<lambda>msg_type :: u32.
          if msg_type \<noteq> MSG_TYPE_CHALLENGE
          then Err (InvalidData (Malformed ''expected CHALLENGE_MESSAGE type 2'' [unat msg_type]))
          else result_bind (le_at 4 data 20) (\<lambda>flags.
               result_bind (slice data 24 32) (\<lambda>server_challenge.
               result_bind (parse_target_info data) (\<lambda>target_info.
                 Ok \<lparr>cm_negotiate_flags = flags, cm_server_challenge = server_challenge,
                     cm_target_info = target_info\<rparr>))))))"

section \<open>AV_PAIRs\<close>

function find_av_pair_from :: "bytes \<Rightarrow> u16 \<Rightarrow> usize \<Rightarrow> bytes option res" where
  "find_av_pair_from target_info av_id offset =
     (if offset + 4 \<le> length target_info
      then result_bind (le_at 2 target_info offset) (\<lambda>av :: u16.
           result_bind (le_at 2 target_info (offset + 2)) (\<lambda>l :: u16.
             let len = unat l in
             if av = av_id
             then (if offset + 4 + len \<le> length target_info
                   then result_bind (slice target_info (offset + 4) (offset + 4 + len)) (\<lambda>v. Ok (Some v))
                   else Ok None)
             else if av = MSV_AV_EOL then Ok None
             else find_av_pair_from target_info av_id (offset + (4 + len))))
      else Ok None)"
  by pat_completeness auto
termination
  by (relation "measure (\<lambda>(d, a, p). length d - p)") auto

definition find_av_pair :: "bytes \<Rightarrow> u16 \<Rightarrow> bytes option res" where
  "find_av_pair target_info av_id = find_av_pair_from target_info av_id 0"

function parse_av_pairs_from :: "bytes \<Rightarrow> usize \<Rightarrow> (u16 \<times> bytes) list res" where
  "parse_av_pairs_from target_info offset =
     (if offset + 4 \<le> length target_info
      then result_bind (le_at 2 target_info offset) (\<lambda>av :: u16.
           result_bind (le_at 2 target_info (offset + 2)) (\<lambda>l :: u16.
             let len = unat l in
             if av = MSV_AV_EOL then Ok [(av, [])]
             else if offset + 4 + len > length target_info then Ok []
             else result_bind (slice target_info (offset + 4) (offset + 4 + len)) (\<lambda>v.
                  result_bind (parse_av_pairs_from target_info (offset + (4 + len))) (\<lambda>pairs.
                    Ok ((av, v) # pairs)))))
      else Ok [])"
  by pat_completeness auto
termination
  by (relation "measure (\<lambda>(d, p). length d - p)") auto

declare find_av_pair_from.simps [simp del] parse_av_pairs_from.simps [simp del]

definition parse_av_pairs :: "bytes \<Rightarrow> (u16 \<times> bytes) list res" where
  "parse_av_pairs target_info = parse_av_pairs_from target_info 0"

definition av_pair_bytes :: "u16 \<times> bytes \<Rightarrow> bytes" where
  "av_pair_bytes p =
     to_le_bytes (fst p) @ to_le_bytes (word_of_nat (length (snd p)) :: u16) @ snd p"

definition existing_av_flags :: "(u16 \<times> bytes) list \<Rightarrow> u32" where
  "existing_av_flags pairs =
     (case find (\<lambda>p. fst p = MSV_AV_FLAGS) pairs of
        Some (_, v) \<Rightarrow> if 4 \<le> length v then from_le_bytes (take 4 v) else 0
      | None \<Rightarrow> 0)"

definition build_auth_target_info :: "bytes \<Rightarrow> bool \<Rightarrow> bytes res" where
  "build_auth_target_info challenge_target_info has_timestamp =
     result_bind (parse_av_pairs challenge_target_info) (\<lambda>pairs.
       let kept = filter (\<lambda>(av, v). \<not> (av = MSV_AV_EOL \<or> av = MSV_AV_FLAGS \<and> has_timestamp)) pairs;
           flags = existing_av_flags pairs OR 0x00000002
       in Ok (concat (map av_pair_bytes kept) @
              (if has_timestamp
               then to_le_bytes MSV_AV_FLAGS @ to_le_bytes (4 :: u16) @ to_le_bytes flags else []) @
              to_le_bytes MSV_AV_EOL @ to_le_bytes (0 :: u16)))"

section \<open>Cryptographic helpers\<close>

definition compute_nt_hash :: "ntlm_prims \<Rightarrow> rstring \<Rightarrow> bytes" where
  "compute_nt_hash P password = md4 P (utf16_le_bytes password)"

definition compute_ntlmv2_hash :: "ntlm_prims \<Rightarrow> bytes \<Rightarrow> rstring \<Rightarrow> rstring \<Rightarrow> bytes" where
  "compute_ntlmv2_hash P nt_hash username domain =
     hmac_md5 P nt_hash (utf16_le_bytes (to_uppercase P username) @ utf16_le_bytes domain)"

definition build_temp :: "u64 \<Rightarrow> bytes \<Rightarrow> bytes \<Rightarrow> bytes" where
  "build_temp timestamp client_challenge target_info =
     [0x01] @ [0x01] @ replicate 6 0 @ to_le_bytes timestamp @ client_challenge @ replicate 4 0
     @ target_info @ replicate 4 0"

text \<open>RC4. \<open>s.swap(i, j)\<close> with indices below 256 on the 256-byte state; an empty key panics at \<open>i % key.len()\<close>.\<close>

definition swap :: "'a list \<Rightarrow> nat \<Rightarrow> nat \<Rightarrow> 'a list" where
  "swap xs i j = xs[i := xs ! j, j := xs ! i]"

definition rc4_ksa_step :: "bytes \<Rightarrow> nat \<Rightarrow> bytes \<times> u8 \<Rightarrow> bytes \<times> u8" where
  "rc4_ksa_step key i sj =
     (let (s, j) = sj; j' = j + s ! i + key ! (i mod length key) in (swap s i (unat j'), j'))"

primrec rc4_prga :: "bytes \<Rightarrow> u8 \<Rightarrow> u8 \<Rightarrow> bytes \<Rightarrow> bytes" where
  "rc4_prga [] i j s = []"
| "rc4_prga (byte # data) i j s =
     (let i' = i + 1;
          j' = j + s ! unat i';
          s' = swap s (unat i') (unat j')
      in (byte XOR s' ! unat (s' ! unat i' + s' ! unat j')) # rc4_prga data i' j' s')"

definition rc4_encrypt :: "bytes \<Rightarrow> bytes \<Rightarrow> bytes res" where
  "rc4_encrypt key data =
     (if key = [] then Panic
      else let (s, j) = fold (rc4_ksa_step key) [0..<256] (map word_of_nat [0..<256], 0)
           in Ok (rc4_prga data 0 0 s))"

definition compute_mic :: "ntlm_prims \<Rightarrow> bytes \<Rightarrow> bytes \<Rightarrow> bytes \<Rightarrow> bytes \<Rightarrow> bytes" where
  "compute_mic P exported_session_key negotiate_bytes challenge_bytes authenticate_bytes =
     hmac_md5 P exported_session_key (negotiate_bytes @ challenge_bytes @ authenticate_bytes)"

section \<open>AUTHENTICATE_MESSAGE\<close>

text \<open>The eight bytes that locate a payload: its length twice and its offset.\<close>

definition auth_fields :: "bytes \<Rightarrow> usize \<Rightarrow> bytes" where
  "auth_fields payload offset =
     to_le_bytes (word_of_nat (length payload) :: u16) @ to_le_bytes (word_of_nat (length payload) :: u16)
     @ to_le_bytes (word_of_nat offset :: u32)"

definition build_authenticate_message ::
    "u32 \<Rightarrow> rstring \<Rightarrow> rstring \<Rightarrow> bytes \<Rightarrow> bytes \<Rightarrow> bytes \<Rightarrow> bool \<Rightarrow> bytes" where
  "build_authenticate_message negotiate_flags domain username lm_response nt_response enc_key include_mic =
     (let domain_bytes = utf16_le_bytes domain;
          user_bytes = utf16_le_bytes username;
          workstation_bytes = [];
          header_size = (if include_mic then 88 else 72);
          domain_offset = header_size;
          user_offset = domain_offset + length domain_bytes;
          workstation_offset = user_offset + length user_bytes;
          lm_offset = workstation_offset + length workstation_bytes;
          nt_offset = lm_offset + length lm_response;
          session_key_offset = nt_offset + length nt_response
      in NTLM_SIGNATURE @ to_le_bytes MSG_TYPE_AUTHENTICATE
         @ auth_fields lm_response lm_offset
         @ auth_fields nt_response nt_offset
         @ auth_fields domain_bytes domain_offset
         @ auth_fields user_bytes user_offset
         @ auth_fields workstation_bytes workstation_offset
         @ auth_fields enc_key session_key_offset
         @ to_le_bytes negotiate_flags
         @ replicate 8 0
         @ (if include_mic then replicate 16 0 else [])
         @ domain_bytes @ user_bytes @ workstation_bytes @ lm_response @ nt_response @ enc_key)"

definition get_timestamp :: "ntlm_env \<Rightarrow> challenge_message \<Rightarrow> u64 res" where
  "get_timestamp E challenge =
     result_bind (find_av_pair (cm_target_info challenge) MSV_AV_TIMESTAMP) (\<lambda>ts.
       let now = (ne_now_secs E + 11644473600) * 10000000 + ucast (ne_now_nanos E) div 100
       in case ts of
            Some ts_bytes \<Rightarrow> if length ts_bytes = 8 then Ok (from_le_bytes ts_bytes) else Ok now
          | None \<Rightarrow> Ok now)"

definition key_exchange :: "u32 \<Rightarrow> bool" where
  "key_exchange flags \<longleftrightarrow>
     flags AND NTLMSSP_NEGOTIATE_KEY_EXCH \<noteq> 0 \<and>
     (flags AND NTLMSSP_NEGOTIATE_SIGN \<noteq> 0 \<or> flags AND NTLMSSP_NEGOTIATE_SEAL \<noteq> 0)"

text \<open>
  \<open>authenticate\<close>: the message and the exported session key. The state is threaded: the
  challenge is stored first, the session key last, and an error in between leaves the session
  key as it was.
\<close>

definition ntlm_response ::
    "ntlm_prims \<Rightarrow> ntlm_env \<Rightarrow> ntlm_credentials \<Rightarrow> bytes option \<Rightarrow> bytes \<Rightarrow> (bytes \<times> bytes) res" where
  "ntlm_response P E c negotiate challenge_bytes =
     result_bind (parse_challenge_message challenge_bytes) (\<lambda>challenge.
       let ntlmv2_hash = compute_ntlmv2_hash P (compute_nt_hash P (nc_password c)) (nc_username c) (nc_domain c);
           client_challenge = ne_client_challenge E
       in result_bind (get_timestamp E challenge) (\<lambda>timestamp.
          result_bind (find_av_pair (cm_target_info challenge) MSV_AV_TIMESTAMP) (\<lambda>ts.
          let has_timestamp = ts \<noteq> None in
          result_bind (build_auth_target_info (cm_target_info challenge) has_timestamp) (\<lambda>auth_target_info.
          let temp = build_temp timestamp client_challenge auth_target_info;
              nt_proof_str = hmac_md5 P ntlmv2_hash (cm_server_challenge challenge @ temp);
              nt_response = nt_proof_str @ temp;
              session_base_key = hmac_md5 P ntlmv2_hash nt_proof_str;
              flags = cm_negotiate_flags challenge
          in result_bind
               (if key_exchange flags
                then result_bind (rc4_encrypt session_base_key (ne_random_key E)) (\<lambda>encrypted.
                       Ok (ne_random_key E, encrypted))
                else Ok (session_base_key, [])) (\<lambda>(exported_session_key, encrypted).
          let lm_response =
                (if has_timestamp then replicate 24 0
                 else hmac_md5 P ntlmv2_hash (cm_server_challenge challenge @ client_challenge) @ client_challenge);
              auth_msg = build_authenticate_message flags (nc_domain c) (nc_username c) lm_response
                           nt_response encrypted has_timestamp
          in result_bind
               (if has_timestamp
                then (case negotiate of
                        None \<Rightarrow> Err (InvalidData (Malformed ''negotiate() must be called before authenticate()'' []))
                      | Some negotiate_bytes \<Rightarrow>
                          copy_from_slice auth_msg 72 88
                            (compute_mic P exported_session_key negotiate_bytes challenge_bytes auth_msg))
                else Ok auth_msg) (\<lambda>final_msg. Ok (final_msg, exported_session_key)))))))"

definition ntlm_authenticate ::
    "ntlm_prims \<Rightarrow> ntlm_env \<Rightarrow> bytes \<Rightarrow> ntlm_authenticator \<Rightarrow> bytes res \<times> ntlm_authenticator" where
  "ntlm_authenticate P E challenge_bytes a =
     (let a' = a\<lparr>na_challenge_bytes := Some challenge_bytes\<rparr>
      in case ntlm_response P E (na_credentials a) (na_negotiate_bytes a) challenge_bytes of
           Ok (final_msg, key) \<Rightarrow> (Ok final_msg, a'\<lparr>na_session_key := Some key\<rparr>)
         | Err e \<Rightarrow> (Err e, a')
         | Panic \<Rightarrow> (Panic, a'))"

section \<open>Lemmas: RC4\<close>

lemma rc4_prga_involutive: "rc4_prga (rc4_prga data i j s) i j s = data"
  by (induction data arbitrary: i j s) (simp_all add: Let_def xor.assoc)

lemma length_rc4_prga [simp]: "length (rc4_prga data i j s) = length data"
  by (induction data arbitrary: i j s) (simp_all add: Let_def)

lemma rc4_encrypt_Ok: "key \<noteq> [] \<Longrightarrow> \<exists>c. rc4_encrypt key data = Ok c \<and> length c = length data"
  by (simp add: rc4_encrypt_def split: prod.split)

lemma rc4_encrypt_involutive: "rc4_encrypt key data = Ok c \<Longrightarrow> rc4_encrypt key c = Ok data"
  by (auto simp: rc4_encrypt_def rc4_prga_involutive split: prod.splits if_splits)

section \<open>Lemmas: AV_PAIRs\<close>

definition av_ok :: "u16 \<times> bytes \<Rightarrow> bool" where
  "av_ok p \<longleftrightarrow> fst p \<noteq> MSV_AV_EOL \<and> length (snd p) < 65536"

abbreviation av_bytes :: "(u16 \<times> bytes) list \<Rightarrow> bytes" where
  "av_bytes ps \<equiv> concat (map av_pair_bytes ps)"

definition av_end :: bytes where
  "av_end = to_le_bytes MSV_AV_EOL @ to_le_bytes (0 :: u16)"

lemma length_av_pair_bytes [simp]: "length (av_pair_bytes p) = 4 + length (snd p)"
  by (simp add: av_pair_bytes_def)

lemma av_pair_reads:
  assumes "d = pre @ av_pair_bytes p @ post" "length (snd p) < 65536"
  shows "le_at 2 d (length pre) = (Ok (fst p) :: u16 res)"
    and "le_at 2 d (length pre + 2) = (Ok (word_of_nat (length (snd p))) :: u16 res)"
    and "slice d (length pre + 4) (length pre + 4 + length (snd p)) = (Ok (snd p) :: bytes res)"
proof -
  let ?l = "to_le_bytes (word_of_nat (length (snd p)) :: u16)"
  have d: "d = pre @ to_le_bytes (fst p) @ ?l @ snd p @ post"
      "d = (pre @ to_le_bytes (fst p)) @ ?l @ snd p @ post"
      "d = (pre @ to_le_bytes (fst p) @ ?l) @ snd p @ post"
    by (simp_all add: assms(1) av_pair_bytes_def)
  show "le_at 2 d (length pre) = (Ok (fst p) :: u16 res)"
    by (subst d(1)) simp
  show "le_at 2 d (length pre + 2) = (Ok (word_of_nat (length (snd p))) :: u16 res)"
    by (subst d(2), rule le_at_append) simp
  show "slice d (length pre + 4) (length pre + 4 + length (snd p)) = (Ok (snd p) :: bytes res)"
    by (subst d(3), rule slice_at) simp_all
qed

text \<open>What both loops do at a pair, and at the terminator.\<close>

lemma parse_av_pairs_at:
  assumes "d = pre @ av_pair_bytes p @ post" "av_ok p"
  shows "parse_av_pairs_from d (length pre)
         = result_bind (parse_av_pairs_from d (length (pre @ av_pair_bytes p))) (\<lambda>ps. Ok (p # ps))"
  using assms av_pair_reads [OF assms(1)]
  by (subst parse_av_pairs_from.simps) (simp add: av_ok_def Let_def add.assoc)

lemma find_av_pair_at:
  assumes "d = pre @ av_pair_bytes p @ post" "av_ok p"
  shows "find_av_pair_from d k (length pre)
         = (if fst p = k then Ok (Some (snd p)) else find_av_pair_from d k (length (pre @ av_pair_bytes p)))"
  using assms av_pair_reads [OF assms(1)]
  by (subst find_av_pair_from.simps) (simp add: av_ok_def Let_def add.assoc)

lemma parse_av_pairs_av_end:
  "parse_av_pairs_from (pre @ av_end @ post) (length pre) = Ok [(MSV_AV_EOL, [])]"
proof -
  have "le_at 2 (pre @ av_end @ post) (length pre) = (Ok MSV_AV_EOL :: u16 res)"
      "le_at 2 (pre @ av_end @ post) (length pre + 2) = (Ok 0 :: u16 res)"
    using le_at_append(1) [of "pre @ to_le_bytes MSV_AV_EOL" "length pre + 2" 0 post]
    by (simp_all add: av_end_def)
  then show ?thesis
    by (subst parse_av_pairs_from.simps) (simp add: av_end_def)
qed

lemma find_av_pair_av_end:
  "k \<noteq> MSV_AV_EOL \<Longrightarrow> find_av_pair_from (pre @ av_end @ post) k (length pre) = Ok None"
proof -
  assume k: "k \<noteq> MSV_AV_EOL"
  have "le_at 2 (pre @ av_end @ post) (length pre) = (Ok MSV_AV_EOL :: u16 res)"
      "le_at 2 (pre @ av_end @ post) (length pre + 2) = (Ok 0 :: u16 res)"
    using le_at_append(1) [of "pre @ to_le_bytes MSV_AV_EOL" "length pre + 2" 0 post]
    by (simp_all add: av_end_def)
  with k show ?thesis
    by (subst find_av_pair_from.simps) (simp add: av_end_def)
qed

lemma parse_av_bytes_from:
  assumes "list_all av_ok ps"
  shows "parse_av_pairs_from (pre @ av_bytes ps @ av_end @ post) (length pre) = Ok (ps @ [(MSV_AV_EOL, [])])"
  using assms
proof (induction ps arbitrary: pre)
  case Nil
  then show ?case by (simp add: parse_av_pairs_av_end)
next
  case (Cons p ps)
  then show ?case
    using parse_av_pairs_at [of _ pre p "av_bytes ps @ av_end @ post"] Cons.IH [of "pre @ av_pair_bytes p"]
    by simp
qed

lemma find_av_bytes_from:
  assumes "list_all av_ok ps" "k \<noteq> MSV_AV_EOL"
  shows "find_av_pair_from (pre @ av_bytes ps @ av_end @ post) k (length pre) = Ok (map_of ps k)"
  using assms(1)
proof (induction ps arbitrary: pre)
  case Nil
  then show ?case by (simp add: find_av_pair_av_end assms(2))
next
  case (Cons p ps)
  then show ?case
    using find_av_pair_at [of _ pre p "av_bytes ps @ av_end @ post"] Cons.IH [of "pre @ av_pair_bytes p"]
    by (cases p) simp
qed

lemma parse_av_bytes: "list_all av_ok ps \<Longrightarrow> parse_av_pairs (av_bytes ps @ av_end @ post) = Ok (ps @ [(MSV_AV_EOL, [])])"
  using parse_av_bytes_from [of ps "[]"] by (simp add: parse_av_pairs_def)

lemma find_av_bytes:
  "list_all av_ok ps \<Longrightarrow> k \<noteq> MSV_AV_EOL \<Longrightarrow> find_av_pair (av_bytes ps @ av_end @ post) k = Ok (map_of ps k)"
  using find_av_bytes_from [of ps k "[]"] by (simp add: find_av_pair_def)

text \<open>On arbitrary bytes: no panic, and the pairs fit in the input.\<close>

abbreviation not_eol :: "u16 \<times> bytes \<Rightarrow> bool" where
  "not_eol p \<equiv> fst p \<noteq> MSV_AV_EOL"

lemma find_av_pair_no_panic: "find_av_pair_from d k off \<noteq> Panic"
proof (induction d k off rule: find_av_pair_from.induct)
  case (1 d k off)
  then show ?case
    by (subst find_av_pair_from.simps)
       (auto simp: result_bind_eq_Panic Let_def le_at_no_panic slice_def)
qed

lemma parse_av_pairs_total:
  "\<exists>ps. parse_av_pairs_from d off = Ok ps \<and> list_all (\<lambda>p. length (snd p) < 65536) ps \<and>
        length (av_bytes (filter not_eol ps)) \<le> length d - off"
proof (induction d off rule: parse_av_pairs_from.induct)
  case (1 d off)
  show ?case
  proof (cases "off + 4 \<le> length d")
    case False
    then show ?thesis by (simp add: parse_av_pairs_from.simps)
  next
    case True
    then obtain av l :: u16 where rd: "le_at 2 d off = (Ok av :: u16 res)" "le_at 2 d (off + 2) = (Ok l :: u16 res)"
      using le_at_cases [of off 2 d] le_at_cases [of "off + 2" 2 d] by fastforce
    show ?thesis
    proof (cases "av = MSV_AV_EOL \<or> off + 4 + unat l > length d")
      case True
      with rd \<open>off + 4 \<le> length d\<close> show ?thesis
        by (subst parse_av_pairs_from.simps) (auto simp: Let_def)
    next
      case False
      then have sl: "slice d (off + 4) (off + 4 + unat l) = (Ok (take (unat l) (drop (off + 4) d)) :: bytes res)"
        by (simp add: slice_def)
      from 1 [OF True rd refl] False sl obtain ps where
        ps: "parse_av_pairs_from d (off + (4 + unat l)) = Ok ps" "list_all (\<lambda>p. length (snd p) < 65536) ps"
            "length (av_bytes (filter not_eol ps)) \<le> length d - (off + (4 + unat l))"
        by auto
      with rd True False sl show ?thesis
        by (subst parse_av_pairs_from.simps) (auto simp: Let_def)
    qed
  qed
qed


lemma parse_target_info_no_panic: "parse_target_info d \<noteq> Panic"
  by (auto simp: parse_target_info_def result_bind_eq_Panic le_at_no_panic slice_def Let_def)

lemma parse_challenge_no_panic: "parse_challenge_message d \<noteq> Panic"
  by (auto simp: parse_challenge_message_def result_bind_eq_Panic le_at_no_panic slice_def
        parse_target_info_no_panic split: if_splits)

lemma parse_challenge_OkD:
  assumes "parse_challenge_message d = Ok c"
  shows "cm_server_challenge c = take 8 (drop 24 d) \<and> length (cm_server_challenge c) = 8 \<and>
         parse_target_info d = Ok (cm_target_info c)"
  using assms
  by (auto simp: parse_challenge_message_def result_bind_eq_Ok slice_def split: if_splits)

text \<open>The target information the client sends, as a list of pairs.\<close>

definition auth_pairs :: "(u16 \<times> bytes) list \<Rightarrow> bool \<Rightarrow> (u16 \<times> bytes) list" where
  "auth_pairs pairs has_timestamp =
     filter (\<lambda>(av, v). \<not> (av = MSV_AV_EOL \<or> av = MSV_AV_FLAGS \<and> has_timestamp)) pairs @
     (if has_timestamp then [(MSV_AV_FLAGS, to_le_bytes (existing_av_flags pairs OR 2))] else [])"

lemma MSV_consts [simp]: "MSV_AV_FLAGS \<noteq> MSV_AV_EOL" "MSV_AV_TIMESTAMP \<noteq> MSV_AV_EOL" "MSV_AV_TIMESTAMP \<noteq> MSV_AV_FLAGS"
  by (simp_all add: MSV_AV_FLAGS_def MSV_AV_EOL_def MSV_AV_TIMESTAMP_def)

lemma length_av_bytes_filter:
  "length (av_bytes (filter (\<lambda>(av, v). \<not> (av = MSV_AV_EOL \<or> av = MSV_AV_FLAGS \<and> h)) ps))
   \<le> length (av_bytes (filter not_eol ps))"
  by (induction ps) auto

lemma build_auth_target_info_Ok:
  "\<exists>pairs. parse_av_pairs ti = Ok pairs \<and>
           build_auth_target_info ti h = Ok (av_bytes (auth_pairs pairs h) @ av_end) \<and>
           list_all av_ok (auth_pairs pairs h) \<and>
           length (av_bytes (auth_pairs pairs h)) \<le> length ti + 8"
proof -
  obtain ps where ps: "parse_av_pairs ti = Ok ps" "list_all (\<lambda>p. length (snd p) < 65536) ps"
      "length (av_bytes (filter not_eol ps)) \<le> length ti"
    using parse_av_pairs_total [of ti 0] by (auto simp: parse_av_pairs_def)
  have "build_auth_target_info ti h = Ok (av_bytes (auth_pairs ps h) @ av_end)"
    using ps(1) by (simp add: build_auth_target_info_def auth_pairs_def av_end_def av_pair_bytes_def)
  moreover have "list_all av_ok (auth_pairs ps h)"
    using ps(2) by (auto simp: auth_pairs_def av_ok_def list_all_iff)
  moreover have "length (av_bytes (auth_pairs ps h)) \<le> length ti + 8"
    using length_av_bytes_filter [of h ps] ps(3) by (cases h) (simp_all add: auth_pairs_def case_prod_beta)
  ultimately show ?thesis using ps(1) by blast
qed

section \<open>Lemmas: the AUTHENTICATE_MESSAGE\<close>

text \<open>A payload of the message, found as its reader finds it: 16-bit length, 32-bit offset.\<close>

definition auth_payload :: "bytes \<Rightarrow> usize \<Rightarrow> bytes" where
  "auth_payload msg f =
     take (unat (from_le_bytes (take 2 (drop f msg)) :: u16))
       (drop (unat (from_le_bytes (take 4 (drop (f + 4) msg)) :: u32)) msg)"

text \<open>The message with its MIC field holding \<open>mic\<close>, empty when the field is left out.\<close>

definition auth_message :: "u32 \<Rightarrow> bytes \<Rightarrow> bytes \<Rightarrow> bytes \<Rightarrow> bytes \<Rightarrow> bytes \<Rightarrow> bytes \<Rightarrow> bytes" where
  "auth_message flags dm usr lm nt enc mic =
     (let o1 = 72 + length mic; o2 = o1 + length dm; o3 = o2 + length usr;
          o4 = o3 + length lm; o5 = o4 + length nt
      in NTLM_SIGNATURE @ to_le_bytes MSG_TYPE_AUTHENTICATE
         @ auth_fields lm o3 @ auth_fields nt o4 @ auth_fields dm o1 @ auth_fields usr o2
         @ auth_fields [] o3 @ auth_fields enc o5
         @ to_le_bytes flags @ replicate 8 0 @ mic @ dm @ usr @ lm @ nt @ enc)"

lemma build_is_auth_message:
  "build_authenticate_message flags domain username lm nt enc m
   = auth_message flags (utf16_le_bytes domain) (utf16_le_bytes username) lm nt enc (if m then replicate 16 0 else [])"
  by (simp add: build_authenticate_message_def auth_message_def Let_def)

lemma length_auth_fields [simp]: "length (auth_fields p off) = 8"
  by (simp add: auth_fields_def)

lemma length_NTLM_SIGNATURE [simp]: "length NTLM_SIGNATURE = 8"
  by (simp add: NTLM_SIGNATURE_def)

lemma auth_message_patch:
  assumes "length mic = 16"
  shows "copy_from_slice (auth_message flags dm usr lm nt enc (replicate 16 0)) 72 88 mic
         = Ok (auth_message flags dm usr lm nt enc mic)"
  using assms by (simp add: copy_from_slice_def auth_message_def Let_def)

lemma auth_payload_at:
  assumes "\<exists>post. msg = pre @ auth_fields p off @ post" "\<exists>post'. msg = pre' @ p @ post'"
    "length pre = f" "off = length pre'" "length p < 65536" "off < 4294967296"
  shows "auth_payload msg f = p"
proof -
  have "take 2 (drop f msg) = to_le_bytes (word_of_nat (length p) :: u16)"
    using assms(1,3) by (auto simp: auth_fields_def)
  moreover have "take 4 (drop (f + 4) msg) = to_le_bytes (word_of_nat off :: u32)"
    using assms(1,3) by (auto simp: auth_fields_def)
  ultimately have "auth_payload msg f = take (length p) (drop off msg)"
    using assms(5,6) by (simp add: auth_payload_def)
  with assms(2,4) show ?thesis by auto
qed

lemma auth_message_payloads:
  fixes flags :: u32
  assumes "length mic \<le> 16" "length dm < 65536" "length usr < 65536" "length lm < 65536"
    "length nt < 65536" "length enc < 65536"
  defines "msg \<equiv> auth_message flags dm usr lm nt enc mic"
  shows "auth_payload msg 12 = lm" and "auth_payload msg 20 = nt" and "auth_payload msg 28 = dm"
    and "auth_payload msg 36 = usr" and "auth_payload msg 52 = enc"
proof -
  define head where "head = NTLM_SIGNATURE @ to_le_bytes MSG_TYPE_AUTHENTICATE"
  define o1 where "o1 = 72 + length mic"
  define o2 where "o2 = o1 + length dm"
  define o3 where "o3 = o2 + length usr"
  define o4 where "o4 = o3 + length lm"
  define o5 where "o5 = o4 + length nt"
  define fixd where "fixd = head @ auth_fields lm o3 @ auth_fields nt o4 @ auth_fields dm o1 @ auth_fields usr o2
         @ auth_fields [] o3 @ auth_fields enc o5 @ to_le_bytes flags @ replicate 8 0 @ mic"
  note os = o1_def o2_def o3_def o4_def o5_def
  have head: "length head = 12" by (simp add: head_def)
  have fixd: "length fixd = o1" by (simp add: fixd_def o1_def head)
  have msg: "msg = fixd @ dm @ usr @ lm @ nt @ enc"
    by (simp add: msg_def auth_message_def Let_def fixd_def head_def os)
  have small: "o1 < 4294967296" "o2 < 4294967296" "o3 < 4294967296" "o4 < 4294967296" "o5 < 4294967296"
    using assms(1-6) by (simp_all add: os)
  have expand: "msg = head @ auth_fields lm o3 @ auth_fields nt o4 @ auth_fields dm o1 @ auth_fields usr o2
         @ auth_fields [] o3 @ auth_fields enc o5 @ to_le_bytes flags @ replicate 8 0 @ mic @ dm @ usr @ lm @ nt @ enc"
    by (simp add: msg fixd_def)
  show "auth_payload msg 12 = lm"
    by (rule auth_payload_at [where pre = head and off = o3 and pre' = "fixd @ dm @ usr"])
       (simp add: expand, simp add: msg, use assms(1-6) small in \<open>simp_all add: fixd os head\<close>)
  show "auth_payload msg 20 = nt"
    by (rule auth_payload_at [where pre = "head @ auth_fields lm o3" and off = o4 and pre' = "fixd @ dm @ usr @ lm"])
       (simp add: expand, simp add: msg, use assms(1-6) small in \<open>simp_all add: fixd os head\<close>)
  show "auth_payload msg 28 = dm"
    by (rule auth_payload_at [where pre = "head @ auth_fields lm o3 @ auth_fields nt o4" and off = o1 and pre' = fixd])
       (simp add: expand, simp add: msg, use assms(1-6) small in \<open>simp_all add: fixd os head\<close>)
  show "auth_payload msg 36 = usr"
    by (rule auth_payload_at [where pre = "head @ auth_fields lm o3 @ auth_fields nt o4 @ auth_fields dm o1"
          and off = o2 and pre' = "fixd @ dm"])
       (simp add: expand, simp add: msg, use assms(1-6) small in \<open>simp_all add: fixd os head\<close>)
  show "auth_payload msg 52 = enc"
    by (rule auth_payload_at [where pre = "head @ auth_fields lm o3 @ auth_fields nt o4 @ auth_fields dm o1
          @ auth_fields usr o2 @ auth_fields [] o3" and off = o5 and pre' = "fixd @ dm @ usr @ lm @ nt"])
       (simp add: expand, simp add: msg, use assms(1-6) small in \<open>simp_all add: fixd os head\<close>)
qed

lemma auth_message_flags: "take 4 (drop 60 (auth_message flags dm usr lm nt enc mic)) = to_le_bytes flags"
  by (simp add: auth_message_def Let_def)

lemma auth_message_mic:
  "length mic = 16 \<Longrightarrow> take 16 (drop 72 (auth_message flags dm usr lm nt enc mic)) = mic"
  "length mic = 16 \<Longrightarrow> take 72 (auth_message flags dm usr lm nt enc mic) @ replicate 16 0
     @ drop 88 (auth_message flags dm usr lm nt enc mic) = auth_message flags dm usr lm nt enc (replicate 16 0)"
  by (simp_all add: auth_message_def Let_def)


section \<open>Lemmas: the exchange\<close>

text \<open>Searching a list of pairs is looking it up in the parsed list, on any bytes.\<close>

lemma find_av_pair_from_parsed:
  assumes "parse_av_pairs_from d off = Ok ps" "k \<noteq> MSV_AV_EOL"
  shows "find_av_pair_from d k off = Ok (map_of ps k)"
  using assms(1)
proof (induction d off arbitrary: ps rule: parse_av_pairs_from.induct)
  case (1 d off)
  show ?case
  proof (cases "off + 4 \<le> length d")
    case False
    with "1.prems" show ?thesis by (simp add: find_av_pair_from.simps parse_av_pairs_from.simps)
  next
    case True
    then obtain av l :: u16 where rd: "le_at 2 d off = (Ok av :: u16 res)" "le_at 2 d (off + 2) = (Ok l :: u16 res)"
      using le_at_cases [of off 2 d] le_at_cases [of "off + 2" 2 d] by fastforce
    note unf = parse_av_pairs_from.simps [of d off] find_av_pair_from.simps [of d k off]
    show ?thesis
    proof (cases "av = MSV_AV_EOL \<or> off + 4 + unat l > length d")
      case True
      moreover have "off + 4 + unat l > length d \<Longrightarrow> find_av_pair_from d k (off + (4 + unat l)) = Ok None"
        by (simp add: find_av_pair_from.simps)
      ultimately show ?thesis
        using "1.prems" rd \<open>off + 4 \<le> length d\<close> assms(2) by (auto simp: unf Let_def split: if_splits)
    next
      case False
      then have sl: "slice d (off + 4) (off + 4 + unat l) = (Ok (take (unat l) (drop (off + 4) d)) :: bytes res)"
        by (simp add: slice_def)
      from "1.prems" rd True False sl obtain qs where
        qs: "parse_av_pairs_from d (off + (4 + unat l)) = Ok qs" "ps = (av, take (unat l) (drop (off + 4) d)) # qs"
        by (auto simp: unf Let_def result_bind_eq_Ok)
      have "find_av_pair_from d k (off + (4 + unat l)) = Ok (map_of qs k)"
        using "1.IH" [OF True rd refl] False sl qs(1) by auto
      with rd True False sl qs(2) show ?thesis
        by (simp add: unf Let_def)
    qed
  qed
qed

lemma find_av_pair_parsed:
  "parse_av_pairs d = Ok ps \<Longrightarrow> k \<noteq> MSV_AV_EOL \<Longrightarrow> find_av_pair d k = Ok (map_of ps k)"
  by (simp add: parse_av_pairs_def find_av_pair_def find_av_pair_from_parsed)

text \<open>Whether target information announces a MIC: bit 2 of its flags.\<close>

definition mic_promised :: "bytes \<Rightarrow> bool" where
  "mic_promised ti =
     (case find_av_pair ti MSV_AV_FLAGS of
        Ok (Some v) \<Rightarrow> (from_le_bytes (take 4 v) :: u32) AND 2 \<noteq> 0
      | _ \<Rightarrow> False)"

lemma map_of_auth_pairs_True:
  "map_of (auth_pairs ps True) MSV_AV_FLAGS = Some (to_le_bytes (existing_av_flags ps OR 2))"
proof -
  have "map_of (filter (\<lambda>(av, v). \<not> (av = MSV_AV_EOL \<or> av = MSV_AV_FLAGS \<and> True)) ps) MSV_AV_FLAGS = None"
    by (auto simp: map_of_eq_None_iff)
  then show ?thesis by (simp add: auth_pairs_def map_add_def)
qed

lemma map_of_auth_pairs_False: "map_of (auth_pairs ps False) MSV_AV_FLAGS = map_of ps MSV_AV_FLAGS"
  by (induction ps) (auto simp: auth_pairs_def)

lemma mic_promised_auth:
  assumes "parse_av_pairs ti = Ok ps" "list_all av_ok (auth_pairs ps h)"
  shows "mic_promised (av_bytes (auth_pairs ps h) @ av_end @ post) = (h \<or> mic_promised ti)"
proof -
  have "bit ((existing_av_flags ps OR 2) AND (2 :: u32)) 1"
    by (simp add: bit_and_iff bit_or_iff)
  then have "(existing_av_flags ps OR 2) AND (2 :: u32) \<noteq> 0"
    by (metis bit_0_eq bot_apply bot_bool_def)
  then show ?thesis
    using assms by (cases h) (simp_all add: mic_promised_def find_av_bytes find_av_pair_parsed
        map_of_auth_pairs_True map_of_auth_pairs_False)
qed

text \<open>
  The server's side of the exchange, from MS-NLMP section 3.2.5.1.2: it knows the account's NT
  hash and the three messages, recomputes the proof, derives the key and checks the MIC where
  the client announced one.
\<close>

definition ntlm_server :: "ntlm_prims \<Rightarrow> bytes \<Rightarrow> rstring \<Rightarrow> bytes \<Rightarrow> bytes \<Rightarrow> bytes \<Rightarrow> bytes option" where
  "ntlm_server P nt_hash account negotiate_bytes challenge_bytes msg =
     (let server_challenge = take 8 (drop 24 challenge_bytes);
          nt = auth_payload msg 20;
          nt_proof = take 16 nt;
          temp = drop 16 nt;
          ntlmv2_hash = hmac_md5 P nt_hash (utf16_le_bytes (to_uppercase P account) @ auth_payload msg 28);
          base_key = hmac_md5 P ntlmv2_hash nt_proof;
          flags = from_le_bytes (take 4 (drop 60 msg));
          exported = (if key_exchange flags then rc4_encrypt base_key (auth_payload msg 52) else Ok base_key)
      in case exported of
           Ok key \<Rightarrow>
             if auth_payload msg 36 = utf16_le_bytes account
                \<and> nt_proof = hmac_md5 P ntlmv2_hash (server_challenge @ temp)
                \<and> (mic_promised (drop 28 temp) \<longrightarrow>
                     take 16 (drop 72 msg) =
                     hmac_md5 P key (negotiate_bytes @ challenge_bytes @ take 72 msg @ replicate 16 0 @ drop 88 msg))
             then Some key else None
         | _ \<Rightarrow> None)"

lemma build_temp_parts:
  assumes "length cc = 8"
  shows "drop 28 (build_temp ts cc ti) = ti @ replicate 4 0" "length (build_temp ts cc ti) = 32 + length ti"
  using assms by (simp_all add: build_temp_def)

lemma get_timestamp_Ok: "find_av_pair (cm_target_info c) MSV_AV_TIMESTAMP = Ok r \<Longrightarrow> \<exists>t. get_timestamp E c = Ok t"
  by (auto simp: get_timestamp_def Let_def split: option.split)

text \<open>The key the client exports and the key material it sends for it.\<close>

lemma exported_key:
  assumes "length base = 16" "length rnd = 16"
  obtains key enc where
    "(if key_exchange flags then result_bind (rc4_encrypt base rnd) (\<lambda>e. Ok (rnd, e)) else Ok (base, []))
     = Ok (key, enc)"
    "(if key_exchange flags then rc4_encrypt base enc else Ok base) = Ok key"
    "length key = 16" "length enc < 65536"
proof (cases "key_exchange flags")
  case True
  have "base \<noteq> []" using assms(1) by auto
  then obtain e where e: "rc4_encrypt base rnd = Ok e" "length e = length rnd"
    using rc4_encrypt_Ok by blast
  show thesis
    by (rule that [of rnd e]) (use True e assms(2) rc4_encrypt_involutive [OF e(1)] in simp_all)
next
  case False
  show thesis by (rule that [of base "[]"]) (use False assms in simp_all)
qed


text \<open>The message of a well-formed exchange, with everything it was computed from.\<close>

lemma ntlm_response_Ok:
  fixes cr :: ntlm_credentials and neg :: bytes
  assumes "hmac_md5_ok P" "ntlm_env_ok E" "parse_challenge_message ch = Ok c"
    "find_av_pair (cm_target_info c) MSV_AV_TIMESTAMP = Ok r"
  defines "h \<equiv> r \<noteq> None"
  defines "hash \<equiv> compute_ntlmv2_hash P (compute_nt_hash P (nc_password cr)) (nc_username cr) (nc_domain cr)"
  obtains ps ts lm key enc where
    "parse_av_pairs (cm_target_info c) = Ok ps" "list_all av_ok (auth_pairs ps h)"
    "length (av_bytes (auth_pairs ps h)) \<le> length (cm_target_info c) + 8"
    "length lm = 24" "length key = 16" "length enc < 65536"
    and "let temp = build_temp ts (ne_client_challenge E) (av_bytes (auth_pairs ps h) @ av_end);
             pr = hmac_md5 P hash (cm_server_challenge c @ temp);
             base = hmac_md5 P hash pr;
             flags = cm_negotiate_flags c;
             m = auth_message flags (utf16_le_bytes (nc_domain cr)) (utf16_le_bytes (nc_username cr)) lm (pr @ temp) enc
         in (if key_exchange flags then rc4_encrypt base enc else Ok base) = Ok key \<and>
            ntlm_response P E cr (Some neg) ch =
              Ok (if h then m (hmac_md5 P key (neg @ ch @ m (replicate 16 0))) else m [], key)"
proof -
  have h16: "length (hmac_md5 P k m) = 16" for k m
    using assms(1) by (simp add: hmac_md5_ok_def)
  have env: "length (ne_client_challenge E) = 8" "length (ne_random_key E) = 16"
    using assms(2) by (simp_all add: ntlm_env_ok_def)
  obtain ps where ps: "parse_av_pairs (cm_target_info c) = Ok ps"
      "build_auth_target_info (cm_target_info c) h = Ok (av_bytes (auth_pairs ps h) @ av_end)"
      "list_all av_ok (auth_pairs ps h)" "length (av_bytes (auth_pairs ps h)) \<le> length (cm_target_info c) + 8"
    using build_auth_target_info_Ok by blast
  obtain ts where ts: "get_timestamp E c = Ok ts"
    using get_timestamp_Ok [OF assms(4)] by blast
  define temp where "temp = build_temp ts (ne_client_challenge E) (av_bytes (auth_pairs ps h) @ av_end)"
  define pr where "pr = hmac_md5 P hash (cm_server_challenge c @ temp)"
  define base where "base = hmac_md5 P hash pr"
  define lm where "lm = (if h then replicate 24 0 else
    hmac_md5 P hash (cm_server_challenge c @ ne_client_challenge E) @ ne_client_challenge E)"
  obtain key enc where key: "(if key_exchange (cm_negotiate_flags c)
        then result_bind (rc4_encrypt base (ne_random_key E)) (\<lambda>e. Ok (ne_random_key E, e)) else Ok (base, []))
        = (Ok (key, enc) :: (bytes \<times> bytes) res)"
      "(if key_exchange (cm_negotiate_flags c) then rc4_encrypt base enc else Ok base) = Ok key"
      "length key = 16" "length enc < 65536"
    using exported_key [of base "ne_random_key E" "cm_negotiate_flags c"] h16 env(2) unfolding base_def by blast
  have lm: "length lm = 24"
    by (simp add: lm_def h16 env(1))
  define m where "m = auth_message (cm_negotiate_flags c) (utf16_le_bytes (nc_domain cr))
    (utf16_le_bytes (nc_username cr)) lm (pr @ temp) enc"
  have final: "(if h then copy_from_slice (m (replicate 16 0)) 72 88
        (compute_mic P key neg ch (m (replicate 16 0))) else Ok (m []))
      = (Ok (if h then m (hmac_md5 P key (neg @ ch @ m (replicate 16 0))) else m []) :: bytes res)"
    by (simp add: m_def auth_message_patch h16 compute_mic_def)
  have "ntlm_response P E cr (Some neg) ch =
      Ok (if h then m (hmac_md5 P key (neg @ ch @ m (replicate 16 0))) else m [], key)"
    unfolding ntlm_response_def assms(3,4) ts ps(2) result_bind_simps Let_def option.case
      h_def [symmetric] hash_def [symmetric] temp_def [symmetric] pr_def [symmetric] base_def [symmetric]
      lm_def [symmetric] key(1) prod.case build_is_auth_message
    using final by (cases h) (simp_all add: m_def)
  with key(2) have "(if key_exchange (cm_negotiate_flags c) then rc4_encrypt base enc else Ok base) = Ok key \<and>
      ntlm_response P E cr (Some neg) ch =
      Ok (if h then m (hmac_md5 P key (neg @ ch @ m (replicate 16 0))) else m [], key)" by blast
  then show thesis
    by (intro that [of ps lm key enc ts] ps lm key(3,4))
       (simp only: Let_def m_def temp_def pr_def base_def)
qed


lemma ntlm_response_no_negotiate:
  assumes "parse_challenge_message ch = Ok c" "ntlm_response P E cr (Some neg) ch = Ok x"
  shows "find_av_pair (cm_target_info c) MSV_AV_TIMESTAMP = Ok None \<Longrightarrow> ntlm_response P E cr None ch = Ok x"
    and "find_av_pair (cm_target_info c) MSV_AV_TIMESTAMP = Ok (Some ts) \<Longrightarrow>
         ntlm_response P E cr None ch
         = Err (InvalidData (Malformed ''negotiate() must be called before authenticate()'' []))"
  using assms by (auto simp: ntlm_response_def result_bind_eq_Ok Let_def)

lemma server_accepts:
  fixes nt_hash ch neg :: bytes and ts :: u64 and flags :: u32
  assumes "length usr < 65536" "length dm < 65536" "length lm = 24" "length key = 16" "length enc < 65536"
    "length ati + 60 < 65536" "length cc = 8" "usr = utf16_le_bytes account" "\<And>k x. length (hmac_md5 P k x) = 16"
    "mic_promised (ati @ replicate 4 0) \<Longrightarrow> h"
  defines "hash \<equiv> hmac_md5 P nt_hash (utf16_le_bytes (to_uppercase P account) @ dm)"
  defines "temp \<equiv> build_temp ts cc ati"
  defines "pr \<equiv> hmac_md5 P hash (take 8 (drop 24 ch) @ temp)"
  defines "base \<equiv> hmac_md5 P hash pr"
  defines "m \<equiv> auth_message flags dm usr lm (pr @ temp) enc"
  assumes key: "(if key_exchange flags then rc4_encrypt base enc else Ok base) = Ok key"
  shows "ntlm_server P nt_hash account neg ch
           (if h then m (hmac_md5 P key (neg @ ch @ m (replicate 16 0))) else m []) = Some key"
proof -
  have pr: "length pr = 16" by (simp add: pr_def assms)
  have temp: "drop 28 temp = ati @ replicate 4 0" "length (pr @ temp) < 65536"
    using build_temp_parts [of cc ts ati] assms(6,7) pr by (simp_all add: temp_def)
  let ?mic = "if h then hmac_md5 P key (neg @ ch @ m (replicate 16 0)) else []"
  have mic: "length ?mic \<le> 16" by (simp add: assms)
  have msg: "(if h then m (hmac_md5 P key (neg @ ch @ m (replicate 16 0))) else m []) = m ?mic" by simp
  have lm: "length lm < 65536" by (simp add: assms)
  note payloads = auth_message_payloads [OF mic assms(2,1) lm temp(2) assms(5), of flags, folded m_def]
  have mic_ok: "h \<Longrightarrow> take 16 (drop 72 (m ?mic)) = ?mic \<and>
      take 72 (m ?mic) @ replicate 16 0 @ drop 88 (m ?mic) = m (replicate 16 0)"
    by (simp add: m_def auth_message_mic assms(9))
  have flags: "from_le_bytes (take 4 (drop 60 (m ?mic))) = flags"
    by (simp add: m_def auth_message_flags del: length_auth_fields)
  have parts: "take 16 (pr @ temp) = pr" "drop 16 (pr @ temp) = temp"
    using pr by simp_all
  have "mic_promised (drop 28 temp) \<Longrightarrow> take 16 (drop 72 (m ?mic)) =
      hmac_md5 P key (neg @ ch @ take 72 (m ?mic) @ replicate 16 0 @ drop 88 (m ?mic))"
    using mic_ok assms(10) temp(1) by auto
  then show ?thesis
    unfolding msg ntlm_server_def Let_def payloads flags parts hash_def [symmetric] pr_def [symmetric]
      base_def [symmetric] key result.case
    using assms(8) by simp
qed

section \<open>Properties\<close>

text \<open>
  C31: a server that knows the account's NT hash accepts the AUTHENTICATE_MESSAGE and derives the
  session key the client kept: the proof it recomputes from the message is the one sent, the RC4
  encrypted session key decrypts to the client's, and the MIC over the three messages verifies
  wherever the client's target information announces one. \<open>authenticate\<close> succeeds on every
  well-formed challenge after \<open>negotiate\<close>.
\<close>

theorem ntlm_server_derives_same_key:
  fixes a :: ntlm_authenticator
  assumes "hmac_md5_ok P" "ntlm_env_ok E" "parse_challenge_message ch = Ok c" "na_negotiate_bytes a = Some neg"
    "length (utf16_le_bytes (nc_username (na_credentials a))) < 65536"
    "length (utf16_le_bytes (nc_domain (na_credentials a))) < 65536"
    "length (cm_target_info c) + 72 < 65536"
    "find_av_pair (cm_target_info c) MSV_AV_TIMESTAMP = Ok None \<Longrightarrow> \<not> mic_promised (cm_target_info c)"
  shows "\<exists>msg key.
           ntlm_authenticate P E ch a = (Ok msg, a\<lparr>na_challenge_bytes := Some ch, na_session_key := Some key\<rparr>) \<and>
           length key = 16 \<and>
           ntlm_server P (compute_nt_hash P (nc_password (na_credentials a))) (nc_username (na_credentials a))
             neg ch msg = Some key"
proof -
  obtain ps0 where "parse_av_pairs (cm_target_info c) = Ok ps0"
    using build_auth_target_info_Ok by blast
  then have r: "find_av_pair (cm_target_info c) MSV_AV_TIMESTAMP = Ok (map_of ps0 MSV_AV_TIMESTAMP)"
    by (simp add: find_av_pair_parsed)
  define h where "h = (map_of ps0 MSV_AV_TIMESTAMP \<noteq> None)"
  let ?cr = "na_credentials a"
  from ntlm_response_Ok [OF assms(1,2,3) r, folded h_def, of ?cr neg] obtain ps ts lm key enc where
    ps: "parse_av_pairs (cm_target_info c) = Ok ps" "list_all av_ok (auth_pairs ps h)"
        "length (av_bytes (auth_pairs ps h)) \<le> length (cm_target_info c) + 8"
    and len: "length lm = 24" "length key = 16" "length enc < 65536"
    and run: "let temp = build_temp ts (ne_client_challenge E) (av_bytes (auth_pairs ps h) @ av_end);
             hash = compute_ntlmv2_hash P (compute_nt_hash P (nc_password ?cr)) (nc_username ?cr) (nc_domain ?cr);
             pr = hmac_md5 P hash (cm_server_challenge c @ temp);
             base = hmac_md5 P hash pr;
             flags = cm_negotiate_flags c;
             m = auth_message flags (utf16_le_bytes (nc_domain ?cr)) (utf16_le_bytes (nc_username ?cr)) lm (pr @ temp) enc
         in (if key_exchange flags then rc4_encrypt base enc else Ok base) = Ok key \<and>
            ntlm_response P E ?cr (Some neg) ch =
              Ok (if h then m (hmac_md5 P key (neg @ ch @ m (replicate 16 0))) else m [], key)"
    unfolding Let_def by metis
  have sc: "cm_server_challenge c = take 8 (drop 24 ch)"
    using parse_challenge_OkD [OF assms(3)] by blast
  have mic: "mic_promised ((av_bytes (auth_pairs ps h) @ av_end) @ replicate 4 0) \<Longrightarrow> h"
    using mic_promised_auth [OF ps(1,2)] assms(8) r by (auto simp: h_def)
  have size: "length (av_bytes (auth_pairs ps h) @ av_end) + 60 < 65536"
    using ps(3) assms(7) by (simp add: av_end_def)
  have "length (ne_client_challenge E) = 8" "\<And>k x. length (hmac_md5 P k x) = 16"
    using assms(1,2) by (simp_all add: ntlm_env_ok_def hmac_md5_ok_def)
  from server_accepts [OF assms(5,6) len(1) len(2) len(3) size this(1) refl this(2) mic]
  show ?thesis
    using run len(2) assms(4) unfolding sc Let_def compute_ntlmv2_hash_def ntlm_authenticate_def by auto
qed


definition sample_ntlm_prims :: ntlm_prims where
  "sample_ntlm_prims =
     \<lparr>md4 = (\<lambda>m. replicate 16 (word_of_nat (length m))),
      hmac_md5 = (\<lambda>k m. replicate 16 (sum_list k + sum_list m)),
      to_uppercase = map (\<lambda>c. if 97 \<le> c \<and> c \<le> 122 then c - 32 else c)\<rparr>"

definition sample_ntlm_env :: ntlm_env where
  "sample_ntlm_env =
     \<lparr>ne_now_secs = 1700000000, ne_now_nanos = 5, ne_client_challenge = replicate 8 0xaa,
      ne_random_key = replicate 16 0x55\<rparr>"

definition sample_target_info :: bytes where
  "sample_target_info = [7, 0, 8, 0, 1, 2, 3, 4, 5, 6, 7, 8, 0, 0, 0, 0]"

definition sample_challenge :: bytes where
  "sample_challenge =
     NTLM_SIGNATURE @ [2, 0, 0, 0] @ replicate 8 0 @ [0x30, 0x82, 0x88, 0xe2] @ [1, 2, 3, 4, 5, 6, 7, 8] @ replicate 8 0
     @ [16, 0, 16, 0, 48, 0, 0, 0] @ sample_target_info"

definition sample_ntlm :: ntlm_authenticator where
  "sample_ntlm = snd (ntlm_negotiate (ntlm_authenticator_new
     \<lparr>nc_username = [85, 115, 101, 114], nc_password = [80, 119], nc_domain = [68]\<rparr>))"

lemma sample_ntlm_prims_ok: "hmac_md5_ok sample_ntlm_prims"
  by (simp add: hmac_md5_ok_def sample_ntlm_prims_def)

lemma sample_ntlm_env_ok: "ntlm_env_ok sample_ntlm_env"
  by (simp add: ntlm_env_ok_def sample_ntlm_env_def)

lemma sample_challenge_parses:
  "parse_challenge_message sample_challenge =
   Ok \<lparr>cm_negotiate_flags = 0xe2888230, cm_server_challenge = [1, 2, 3, 4, 5, 6, 7, 8], cm_target_info = sample_target_info\<rparr>"
  by (simp add: parse_challenge_message_def parse_target_info_def sample_challenge_def sample_target_info_def
      NTLM_SIGNATURE_def MSG_TYPE_CHALLENGE_def le_at_def slice_def from_le_bytes_def Let_def)

lemma sample_timestamp: "find_av_pair sample_target_info MSV_AV_TIMESTAMP = Ok (Some [1, 2, 3, 4, 5, 6, 7, 8])"
  by (simp add: find_av_pair_def find_av_pair_from.simps sample_target_info_def le_at_def slice_def
      from_le_bytes_def MSV_AV_TIMESTAMP_def)

theorem ntlm_server_derives_same_key_witness:
  "\<exists>msg key.
     ntlm_authenticate sample_ntlm_prims sample_ntlm_env sample_challenge sample_ntlm
       = (Ok msg, sample_ntlm\<lparr>na_challenge_bytes := Some sample_challenge, na_session_key := Some key\<rparr>) \<and>
     length key = 16 \<and>
     ntlm_server sample_ntlm_prims (compute_nt_hash sample_ntlm_prims [80, 119]) [85, 115, 101, 114]
       (fst (ntlm_negotiate sample_ntlm)) sample_challenge msg = Some key"
proof -
  have sample: "na_negotiate_bytes sample_ntlm = Some (fst (ntlm_negotiate sample_ntlm))"
      "nc_username (na_credentials sample_ntlm) = [85, 115, 101, 114]"
      "nc_password (na_credentials sample_ntlm) = [80, 119]" "nc_domain (na_credentials sample_ntlm) = [68]"
    by (simp_all add: sample_ntlm_def ntlm_negotiate_def ntlm_authenticator_new_def Let_def)
  show ?thesis
    using ntlm_server_derives_same_key [OF sample_ntlm_prims_ok sample_ntlm_env_ok sample_challenge_parses sample(1)]
    by (simp add: sample sample_timestamp sample_target_info_def [THEN arg_cong, of length] encode_utf16_def encode_utf16_char_def)
qed

text \<open>
  \<open>authenticate\<close> never panics, whatever bytes the server sends as its challenge, and when it
  fails it leaves the session key alone; the only failures are a malformed challenge and a
  challenge that demands a MIC before \<open>negotiate\<close> was called.
\<close>

lemma ntlm_authenticate_fails_cleanly:
  fixes a :: ntlm_authenticator
  assumes "hmac_md5_ok P" "ntlm_env_ok E"
  shows "fst (ntlm_authenticate P E ch a) \<noteq> Panic \<and>
         (\<forall>e. fst (ntlm_authenticate P E ch a) = Err e \<longrightarrow>
            na_session_key (snd (ntlm_authenticate P E ch a)) = na_session_key a \<and>
            (parse_challenge_message ch = Err e \<or>
             na_negotiate_bytes a = None \<and>
             (\<exists>c ts. parse_challenge_message ch = Ok c \<and>
                     find_av_pair (cm_target_info c) MSV_AV_TIMESTAMP = Ok (Some ts))))"
proof (cases "parse_challenge_message ch")
  case Panic
  then show ?thesis using parse_challenge_no_panic by blast
next
  case (Err e)
  then show ?thesis by (simp add: ntlm_authenticate_def ntlm_response_def)
next
  case (Ok c)
  obtain ps where "parse_av_pairs (cm_target_info c) = Ok ps"
    using build_auth_target_info_Ok by blast
  then obtain r where r: "find_av_pair (cm_target_info c) MSV_AV_TIMESTAMP = Ok r"
    by (simp add: find_av_pair_parsed)
  show ?thesis
  proof (cases "na_negotiate_bytes a")
    case (Some neg)
    obtain msg key where "ntlm_response P E (na_credentials a) (Some neg) ch = Ok (msg, key)"
      using ntlm_response_Ok [OF assms Ok r, of "na_credentials a" neg] unfolding Let_def by metis
    with Some show ?thesis by (simp add: ntlm_authenticate_def)
  next
    case None
    from ntlm_response_Ok [OF assms Ok r, of "na_credentials a" "[]"] obtain x where
      "ntlm_response P E (na_credentials a) (Some []) ch = Ok x"
      unfolding Let_def by metis
    with None Ok r show ?thesis
      by (cases r; cases x) (auto simp: ntlm_authenticate_def dest: ntlm_response_no_negotiate)
  qed
qed

end
