(* ===== verification/Smb_Msg_Wrap.thy ===== *)
theory Smb_Msg_Wrap
  imports Smb_Msg_File
begin

text \<open>
  The structures that wrap other data: the encryption and compression transform headers
  (\<open>src/msg/transform.rs\<close>) and the server-side copy buffers carried by IOCTL
  (\<open>src/msg/copychunk.rs\<close>).
\<close>

section \<open>Transform headers\<close>

definition TRANSFORM_PROTOCOL_ID :: bytes where
  "TRANSFORM_PROTOCOL_ID = [0xFD, 0x53, 0x4D, 0x42]"

definition COMPRESSION_PROTOCOL_ID :: bytes where
  "COMPRESSION_PROTOCOL_ID = [0xFC, 0x53, 0x4D, 0x42]"

definition SMB2_TRANSFORM_HEADER_FLAG_ENCRYPTED :: u16 where
  "SMB2_TRANSFORM_HEADER_FLAG_ENCRYPTED = 0x0001"

definition COMPRESSION_ALGORITHM_NONE :: u16 where "COMPRESSION_ALGORITHM_NONE = 0x0000"
definition COMPRESSION_ALGORITHM_LZNT1 :: u16 where "COMPRESSION_ALGORITHM_LZNT1 = 0x0001"
definition COMPRESSION_ALGORITHM_LZ77 :: u16 where "COMPRESSION_ALGORITHM_LZ77 = 0x0002"
definition COMPRESSION_ALGORITHM_LZ77_HUFFMAN :: u16 where "COMPRESSION_ALGORITHM_LZ77_HUFFMAN = 0x0003"
definition COMPRESSION_ALGORITHM_PATTERN_V1 :: u16 where "COMPRESSION_ALGORITHM_PATTERN_V1 = 0x0004"
definition COMPRESSION_ALGORITHM_LZ4 :: u16 where "COMPRESSION_ALGORITHM_LZ4 = 0x0005"

definition SMB2_COMPRESSION_FLAG_NONE :: u16 where "SMB2_COMPRESSION_FLAG_NONE = 0x0000"
definition SMB2_COMPRESSION_FLAG_CHAINED :: u16 where "SMB2_COMPRESSION_FLAG_CHAINED = 0x0001"

text \<open>The four protocol bytes at the front of every header.\<close>

definition check_protocol :: "bytes \<Rightarrow> unit reader" where
  "check_protocol expected =
     bnd (read_bytes 4) (\<lambda>proto. guard (proto = expected) (InvalidData (BadProtocolId proto)))"

lemma check_protocol_cur [rd_simps]:
  "length ident = 4 \<Longrightarrow> check_protocol ident (cur pre (ident @ post)) = Ok ((), cur (pre @ ident) post)"
  by (simp add: check_protocol_def rd_simps)

lemma safe_check_protocol [safe_intros]: "safe p (check_protocol ident)"
  by (auto simp: check_protocol_def intro!: safe_intros)

lemma length_protocol_ids [simp]:
  "length TRANSFORM_PROTOCOL_ID = 4" "length COMPRESSION_PROTOCOL_ID = 4"
  by (simp_all add: TRANSFORM_PROTOCOL_ID_def COMPRESSION_PROTOCOL_ID_def)

record transform_header =
  th_signature :: bytes
  th_nonce :: bytes
  th_original_message_size :: u32
  th_flags :: u16
  th_session_id :: session_id

definition transform_header_SIZE :: usize where
  "transform_header_SIZE = 52"

definition pack_transform_header :: "transform_header \<Rightarrow> unit writer" where
  "pack_transform_header h = seq [
     write_bytes TRANSFORM_PROTOCOL_ID,
     write_bytes (th_signature h),
     write_bytes (th_nonce h),
     write_u32_le (th_original_message_size h),
     write_u16_le 0,
     write_u16_le (th_flags h),
     write_u64_le (th_session_id h)]"

definition unpack_transform_header :: "transform_header reader" where
  "unpack_transform_header =
     bnd (check_protocol TRANSFORM_PROTOCOL_ID) (\<lambda>_.
     bnd (read_bytes 16) (\<lambda>signature.
     bnd (read_bytes 16) (\<lambda>nonce.
     bnd read_u32_le (\<lambda>original_message_size.
     bnd read_u16_le (\<lambda>_.
     bnd read_u16_le (\<lambda>flags.
     bnd read_u64_le (\<lambda>session_id.
     ret \<lparr>
       th_signature = signature,
       th_nonce = nonce,
       th_original_message_size = original_message_size,
       th_flags = flags,
       th_session_id = session_id\<rparr>)))))))"

text \<open>The two byte fields are \<open>[u8; 16]\<close> arrays.\<close>

definition wf_transform_header :: "transform_header \<Rightarrow> bool" where
  "wf_transform_header h \<longleftrightarrow> length (th_signature h) = 16 \<and> length (th_nonce h) = 16"

definition transform_header_bytes :: "transform_header \<Rightarrow> bytes" where
  "transform_header_bytes h =
     TRANSFORM_PROTOCOL_ID @ th_signature h @ th_nonce h @ to_le_bytes (th_original_message_size h) @
     to_le_bytes (0 :: u16) @ to_le_bytes (th_flags h) @ to_le_bytes (th_session_id h)"

lemma length_transform_header_bytes:
  "wf_transform_header h \<Longrightarrow> length (transform_header_bytes h) = transform_header_SIZE"
  by (simp add: transform_header_bytes_def wf_transform_header_def transform_header_SIZE_def)

lemma pack_transform_header_apply [wr_simps]:
  "pack_transform_header h w = Ok ((), w @ transform_header_bytes h)"
  by (simp add: pack_transform_header_def transform_header_bytes_def wr_simps)

interpretation transform_header: exact_codec pack_transform_header unpack_transform_header wf_transform_header
  by unfold_locales
    (auto simp: pack_transform_header_def unpack_transform_header_def wf_transform_header_def
      wr_simps rd_simps intro!: safe_intros)

record compression_transform_header =
  cth_original_compressed_segment_size :: u32
  cth_compression_algorithm :: u16
  cth_flags :: u16
  cth_offset_or_length :: u32

definition compression_transform_header_SIZE :: usize where
  "compression_transform_header_SIZE = 16"

definition pack_compression_transform_header :: "compression_transform_header \<Rightarrow> unit writer" where
  "pack_compression_transform_header h = seq [
     write_bytes COMPRESSION_PROTOCOL_ID,
     write_u32_le (cth_original_compressed_segment_size h),
     write_u16_le (cth_compression_algorithm h),
     write_u16_le (cth_flags h),
     write_u32_le (cth_offset_or_length h)]"

definition unpack_compression_transform_header :: "compression_transform_header reader" where
  "unpack_compression_transform_header =
     bnd (check_protocol COMPRESSION_PROTOCOL_ID) (\<lambda>_.
     bnd read_u32_le (\<lambda>original_compressed_segment_size.
     bnd read_u16_le (\<lambda>compression_algorithm.
     bnd read_u16_le (\<lambda>flags.
     bnd read_u32_le (\<lambda>offset_or_length.
     ret \<lparr>
       cth_original_compressed_segment_size = original_compressed_segment_size,
       cth_compression_algorithm = compression_algorithm,
       cth_flags = flags,
       cth_offset_or_length = offset_or_length\<rparr>)))))"

interpretation compression_transform_header:
  exact_codec pack_compression_transform_header unpack_compression_transform_header "\<lambda>_. True"
  by unfold_locales
    (auto simp: pack_compression_transform_header_def unpack_compression_transform_header_def
      wr_simps rd_simps intro!: safe_intros)

section \<open>Server-side copy\<close>

definition RESUME_KEY_LEN :: usize where
  "RESUME_KEY_LEN = 24"

record srv_copychunk =
  cpk_source_offset :: u64
  cpk_target_offset :: u64
  cpk_length :: u32

definition srv_copychunk_SIZE :: usize where
  "srv_copychunk_SIZE = 24"

definition pack_srv_copychunk :: "srv_copychunk \<Rightarrow> unit writer" where
  "pack_srv_copychunk k = seq [
     write_u64_le (cpk_source_offset k),
     write_u64_le (cpk_target_offset k),
     write_u32_le (cpk_length k),
     write_u32_le 0]"

definition unpack_srv_copychunk :: "srv_copychunk reader" where
  "unpack_srv_copychunk =
     bnd read_u64_le (\<lambda>source_offset.
     bnd read_u64_le (\<lambda>target_offset.
     bnd read_u32_le (\<lambda>len.
     bnd read_u32_le (\<lambda>_.
     ret \<lparr>cpk_source_offset = source_offset, cpk_target_offset = target_offset, cpk_length = len\<rparr>))))"

definition srv_copychunk_bytes :: "srv_copychunk \<Rightarrow> bytes" where
  "srv_copychunk_bytes k =
     to_le_bytes (cpk_source_offset k) @ to_le_bytes (cpk_target_offset k) @
     to_le_bytes (cpk_length k) @ to_le_bytes (0 :: u32)"

lemma pack_srv_copychunk_apply [wr_simps]: "pack_srv_copychunk k w = Ok ((), w @ srv_copychunk_bytes k)"
  by (simp add: pack_srv_copychunk_def srv_copychunk_bytes_def wr_simps)

lemma unpack_srv_copychunk_cur [rd_simps]:
  "unpack_srv_copychunk (cur pre (srv_copychunk_bytes k @ post)) = Ok (k, cur (pre @ srv_copychunk_bytes k) post)"
  by (simp add: unpack_srv_copychunk_def srv_copychunk_bytes_def rd_simps)

lemma safe_unpack_srv_copychunk [safe_intros]: "safe p unpack_srv_copychunk"
  by (auto simp: unpack_srv_copychunk_def intro!: safe_intros)

record srv_copychunk_copy =
  cpy_source_key :: bytes
  cpy_chunks :: "srv_copychunk list"

definition srv_copychunk_copy_HEADER_SIZE :: usize where
  "srv_copychunk_copy_HEADER_SIZE = RESUME_KEY_LEN + 8"

definition packed_size :: "usize \<Rightarrow> usize" where
  "packed_size chunk_count = srv_copychunk_copy_HEADER_SIZE + chunk_count * srv_copychunk_SIZE"

definition pack_srv_copychunk_copy :: "srv_copychunk_copy \<Rightarrow> unit writer" where
  "pack_srv_copychunk_copy r = seq [
     write_bytes (cpy_source_key r),
     write_u32_le (word_of_nat (length (cpy_chunks r))),
     write_u32_le 0,
     seq (map pack_srv_copychunk (cpy_chunks r))]"

definition unpack_srv_copychunk_copy :: "srv_copychunk_copy reader" where
  "unpack_srv_copychunk_copy =
     bnd (read_bytes RESUME_KEY_LEN) (\<lambda>source_key.
     bnd read_u32_le (\<lambda>chunk_count.
     bnd read_u32_le (\<lambda>_.
     bnd (repeat (unat chunk_count) unpack_srv_copychunk) (\<lambda>chunks.
     ret \<lparr>cpy_source_key = source_key, cpy_chunks = chunks\<rparr>))))"

definition wf_srv_copychunk_copy :: "srv_copychunk_copy \<Rightarrow> bool" where
  "wf_srv_copychunk_copy r \<longleftrightarrow>
     length (cpy_source_key r) = RESUME_KEY_LEN \<and> length (cpy_chunks r) < 2 ^ 32"

lemmas chunks_apply = seq_map_pack [of _ pack_srv_copychunk srv_copychunk_bytes, OF pack_srv_copychunk_apply]

lemmas chunks_cur = repeat_unpack [of _ unpack_srv_copychunk srv_copychunk_bytes, OF unpack_srv_copychunk_cur]

interpretation srv_copychunk_copy:
  exact_codec pack_srv_copychunk_copy unpack_srv_copychunk_copy wf_srv_copychunk_copy
  by unfold_locales
    (auto simp: pack_srv_copychunk_copy_def unpack_srv_copychunk_copy_def wf_srv_copychunk_copy_def
      chunks_apply chunks_cur wr_simps rd_simps intro!: safe_intros)

lemma packed_size_exact:
  assumes "wf_srv_copychunk_copy r"
  shows "\<exists>bs. pack_srv_copychunk_copy r [] = Ok ((), bs) \<and> length bs = packed_size (length (cpy_chunks r))"
proof -
  have "length (concat (map srv_copychunk_bytes ks)) = 24 * length ks" for ks
    by (induction ks) (simp_all add: srv_copychunk_bytes_def)
  with assms show ?thesis
    by (simp add: pack_srv_copychunk_copy_def wf_srv_copychunk_copy_def packed_size_def
        srv_copychunk_copy_HEADER_SIZE_def srv_copychunk_SIZE_def chunks_apply wr_simps)
qed

record srv_copychunk_response =
  cpr_chunks_written :: u32
  cpr_chunk_bytes_written :: u32
  cpr_total_bytes_written :: u32

definition srv_copychunk_response_SIZE :: usize where
  "srv_copychunk_response_SIZE = 12"

definition pack_srv_copychunk_response :: "srv_copychunk_response \<Rightarrow> unit writer" where
  "pack_srv_copychunk_response r = seq [
     write_u32_le (cpr_chunks_written r),
     write_u32_le (cpr_chunk_bytes_written r),
     write_u32_le (cpr_total_bytes_written r)]"

definition unpack_srv_copychunk_response :: "srv_copychunk_response reader" where
  "unpack_srv_copychunk_response =
     bnd read_u32_le (\<lambda>chunks_written.
     bnd read_u32_le (\<lambda>chunk_bytes_written.
     bnd read_u32_le (\<lambda>total_bytes_written.
     ret \<lparr>
       cpr_chunks_written = chunks_written,
       cpr_chunk_bytes_written = chunk_bytes_written,
       cpr_total_bytes_written = total_bytes_written\<rparr>)))"

interpretation srv_copychunk_response:
  exact_codec pack_srv_copychunk_response unpack_srv_copychunk_response "\<lambda>_. True"
  by unfold_locales
    (auto simp: pack_srv_copychunk_response_def unpack_srv_copychunk_response_def
      wr_simps rd_simps intro!: safe_intros)

text \<open>\<open>.map_err(|_| e)\<close> on a cursor operation.\<close>

definition reader_map_err :: "error \<Rightarrow> 'a reader \<Rightarrow> 'a reader" where
  "reader_map_err e r c = map_err (\<lambda>_. e) (r c)"

lemma safe_reader_map_err [safe_intros]:
  assumes "safe p r" "error_kind_of e = InvalidDataK"
  shows "safe p (reader_map_err e r)"
  unfolding safe_def
proof (intro allI impI)
  fix c assume c: "rc_wf c" "p \<le> rc_pos c"
  show "case reader_map_err e r c of
      Ok (x, c') \<Rightarrow> rc_data c' = rc_data c \<and> rc_pos c \<le> rc_pos c' \<and> rc_wf c'
    | Err e \<Rightarrow> error_kind_of e = InvalidDataK | Panic \<Rightarrow> False"
    using assms(2) safe_OkD [OF assms(1) c] safe_no_panic [OF assms(1) c]
    by (cases "r c") (auto simp: reader_map_err_def)
qed

record srv_request_resume_key_response =
  rkr_resume_key :: bytes

definition pack_resume_key_response :: "srv_request_resume_key_response \<Rightarrow> unit writer" where
  "pack_resume_key_response r = seq [write_bytes (rkr_resume_key r), write_u32_le 0]"

definition unpack_resume_key_response :: "srv_request_resume_key_response reader" where
  "unpack_resume_key_response =
     bnd (reader_map_err
            (InvalidData (Malformed ''SRV_REQUEST_RESUME_KEY response shorter than 24-byte resume key'' []))
            (read_bytes RESUME_KEY_LEN)) (\<lambda>resume_key.
     ret \<lparr>rkr_resume_key = resume_key\<rparr>)"

definition wf_resume_key_response :: "srv_request_resume_key_response \<Rightarrow> bool" where
  "wf_resume_key_response r \<longleftrightarrow> length (rkr_resume_key r) = RESUME_KEY_LEN"

interpretation resume_key_response:
  codec pack_resume_key_response unpack_resume_key_response wf_resume_key_response
  by unfold_locales
    (auto simp: pack_resume_key_response_def unpack_resume_key_response_def wf_resume_key_response_def
      reader_map_err_def wr_simps rd_simps intro!: safe_intros)

end
