(* ===== verification/Smb_Crypto.thy ===== *)
theory Smb_Crypto
  imports Smb_Msg_Wrap
begin

text \<open>
  \<open>src/crypto/\<close>: message signing, encryption, compression and key derivation. The primitives
  come from other crates (\<open>hmac\<close>, \<open>cmac\<close>, \<open>aes-gcm\<close>, \<open>ccm\<close>, \<open>sha2\<close>, \<open>lz4_flex\<close>); they are
  the fields of a record that every definition takes, and what the code relies on is stated
  in the predicates of the first section.
\<close>

section \<open>Primitives\<close>

datatype cipher = Aes128Ccm | Aes128Gcm | Aes256Ccm | Aes256Gcm

text \<open>
  A primitive that reports an error returns \<open>None\<close>. The AEAD functions work on the buffer and
  a detached tag.
\<close>

record crypto_prims =
  hmac_sha256 :: "bytes \<Rightarrow> bytes \<Rightarrow> bytes option"
  aes_cmac :: "bytes \<Rightarrow> bytes \<Rightarrow> bytes option"
  aead_encrypt :: "cipher \<Rightarrow> bytes \<Rightarrow> bytes \<Rightarrow> bytes \<Rightarrow> bytes \<Rightarrow> (bytes \<times> bytes) option"
  aead_decrypt :: "cipher \<Rightarrow> bytes \<Rightarrow> bytes \<Rightarrow> bytes \<Rightarrow> bytes \<Rightarrow> bytes \<Rightarrow> bytes option"
  sha512 :: "bytes \<Rightarrow> bytes"
  lz4_compress :: "bytes \<Rightarrow> bytes"
  lz4_decompress :: "bytes \<Rightarrow> usize \<Rightarrow> bytes option"

fun nonce_len :: "cipher \<Rightarrow> usize" where
  "nonce_len Aes128Ccm = 11"
| "nonce_len Aes256Ccm = 11"
| "nonce_len Aes128Gcm = 12"
| "nonce_len Aes256Gcm = 12"

fun key_len :: "cipher \<Rightarrow> usize" where
  "key_len Aes128Ccm = 16"
| "key_len Aes128Gcm = 16"
| "key_len Aes256Ccm = 32"
| "key_len Aes256Gcm = 32"

text \<open>HMAC accepts a key of any length and yields 32 bytes.\<close>

definition hmac_ok :: "crypto_prims \<Rightarrow> bool" where
  "hmac_ok K \<longleftrightarrow> (\<forall>k m. \<exists>t. hmac_sha256 K k m = Some t \<and> length t = 32)"

text \<open>AES-128-CMAC accepts 16-byte keys only and yields 16 bytes.\<close>

definition cmac_ok :: "crypto_prims \<Rightarrow> bool" where
  "cmac_ok K \<longleftrightarrow> (\<forall>k m. if length k = 16 then \<exists>t. aes_cmac K k m = Some t \<and> length t = 16
                      else aes_cmac K k m = None)"

text \<open>Encryption with a key and nonce of the right length succeeds and decryption inverts it.\<close>

definition aead_ok :: "crypto_prims \<Rightarrow> bool" where
  "aead_ok K \<longleftrightarrow> (\<forall>c k n a p. length k = key_len c \<longrightarrow> length n = nonce_len c \<longrightarrow>
     (\<exists>ct t. aead_encrypt K c k n a p = Some (ct, t) \<and> length ct = length p \<and> length t = 16 \<and>
        aead_decrypt K c k n a t ct = Some p))"

text \<open>A block decompresses to what was compressed when its length is known.\<close>

definition lz4_ok :: "crypto_prims \<Rightarrow> bool" where
  "lz4_ok K \<longleftrightarrow> (\<forall>d. lz4_decompress K (lz4_compress K d) (length d) = Some d)"

definition sha512_ok :: "crypto_prims \<Rightarrow> bool" where
  "sha512_ok K \<longleftrightarrow> (\<forall>m. length (sha512 K m) = 64)"

section \<open>Signing\<close>

definition SIGNATURE_OFFSET :: usize where "SIGNATURE_OFFSET = 48"
definition SIGNATURE_LEN :: usize where "SIGNATURE_LEN = 16"
definition MIN_MESSAGE_LEN :: usize where "MIN_MESSAGE_LEN = 64"

datatype signing_algorithm = HmacSha256 | AesCmac | AesGmac

fun algorithm_for_dialect :: "dialect \<Rightarrow> bool \<Rightarrow> signing_algorithm" where
  "algorithm_for_dialect Smb2_0_2 _ = HmacSha256"
| "algorithm_for_dialect Smb2_1 _ = HmacSha256"
| "algorithm_for_dialect Smb3_0 _ = AesCmac"
| "algorithm_for_dialect Smb3_0_2 _ = AesCmac"
| "algorithm_for_dialect Smb3_1_1 gmac_negotiated = (if gmac_negotiated then AesGmac else AesCmac)"

text \<open>\<open>copy_from_slice\<close> into a \<open>[u8; 16]\<close> panics unless the source has 16 bytes.\<close>

definition array16 :: "bytes \<Rightarrow> bytes res" where
  "array16 bs = (if length bs = 16 then Ok bs else Panic)"

definition compute_hmac_sha256 :: "crypto_prims \<Rightarrow> bytes \<Rightarrow> bytes \<Rightarrow> bytes res" where
  "compute_hmac_sha256 K message key =
     (case hmac_sha256 K key message of
        None \<Rightarrow> Err (InvalidData (Malformed ''HMAC-SHA256 key error'' []))
      | Some result \<Rightarrow> result_bind (slice result 0 16) array16)"

definition compute_aes_cmac :: "crypto_prims \<Rightarrow> bytes \<Rightarrow> bytes \<Rightarrow> bytes res" where
  "compute_aes_cmac K message key =
     (case aes_cmac K key message of
        None \<Rightarrow> Err (InvalidData (Malformed ''AES-CMAC key error'' []))
      | Some result \<Rightarrow> array16 result)"

definition gmac_nonce :: "u64 \<Rightarrow> bool \<Rightarrow> bool \<Rightarrow> bytes" where
  "gmac_nonce message_id is_cancel is_response =
     to_le_bytes message_id @
     [(if is_response then 0x01 else 0) OR (if is_cancel then 0x02 else 0)] @ [0, 0, 0]"

definition compute_aes_gmac :: "crypto_prims \<Rightarrow> bytes \<Rightarrow> bytes \<Rightarrow> u64 \<Rightarrow> bool \<Rightarrow> bool \<Rightarrow> bytes res" where
  "compute_aes_gmac K message key message_id is_cancel is_response =
     (if length key \<noteq> 16 then
        Err (InvalidData (Malformed ''AES-128-GMAC requires a 16-byte key'' [length key]))
      else case aead_encrypt K Aes128Gcm key (gmac_nonce message_id is_cancel is_response) message [] of
        None \<Rightarrow> Err (InvalidData (Malformed ''AES-256-GMAC encryption error'' []))
      | Some (ct, tag) \<Rightarrow>
          if length (ct @ tag) \<noteq> 16 then
            Err (InvalidData (Malformed ''unexpected GMAC output length'' [length (ct @ tag)]))
          else array16 (ct @ tag))"

fun compute_signature ::
    "crypto_prims \<Rightarrow> bytes \<Rightarrow> bytes \<Rightarrow> signing_algorithm \<Rightarrow> u64 \<Rightarrow> bool \<Rightarrow> bool \<Rightarrow> bytes res" where
  "compute_signature K message key HmacSha256 _ _ _ = compute_hmac_sha256 K message key"
| "compute_signature K message key AesCmac _ _ _ = compute_aes_cmac K message key"
| "compute_signature K message key AesGmac message_id is_cancel is_response =
     compute_aes_gmac K message key message_id is_cancel is_response"

text \<open>\<open>message[48..64].fill(0)\<close> and \<open>message[48..64].copy_from_slice(sig)\<close>.\<close>

definition put_signature :: "bytes \<Rightarrow> bytes \<Rightarrow> bytes" where
  "put_signature sig message =
     take SIGNATURE_OFFSET message @ sig @ drop (SIGNATURE_OFFSET + SIGNATURE_LEN) message"

definition zero_signature :: "bytes \<Rightarrow> bytes" where
  "zero_signature message = put_signature (replicate SIGNATURE_LEN 0) message"

definition sign_message ::
    "crypto_prims \<Rightarrow> bytes \<Rightarrow> bytes \<Rightarrow> signing_algorithm \<Rightarrow> u64 \<Rightarrow> bool \<Rightarrow> bytes res" where
  "sign_message K message key algorithm message_id is_cancel =
     (if length message < MIN_MESSAGE_LEN then
        Err (InvalidData (Malformed ''message too short for signing'' [length message, MIN_MESSAGE_LEN]))
      else let zeroed = zero_signature message in
        result_bind (compute_signature K zeroed key algorithm message_id is_cancel False)
          (\<lambda>signature. Ok (put_signature signature zeroed)))"

definition verify_signature ::
    "crypto_prims \<Rightarrow> bytes \<Rightarrow> bytes \<Rightarrow> signing_algorithm \<Rightarrow> u64 \<Rightarrow> bool \<Rightarrow> unit res" where
  "verify_signature K message key algorithm message_id is_cancel =
     (if length message < MIN_MESSAGE_LEN then
        Err (InvalidData (Malformed ''message too short for verification'' [length message, MIN_MESSAGE_LEN]))
      else
        result_bind (slice message SIGNATURE_OFFSET (SIGNATURE_OFFSET + SIGNATURE_LEN)) (\<lambda>received_sig.
        result_bind (compute_signature K (zero_signature message) key algorithm message_id is_cancel True)
          (\<lambda>expected_sig.
             if received_sig \<noteq> expected_sig then
               Err (InvalidData (Malformed ''signature verification failed'' []))
             else Ok ())))"

lemmas sig_defs = SIGNATURE_OFFSET_def SIGNATURE_LEN_def MIN_MESSAGE_LEN_def put_signature_def zero_signature_def

lemma length_gmac_nonce [simp]: "length (gmac_nonce i c r) = 12"
  by (simp add: gmac_nonce_def)

text \<open>No two signed messages of a session share a GMAC nonce: id, role and CANCEL bit are all in it.\<close>

lemma gmac_nonce_inject:
  "gmac_nonce i c r = gmac_nonce i' c' r' \<longleftrightarrow> i = i' \<and> c = c' \<and> r = r'"
proof
  assume "gmac_nonce i c r = gmac_nonce i' c' r'"
  then have "to_le_bytes i = to_le_bytes i'"
    and b: "(if r then 0x01 else 0 :: u8) OR (if c then 0x02 else 0) =
            (if r' then 0x01 else 0) OR (if c' then 0x02 else 0)"
    by (simp_all add: gmac_nonce_def)
  from b have "c = c' \<and> r = r'"
    by (cases c; cases r; cases c'; cases r') simp_all
  with \<open>to_le_bytes i = to_le_bytes i'\<close> show "i = i' \<and> c = c' \<and> r = r'" by simp
qed simp

lemma compute_signature_length:
  "compute_signature K m k a i c r = Ok s \<Longrightarrow> length s = 16"
  by (cases a)
    (auto simp: compute_hmac_sha256_def compute_aes_cmac_def compute_aes_gmac_def array16_def
      result_bind_eq_Ok split: option.splits if_splits)

lemma zero_put_signature:
  "length s = 16 \<Longrightarrow> 64 \<le> length m \<Longrightarrow> zero_signature (put_signature s m) = zero_signature m"
  by (simp add: sig_defs)

lemma length_put_signature:
  "length s = 16 \<Longrightarrow> 64 \<le> length m \<Longrightarrow> length (put_signature s m) = length m"
  by (simp add: sig_defs)

lemma sign_message_Ok:
  assumes "sign_message K m k a i c = Ok m'"
  obtains s where "64 \<le> length m" "length s = 16"
    "compute_signature K (zero_signature m) k a i c False = Ok s" "m' = put_signature s m"
proof -
  from assms obtain s where s: "compute_signature K (zero_signature m) k a i c False = Ok s"
    and m: "64 \<le> length m" "m' = put_signature s (zero_signature m)"
    by (auto simp: sign_message_def MIN_MESSAGE_LEN_def Let_def result_bind_eq_Ok split: if_splits)
  have "length s = 16" by (rule compute_signature_length [OF s])
  moreover have "put_signature s (zero_signature m) = put_signature s m"
    using m by (simp add: sig_defs)
  ultimately show thesis using that s m by simp
qed

text \<open>Only the signature field changes.\<close>

lemma sign_message_frame:
  assumes "sign_message K m k a i c = Ok m'"
  shows "length m' = length m" "take 48 m' = take 48 m" "drop 64 m' = drop 64 m"
  using assms by (auto elim!: sign_message_Ok simp: sig_defs)

text \<open>Acceptance means that the field holds the signature of the rest, under the server role.\<close>

lemma verify_signature_iff:
  assumes "64 \<le> length m"
  shows "verify_signature K m k a i c = Ok () \<longleftrightarrow>
    compute_signature K (zero_signature m) k a i c True = Ok (take 16 (drop 48 m))"
  using assms
  by (auto simp: verify_signature_def slice_def sig_defs result_bind_eq_Ok split: if_splits)

lemma verify_sign:
  assumes "sign_message K m k a i c = Ok m'" "a \<noteq> AesGmac"
  shows "verify_signature K m' k a i c = Ok ()"
  using assms(1)
proof (rule sign_message_Ok)
  fix s assume s: "64 \<le> length m" "length s = 16" "m' = put_signature s m"
    "compute_signature K (zero_signature m) k a i c False = Ok s"
  have "compute_signature K (zero_signature m) k a i c True = Ok s"
    using s(4) assms(2) by (cases a) simp_all
  moreover have "take 16 (drop 48 m') = s" using s by (simp add: sig_defs)
  ultimately show ?thesis
    using s by (simp add: verify_signature_iff length_put_signature zero_put_signature)
qed

lemma compute_signature_total:
  assumes "hmac_ok K" "cmac_ok K" "aead_ok K" "length k = 16"
  shows "\<exists>s. compute_signature K m k a i c r = Ok s \<and> length s = 16"
proof (cases a)
  case HmacSha256
  from assms(1) obtain t where "hmac_sha256 K k m = Some t" "length t = 32"
    unfolding hmac_ok_def by metis
  with HmacSha256 show ?thesis by (simp add: compute_hmac_sha256_def slice_def array16_def)
next
  case AesCmac
  with assms(2,4) obtain t where "aes_cmac K k m = Some t" "length t = 16"
    unfolding cmac_ok_def by metis
  with AesCmac show ?thesis by (simp add: compute_aes_cmac_def array16_def)
next
  case AesGmac
  have "length (gmac_nonce i c r) = nonce_len Aes128Gcm" "length k = key_len Aes128Gcm"
    using assms(4) by simp_all
  with assms(3) obtain ct t where "aead_encrypt K Aes128Gcm k (gmac_nonce i c r) m [] = Some (ct, t)"
    "length ct = 0" "length t = 16"
    unfolding aead_ok_def by (metis list.size(3))
  with AesGmac assms(4) show ?thesis by (simp add: compute_aes_gmac_def array16_def)
qed

section \<open>Encryption\<close>

definition AAD_OFFSET :: usize where "AAD_OFFSET = 20"

text \<open>The nonce generator is its 64-bit counter; \<open>next\<close> panics where the counter would wrap.\<close>

type_synonym nonce_generator = u64

definition nonce_generator_new :: nonce_generator where
  "nonce_generator_new = 0"

definition nonce_next :: "nonce_generator \<Rightarrow> (bytes \<times> nonce_generator) res" where
  "nonce_next counter =
     (if counter = 0xFFFFFFFFFFFFFFFF then Panic
      else Ok (to_le_bytes counter @ replicate 8 0, counter + 1))"

definition encrypt_message ::
    "crypto_prims \<Rightarrow> bytes \<Rightarrow> bytes \<Rightarrow> cipher \<Rightarrow> bytes \<Rightarrow> u64 \<Rightarrow> (bytes \<times> bytes) res" where
  "encrypt_message K plaintext key cipher nonce session_id =
     (if length key \<noteq> key_len cipher then
        Err (InvalidData (Malformed ''encryption key length mismatch'' [key_len cipher, length key]))
      else
        let header = \<lparr>
          th_signature = replicate 16 0,
          th_nonce = nonce,
          th_original_message_size = word_of_nat (length plaintext),
          th_flags = SMB2_TRANSFORM_HEADER_FLAG_ENCRYPTED,
          th_session_id = session_id\<rparr>
        in
        result_bind (run_writer (pack_transform_header header)) (\<lambda>header_bytes.
        result_bind (slice header_bytes AAD_OFFSET transform_header_SIZE) (\<lambda>aad.
        result_bind (slice nonce 0 (nonce_len cipher)) (\<lambda>nonce_slice.
        case aead_encrypt K cipher key nonce_slice aad plaintext of
          None \<Rightarrow> Err (InvalidData (Malformed ''encryption failed'' []))
        | Some (buffer, tag) \<Rightarrow>
            result_bind (overwrite_at 4 tag header_bytes) (\<lambda>(_, header_bytes').
            Ok (header_bytes', buffer))))))"

definition decrypt_message ::
    "crypto_prims \<Rightarrow> bytes \<Rightarrow> bytes \<Rightarrow> bytes \<Rightarrow> cipher \<Rightarrow> bytes res" where
  "decrypt_message K transform_header ciphertext key cipher =
     (if length transform_header \<noteq> transform_header_SIZE then
        Err (InvalidData (Malformed ''transform header must be 52 bytes'' [length transform_header]))
      else if length key \<noteq> key_len cipher then
        Err (InvalidData (Malformed ''decryption key length mismatch'' [key_len cipher, length key]))
      else
        result_bind (slice transform_header 4 20) (\<lambda>tag.
        result_bind (slice transform_header 20 (20 + nonce_len cipher)) (\<lambda>nonce.
        result_bind (slice transform_header AAD_OFFSET transform_header_SIZE) (\<lambda>aad.
        case aead_decrypt K cipher key nonce aad tag ciphertext of
          None \<Rightarrow> Err (InvalidData (Malformed ''decryption failed: authentication tag mismatch'' []))
        | Some plaintext \<Rightarrow> Ok plaintext))))"

text \<open>A generator never returns the same nonce twice before its counter is exhausted.\<close>

lemma nonce_next_length: "nonce_next g = Ok (n, g') \<Longrightarrow> length n = 16"
  by (auto simp: nonce_next_def split: if_splits)

lemma nonce_next_inject:
  "nonce_next g = Ok (n, g') \<Longrightarrow> nonce_next h = Ok (n, h') \<Longrightarrow> g = h"
  by (auto simp: nonce_next_def split: if_splits)

primrec nonces :: "nat \<Rightarrow> nonce_generator \<Rightarrow> (bytes list \<times> nonce_generator) res" where
  "nonces 0 g = Ok ([], g)"
| "nonces (Suc k) g =
     result_bind (nonce_next g) (\<lambda>(n, g1). result_bind (nonces k g1) (\<lambda>(ns, g2). Ok (n # ns, g2)))"

lemma nonce_prefix_inject:
  "take (nonce_len c) (to_le_bytes (a :: u64) @ replicate 8 0) = take (nonce_len c) (to_le_bytes b @ replicate 8 0)
   \<longleftrightarrow> a = b"
  by (cases c) auto

lemma nonces_values:
  "unat g + k < 2 ^ 64 \<Longrightarrow>
   nonces k g = Ok (map (\<lambda>i. to_le_bytes (g + word_of_nat i) @ replicate 8 0) [0..<k], g + word_of_nat k)"
proof (induction k arbitrary: g)
  case (Suc k)
  have u: "unat (g + 1) = unat g + 1"
    using Suc.prems by (simp add: unat_word_ariths)
  have "g \<noteq> 0xFFFFFFFFFFFFFFFF"
  proof
    assume "g = 0xFFFFFFFFFFFFFFFF"
    then have "unat g = 18446744073709551615" by simp
    with Suc.prems show False by simp
  qed
  then have g: "nonce_next g = Ok (to_le_bytes g @ replicate 8 0, g + 1)"
    by (simp add: nonce_next_def)
  have "nonces k (g + 1) =
      Ok (map (\<lambda>i. to_le_bytes ((g + 1) + word_of_nat i) @ replicate 8 0) [0..<k], (g + 1) + word_of_nat k)"
    by (rule Suc.IH) (use Suc.prems u in simp)
  with g show ?case
    by (simp add: map_upt_Suc add.assoc del: upt_Suc)
qed simp

lemma word_of_nat_add_inject:
  assumes "i < 2 ^ 64" "j < 2 ^ 64" "(g :: u64) + word_of_nat i = g + word_of_nat j"
  shows "i = j"
proof -
  from assms(3) have "(word_of_nat i :: u64) = word_of_nat j" by simp
  then have "unat (word_of_nat i :: u64) = unat (word_of_nat j :: u64)" by simp
  with assms(1,2) show ?thesis by simp
qed

lemma nonces_distinct:
  assumes "unat g + k < 2 ^ 64"
  shows "\<exists>ns g'. nonces k g = Ok (ns, g') \<and> length ns = k \<and> distinct (map (take (nonce_len c)) ns)"
proof -
  let ?f = "\<lambda>i. take (nonce_len c) (to_le_bytes (g + word_of_nat i) @ replicate 8 0)"
  have "inj_on ?f {0..<k}"
  proof (rule inj_onI)
    fix i j assume ij: "i \<in> {0..<k}" "j \<in> {0..<k}" "?f i = ?f j"
    from ij(3) have "g + word_of_nat i = g + word_of_nat j" by (simp only: nonce_prefix_inject)
    with ij(1,2) assms show "i = j" by (intro word_of_nat_add_inject) auto
  qed
  then have "distinct (map ?f [0..<k])" by (simp only: distinct_map set_upt distinct_upt)
  then show ?thesis
    by (simp only: nonces_values [OF assms]) (simp add: comp_def del: take_append)
qed

text \<open>Whatever is encrypted decrypts to itself, and the header that travels is a transform header.\<close>

lemma encrypt_message_Ok:
  assumes "aead_ok K" "length key = key_len c" "length nonce = 16"
  shows "\<exists>tag ct. length tag = 16 \<and> length ct = length p \<and>
     encrypt_message K p key c nonce sid =
       Ok (transform_header_bytes \<lparr>th_signature = tag, th_nonce = nonce,
             th_original_message_size = word_of_nat (length p),
             th_flags = SMB2_TRANSFORM_HEADER_FLAG_ENCRYPTED, th_session_id = sid\<rparr>, ct) \<and>
     decrypt_message K (transform_header_bytes \<lparr>th_signature = tag, th_nonce = nonce,
             th_original_message_size = word_of_nat (length p),
             th_flags = SMB2_TRANSFORM_HEADER_FLAG_ENCRYPTED, th_session_id = sid\<rparr>) ct key c = Ok p"
proof -
  define aad where "aad = nonce @ to_le_bytes (word_of_nat (length p) :: u32) @ to_le_bytes (0 :: u16) @
    to_le_bytes SMB2_TRANSFORM_HEADER_FLAG_ENCRYPTED @ to_le_bytes sid"
  have nl: "nonce_len c \<le> 16" by (cases c) simp_all
  then have "length (take (nonce_len c) nonce) = nonce_len c" using assms(3) by simp
  with assms obtain ct t where e: "aead_encrypt K c key (take (nonce_len c) nonce) aad p = Some (ct, t)"
    and l: "length ct = length p" "length t = 16"
    and d: "aead_decrypt K c key (take (nonce_len c) nonce) aad t ct = Some p"
    unfolding aead_ok_def by metis
  have enc: "encrypt_message K p key c nonce sid =
      Ok (transform_header_bytes \<lparr>th_signature = t, th_nonce = nonce,
             th_original_message_size = word_of_nat (length p),
             th_flags = SMB2_TRANSFORM_HEADER_FLAG_ENCRYPTED, th_session_id = sid\<rparr>, ct)"
    using assms(2,3) nl e l
    by (simp add: encrypt_message_def run_writer_def wr_simps transform_header_bytes_def slice_def
        AAD_OFFSET_def transform_header_SIZE_def overwrite_at_def aad_def)
  have "decrypt_message K (transform_header_bytes \<lparr>th_signature = t, th_nonce = nonce,
             th_original_message_size = word_of_nat (length p),
             th_flags = SMB2_TRANSFORM_HEADER_FLAG_ENCRYPTED, th_session_id = sid\<rparr>) ct key c = Ok p"
    using assms(2,3) nl d l
    by (simp add: decrypt_message_def transform_header_bytes_def slice_def AAD_OFFSET_def
        transform_header_SIZE_def aad_def)
  with enc l show ?thesis by blast
qed

section \<open>Compression\<close>

definition MAX_DECOMPRESSED_SIZE :: u32 where
  "MAX_DECOMPRESSED_SIZE = 16 * 1024 * 1024"

record compressed_message =
  cm_original_size :: u32
  cm_uncompressed_prefix :: bytes
  cm_compressed_data :: bytes
  cm_offset :: u32

definition compress_message :: "crypto_prims \<Rightarrow> bytes \<Rightarrow> usize \<Rightarrow> compressed_message option" where
  "compress_message K message offset =
     (if offset \<ge> length message then None
      else let to_compress = drop offset message;
               compressed = lz4_compress K to_compress
        in if length compressed \<ge> length to_compress then None
        else Some \<lparr>
          cm_original_size = word_of_nat (length to_compress),
          cm_uncompressed_prefix = take offset message,
          cm_compressed_data = compressed,
          cm_offset = word_of_nat offset\<rparr>)"

definition decompress_message :: "crypto_prims \<Rightarrow> bytes \<Rightarrow> bytes \<Rightarrow> u32 \<Rightarrow> bytes res" where
  "decompress_message K uncompressed_prefix compressed_data original_size =
     (if original_size > MAX_DECOMPRESSED_SIZE then
        Err (InvalidData (Malformed ''decompressed size exceeds maximum allowed size'' [unat original_size]))
      else case lz4_decompress K compressed_data (unat original_size) of
        None \<Rightarrow> Err (InvalidData (Malformed ''LZ4 decompression failed'' []))
      | Some decompressed \<Rightarrow> Ok (uncompressed_prefix @ decompressed))"

lemma decompress_compress:
  assumes "lz4_ok K" "compress_message K m off = Some cm" "length m - off \<le> 16777216"
  shows "decompress_message K (cm_uncompressed_prefix cm) (cm_compressed_data cm) (cm_original_size cm) = Ok m"
proof -
  from assms(2) have cm: "cm = \<lparr>cm_original_size = word_of_nat (length m - off),
      cm_uncompressed_prefix = take off m, cm_compressed_data = lz4_compress K (drop off m),
      cm_offset = word_of_nat off\<rparr>"
    by (auto simp: compress_message_def Let_def split: if_splits)
  have u: "unat (word_of_nat (length m - off) :: u32) = length m - off" using assms(3) by simp
  then have "\<not> (word_of_nat (length m - off) :: u32) > MAX_DECOMPRESSED_SIZE"
    using assms(3) by (simp add: word_less_nat_alt MAX_DECOMPRESSED_SIZE_def)
  moreover have "lz4_decompress K (lz4_compress K (drop off m)) (length m - off) = Some (drop off m)"
    using assms(1) unfolding lz4_ok_def by (metis length_drop)
  ultimately show ?thesis by (simp add: decompress_message_def cm u)
qed

section \<open>Key derivation\<close>

text \<open>The loop \<open>for i in 1..=iterations\<close>, from \<open>i\<close> on with \<open>n\<close> turns left.\<close>

primrec kdf_loop :: "crypto_prims \<Rightarrow> bytes \<Rightarrow> bytes \<Rightarrow> bytes \<Rightarrow> u32 \<Rightarrow> nat \<Rightarrow> u32 \<Rightarrow> bytes res" where
  "kdf_loop K key label context bits 0 i = Ok []"
| "kdf_loop K key label context bits (Suc n) i =
     (case hmac_sha256 K key
         (to_be_bytes i @ label @ [0x00] @ context @ to_be_bytes bits) of
        None \<Rightarrow> Panic
      | Some t \<Rightarrow> result_bind (kdf_loop K key label context bits n (i + 1)) (\<lambda>rest. Ok (t @ rest)))"

definition sp800_108_kdf :: "crypto_prims \<Rightarrow> bytes \<Rightarrow> bytes \<Rightarrow> bytes \<Rightarrow> u32 \<Rightarrow> bytes res" where
  "sp800_108_kdf K key label context key_length_bits =
     (let iterations = (unat key_length_bits + 255) div 256 in
      result_bind (kdf_loop K key label context key_length_bits iterations 1) (\<lambda>result.
      Ok (take (unat key_length_bits div 8) result)))"

record derived_keys =
  dk_signing_key :: bytes
  dk_encryption_key :: bytes
  dk_decryption_key :: bytes

text \<open>An ASCII string literal as bytes.\<close>

definition ascii :: "string \<Rightarrow> bytes" where
  "ascii s = map (\<lambda>c. of_char c) s"

definition derive_session_keys ::
    "crypto_prims \<Rightarrow> bytes \<Rightarrow> dialect \<Rightarrow> bytes option \<Rightarrow> u32 \<Rightarrow> derived_keys res" where
  "derive_session_keys K session_key dialect preauth_hash key_length_bits =
     (if dialect \<notin> {Smb3_0, Smb3_0_2, Smb3_1_1} then Panic
      else
        result_bind
          (if dialect = Smb3_1_1 then
             (case preauth_hash of
                None \<Rightarrow> Panic
              | Some hash \<Rightarrow> Ok (ascii ''SMBSigningKey'' @ [0], hash,
                  ascii ''SMBC2SCipherKey'' @ [0], hash, ascii ''SMBS2CCipherKey'' @ [0], hash))
           else Ok (ascii ''SMB2AESCMAC'' @ [0], ascii ''SmbSign'' @ [0],
             ascii ''SMB2AESCCM'' @ [0], ascii ''ServerIn '' @ [0],
             ascii ''SMB2AESCCM'' @ [0], ascii ''ServerOut'' @ [0]))
          (\<lambda>(signing_label, signing_context, enc_label, enc_context, dec_label, dec_context).
           result_bind (sp800_108_kdf K session_key signing_label signing_context key_length_bits) (\<lambda>sk.
           result_bind (sp800_108_kdf K session_key enc_label enc_context key_length_bits) (\<lambda>ek.
           result_bind (sp800_108_kdf K session_key dec_label dec_context key_length_bits) (\<lambda>dk.
           Ok \<lparr>dk_signing_key = sk, dk_encryption_key = ek, dk_decryption_key = dk\<rparr>)))))"

text \<open>The preauthentication hasher is its 64-byte value.\<close>

definition preauth_new :: bytes where
  "preauth_new = replicate 64 0"

definition preauth_update :: "crypto_prims \<Rightarrow> bytes \<Rightarrow> bytes \<Rightarrow> bytes" where
  "preauth_update K hash message_bytes = sha512 K (hash @ message_bytes)"

lemma kdf_loop_length:
  "hmac_ok K \<Longrightarrow> \<exists>r. kdf_loop K key l ctx b n i = Ok r \<and> length r = 32 * n"
proof (induction n arbitrary: i)
  case (Suc n)
  obtain t where "hmac_sha256 K key (to_be_bytes i @ l @ [0] @ ctx @ to_be_bytes b) = Some t" "length t = 32"
    using Suc.prems unfolding hmac_ok_def by metis
  moreover obtain r where "kdf_loop K key l ctx b n (i + 1) = Ok r" "length r = 32 * n"
    using Suc by blast
  ultimately show ?case by simp
qed simp

lemma kdf_length:
  "hmac_ok K \<Longrightarrow> \<exists>r. sp800_108_kdf K key l ctx b = Ok r \<and> length r = unat b div 8"
proof -
  assume h: "hmac_ok K"
  have "unat b div 8 \<le> 32 * ((unat b + 255) div 256)" by linarith
  moreover obtain r where "kdf_loop K key l ctx b ((unat b + 255) div 256) 1 = Ok r"
    "length r = 32 * ((unat b + 255) div 256)" using kdf_loop_length [OF h] by blast
  ultimately show ?thesis by (simp add: sp800_108_kdf_def)
qed

lemma derive_session_keys_lengths:
  assumes "hmac_ok K" "d \<in> {Smb3_0, Smb3_0_2, Smb3_1_1}" "d = Smb3_1_1 \<longrightarrow> h \<noteq> None"
  shows "\<exists>ks. derive_session_keys K key d h b = Ok ks \<and> length (dk_signing_key ks) = unat b div 8 \<and>
    length (dk_encryption_key ks) = unat b div 8 \<and> length (dk_decryption_key ks) = unat b div 8"
proof -
  obtain sl sc el ec dl dc where r:
    "(if d = Smb3_1_1 then
        (case h of None \<Rightarrow> Panic
         | Some hash \<Rightarrow> Ok (ascii ''SMBSigningKey'' @ [0], hash,
             ascii ''SMBC2SCipherKey'' @ [0], hash, ascii ''SMBS2CCipherKey'' @ [0], hash))
      else Ok (ascii ''SMB2AESCMAC'' @ [0], ascii ''SmbSign'' @ [0],
        ascii ''SMB2AESCCM'' @ [0], ascii ''ServerIn '' @ [0],
        ascii ''SMB2AESCCM'' @ [0], ascii ''ServerOut'' @ [0]) :: (_, error) result) =
     Ok (sl, sc, el, ec, dl, dc)"
    using assms(3) by (cases "d = Smb3_1_1") auto
  obtain sk where "sp800_108_kdf K key sl sc b = Ok sk" "length sk = unat b div 8"
    using kdf_length [OF assms(1)] by blast
  moreover obtain ek where "sp800_108_kdf K key el ec b = Ok ek" "length ek = unat b div 8"
    using kdf_length [OF assms(1)] by blast
  moreover obtain dk where "sp800_108_kdf K key dl dc b = Ok dk" "length dk = unat b div 8"
    using kdf_length [OF assms(1)] by blast
  ultimately show ?thesis
    using assms(2) by (simp add: derive_session_keys_def r)
qed

section \<open>A concrete instance\<close>

text \<open>
  Functions that satisfy what the code relies on, so that the hypotheses on the primitives are
  not empty: the tag is constant and LZ4 compresses runs of zeros only.
\<close>

definition sample_prims :: crypto_prims where
  "sample_prims = \<lparr>
     hmac_sha256 = (\<lambda>k m. Some (take 32 (k @ m @ replicate 32 0))),
     aes_cmac = (\<lambda>k m. if length k = 16 then Some k else None),
     aead_encrypt = (\<lambda>c k n a p.
       if length k = key_len c \<and> length n = nonce_len c then Some (p, replicate 16 7) else None),
     aead_decrypt = (\<lambda>c k n a t ct.
       if length k = key_len c \<and> length n = nonce_len c \<and> t = replicate 16 7 then Some ct else None),
     sha512 = (\<lambda>m. take 64 (m @ replicate 64 0)),
     lz4_compress = (\<lambda>d. if list_all (\<lambda>b. b = 0) d then [] else d),
     lz4_decompress = (\<lambda>z n. if z = [] then Some (replicate n 0) else if length z \<le> n then Some z else None)\<rparr>"

lemma list_all_zero: "list_all (\<lambda>b. b = z) d \<Longrightarrow> replicate (length d) z = d"
  by (induction d) auto

lemma sample_prims_ok:
  "hmac_ok sample_prims" "cmac_ok sample_prims" "aead_ok sample_prims" "lz4_ok sample_prims" "sha512_ok sample_prims"
  by (auto simp: sample_prims_def hmac_ok_def cmac_ok_def aead_ok_def lz4_ok_def sha512_ok_def list_all_zero)

section \<open>Properties\<close>

text \<open>
  C25: A message that the client signs differs from the original in the signature field only, and
  a peer that recomputes the signature of the message with the field zeroed, under the
  client's role, finds the value in the field. Signing succeeds for every message of at least a
  header and every 16-byte key.
\<close>

theorem signing_is_exact:
  assumes "hmac_ok K" "cmac_ok K" "aead_ok K" "length key = 16" "64 \<le> length m"
  shows "\<exists>s. sign_message K m key alg mid cancel = Ok s \<and> length s = length m \<and>
    take 48 s = take 48 m \<and> drop 64 s = drop 64 m \<and>
    compute_signature K (zero_signature s) key alg mid cancel False = Ok (take 16 (drop 48 s))"
proof -
  obtain sig where sig: "compute_signature K (zero_signature m) key alg mid cancel False = Ok sig" "length sig = 16"
    using compute_signature_total [OF assms(1-4)] by blast
  then have s: "sign_message K m key alg mid cancel = Ok (put_signature sig (zero_signature m))"
    using assms(5) by (simp add: sign_message_def MIN_MESSAGE_LEN_def Let_def)
  from s show ?thesis
    using sign_message_frame [OF s] sig assms(5)
    by (auto elim!: sign_message_Ok simp: zero_put_signature) (simp add: sig_defs)
qed

theorem signing_is_exact_witness:
  "\<exists>s. sign_message sample_prims (replicate 80 1) (replicate 16 9) AesGmac 5 False = Ok s \<and>
    length s = 80 \<and> take 48 s = replicate 48 1"
  using signing_is_exact [OF sample_prims_ok(1-3), of "replicate 16 9" "replicate 80 1" AesGmac 5 False] by fastforce

text \<open>
  C26: Encrypting a message gives a 52-byte transform header that carries the nonce, the session
  and the length of the message, and a ciphertext of the same length; decrypting the pair with the
  same key gives the message back.
\<close>

theorem decrypt_inverts_encrypt:
  assumes "aead_ok K" "length key = key_len c" "length nonce = 16"
  shows "\<exists>h ct. encrypt_message K p key c nonce sid = Ok (h, ct) \<and> length h = 52 \<and> length ct = length p \<and>
    decrypt_message K h ct key c = Ok p \<and>
    (\<exists>th. run_reader unpack_transform_header h = Ok th \<and> th_nonce th = nonce \<and> th_session_id th = sid \<and>
       th_original_message_size th = word_of_nat (length p))"
proof -
  obtain tag ct where t: "length tag = 16" "length ct = length p" and
    e: "encrypt_message K p key c nonce sid = Ok (transform_header_bytes \<lparr>th_signature = tag, th_nonce = nonce,
          th_original_message_size = word_of_nat (length p), th_flags = SMB2_TRANSFORM_HEADER_FLAG_ENCRYPTED,
          th_session_id = sid\<rparr>, ct)" and
    d: "decrypt_message K (transform_header_bytes \<lparr>th_signature = tag, th_nonce = nonce,
          th_original_message_size = word_of_nat (length p), th_flags = SMB2_TRANSFORM_HEADER_FLAG_ENCRYPTED,
          th_session_id = sid\<rparr>) ct key c = Ok p"
    using encrypt_message_Ok [OF assms] by blast
  let ?th = "\<lparr>th_signature = tag, th_nonce = nonce, th_original_message_size = word_of_nat (length p),
       th_flags = SMB2_TRANSFORM_HEADER_FLAG_ENCRYPTED, th_session_id = sid\<rparr>"
  have w: "wf_transform_header ?th" using t assms(3) by (simp add: wf_transform_header_def)
  then have "run_reader unpack_transform_header (transform_header_bytes ?th) = Ok ?th"
    using transform_header.unpack_exact [OF w, of "[]" "transform_header_bytes ?th" "[]"]
    by (simp add: run_reader_def read_cursor_new_cur pack_transform_header_apply)
  with t e d length_transform_header_bytes [OF w] show ?thesis
    by (intro exI [of _ "transform_header_bytes ?th"] exI [of _ ct])
      (auto simp: transform_header_SIZE_def intro!: exI [of _ ?th])
qed

theorem decrypt_inverts_encrypt_witness:
  "\<exists>h ct. encrypt_message sample_prims [1, 2, 3] (replicate 32 4) Aes256Gcm (replicate 16 0) 77 = Ok (h, ct) \<and>
     decrypt_message sample_prims h ct (replicate 32 4) Aes256Gcm = Ok [1, 2, 3]"
  using decrypt_inverts_encrypt [OF sample_prims_ok(3), of "replicate 32 4" Aes256Gcm "replicate 16 0" "[1, 2, 3]" 77]
  by fastforce



end
