(* ===== verification/Smb_Frame.thy ===== *)
theory Smb_Frame
  imports Smb_Crypto
begin

text \<open>
  The frame-level functions of \<open>src/client/connection.rs\<close>: packing a message, laying out a
  compound request, splitting a compound response, and the compression wrapper.
\<close>

section \<open>Packing and compounds\<close>

definition pack_message :: "header \<Rightarrow> unit writer \<Rightarrow> bytes res" where
  "pack_message h body = run_writer (seq [pack_header h, body])"

text \<open>The loop of \<open>split_compound\<close>; \<open>data.len() - offset\<close> is a checked subtraction.\<close>

function split_compound_loop :: "bytes \<Rightarrow> usize \<Rightarrow> bytes list \<Rightarrow> bytes list res" where
  "split_compound_loop data offset results =
     (if offset + header_SIZE > length data then
        result_bind (usub (length data) offset) (\<lambda>remain.
          Err (InvalidData (Malformed ''compound response truncated'' [offset, header_SIZE, remain])))
      else if results \<noteq> [] \<and> offset mod 8 \<noteq> 0 then
        Err (InvalidData (Malformed ''compound response is not 8-byte aligned'' [offset]))
      else
        result_bind (slice data (offset + 20) (offset + 24)) (\<lambda>b.
        let next_cmd = unat (from_le_bytes b :: u32);
            sub_end = (if next_cmd > 0 then offset + next_cmd else length data)
        in
        if sub_end > length data then
          Err (InvalidData (Malformed ''compound NextCommand offset exceeds response length''
            [next_cmd, offset, length data]))
        else
          result_bind (slice data offset sub_end) (\<lambda>sub.
          if next_cmd = 0 then Ok (results @ [sub])
          else split_compound_loop data (offset + next_cmd) (results @ [sub]))))"
  by pat_completeness auto
termination
  by (relation "measure (\<lambda>(data, offset, results). length data - offset)")
    (auto simp: header_SIZE_def split: if_splits)

declare split_compound_loop.simps [simp del]

definition split_compound :: "bytes \<Rightarrow> bytes list res" where
  "split_compound data = split_compound_loop data 0 []"

text \<open>
  The layout of a compound request in \<open>execute_compound_inner\<close>: every sub-request but the last
  is padded to eight bytes, then gets its own length as \<open>NextCommand\<close>.
\<close>

definition pad_sub_request :: "bytes \<Rightarrow> bytes" where
  "pad_sub_request sub =
     (let rem = length sub mod 8 in
      if rem \<noteq> 0 then vec_resize sub (length sub + (8 - rem)) else sub)"

definition set_next_command :: "bytes \<Rightarrow> bytes res" where
  "set_next_command sub =
     result_bind (overwrite_at 20 (to_le_bytes (word_of_nat (length sub) :: u32)) sub) (\<lambda>(_, s). Ok s)"

fun layout_compound :: "bytes list \<Rightarrow> bytes list res" where
  "layout_compound [] = Ok []"
| "layout_compound [sub] = Ok [sub]"
| "layout_compound (sub # s # subs) =
     result_bind (set_next_command (pad_sub_request sub)) (\<lambda>sub'.
     result_bind (layout_compound (s # subs)) (\<lambda>rest. Ok (sub' # rest)))"

section \<open>Splitting is exact\<close>

lemma split_compound_loop_no_panic:
  "offset \<le> length data \<Longrightarrow> split_compound_loop data offset results \<noteq> Panic"
proof (induction data offset results rule: split_compound_loop.induct)
  case (1 data offset results)
  then show ?case
    by (subst split_compound_loop.simps)
      (auto simp: usub_def slice_def Let_def header_SIZE_def split: if_splits)
qed

lemma take_drop_join: "take n (drop m xs) @ drop (m + n) xs = drop m xs"
  by (metis add.commute append_take_drop_id drop_drop)

text \<open>Nothing of the frame is lost, duplicated or reordered.\<close>

lemma split_compound_loop_concat:
  assumes "split_compound_loop data offset results = Ok out"
  shows "\<exists>subs. out = results @ subs \<and> subs \<noteq> [] \<and> concat subs = drop offset data"
  using assms
proof (induction data offset results rule: split_compound_loop.induct)
  case (1 data offset results)
  let ?b = "take 4 (drop (offset + 20) data)"
  let ?n = "unat (from_le_bytes ?b :: u32)"
  from "1.prems" have len: "offset + 64 \<le> length data"
    and ok: "\<not> (results \<noteq> [] \<and> offset mod 8 \<noteq> 0)"
    by (auto simp: split_compound_loop.simps [of data offset results] header_SIZE_def usub_def split: if_splits)
  then have b: "(slice data (offset + 20) (offset + 24) :: bytes res) = Ok ?b" by (simp add: slice_def)
  show ?case
  proof (cases "?n = 0")
    case True
    with "1.prems" len ok b have "out = results @ [drop offset data]"
      by (simp add: split_compound_loop.simps [of data offset results] header_SIZE_def Let_def slice_def split: if_splits)
    then show ?thesis by simp
  next
    case False
    with "1.prems" len ok b have e: "offset + ?n \<le> length data"
      and r: "split_compound_loop data (offset + ?n) (results @ [take ?n (drop offset data)]) = Ok out"
      by (auto simp: split_compound_loop.simps [of data offset results] header_SIZE_def Let_def slice_def split: if_splits)
    obtain subs where "out = (results @ [take ?n (drop offset data)]) @ subs" "subs \<noteq> []"
      "concat subs = drop (offset + ?n) data"
      using "1.IH" [OF _ ok b refl refl _ _ False, of "take ?n (drop offset data)"] len e r False
      by (auto simp: header_SIZE_def slice_def)
    then show ?thesis
      by (intro exI [of _ "take ?n (drop offset data) # subs"]) (simp add: take_drop_join)
  qed
qed

text \<open>
  A chain of sub-frames: each but the last announces its own length, which is a multiple of
  eight; the last announces zero.
\<close>

definition next_field :: "bytes \<Rightarrow> usize" where
  "next_field sub = unat (from_le_bytes (take 4 (drop 20 sub)) :: u32)"

fun chained :: "bytes list \<Rightarrow> bool" where
  "chained [] \<longleftrightarrow> False"
| "chained [x] \<longleftrightarrow> 64 \<le> length x \<and> next_field x = 0"
| "chained (x # y # zs) \<longleftrightarrow>
     64 \<le> length x \<and> length x mod 8 = 0 \<and> next_field x = length x \<and> chained (y # zs)"

lemma chained_hd: "chained (x # xs) \<Longrightarrow> 64 \<le> length x"
  by (cases xs) auto

lemma next_field_append: "24 \<le> length x \<Longrightarrow> take 4 (drop 20 (x @ r)) = take 4 (drop 20 x)"
  by simp

lemma split_compound_chained:
  assumes "chained xs" "length pre mod 8 = 0"
  shows "split_compound_loop (pre @ concat xs) (length pre) results = Ok (results @ xs)"
  using assms
proof (induction xs arbitrary: pre results rule: chained.induct)
  case (2 x)
  have b: "(slice (pre @ x) (length pre + 20) (length pre + 24) :: bytes res) = Ok (take 4 (drop 20 x))"
    using "2.prems"(1) by (simp add: slice_def)
  from "2.prems" b show ?case
    by (auto simp: split_compound_loop.simps [of "pre @ x" "length pre" results] header_SIZE_def
        next_field_def slice_def)
next
  case (3 x y zs)
  let ?d = "pre @ x @ concat (y # zs)"
  have l: "64 \<le> length x" "length x mod 8 = 0" "next_field x = length x" "chained (y # zs)"
    using "3.prems"(1) by auto
  have b: "(slice ?d (length pre + 20) (length pre + 24) :: bytes res) = Ok (take 4 (drop 20 x))"
    using l by (simp add: slice_def)
  have u: "unat (from_le_bytes (take 4 (drop 20 x)) :: u32) = length x"
    using l(3) by (simp add: next_field_def)
  have "split_compound_loop ((pre @ x) @ concat (y # zs)) (length (pre @ x)) (results @ [x]) =
      Ok ((results @ [x]) @ y # zs)"
    by (rule "3.IH") (use l "3.prems"(2) in \<open>simp_all add: mod_add_eq [symmetric]\<close>)
  then have "split_compound_loop ?d (length pre + length x) (results @ [x]) = Ok (results @ x # y # zs)"
    by simp
  moreover have "(slice ?d (length pre) (length pre + length x) :: bytes res) = Ok x" by (rule slice_append)
  moreover have "0 < length x" using l(1) by linarith
  ultimately have "split_compound_loop ?d (length pre) results = Ok (results @ x # y # zs)"
    using l(1) "3.prems"(2) b u
    by (subst split_compound_loop.simps) (simp add: header_SIZE_def)
  then show ?case by simp
qed simp

text \<open>The layout of a compound request is such a chain, so the peer recovers the sub-requests.\<close>

lemma pad_sub_request_length:
  "length (pad_sub_request sub) mod 8 = 0" "length sub \<le> length (pad_sub_request sub)"
  "length (pad_sub_request sub) < length sub + 8"
proof -
  have "length (pad_sub_request sub) = length sub + pad_len 8 (length sub)"
    by (simp add: pad_sub_request_def pad_len_def Let_def)
  then show "length (pad_sub_request sub) mod 8 = 0" "length sub \<le> length (pad_sub_request sub)"
    "length (pad_sub_request sub) < length sub + 8"
    using pad_len_aligned [of 8 "length sub"] pad_len_less [of 8 "length sub"] by simp_all
qed

lemma set_next_command_Ok:
  assumes "24 \<le> length sub" "length sub < 2 ^ 32"
  shows "\<exists>s. set_next_command sub = Ok s \<and> length s = length sub \<and> next_field s = length sub \<and>
    take 20 s = take 20 sub \<and> drop 24 s = drop 24 sub"
  using assms by (simp add: set_next_command_def overwrite_at_def next_field_def)

text \<open>What the layout keeps of a sub-request: everything but the four bytes of \<open>NextCommand\<close>.\<close>

definition same_request :: "bytes \<Rightarrow> bytes \<Rightarrow> bool" where
  "same_request sub s \<longleftrightarrow>
     length sub \<le> length s \<and> take 20 s = take 20 sub \<and>
     take (length sub - 24) (drop 24 s) = drop 24 sub"

lemma take_keep: "n \<le> m \<Longrightarrow> take n (take m xs) = take n xs"
  by simp

lemma layout_compound_chained:
  assumes "subs \<noteq> []" "\<forall>s\<in>set subs. 64 \<le> length s \<and> length s + 8 \<le> 2 ^ 32 \<and> next_field s = 0"
  shows "\<exists>fs. layout_compound subs = Ok fs \<and> chained fs \<and> list_all2 same_request subs fs"
  using assms
proof (induction subs rule: layout_compound.induct)
  case (2 sub)
  then show ?case by (simp add: same_request_def)
next
  case (3 sub s subs)
  let ?p = "pad_sub_request sub"
  have l: "64 \<le> length sub" "length sub + 8 \<le> 2 ^ 32" using "3.prems"(2) by auto
  have "24 \<le> length ?p" "length ?p < 2 ^ 32"
    using pad_sub_request_length(2,3) [of sub] l by linarith+
  then obtain s' where s': "set_next_command ?p = Ok s'" "length s' = length ?p"
    "next_field s' = length ?p" "take 20 s' = take 20 ?p" "drop 24 s' = drop 24 ?p"
    using set_next_command_Ok by blast
  have "take (length sub) ?p = sub"
    by (simp add: pad_sub_request_def vec_resize_def Let_def)
  then have "take 20 ?p = take 20 sub" "take (length sub - 24) (drop 24 ?p) = drop 24 sub"
    using take_keep [of 20 "length sub" ?p] drop_take [of 24 "length sub" ?p] l(1) by simp_all
  then have "same_request sub s'"
    using s' pad_sub_request_length(2) [of sub] by (simp add: same_request_def)
  moreover obtain fs where fs: "layout_compound (s # subs) = Ok fs" "chained fs"
    "list_all2 same_request (s # subs) fs"
    using "3.IH" "3.prems"(2) s'(1) by auto
  then obtain f fs' where "fs = f # fs'" by (cases fs) auto
  moreover have "64 \<le> length s'" using l(1) s'(2) pad_sub_request_length(2) [of sub] by linarith
  ultimately show ?case
    using s' fs pad_sub_request_length(1) [of sub] by simp
qed simp

lemma split_layout_compound:
  assumes "subs \<noteq> []" "\<forall>s\<in>set subs. 64 \<le> length s \<and> length s + 8 \<le> 2 ^ 32 \<and> next_field s = 0"
  shows "\<exists>fs. layout_compound subs = Ok fs \<and> split_compound (concat fs) = Ok fs \<and>
    list_all2 same_request subs fs"
proof -
  obtain fs where "layout_compound subs = Ok fs" "chained fs" "list_all2 same_request subs fs"
    using layout_compound_chained [OF assms] by blast
  then show ?thesis
    using split_compound_chained [of fs "[]" "[]"] by (simp add: split_compound_def)
qed

section \<open>The compression wrapper\<close>

definition build_compressed_frame :: "compressed_message \<Rightarrow> bytes res" where
  "build_compressed_frame compressed =
     result_bind (run_writer (pack_compression_transform_header \<lparr>
       cth_original_compressed_segment_size = cm_original_size compressed,
       cth_compression_algorithm = COMPRESSION_ALGORITHM_LZ4,
       cth_flags = SMB2_COMPRESSION_FLAG_NONE,
       cth_offset_or_length = cm_offset compressed\<rparr>)) (\<lambda>frame.
     Ok (frame @ cm_uncompressed_prefix compressed @ cm_compressed_data compressed))"

definition decompress_response :: "crypto_prims \<Rightarrow> bytes \<Rightarrow> bytes res" where
  "decompress_response K data =
     (if length data < compression_transform_header_SIZE then
        Err (InvalidData (Malformed ''compressed response too short for CompressionTransformHeader'' []))
      else
        result_bind (run_reader unpack_compression_transform_header data) (\<lambda>header.
        if cth_compression_algorithm header \<noteq> COMPRESSION_ALGORITHM_LZ4 then
          Err (InvalidData (Malformed ''unsupported compression algorithm''
            [unat (cth_compression_algorithm header), unat COMPRESSION_ALGORITHM_LZ4]))
        else if cth_flags header \<noteq> SMB2_COMPRESSION_FLAG_NONE then
          Err (InvalidData (Malformed ''unsupported compression flags'' [unat (cth_flags header)]))
        else
          let offset = unat (cth_offset_or_length header) in
          result_bind (slice data compression_transform_header_SIZE (length data)) (\<lambda>remaining.
          if offset > length remaining then
            Err (InvalidData (Malformed ''compression offset exceeds remaining data length''
              [offset, length remaining]))
          else
            result_bind (slice remaining 0 offset) (\<lambda>uncompressed_prefix.
            result_bind (slice remaining offset (length remaining)) (\<lambda>compressed_data.
            decompress_message K uncompressed_prefix compressed_data
              (cth_original_compressed_segment_size header))))))"

lemma decompress_response_no_panic: "decompress_response K data \<noteq> Panic"
  using run_reader_safe(1) [OF compression_transform_header.unpack_safe, of data]
  by (auto simp: decompress_response_def decompress_message_def result_bind_eq_Panic slice_def Let_def
      split: if_splits option.splits)

lemma decompress_built_frame:
  assumes "lz4_ok K" "compress_message K m off = Some cm" "length m < 2 ^ 32" "length m - off \<le> 16777216"
  shows "\<exists>f. build_compressed_frame cm = Ok f \<and> decompress_response K f = Ok m"
proof -
  have cm: "cm_uncompressed_prefix cm = take off m" "cm_offset cm = word_of_nat off" "off < length m"
    using assms(2) by (auto simp: compress_message_def Let_def split: if_splits)
  then have "unat (cm_offset cm) = length (cm_uncompressed_prefix cm)" using assms(3) by simp
  with decompress_compress [OF assms(1,2,4)] show ?thesis
    by (simp add: build_compressed_frame_def run_writer_def pack_compression_transform_header_def wr_simps
        decompress_response_def compression_transform_header_SIZE_def run_reader_def read_cursor_new_cur
        unpack_compression_transform_header_def rd_simps slice_def)
qed

section \<open>Properties\<close>

lemma next_field_zeros: "next_field (replicate n 0) = 0"
proof -
  have "nat_of_le_bytes (replicate k 0) = 0" for k by (induction k) simp_all
  then show ?thesis by (simp add: next_field_def from_le_bytes_def)
qed

text \<open>
  Splitting a response frame into its compound parts never panics, and when it succeeds there
  is at least one part and the concatenation of the parts is the frame: nothing is lost, repeated
  or reordered.
\<close>

lemma split_compound_partitions:
  "split_compound data \<noteq> Panic \<and>
   (\<forall>subs. split_compound data = Ok subs \<longrightarrow> subs \<noteq> [] \<and> concat subs = data)"
  using split_compound_loop_concat [of data 0 "[]"]
  by (auto simp: split_compound_def split_compound_loop_no_panic)

text \<open>
  A compound request is laid out so that the receiver's splitting recovers its parts: for any
  non-empty list of sub-requests of at least a header, the layout succeeds, splitting the
  concatenation gives the same parts, and each part keeps all bytes of its sub-request except the
  four of \<open>NextCommand\<close>.
\<close>

lemma compound_layout_splits:
  assumes "subs \<noteq> []" "list_all (\<lambda>s. 64 \<le> length s \<and> length s + 8 \<le> 2 ^ 32 \<and> next_field s = 0) subs"
  shows "\<exists>fs. layout_compound subs = Ok fs \<and> split_compound (concat fs) = Ok fs \<and> list_all2 same_request subs fs"
  using split_layout_compound [OF assms(1)] assms(2) by (simp add: list_all_iff)

theorem compound_layout_splits_witness:
  "\<exists>fs. layout_compound [replicate 70 0, replicate 65 0] = Ok fs \<and> split_compound (concat fs) = Ok fs \<and>
     list_all2 same_request [replicate 70 0, replicate 65 0] fs"
  by (rule compound_layout_splits) (simp_all add: next_field_zeros)

end
