(* ===== verification/Smb_Credits.thy ===== *)
theory Smb_Credits
  imports Smb_Error
begin

text \<open>
  \<open>src/client/credits.rs\<close>: the connection's credit pool and the reservations drawn on it. The
  pool counts credits with a semaphore of the \<open>tokio\<close> crate, which is a parameter: a record of
  its operations with the laws its documentation gives.
\<close>

section \<open>The semaphore\<close>

text \<open>
  \<open>try_acquire_many(n)\<close> followed by \<open>forget\<close> is \<open>sem_try_acquire\<close>: the semaphore without the
  \<open>n\<close> permits, or \<open>None\<close>. \<open>add_permits\<close> panics above \<open>MAX_PERMITS\<close>.
\<close>

record 's sem_ops =
  sem_new :: "usize \<Rightarrow> 's"
  sem_available_permits :: "'s \<Rightarrow> usize"
  sem_add_permits :: "'s \<Rightarrow> usize \<Rightarrow> 's res"
  sem_try_acquire :: "'s \<Rightarrow> usize \<Rightarrow> 's option"
  sem_close :: "'s \<Rightarrow> 's"
  sem_is_closed :: "'s \<Rightarrow> bool"

definition MAX_PERMITS :: usize where
  "MAX_PERMITS = 2 ^ 61 - 1"

definition sem_laws :: "'s sem_ops \<Rightarrow> bool" where
  "sem_laws S \<longleftrightarrow>
     (\<forall>n. sem_available_permits S (sem_new S n) = n \<and> \<not> sem_is_closed S (sem_new S n)) \<and>
     (\<forall>s n. if sem_available_permits S s + n \<le> MAX_PERMITS
        then \<exists>s'. sem_add_permits S s n = Ok s' \<and>
               sem_available_permits S s' = sem_available_permits S s + n \<and>
               sem_is_closed S s' = sem_is_closed S s
        else sem_add_permits S s n = Panic) \<and>
     (\<forall>s n. if \<not> sem_is_closed S s \<and> n \<le> sem_available_permits S s
        then \<exists>s'. sem_try_acquire S s n = Some s' \<and>
               sem_available_permits S s' = sem_available_permits S s - n \<and> \<not> sem_is_closed S s'
        else sem_try_acquire S s n = None) \<and>
     (\<forall>s. sem_is_closed S (sem_close S s) \<and>
        sem_available_permits S (sem_close S s) = sem_available_permits S s)"

section \<open>The pool\<close>

definition CREDIT_TARGET :: u16 where "CREDIT_TARGET = 512"
definition DEFAULT_CREDIT_WAIT :: u64 where "DEFAULT_CREDIT_WAIT = 30000"

record 's credit_pool =
  permits :: 's
  wait_ms :: u64

definition pool_new :: "'s sem_ops \<Rightarrow> 's credit_pool" where
  "pool_new S = \<lparr>permits = sem_new S 1, wait_ms = DEFAULT_CREDIT_WAIT\<rparr>"

definition pool_reset :: "'s sem_ops \<Rightarrow> 's credit_pool \<Rightarrow> 's credit_pool" where
  "pool_reset S p = p\<lparr>permits := sem_new S 1\<rparr>"

definition pool_available :: "'s sem_ops \<Rightarrow> 's credit_pool \<Rightarrow> u16" where
  "pool_available S p = word_of_nat (min (sem_available_permits S (permits p)) 65535)"

definition pool_grant :: "'s sem_ops \<Rightarrow> u16 \<Rightarrow> 's credit_pool \<Rightarrow> 's credit_pool res" where
  "pool_grant S credits p =
     (if credits > 0 then
        result_bind (sem_add_permits S (permits p) (unat credits)) (\<lambda>s. Ok (p\<lparr>permits := s\<rparr>))
      else Ok p)"

definition try_reserve :: "'s sem_ops \<Rightarrow> u16 \<Rightarrow> 's credit_pool \<Rightarrow> bool \<times> 's credit_pool" where
  "try_reserve S charge p =
     (case sem_try_acquire S (permits p) (unat charge) of
        Some s \<Rightarrow> (True, p\<lparr>permits := s\<rparr>)
      | None \<Rightarrow> (False, p))"

definition pool_refund :: "'s sem_ops \<Rightarrow> u16 \<Rightarrow> 's credit_pool \<Rightarrow> 's credit_pool res" where
  "pool_refund S charge p = pool_grant S charge p"

text \<open>\<open>saturating_add\<close> and \<open>saturating_sub\<close> on \<open>u16\<close>.\<close>

definition saturating_add_u16 :: "u16 \<Rightarrow> u16 \<Rightarrow> u16" where
  "saturating_add_u16 a b = (if unat a + unat b < 65536 then a + b else 0xFFFF)"

definition saturating_sub_u16 :: "u16 \<Rightarrow> u16 \<Rightarrow> u16" where
  "saturating_sub_u16 a b = (if b \<le> a then a - b else 0)"

definition request_for :: "'s sem_ops \<Rightarrow> u16 \<Rightarrow> 's credit_pool \<Rightarrow> u16" where
  "request_for S charge p =
     saturating_add_u16 charge (saturating_sub_u16 CREDIT_TARGET (pool_available S p))"

definition set_wait_timeout :: "nat \<Rightarrow> 's credit_pool \<Rightarrow> 's credit_pool" where
  "set_wait_timeout after_ms p =
     p\<lparr>wait_ms := (if after_ms < 2 ^ 64 then word_of_nat after_ms else 0xFFFFFFFFFFFFFFFF)\<rparr>"

definition pool_close :: "'s sem_ops \<Rightarrow> 's credit_pool \<Rightarrow> 's credit_pool" where
  "pool_close S p = p\<lparr>permits := sem_close S (permits p)\<rparr>"

definition pool_is_closed :: "'s sem_ops \<Rightarrow> 's credit_pool \<Rightarrow> bool" where
  "pool_is_closed S p \<longleftrightarrow> sem_is_closed S (permits p)"

text \<open>
  A reservation refers to the pool until it is committed; dropping it refunds. The reference
  is to the pool, not to the semaphore the credits were taken from.
\<close>

record credit_reservation =
  res_in_pool :: bool
  res_charge :: u16

definition reservation_new :: "u16 \<Rightarrow> credit_reservation" where
  "reservation_new charge = \<lparr>res_in_pool = True, res_charge = charge\<rparr>"

definition reservation_commit :: "credit_reservation \<Rightarrow> credit_reservation" where
  "reservation_commit r = r\<lparr>res_in_pool := False\<rparr>"

definition reservation_drop ::
    "'s sem_ops \<Rightarrow> credit_reservation \<Rightarrow> 's credit_pool \<Rightarrow> 's credit_pool res" where
  "reservation_drop S r p = (if res_in_pool r then pool_refund S (res_charge r) p else Ok p)"

section \<open>Facts from the laws\<close>

abbreviation avail :: "'s sem_ops \<Rightarrow> 's credit_pool \<Rightarrow> nat" where
  "avail S p \<equiv> sem_available_permits S (permits p)"

lemma sem_new_facts:
  "sem_laws S \<Longrightarrow> sem_available_permits S (sem_new S n) = n"
  "sem_laws S \<Longrightarrow> \<not> sem_is_closed S (sem_new S n)"
  unfolding sem_laws_def by blast+

lemma sem_add_fits:
  "sem_laws S \<Longrightarrow> sem_available_permits S s + n \<le> MAX_PERMITS \<Longrightarrow>
   \<exists>s'. sem_add_permits S s n = Ok s' \<and> sem_available_permits S s' = sem_available_permits S s + n \<and>
        sem_is_closed S s' = sem_is_closed S s"
  unfolding sem_laws_def by meson

lemma sem_add_overflow:
  "sem_laws S \<Longrightarrow> \<not> sem_available_permits S s + n \<le> MAX_PERMITS \<Longrightarrow> sem_add_permits S s n = Panic"
  unfolding sem_laws_def by meson

lemma sem_acquire_fits:
  "sem_laws S \<Longrightarrow> \<not> sem_is_closed S s \<Longrightarrow> n \<le> sem_available_permits S s \<Longrightarrow>
   \<exists>s'. sem_try_acquire S s n = Some s' \<and> sem_available_permits S s' = sem_available_permits S s - n \<and>
        \<not> sem_is_closed S s'"
  unfolding sem_laws_def by meson

lemma sem_acquire_fails:
  "sem_laws S \<Longrightarrow> sem_is_closed S s \<or> sem_available_permits S s < n \<Longrightarrow> sem_try_acquire S s n = None"
  unfolding sem_laws_def by (meson not_le)

lemma sem_close_facts:
  "sem_laws S \<Longrightarrow> sem_is_closed S (sem_close S s)"
  "sem_laws S \<Longrightarrow> sem_available_permits S (sem_close S s) = sem_available_permits S s"
  unfolding sem_laws_def by blast+

lemma pool_grant_avail:
  assumes "sem_laws S" "pool_grant S c p = Ok p'"
  shows "avail S p' = avail S p + unat c" "pool_is_closed S p' = pool_is_closed S p" "wait_ms p' = wait_ms p"
proof -
  have "avail S p' = avail S p + unat c \<and> pool_is_closed S p' = pool_is_closed S p \<and> wait_ms p' = wait_ms p"
  proof (cases "c > 0")
    case True
    with assms(2) obtain s where s: "sem_add_permits S (permits p) (unat c) = Ok s" "p' = p\<lparr>permits := s\<rparr>"
      by (auto simp: pool_grant_def result_bind_eq_Ok)
    moreover have "avail S p + unat c \<le> MAX_PERMITS"
      using sem_add_overflow [OF assms(1)] s(1) by fastforce
    ultimately show ?thesis
      using sem_add_fits [OF assms(1), of "permits p" "unat c"] by (auto simp: pool_is_closed_def)
  next
    case False
    then have "c = 0" by (simp add: word_gt_0)
    with assms(2) show ?thesis by (simp add: pool_grant_def)
  qed
  then show "avail S p' = avail S p + unat c" "pool_is_closed S p' = pool_is_closed S p"
    "wait_ms p' = wait_ms p" by simp_all
qed

lemma pool_grant_total:
  "sem_laws S \<Longrightarrow> avail S p + unat c \<le> MAX_PERMITS \<Longrightarrow> \<exists>p'. pool_grant S c p = Ok p'"
  using sem_add_fits [of S "permits p" "unat c"] by (auto simp: pool_grant_def)

lemma try_reserve_True:
  assumes "sem_laws S" "try_reserve S c p = (True, p')"
  shows "unat c \<le> avail S p" "avail S p' + unat c = avail S p" "\<not> pool_is_closed S p"
proof -
  from assms(2) obtain s where s: "sem_try_acquire S (permits p) (unat c) = Some s" "p' = p\<lparr>permits := s\<rparr>"
    by (auto simp: try_reserve_def split: option.splits)
  then have c: "\<not> sem_is_closed S (permits p)" "unat c \<le> avail S p"
    using sem_acquire_fails [OF assms(1), of "permits p" "unat c"] by force+
  with s sem_acquire_fits [OF assms(1) c]
  show "unat c \<le> avail S p" "avail S p' + unat c = avail S p" "\<not> pool_is_closed S p"
    by (auto simp: pool_is_closed_def)
qed

lemma try_reserve_iff:
  assumes "sem_laws S"
  shows "fst (try_reserve S c p) \<longleftrightarrow> \<not> pool_is_closed S p \<and> unat c \<le> avail S p"
proof
  assume "fst (try_reserve S c p)"
  then show "\<not> pool_is_closed S p \<and> unat c \<le> avail S p"
    using try_reserve_True [OF assms, of c p "snd (try_reserve S c p)"] by (auto simp: prod_eq_iff)
next
  assume a: "\<not> pool_is_closed S p \<and> unat c \<le> avail S p"
  then obtain s where "sem_try_acquire S (permits p) (unat c) = Some s"
    using sem_acquire_fits [OF assms, of "permits p" "unat c"] by (auto simp: pool_is_closed_def)
  then show "fst (try_reserve S c p)" by (simp add: try_reserve_def)
qed

lemma try_reserve_False: "try_reserve S c p = (False, p') \<Longrightarrow> p' = p"
  by (auto simp: try_reserve_def split: option.splits)

text \<open>A request never asks for less than it spends, and asks for the way back to the target.\<close>

lemma unat_request_for:
  "unat (request_for S c p) = min 65535 (unat c + (512 - min (avail S p) 65535))"
proof -
  have a: "unat (pool_available S p) = min (avail S p) 65535"
    by (simp add: pool_available_def)
  have s: "unat (saturating_sub_u16 CREDIT_TARGET (pool_available S p)) = 512 - min (avail S p) 65535"
    using a by (auto simp: saturating_sub_u16_def CREDIT_TARGET_def word_le_nat_alt unat_sub)
  show ?thesis
    using s unat_u16_less [of c]
    by (auto simp: request_for_def saturating_add_u16_def unat_word_ariths)
qed

section \<open>The account\<close>

text \<open>
  The pool together with the live reservations and two totals: what the server has granted
  since the pool was last filled and what has been sent to it.
\<close>

record 's account =
  acc_pool :: "'s credit_pool"
  acc_held :: "credit_reservation list"
  acc_granted :: nat
  acc_spent :: nat

definition held_charge :: "credit_reservation list \<Rightarrow> nat" where
  "held_charge rs = (\<Sum>r\<leftarrow>rs. unat (res_charge r))"

inductive credit_step :: "'s sem_ops \<Rightarrow> 's account \<Rightarrow> 's account \<Rightarrow> bool" for S where
  step_grant: "pool_grant S c (acc_pool a) = Ok p \<Longrightarrow>
     credit_step S a (a\<lparr>acc_pool := p, acc_granted := acc_granted a + unat c\<rparr>)"
| step_reserve: "try_reserve S c (acc_pool a) = (True, p) \<Longrightarrow>
     credit_step S a (a\<lparr>acc_pool := p, acc_held := reservation_new c # acc_held a\<rparr>)"
| step_commit: "r \<in> set (acc_held a) \<Longrightarrow> reservation_drop S (reservation_commit r) (acc_pool a) = Ok p \<Longrightarrow>
     credit_step S a (a\<lparr>acc_pool := p, acc_held := remove1 r (acc_held a),
       acc_spent := acc_spent a + unat (res_charge r)\<rparr>)"
| step_drop: "r \<in> set (acc_held a) \<Longrightarrow> reservation_drop S r (acc_pool a) = Ok p \<Longrightarrow>
     credit_step S a (a\<lparr>acc_pool := p, acc_held := remove1 r (acc_held a)\<rparr>)"
| step_close: "credit_step S a (a\<lparr>acc_pool := pool_close S (acc_pool a)\<rparr>)"

definition account_new :: "'s sem_ops \<Rightarrow> 's account" where
  "account_new S = \<lparr>acc_pool = pool_new S, acc_held = [], acc_granted = 0, acc_spent = 0\<rparr>"

definition balanced :: "'s sem_ops \<Rightarrow> 's account \<Rightarrow> bool" where
  "balanced S a \<longleftrightarrow>
     avail S (acc_pool a) + held_charge (acc_held a) + acc_spent a = 1 + acc_granted a \<and>
     list_all res_in_pool (acc_held a)"

lemma held_charge_simps [simp]:
  "held_charge [] = 0" "held_charge (r # rs) = unat (res_charge r) + held_charge rs"
  by (simp_all add: held_charge_def)

lemma held_charge_remove1:
  "r \<in> set rs \<Longrightarrow> held_charge (remove1 r rs) + unat (res_charge r) = held_charge rs"
  by (induction rs) auto

lemma list_all_remove1: "list_all P rs \<Longrightarrow> list_all P (remove1 r rs)"
  by (auto simp: list_all_iff dest: notin_set_remove1)

lemma credit_step_balanced:
  assumes "sem_laws S" "credit_step S a b" "balanced S a"
  shows "balanced S b"
  using assms(2,3)
proof cases
  case (step_grant c p)
  then show ?thesis
    using pool_grant_avail(1) [OF assms(1) step_grant(2)] assms(3) by (simp add: balanced_def)
next
  case (step_reserve c p)
  then show ?thesis
    using try_reserve_True(2) [OF assms(1) step_reserve(2)] assms(3)
    by (simp add: balanced_def reservation_new_def)
next
  case (step_commit r p)
  then show ?thesis
    using held_charge_remove1 [OF step_commit(2)] assms(3)
    by (simp add: balanced_def reservation_drop_def reservation_commit_def list_all_remove1)
next
  case (step_drop r p)
  from step_drop(2) assms(3) have "res_in_pool r" by (auto simp: balanced_def list_all_iff)
  with step_drop(3) have "pool_grant S (res_charge r) (acc_pool a) = Ok p"
    by (simp add: reservation_drop_def pool_refund_def)
  with step_drop show ?thesis
    using held_charge_remove1 [OF step_drop(2)] pool_grant_avail(1) [OF assms(1)] assms(3)
    by (fastforce simp: balanced_def list_all_remove1)
next
  case step_close
  then show ?thesis
    using assms(3) sem_close_facts(2) [OF assms(1)] by (simp add: balanced_def pool_close_def)
qed

lemma account_new_balanced: "sem_laws S \<Longrightarrow> balanced S (account_new S)"
  by (simp add: balanced_def account_new_def pool_new_def sem_new_facts)

lemma reachable_balanced:
  assumes "sem_laws S" "(credit_step S)\<^sup>*\<^sup>* (account_new S) a"
  shows "balanced S a"
  using assms(2)
  by (induction rule: rtranclp_induct) (use assms(1) account_new_balanced credit_step_balanced in blast)+

text \<open>
  A reservation that outlives \<open>reset\<close> refunds into the new budget: the pool then holds more
  than the single credit of a fresh connection although the server has granted nothing.
\<close>

lemma refund_after_reset:
  assumes "sem_laws S" "reservation_drop S (reservation_new c) (pool_reset S p) = Ok q"
  shows "avail S q = 1 + unat c"
  using assms(2) pool_grant_avail(1) [OF assms(1), of c "pool_reset S p" q]
  by (simp add: reservation_drop_def reservation_new_def pool_refund_def pool_reset_def sem_new_facts [OF assms(1)])

section \<open>A counting semaphore\<close>

text \<open>The laws hold of a counter with a closed flag.\<close>

definition counting_sem :: "(nat \<times> bool) sem_ops" where
  "counting_sem = \<lparr>
     sem_new = (\<lambda>n. (n, False)),
     sem_available_permits = fst,
     sem_add_permits = (\<lambda>(k, c) n. if k + n \<le> MAX_PERMITS then Ok (k + n, c) else Panic),
     sem_try_acquire = (\<lambda>(k, c) n. if \<not> c \<and> n \<le> k then Some (k - n, c) else None),
     sem_close = (\<lambda>(k, c). (k, True)),
     sem_is_closed = snd\<rparr>"

lemma counting_sem_laws: "sem_laws counting_sem"
  by (auto simp: sem_laws_def counting_sem_def)

section \<open>Properties\<close>



text \<open>
  Reserving succeeds exactly when the pool is open and holds the charge, and then takes
  exactly the charge; a request asks for its charge plus what is missing to the target of 512
  credits, saturating at 65535, so it never asks for less than it spends.
\<close>

lemma reserve_and_request:
  assumes "sem_laws S"
  shows "(fst (try_reserve S c p) \<longleftrightarrow> \<not> pool_is_closed S p \<and> unat c \<le> avail S p) \<and>
    avail S (snd (try_reserve S c p)) = avail S p - (if fst (try_reserve S c p) then unat c else 0) \<and>
    unat (request_for S c p) = min 65535 (unat c + (512 - avail S p)) \<and>
    c \<le> request_for S c p"
proof -
  have "512 - min (avail S p) 65535 = 512 - avail S p" by linarith
  with unat_request_for [of S c p] have r: "unat (request_for S c p) = min 65535 (unat c + (512 - avail S p))"
    by simp
  then have "unat c \<le> unat (request_for S c p)" using unat_u16_less [of c] by linarith
  moreover have "avail S (snd (try_reserve S c p)) = avail S p - (if fst (try_reserve S c p) then unat c else 0)"
    using try_reserve_True(2) [OF assms, of c p "snd (try_reserve S c p)"]
      try_reserve_False [of S c p "snd (try_reserve S c p)"]
    by (cases "try_reserve S c p"; cases "fst (try_reserve S c p)") auto
  ultimately show ?thesis using r try_reserve_iff [OF assms, of c p] by (simp add: word_le_nat_alt)
qed

text \<open>
  A reservation that outlives a reset of the pool refunds into the new budget: the fresh
  connection then holds more credits than the server granted.
\<close>

lemma stale_reservation_inflates_pool:
  assumes "sem_laws S" "unat c + 1 \<le> MAX_PERMITS"
  shows "\<exists>q. reservation_drop S (reservation_new c) (pool_reset S p) = Ok q \<and> avail S q = 1 + unat c"
proof -
  have "avail S (pool_reset S p) = 1" using sem_new_facts [OF assms(1)] by (simp add: pool_reset_def)
  then obtain q where "pool_grant S c (pool_reset S p) = Ok q"
    using pool_grant_total [OF assms(1), of "pool_reset S p" c] assms(2) by auto
  then show ?thesis
    using refund_after_reset [OF assms(1), of c p] by (simp add: reservation_drop_def reservation_new_def pool_refund_def)
qed

theorem stale_reservation_inflates_pool_witness:
  "\<exists>q. reservation_drop counting_sem (reservation_new 128) (pool_reset counting_sem (pool_new counting_sem)) = Ok q \<and>
     avail counting_sem q = 129"
  using stale_reservation_inflates_pool [OF counting_sem_laws, of 128 "pool_new counting_sem"] by (simp add: MAX_PERMITS_def)

end
