(* ===== verification/Smb_Msg_Negotiate.thy ===== *)
theory Smb_Msg_Negotiate
  imports Smb_Msg_File
begin

text \<open>
  \<open>src/msg/negotiate.rs\<close>: the NEGOTIATE exchange and its list of negotiate contexts. The
  contexts are 8-byte aligned; their offset is patched into the fixed part after the
  alignment padding is known.
\<close>

section \<open>Negotiate contexts\<close>

definition NEGOTIATE_CONTEXT_PREAUTH_INTEGRITY :: u16 where "NEGOTIATE_CONTEXT_PREAUTH_INTEGRITY = 0x0001"
definition NEGOTIATE_CONTEXT_ENCRYPTION :: u16 where "NEGOTIATE_CONTEXT_ENCRYPTION = 0x0002"
definition NEGOTIATE_CONTEXT_COMPRESSION :: u16 where "NEGOTIATE_CONTEXT_COMPRESSION = 0x0003"
definition NEGOTIATE_CONTEXT_SIGNING :: u16 where "NEGOTIATE_CONTEXT_SIGNING = 0x0008"

lemmas context_type_defs = NEGOTIATE_CONTEXT_PREAUTH_INTEGRITY_def NEGOTIATE_CONTEXT_ENCRYPTION_def
  NEGOTIATE_CONTEXT_COMPRESSION_def NEGOTIATE_CONTEXT_SIGNING_def

datatype negotiate_context =
    PreauthIntegrity "u16 list" bytes
  | Encryption "u16 list"
  | Compression u32 "u16 list"
  | Signing "u16 list"
  | UnknownContext u16 bytes

fun pack_context_data :: "negotiate_context \<Rightarrow> unit writer" where
  "pack_context_data (PreauthIntegrity hash_algorithms salt) = seq [
     write_u16_le (word_of_nat (length hash_algorithms)),
     write_u16_le (word_of_nat (length salt)),
     seq (map write_u16_le hash_algorithms),
     write_bytes salt]"
| "pack_context_data (Encryption ciphers) = seq [
     write_u16_le (word_of_nat (length ciphers)),
     seq (map write_u16_le ciphers)]"
| "pack_context_data (Compression flags algorithms) = seq [
     write_u16_le (word_of_nat (length algorithms)),
     write_u16_le 0,
     write_u32_le flags,
     seq (map write_u16_le algorithms)]"
| "pack_context_data (Signing algorithms) = seq [
     write_u16_le (word_of_nat (length algorithms)),
     seq (map write_u16_le algorithms)]"
| "pack_context_data (UnknownContext _ data) = write_bytes data"

fun context_type_id :: "negotiate_context \<Rightarrow> u16" where
  "context_type_id (PreauthIntegrity _ _) = NEGOTIATE_CONTEXT_PREAUTH_INTEGRITY"
| "context_type_id (Encryption _) = NEGOTIATE_CONTEXT_ENCRYPTION"
| "context_type_id (Compression _ _) = NEGOTIATE_CONTEXT_COMPRESSION"
| "context_type_id (Signing _) = NEGOTIATE_CONTEXT_SIGNING"
| "context_type_id (UnknownContext t _) = t"

fun context_data_len :: "negotiate_context \<Rightarrow> usize" where
  "context_data_len (PreauthIntegrity hash_algorithms salt) = 2 + 2 + length hash_algorithms * 2 + length salt"
| "context_data_len (Encryption ciphers) = 2 + length ciphers * 2"
| "context_data_len (Compression _ algorithms) = 2 + 2 + 4 + length algorithms * 2"
| "context_data_len (Signing algorithms) = 2 + length algorithms * 2"
| "context_data_len (UnknownContext _ data) = length data"

text \<open>The loop over \<open>contexts.iter().enumerate()\<close>, from index \<open>i\<close> on.\<close>

primrec pack_contexts_from :: "negotiate_context list \<Rightarrow> usize \<Rightarrow> unit writer" where
  "pack_contexts_from [] i = ret ()"
| "pack_contexts_from (ctx # ctxs) i = seq [
     (if i > 0 then align_to 8 else ret ()),
     write_u16_le (context_type_id ctx),
     write_u16_le (word_of_nat (context_data_len ctx)),
     write_u32_le 0,
     pack_context_data ctx,
     pack_contexts_from ctxs (Suc i)]"

definition pack_negotiate_contexts :: "negotiate_context list \<Rightarrow> unit writer" where
  "pack_negotiate_contexts ctxs = pack_contexts_from ctxs 0"

definition unpack_negotiate_context :: "negotiate_context reader" where
  "unpack_negotiate_context =
     bnd read_u16_le (\<lambda>context_type.
     bnd read_u16_le (\<lambda>data_length.
     bnd read_u32_le (\<lambda>_.
     if context_type = NEGOTIATE_CONTEXT_PREAUTH_INTEGRITY then
       bnd read_u16_le (\<lambda>hash_count.
       bnd read_u16_le (\<lambda>salt_length.
       bnd (repeat (unat hash_count) read_u16_le) (\<lambda>hash_algorithms.
       bnd (read_bytes_bounded (unat salt_length)) (\<lambda>salt.
       ret (PreauthIntegrity hash_algorithms salt)))))
     else if context_type = NEGOTIATE_CONTEXT_ENCRYPTION then
       bnd read_u16_le (\<lambda>cipher_count.
       bnd (repeat (unat cipher_count) read_u16_le) (\<lambda>ciphers.
       ret (Encryption ciphers)))
     else if context_type = NEGOTIATE_CONTEXT_COMPRESSION then
       bnd read_u16_le (\<lambda>alg_count.
       bnd read_u16_le (\<lambda>_.
       bnd read_u32_le (\<lambda>flags.
       bnd (repeat (unat alg_count) read_u16_le) (\<lambda>algorithms.
       ret (Compression flags algorithms)))))
     else if context_type = NEGOTIATE_CONTEXT_SIGNING then
       bnd read_u16_le (\<lambda>alg_count.
       bnd (repeat (unat alg_count) read_u16_le) (\<lambda>algorithms.
       ret (Signing algorithms)))
     else
       bnd (read_bytes_bounded (unat data_length)) (\<lambda>data.
       ret (UnknownContext context_type data)))))"

definition skip_to_8 :: "unit reader" where
  "skip_to_8 =
     bnd position (\<lambda>pos.
       let remainder = pos mod 8 in if remainder \<noteq> 0 then skip (8 - remainder) else ret ())"

primrec unpack_contexts_from :: "usize \<Rightarrow> usize \<Rightarrow> negotiate_context list reader" where
  "unpack_contexts_from 0 i = ret []"
| "unpack_contexts_from (Suc n) i =
     bnd (if i > 0 then skip_to_8 else ret ()) (\<lambda>_.
     bnd unpack_negotiate_context (\<lambda>ctx.
     bnd (unpack_contexts_from n (Suc i)) (\<lambda>ctxs.
     ret (ctx # ctxs))))"

definition unpack_negotiate_contexts :: "usize \<Rightarrow> negotiate_context list reader" where
  "unpack_negotiate_contexts count = unpack_contexts_from count 0"

text \<open>
  The counts and lengths fit their 16-bit fields, and an unknown context does not carry the
  type of a known one.
\<close>

fun wf_context :: "negotiate_context \<Rightarrow> bool" where
  "wf_context (PreauthIntegrity hs salt) \<longleftrightarrow> length hs < 65536 \<and> length salt < 65536"
| "wf_context (Encryption cs) \<longleftrightarrow> length cs < 65536"
| "wf_context (Compression _ as) \<longleftrightarrow> length as < 65536"
| "wf_context (Signing as) \<longleftrightarrow> length as < 65536"
| "wf_context (UnknownContext t data) \<longleftrightarrow>
     t \<notin> {NEGOTIATE_CONTEXT_PREAUTH_INTEGRITY, NEGOTIATE_CONTEXT_ENCRYPTION,
          NEGOTIATE_CONTEXT_COMPRESSION, NEGOTIATE_CONTEXT_SIGNING} \<and> length data < 65536"

definition u16s_bytes :: "u16 list \<Rightarrow> bytes" where
  "u16s_bytes us = concat (map to_le_bytes us)"

lemma length_u16s_bytes [simp]: "length (u16s_bytes us) = 2 * length us"
  by (simp add: u16s_bytes_def length_concat_u16)

lemma write_u16s [wr_simps]: "seq (map write_u16_le us) w = Ok ((), w @ u16s_bytes us)"
  unfolding u16s_bytes_def by (rule seq_map_pack) (simp add: wr_simps)

lemma read_u16s [rd_simps]:
  "n = length us \<Longrightarrow> repeat n read_u16_le (cur pre (u16s_bytes us @ post)) = Ok (us, cur (pre @ u16s_bytes us) post)"
  unfolding u16s_bytes_def by (rule repeat_unpack) (simp_all add: rd_simps)

fun context_data_bytes :: "negotiate_context \<Rightarrow> bytes" where
  "context_data_bytes (PreauthIntegrity hs salt) =
     to_le_bytes (word_of_nat (length hs) :: u16) @ to_le_bytes (word_of_nat (length salt) :: u16) @
     u16s_bytes hs @ salt"
| "context_data_bytes (Encryption cs) = to_le_bytes (word_of_nat (length cs) :: u16) @ u16s_bytes cs"
| "context_data_bytes (Compression fl as) =
     to_le_bytes (word_of_nat (length as) :: u16) @ to_le_bytes (0 :: u16) @ to_le_bytes fl @ u16s_bytes as"
| "context_data_bytes (Signing as) = to_le_bytes (word_of_nat (length as) :: u16) @ u16s_bytes as"
| "context_data_bytes (UnknownContext _ data) = data"

lemma pack_context_data_apply [wr_simps]: "pack_context_data ctx w = Ok ((), w @ context_data_bytes ctx)"
  by (cases ctx) (simp_all add: wr_simps)

text \<open>The length the writer announces is the length it writes.\<close>

lemma length_context_data_bytes [simp]: "length (context_data_bytes ctx) = context_data_len ctx"
  by (cases ctx) simp_all

definition context_bytes :: "negotiate_context \<Rightarrow> bytes" where
  "context_bytes ctx =
     to_le_bytes (context_type_id ctx) @ to_le_bytes (word_of_nat (context_data_len ctx) :: u16) @
     to_le_bytes (0 :: u32) @ context_data_bytes ctx"

lemma unpack_negotiate_context_cur [rd_simps]:
  "wf_context ctx \<Longrightarrow>
   unpack_negotiate_context (cur pre (context_bytes ctx @ post)) = Ok (ctx, cur (pre @ context_bytes ctx) post)"
  by (cases ctx)
    (auto simp: unpack_negotiate_context_def context_bytes_def context_type_defs rd_simps)

lemma safe_unpack_negotiate_context [safe_intros]: "safe p unpack_negotiate_context"
  by (auto simp: unpack_negotiate_context_def intro!: safe_intros)

fun contexts_bytes :: "negotiate_context list \<Rightarrow> nat \<Rightarrow> nat \<Rightarrow> bytes" where
  "contexts_bytes [] i n = []"
| "contexts_bytes (ctx # ctxs) i n =
     (let p = (if i > 0 then pad_len 8 n else 0)
      in replicate p 0 @ context_bytes ctx @
         contexts_bytes ctxs (Suc i) (n + p + length (context_bytes ctx)))"

lemma pack_contexts_from_apply [wr_simps]:
  "pack_contexts_from ctxs i w = Ok ((), w @ contexts_bytes ctxs i (length w))"
  by (induction ctxs arbitrary: i w) (simp_all add: wr_simps context_bytes_def Let_def ac_simps)

lemma skip_to_8_cur [rd_simps]:
  "skip_to_8 (cur pre (replicate (pad_len 8 (length pre)) 0 @ post)) =
   Ok ((), cur (pre @ replicate (pad_len 8 (length pre)) 0) post)"
  by (auto simp: skip_to_8_def rd_simps pad_len_def Let_def)

lemma unpack_contexts_from_cur [rd_simps]:
  "\<forall>ctx\<in>set ctxs. wf_context ctx \<Longrightarrow> n = length ctxs \<Longrightarrow> m = length pre \<Longrightarrow>
   unpack_contexts_from n i (cur pre (contexts_bytes ctxs i m @ post)) =
   Ok (ctxs, cur (pre @ contexts_bytes ctxs i m) post)"
proof (induction ctxs arbitrary: i n m pre)
  case Nil
  then show ?case by simp
next
  case (Cons ctx ctxs)
  define p where "p = (if i > 0 then pad_len 8 m else 0)"
  have "unpack_contexts_from (length ctxs) (Suc i)
      (cur (pre @ replicate p 0 @ context_bytes ctx)
        (contexts_bytes ctxs (Suc i) (m + p + length (context_bytes ctx)) @ post)) =
      Ok (ctxs, cur ((pre @ replicate p 0 @ context_bytes ctx) @
        contexts_bytes ctxs (Suc i) (m + p + length (context_bytes ctx))) post)"
    by (rule Cons.IH) (use Cons.prems in auto)
  with Cons.prems show ?case
    by (cases "i > 0") (auto simp: p_def rd_simps Let_def)
qed

lemma safe_skip_to_8 [safe_intros]: "safe p skip_to_8"
  by (auto simp: skip_to_8_def Let_def intro!: safe_intros)

lemma safe_unpack_contexts_from [safe_intros]: "safe p (unpack_contexts_from n i)"
  by (induction n arbitrary: i) (auto intro!: safe_intros)

section \<open>NegotiateRequest\<close>

record negotiate_request =
  ngq_security_mode :: u16
  ngq_capabilities :: u32
  ngq_client_guid :: guid
  ngq_dialects :: "dialect list"
  ngq_negotiate_contexts :: "negotiate_context list"

definition negotiate_request_STRUCTURE_SIZE :: u16 where
  "negotiate_request_STRUCTURE_SIZE = 36"

definition has_smb311 :: "negotiate_request \<Rightarrow> bool" where
  "has_smb311 r \<longleftrightarrow> Smb3_1_1 \<in> set (ngq_dialects r)"

text \<open>The zero bytes up to the next multiple of eight, counted from the header.\<close>

definition pad_from_header :: "usize \<Rightarrow> unit writer" where
  "pad_from_header start =
     bnd (offset_from_header start) (\<lambda>abs_pos.
       let remainder = abs_pos mod 8 in
       if remainder \<noteq> 0 then write_zeros (8 - remainder) else ret ())"

definition pack_negotiate_request :: "negotiate_request \<Rightarrow> unit writer" where
  "pack_negotiate_request r =
     bnd wc_position (\<lambda>start. seq [
       write_u16_le negotiate_request_STRUCTURE_SIZE,
       write_u16_le (word_of_nat (length (ngq_dialects r))),
       write_u16_le (ngq_security_mode r),
       write_u16_le 0,
       write_u32_le (ngq_capabilities r),
       pack_guid (ngq_client_guid r),
       (if has_smb311 r then
          bnd wc_position (\<lambda>ctx_offset_pos. seq [
            write_u32_le 0,
            write_u16_le (word_of_nat (length (ngq_negotiate_contexts r))),
            write_u16_le 0,
            seq (map (\<lambda>d. write_u16_le (dialect_code d)) (ngq_dialects r)),
            pad_from_header start,
            bnd (offset_from_header start) (\<lambda>ctx_offset.
              set_u32_le_at ctx_offset_pos (word_of_nat ctx_offset)),
            pack_negotiate_contexts (ngq_negotiate_contexts r)])
        else seq [
          write_u64_le 0,
          seq (map (\<lambda>d. write_u16_le (dialect_code d)) (ngq_dialects r))])])"

definition read_dialect :: "dialect reader" where
  "read_dialect =
     bnd read_u16_le (\<lambda>d.
       case dialect_try_from d of None \<Rightarrow> fail (InvalidData (BadDialect d)) | Some x \<Rightarrow> ret x)"

text \<open>\<open>if ctx_offset > current_abs { cursor.skip(ctx_offset - current_abs)? }\<close>\<close>

definition skip_to_contexts :: "usize \<Rightarrow> usize \<Rightarrow> unit reader" where
  "skip_to_contexts start ctx_offset =
     bnd position (\<lambda>p.
     bnd (lift (usub p start)) (\<lambda>d.
       let current_abs = header_SIZE + d in
       if ctx_offset > current_abs then skip (ctx_offset - current_abs) else ret ()))"

definition unpack_negotiate_request :: "negotiate_request reader" where
  "unpack_negotiate_request =
     bnd position (\<lambda>start.
     bnd (check_size negotiate_request_STRUCTURE_SIZE) (\<lambda>_.
     bnd read_u16_le (\<lambda>dialect_count.
     bnd read_u16_le (\<lambda>security_mode.
     bnd read_u16_le (\<lambda>_.
     bnd read_u32_le (\<lambda>capabilities.
     bnd unpack_guid (\<lambda>client_guid.
     bnd (read_bytes 8) (\<lambda>raw_8.
     bnd (repeat (unat dialect_count) read_dialect) (\<lambda>dialects.
     bnd (if Smb3_1_1 \<in> set dialects then
            let ctx_offset = unat (from_le_bytes (take 4 raw_8) :: u32);
                ctx_count = unat (from_le_bytes (take 2 (drop 4 raw_8)) :: u16)
            in bnd (skip_to_contexts start ctx_offset) (\<lambda>_. unpack_negotiate_contexts ctx_count)
          else ret []) (\<lambda>negotiate_contexts.
     ret \<lparr>
       ngq_security_mode = security_mode,
       ngq_capabilities = capabilities,
       ngq_client_guid = client_guid,
       ngq_dialects = dialects,
       ngq_negotiate_contexts = negotiate_contexts\<rparr>))))))))))"

definition wf_negotiate_request :: "negotiate_request \<Rightarrow> bool" where
  "wf_negotiate_request r \<longleftrightarrow>
     wf_guid (ngq_client_guid r) \<and> length (ngq_dialects r) < 65536 \<and>
     (if has_smb311 r
      then length (ngq_negotiate_contexts r) < 65536 \<and> (\<forall>ctx\<in>set (ngq_negotiate_contexts r). wf_context ctx)
      else ngq_negotiate_contexts r = [])"

definition dialects_bytes :: "dialect list \<Rightarrow> bytes" where
  "dialects_bytes ds = concat (map (\<lambda>d. to_le_bytes (dialect_code d)) ds)"

lemma length_dialects_bytes [simp]: "length (dialects_bytes ds) = 2 * length ds"
  by (induction ds) (simp_all add: dialects_bytes_def)

lemma write_dialects [wr_simps]:
  "seq (map (\<lambda>d. write_u16_le (dialect_code d)) ds) w = Ok ((), w @ dialects_bytes ds)"
  unfolding dialects_bytes_def by (rule seq_map_pack) (simp add: wr_simps)

lemma read_dialects [rd_simps]:
  "n = length ds \<Longrightarrow>
   repeat n read_dialect (cur pre (dialects_bytes ds @ post)) = Ok (ds, cur (pre @ dialects_bytes ds) post)"
  unfolding dialects_bytes_def by (rule repeat_unpack) (simp_all add: read_dialect_def rd_simps)

lemma safe_read_dialect [safe_intros]: "safe p read_dialect"
  by (auto simp: read_dialect_def intro!: safe_intros)

lemma pad_from_header_apply [wr_simps]:
  "start \<le> length w \<Longrightarrow>
   pad_from_header start w = Ok ((), w @ replicate (pad_len 8 (header_SIZE + (length w - start))) 0)"
  by (simp add: pad_from_header_def pad_len_def Let_def wr_simps)

lemma skip_to_contexts_cur [rd_simps]:
  "start \<le> length pre \<Longrightarrow> off = header_SIZE + (length pre - start) + n \<Longrightarrow>
   skip_to_contexts start off (cur pre (replicate n 0 @ post)) = Ok ((), cur (pre @ replicate n 0) post)"
  by (auto simp: skip_to_contexts_def Let_def rd_simps usub_def)

lemma safe_skip_to_contexts [safe_intros]: "start \<le> p \<Longrightarrow> safe p (skip_to_contexts start off)"
  by (auto simp: skip_to_contexts_def Let_def intro!: safe_intros)

lemma read_raw_8 [rd_simps]:
  "read_bytes 8 (cur pre (to_le_bytes (a :: u32) @ to_le_bytes (b :: u16) @ to_le_bytes (c :: u16) @ post)) =
   Ok (to_le_bytes a @ to_le_bytes b @ to_le_bytes c,
       cur (pre @ to_le_bytes a @ to_le_bytes b @ to_le_bytes c) post)"
  using read_bytes_cur [of "to_le_bytes a @ to_le_bytes b @ to_le_bytes c" 8 pre post] by simp

interpretation negotiate_request:
  exact_codec pack_negotiate_request unpack_negotiate_request wf_negotiate_request
proof unfold_locales
  show "safe 0 unpack_negotiate_request"
    by (auto simp: unpack_negotiate_request_def unpack_negotiate_contexts_def Let_def
          intro!: safe_intros)
next
  fix x :: negotiate_request and w bs post
  assume wf: "wf_negotiate_request x"
  then show "\<exists>bs. pack_negotiate_request x w = Ok ((), w @ bs)"
    by (auto simp: pack_negotiate_request_def pack_negotiate_contexts_def wf_negotiate_request_def
          wr_simps)
  assume "pack_negotiate_request x w = Ok ((), w @ bs)"
  with wf show "unpack_negotiate_request (cur w (bs @ post)) = Ok (x, cur (w @ bs) post)"
    by (auto simp: pack_negotiate_request_def unpack_negotiate_request_def
          pack_negotiate_contexts_def unpack_negotiate_contexts_def wf_negotiate_request_def
          has_smb311_def header_SIZE_def Let_def add.assoc [symmetric] wr_simps rd_simps
        simp del: of_nat_add of_nat_mult add.assoc split: if_splits)
  then show "\<exists>c. unpack_negotiate_request (cur w (bs @ post)) = Ok (x, c)" by blast
qed

section \<open>NegotiateResponse\<close>

record negotiate_response =
  ngr_security_mode :: u16
  ngr_dialect_revision :: dialect
  ngr_server_guid :: guid
  ngr_capabilities :: u32
  ngr_max_transact_size :: u32
  ngr_max_read_size :: u32
  ngr_max_write_size :: u32
  ngr_system_time :: u64
  ngr_server_start_time :: u64
  ngr_security_buffer :: bytes
  ngr_negotiate_contexts :: "negotiate_context list"

definition negotiate_response_STRUCTURE_SIZE :: u16 where
  "negotiate_response_STRUCTURE_SIZE = 65"

definition is_smb311 :: "negotiate_response \<Rightarrow> bool" where
  "is_smb311 r \<longleftrightarrow> ngr_dialect_revision r = Smb3_1_1"

definition pack_negotiate_response :: "negotiate_response \<Rightarrow> unit writer" where
  "pack_negotiate_response r =
     bnd wc_position (\<lambda>start. seq [
       write_u16_le negotiate_response_STRUCTURE_SIZE,
       write_u16_le (ngr_security_mode r),
       write_u16_le (dialect_code (ngr_dialect_revision r)),
       (if is_smb311 r then write_u16_le (word_of_nat (length (ngr_negotiate_contexts r)))
        else write_u16_le 0),
       pack_guid (ngr_server_guid r),
       write_u32_le (ngr_capabilities r),
       write_u32_le (ngr_max_transact_size r),
       write_u32_le (ngr_max_read_size r),
       write_u32_le (ngr_max_write_size r),
       write_u64_le (ngr_system_time r),
       write_u64_le (ngr_server_start_time r),
       write_u16_le (word_of_nat (header_SIZE + 64)),
       write_u16_le (word_of_nat (length (ngr_security_buffer r))),
       bnd wc_position (\<lambda>ctx_offset_pos. seq [
         write_u32_le 0,
         write_bytes (ngr_security_buffer r),
         (if is_smb311 r \<and> ngr_negotiate_contexts r \<noteq> [] then seq [
            pad_from_header start,
            bnd (offset_from_header start) (\<lambda>ctx_offset.
              set_u32_le_at ctx_offset_pos (word_of_nat ctx_offset)),
            pack_negotiate_contexts (ngr_negotiate_contexts r)]
          else ret ())])])"

definition unpack_negotiate_response :: "negotiate_response reader" where
  "unpack_negotiate_response =
     bnd position (\<lambda>start.
     bnd (check_size negotiate_response_STRUCTURE_SIZE) (\<lambda>_.
     bnd read_u16_le (\<lambda>security_mode.
     bnd read_dialect (\<lambda>dialect_revision.
     bnd read_u16_le (\<lambda>negotiate_context_count.
     bnd unpack_guid (\<lambda>server_guid.
     bnd read_u32_le (\<lambda>capabilities.
     bnd read_u32_le (\<lambda>max_transact_size.
     bnd read_u32_le (\<lambda>max_read_size.
     bnd read_u32_le (\<lambda>max_write_size.
     bnd read_u64_le (\<lambda>system_time.
     bnd read_u64_le (\<lambda>server_start_time.
     bnd read_u16_le (\<lambda>_.
     bnd read_u16_le (\<lambda>sec_buf_length.
     bnd read_u32_le (\<lambda>negotiate_context_offset.
     bnd (read_buffer (unat sec_buf_length)) (\<lambda>security_buffer.
     bnd (if dialect_revision = Smb3_1_1 \<and> unat negotiate_context_count > 0 then
            bnd (skip_to_contexts start (unat negotiate_context_offset)) (\<lambda>_.
              unpack_negotiate_contexts (unat negotiate_context_count))
          else ret []) (\<lambda>negotiate_contexts.
     ret \<lparr>
       ngr_security_mode = security_mode,
       ngr_dialect_revision = dialect_revision,
       ngr_server_guid = server_guid,
       ngr_capabilities = capabilities,
       ngr_max_transact_size = max_transact_size,
       ngr_max_read_size = max_read_size,
       ngr_max_write_size = max_write_size,
       ngr_system_time = system_time,
       ngr_server_start_time = server_start_time,
       ngr_security_buffer = security_buffer,
       ngr_negotiate_contexts = negotiate_contexts\<rparr>)))))))))))))))))"

definition wf_negotiate_response :: "negotiate_response \<Rightarrow> bool" where
  "wf_negotiate_response r \<longleftrightarrow>
     wf_guid (ngr_server_guid r) \<and> length (ngr_security_buffer r) < 65536 \<and>
     (if is_smb311 r
      then length (ngr_negotiate_contexts r) < 65536 \<and> (\<forall>ctx\<in>set (ngr_negotiate_contexts r). wf_context ctx)
      else ngr_negotiate_contexts r = [])"

lemma read_dialect_cur [rd_simps]:
  "read_dialect (cur pre (to_le_bytes (dialect_code d) @ post)) =
   Ok (d, cur (pre @ to_le_bytes (dialect_code d)) post)"
  by (simp add: read_dialect_def rd_simps)

interpretation negotiate_response:
  exact_codec pack_negotiate_response unpack_negotiate_response wf_negotiate_response
proof unfold_locales
  show "safe 0 unpack_negotiate_response"
    by (auto simp: unpack_negotiate_response_def unpack_negotiate_contexts_def Let_def
          intro!: safe_intros)
next
  fix x :: negotiate_response and w bs post
  assume wf: "wf_negotiate_response x"
  then show "\<exists>bs. pack_negotiate_response x w = Ok ((), w @ bs)"
    by (auto simp: pack_negotiate_response_def pack_negotiate_contexts_def wf_negotiate_response_def
          wr_simps)
  assume "pack_negotiate_response x w = Ok ((), w @ bs)"
  with wf show "unpack_negotiate_response (cur w (bs @ post)) = Ok (x, cur (w @ bs) post)"
    by (auto simp: pack_negotiate_response_def unpack_negotiate_response_def
          pack_negotiate_contexts_def unpack_negotiate_contexts_def wf_negotiate_response_def
          is_smb311_def header_SIZE_def Let_def add.assoc [symmetric] wr_simps rd_simps
        simp del: dialect_code.simps of_nat_add of_nat_mult add.assoc split: if_splits)
  then show "\<exists>c. unpack_negotiate_response (cur w (bs @ post)) = Ok (x, c)" by blast
qed

end
