(* ===== verification/Smb_Inner.thy ===== *)
theory Smb_Inner
  imports Smb_Frame Smb_Credits Smb_Msg_Negotiate "HOL-Library.AList" "HOL-Library.Multiset"
begin

text \<open>
  The shared state of a connection (\<open>Inner\<close> of \<open>src/client/connection.rs\<close>) and the operations
  on its waiter map and its liveness clocks. A hash map is an association list, an instant is
  a number of nanoseconds and is an argument of the operations that read the clock.

  A one-shot channel is a number. What its receiving end observes is logged in
  \<open>in_resolved\<close>: \<open>Some r\<close> when \<open>r\<close> was sent, \<open>None\<close> when the sender was dropped unused.
  Three more logs record effects on the outside: \<open>in_dropped_rx\<close> the receiving ends that are
  gone, \<open>in_acks\<close> the oplock acknowledgements handed to a task, \<open>in_wire\<close> the frames the
  transport accepted. Task handles, the reviver and its policy, the cached session, the
  round-trip estimate and the queue-depth gauge are left out.
\<close>

section \<open>State\<close>

type_synonym instant = nat
type_synonym chan = nat

record frame =
  fr_header :: header
  fr_body :: bytes
  fr_raw :: bytes

record waiter =
  wt_tx :: chan
  wt_command :: command
  wt_registered_at :: instant
  wt_sent_at :: "instant option"
  wt_last_activity :: instant
  wt_async_id :: "u64 option"

record waiter_guard =
  wg_msg_id :: message_id
  wg_rx :: chan

record crypto_state =
  cs_signing_key :: "bytes option"
  cs_signing_algorithm :: "signing_algorithm option"
  cs_should_sign :: bool
  cs_encryption_key :: "bytes option"
  cs_decryption_key :: "bytes option"
  cs_encryption_cipher :: "cipher option"
  cs_should_encrypt :: bool
  cs_nonce_gen :: "nonce_generator option"
  cs_session_id :: session_id

definition crypto_state_new :: crypto_state where
  "crypto_state_new = \<lparr>
     cs_signing_key = None,
     cs_signing_algorithm = None,
     cs_should_sign = False,
     cs_encryption_key = None,
     cs_decryption_key = None,
     cs_encryption_cipher = None,
     cs_should_encrypt = False,
     cs_nonce_gen = None,
     cs_session_id = 0\<rparr>"

record negotiated_params =
  np_dialect :: dialect
  np_max_read_size :: u32
  np_max_write_size :: u32
  np_max_transact_size :: u32
  np_server_guid :: guid
  np_signing_required :: bool
  np_capabilities :: u32
  np_gmac_negotiated :: bool
  np_cipher :: "cipher option"
  np_compression_supported :: bool

text \<open>The counters are \<open>AtomicU64\<close>: they wrap.\<close>

record metrics =
  m_requests_sent :: u64
  m_compound_requests_sent :: u64
  m_wire_bytes_sent :: u64
  m_explicit_cancels_sent :: u64
  m_responses_routed_ok :: u64
  m_responses_routed_err :: u64
  m_responses_late_after_drop :: u64
  m_responses_stray :: u64
  m_wire_bytes_received :: u64
  m_status_pending_loops :: u64
  m_unsolicited_notifications_received :: u64
  m_signature_failures :: u64
  m_decrypt_failures :: u64
  m_decompress_failures :: u64
  m_malformed_frames :: u64
  m_session_expired_events :: u64
  m_credit_waits :: u64
  m_credit_starvations :: u64
  m_response_timeouts :: u64
  m_send_failures :: u64
  m_keepalive_probes_sent :: u64
  m_keepalive_probes_skipped :: u64
  m_keepalive_failures :: u64
  m_response_deadline_extensions :: u64
  m_long_poll_refreshes :: u64
  m_scheduling_stalls :: u64
  m_reconnect_attempts :: u64
  m_reconnects_succeeded :: u64
  m_reconnects_failed :: u64
  m_requests_returned_err :: u64

definition metrics_zero :: metrics where
  "metrics_zero = \<lparr>
     m_requests_sent = 0, m_compound_requests_sent = 0, m_wire_bytes_sent = 0,
     m_explicit_cancels_sent = 0, m_responses_routed_ok = 0, m_responses_routed_err = 0,
     m_responses_late_after_drop = 0, m_responses_stray = 0, m_wire_bytes_received = 0,
     m_status_pending_loops = 0, m_unsolicited_notifications_received = 0, m_signature_failures = 0,
     m_decrypt_failures = 0, m_decompress_failures = 0, m_malformed_frames = 0,
     m_session_expired_events = 0, m_credit_waits = 0, m_credit_starvations = 0,
     m_response_timeouts = 0, m_send_failures = 0, m_keepalive_probes_sent = 0,
     m_keepalive_probes_skipped = 0, m_keepalive_failures = 0, m_response_deadline_extensions = 0,
     m_long_poll_refreshes = 0, m_scheduling_stalls = 0, m_reconnect_attempts = 0,
     m_reconnects_succeeded = 0, m_reconnects_failed = 0, m_requests_returned_err = 0\<rparr>"

record 's inner =
  in_waiters :: "(message_id \<times> waiter) list"
  in_stale_request_after :: "duration option"
  in_response_timeout :: "duration option"
  in_last_frame_at :: "instant option"
  in_last_scheduled_at :: instant
  in_keepalive_after :: "duration option"
  in_long_poll_refresh :: "duration option"
  in_credits :: "'s credit_pool"
  in_next_message_id :: u64
  in_crypto :: crypto_state
  in_disconnected :: bool
  in_abandoned :: "message_id list"
  in_send_timeout :: "duration option"
  in_previous_session_id :: u64
  in_params :: "negotiated_params option"
  in_compression_enabled :: bool
  in_compression_requested :: bool
  in_preauth_hasher :: bytes
  in_dfs_trees :: "tree_id list"
  in_oplock_trees :: "(file_id \<times> tree_id) list"
  in_metrics :: metrics
  in_next_chan :: chan
  in_dropped_rx :: "chan list"
  in_resolved :: "(chan \<times> frame res option) list"
  in_acks :: "(oplock_break \<times> tree_id) list"
  in_wire :: "bytes list"

definition MILLISECOND :: duration where "MILLISECOND = 1000000"
definition SECOND :: duration where "SECOND = 1000000000"
definition STALE_WAITER_AFTER :: duration where "STALE_WAITER_AFTER = 15 * SECOND"
definition RESPONSE_TIMEOUT :: duration where "RESPONSE_TIMEOUT = 30 * SECOND"
definition SEND_TIMEOUT :: duration where "SEND_TIMEOUT = 20 * SECOND"
definition LONG_POLL_REFRESH :: duration where "LONG_POLL_REFRESH = 600 * SECOND"
definition KEEPALIVE_AFTER :: duration where "KEEPALIVE_AFTER = 5 * SECOND"
definition LIVENESS_WINDOW_PROBES :: nat where "LIVENESS_WINDOW_PROBES = 3"
definition ALIVE_DEADLINE_FACTOR :: nat where "ALIVE_DEADLINE_FACTOR = 6"
definition ABANDONED_ID_MEMORY :: usize where "ABANDONED_ID_MEMORY = 512"

definition clamp :: "nat \<Rightarrow> nat \<Rightarrow> nat \<Rightarrow> nat" where
  "clamp lo hi x = max lo (min hi x)"

definition inner_new :: "'s sem_ops \<Rightarrow> instant \<Rightarrow> 's inner" where
  "inner_new S now = \<lparr>
     in_waiters = [],
     in_stale_request_after = Some STALE_WAITER_AFTER,
     in_response_timeout = Some RESPONSE_TIMEOUT,
     in_last_frame_at = None,
     in_last_scheduled_at = now,
     in_keepalive_after = Some KEEPALIVE_AFTER,
     in_long_poll_refresh = Some LONG_POLL_REFRESH,
     in_credits = pool_new S,
     in_next_message_id = 0,
     in_crypto = crypto_state_new,
     in_disconnected = False,
     in_abandoned = [],
     in_send_timeout = Some SEND_TIMEOUT,
     in_previous_session_id = 0,
     in_params = None,
     in_compression_enabled = False,
     in_compression_requested = True,
     in_preauth_hasher = preauth_new,
     in_dfs_trees = [],
     in_oplock_trees = [],
     in_metrics = metrics_zero,
     in_next_chan = 0,
     in_dropped_rx = [],
     in_resolved = [],
     in_acks = [],
     in_wire = []\<rparr>"

text \<open>\<open>fetch_add(1)\<close> on a counter.\<close>

definition bump :: "((u64 \<Rightarrow> u64) \<Rightarrow> metrics \<Rightarrow> metrics) \<Rightarrow> 's inner \<Rightarrow> 's inner" where
  "bump upd i = i\<lparr>in_metrics := upd (\<lambda>n. n + 1) (in_metrics i)\<rparr>"

definition unbump :: "((u64 \<Rightarrow> u64) \<Rightarrow> metrics \<Rightarrow> metrics) \<Rightarrow> 's inner \<Rightarrow> 's inner" where
  "unbump upd i = i\<lparr>in_metrics := upd (\<lambda>n. n - 1) (in_metrics i)\<rparr>"

section \<open>Waiters\<close>

definition find_waiter :: "message_id \<Rightarrow> 's inner \<Rightarrow> waiter option" where
  "find_waiter mid i = map_of (in_waiters i) mid"

definition log_chan :: "chan \<Rightarrow> frame res option \<Rightarrow> 's inner \<Rightarrow> 's inner" where
  "log_chan c r i = i\<lparr>in_resolved := (c, r) # in_resolved i\<rparr>"

text \<open>
  Overwriting or removing an entry drops the sender it held; \<open>take_waiter\<close> is the removal that
  hands the sender out.
\<close>

definition drop_sender :: "message_id \<Rightarrow> 's inner \<Rightarrow> 's inner" where
  "drop_sender mid i = (case find_waiter mid i of None \<Rightarrow> i | Some w \<Rightarrow> log_chan (wt_tx w) None i)"

definition take_waiter :: "message_id \<Rightarrow> 's inner \<Rightarrow> chan option \<times> 's inner" where
  "take_waiter mid i =
     (map_option wt_tx (find_waiter mid i), i\<lparr>in_waiters := AList.delete mid (in_waiters i)\<rparr>)"

definition remove_waiter :: "message_id \<Rightarrow> 's inner \<Rightarrow> 's inner" where
  "remove_waiter mid i = (drop_sender mid i)\<lparr>in_waiters := AList.delete mid (in_waiters i)\<rparr>"

definition new_waiter :: "instant \<Rightarrow> command \<Rightarrow> chan \<Rightarrow> waiter" where
  "new_waiter now command c = \<lparr>wt_tx = c, wt_command = command, wt_registered_at = now, wt_sent_at = None,
     wt_last_activity = now, wt_async_id = None\<rparr>"

definition register_waiter ::
    "instant \<Rightarrow> message_id \<Rightarrow> command \<Rightarrow> 's inner \<Rightarrow> (waiter_guard \<times> 's inner) res" where
  "register_waiter now msg_id command i =
     (if in_disconnected i then Err Disconnected
      else
        let c = in_next_chan i; w = new_waiter now command c
        in Ok (\<lparr>wg_msg_id = msg_id, wg_rx = c\<rparr>,
               (drop_sender msg_id i)\<lparr>
                 in_waiters := AList.update msg_id w (in_waiters i), in_next_chan := Suc c\<rparr>))"

definition guard_drop :: "waiter_guard \<Rightarrow> 's inner \<Rightarrow> 's inner" where
  "guard_drop g i =
     (let i1 = (case find_waiter (wg_msg_id g) i of
          None \<Rightarrow> i
        | Some w \<Rightarrow>
            let i1 = remove_waiter (wg_msg_id g) i;
                ab = (if length (in_abandoned i1) \<ge> ABANDONED_ID_MEMORY
                      then tl (in_abandoned i1) else in_abandoned i1)
            in i1\<lparr>in_abandoned := ab @ [wg_msg_id g]\<rparr>)
      in i1\<lparr>in_dropped_rx := wg_rx g # in_dropped_rx i1\<rparr>)"

text \<open>What \<open>recv\<close> returns once the channel of the guard is resolved; \<open>None\<close> while it waits.\<close>

definition guard_recv :: "waiter_guard \<Rightarrow> 's inner \<Rightarrow> frame res option" where
  "guard_recv g i =
     (case map_of (rev (in_resolved i)) (wg_rx g) of
        None \<Rightarrow> None
      | Some None \<Rightarrow> Some (Err Disconnected)
      | Some (Some r) \<Rightarrow> Some r)"

definition mark_sent :: "instant \<Rightarrow> message_id list \<Rightarrow> 's inner \<Rightarrow> 's inner" where
  "mark_sent now ids i =
     i\<lparr>in_waiters := foldl (\<lambda>ws mid. AList.map_entry mid
         (\<lambda>w. w\<lparr>wt_sent_at := Some now, wt_last_activity := now\<rparr>) ws) (in_waiters i) ids\<rparr>"

definition allocate_msg_id :: "u64 \<Rightarrow> 's inner \<Rightarrow> message_id \<times> 's inner" where
  "allocate_msg_id charge i =
     (in_next_message_id i,
      bump m_requests_sent_update (i\<lparr>in_next_message_id := in_next_message_id i + charge\<rparr>))"

definition async_id_for :: "message_id \<Rightarrow> 's inner \<Rightarrow> u64 option" where
  "async_id_for mid i = (case find_waiter mid i of None \<Rightarrow> None | Some w \<Rightarrow> wt_async_id w)"

fun clone_err_for_waiters :: "error \<Rightarrow> error" where
  "clone_err_for_waiters (ServerUnresponsive d) = ServerUnresponsive d"
| "clone_err_for_waiters _ = Disconnected"

definition fan_error_to_waiters :: "'s sem_ops \<Rightarrow> error \<Rightarrow> 's inner \<Rightarrow> 's inner" where
  "fan_error_to_waiters S e i =
     (let drained = in_waiters i;
          i1 = i\<lparr>in_waiters := [], in_disconnected := True, in_credits := pool_close S (in_credits i)\<rparr>
      in fold (\<lambda>(_, w) j. log_chan (wt_tx w) (Some (Err (clone_err_for_waiters e))) j) drained i1)"

section \<open>Clocks\<close>

text \<open>Subtraction of instants is \<open>saturating_duration_since\<close>, which is subtraction of naturals.\<close>

definition note_server_spoke :: "instant \<Rightarrow> 's inner \<Rightarrow> 's inner" where
  "note_server_spoke now i = i\<lparr>in_last_frame_at := Some now\<rparr>"

definition server_silent_for :: "instant \<Rightarrow> 's inner \<Rightarrow> duration option" where
  "server_silent_for now i = map_option (\<lambda>t. now - t) (in_last_frame_at i)"

definition sent_instants :: "'s inner \<Rightarrow> instant list" where
  "sent_instants i = List.map_filter (wt_sent_at \<circ> snd) (in_waiters i)"

definition quiet_for :: "instant \<Rightarrow> 's inner \<Rightarrow> duration option" where
  "quiet_for now i =
     (case sent_instants i of
        [] \<Rightarrow> None
      | t # ts \<Rightarrow>
          let oldest_sent = fold min ts t;
              reference = (case in_last_frame_at i of Some spoke \<Rightarrow> max spoke oldest_sent | None \<Rightarrow> oldest_sent)
          in Some (now - reference))"

definition keepalive_tick :: "duration \<Rightarrow> duration" where
  "keepalive_tick after = clamp (25 * MILLISECOND) SECOND (after div 5)"

definition forgive_scheduling_stall :: "instant \<Rightarrow> 's inner \<Rightarrow> duration option \<times> 's inner" where
  "forgive_scheduling_stall now i =
     (let after = (case in_keepalive_after i of Some a \<Rightarrow> a | None \<Rightarrow> KEEPALIVE_AFTER);
          gap = (now - in_last_scheduled_at i) - keepalive_tick after;
          i1 = i\<lparr>in_last_scheduled_at := now\<rparr>
      in if gap \<ge> after then
           (Some gap, bump m_scheduling_stalls_update (i1\<lparr>
              in_last_frame_at := map_option (\<lambda>t. t + gap) (in_last_frame_at i1),
              in_waiters := map (\<lambda>(mid, w). (mid, w\<lparr>
                wt_registered_at := wt_registered_at w + gap,
                wt_last_activity := wt_last_activity w + gap,
                wt_sent_at := map_option (\<lambda>t. t + gap) (wt_sent_at w)\<rparr>)) (in_waiters i1)\<rparr>))
         else (None, i1))"

definition liveness_is_proven :: "instant \<Rightarrow> 's inner \<Rightarrow> bool" where
  "liveness_is_proven now i =
     (case in_keepalive_after i of
        None \<Rightarrow> False
      | Some after \<Rightarrow>
          (case server_silent_for now i of
             Some silent \<Rightarrow> silent < after * LIVENESS_WINDOW_PROBES
           | None \<Rightarrow> False))"

definition unresponsive_for :: "instant \<Rightarrow> 's inner \<Rightarrow> duration option" where
  "unresponsive_for now i =
     (case in_keepalive_after i of
        None \<Rightarrow> None
      | Some after \<Rightarrow>
          (case quiet_for now i of
             None \<Rightarrow> None
           | Some quiet \<Rightarrow> if quiet \<ge> after * LIVENESS_WINDOW_PROBES then Some quiet else None))"

definition waiter_sent_age :: "instant \<Rightarrow> message_id \<Rightarrow> 's inner \<Rightarrow> duration option" where
  "waiter_sent_age now mid i =
     (case find_waiter mid i of None \<Rightarrow> None | Some w \<Rightarrow> map_option (\<lambda>t. now - t) (wt_sent_at w))"

definition waiter_idle_for :: "instant \<Rightarrow> message_id \<Rightarrow> 's inner \<Rightarrow> duration option" where
  "waiter_idle_for now mid i = map_option (\<lambda>w. now - wt_last_activity w) (find_waiter mid i)"

definition is_long_poll :: "command \<Rightarrow> bool" where
  "is_long_poll c \<longleftrightarrow> c = ChangeNotify"

definition classify_outstanding ::
    "instant \<Rightarrow> duration \<Rightarrow> 's inner \<Rightarrow>
     (message_id \<times> command \<times> duration \<times> duration option) list \<times> (message_id \<times> command \<times> duration) list" where
  "classify_outstanding now threshold i =
     (map (\<lambda>(m, w). (m, wt_command w, now - wt_registered_at w, map_option (\<lambda>t. now - t) (wt_sent_at w)))
        (filter (\<lambda>(m, w). \<not> is_long_poll (wt_command w) \<and> threshold \<le> now - wt_registered_at w) (in_waiters i)),
      map (\<lambda>(m, w). (m, wt_command w, now - wt_registered_at w))
        (filter (\<lambda>(m, w). is_long_poll (wt_command w)) (in_waiters i)))"

definition declare_unresponsive :: "'s sem_ops \<Rightarrow> duration \<Rightarrow> 's inner \<Rightarrow> error \<times> 's inner" where
  "declare_unresponsive S silent_for i =
     (ServerUnresponsive silent_for, fan_error_to_waiters S (ServerUnresponsive silent_for) i)"

section \<open>Deadlines\<close>

text \<open>
  What a wait loop does when its tick elapses before the response arrives: the body of the
  \<open>Either::Right\<close> branch of \<open>await_response\<close>, and of \<open>await_long_poll\<close> after its \<open>timeout\<close>.
  The instants read during one tick are one \<open>now\<close>. The guard a returning loop still owns is
  dropped by its caller's step, except where the code drops it itself (\<open>RefreshDue\<close>).
\<close>

datatype tick_outcome =
    KeepWaiting
  | GiveUp error
  | AnsweredLate "frame res"
  | RefreshDue message_id "u64 option"

definition await_tick ::
    "'s sem_ops \<Rightarrow> duration \<Rightarrow> instant \<Rightarrow> message_id \<Rightarrow> bool \<Rightarrow> 's inner \<Rightarrow> tick_outcome \<times> bool \<times> 's inner" where
  "await_tick S timeout now msg_id extended i =
     (let alive_ceiling = timeout * ALIVE_DEADLINE_FACTOR;
          i1 = snd (forgive_scheduling_stall now i)
      in case waiter_idle_for now msg_id i1 of
           None \<Rightarrow> (KeepWaiting, extended, i1)
         | Some idle \<Rightarrow>
             if idle < timeout then (KeepWaiting, extended, i1)
             else if idle < alive_ceiling \<and> liveness_is_proven now i1 then
               (KeepWaiting, True,
                if extended then i1 else bump m_response_deadline_extensions_update i1)
             else
               let verdict = unresponsive_for now i1;
                   i2 = bump m_response_timeouts_update (remove_waiter msg_id i1)
               in case verdict of
                    Some silent_for \<Rightarrow>
                      let (e, i3) = declare_unresponsive S silent_for i2 in (GiveUp e, extended, i3)
                  | None \<Rightarrow> (GiveUp Timeout, extended, i2))"

definition long_poll_tick ::
    "'s sem_ops \<Rightarrow> waiter_guard \<Rightarrow> duration option \<Rightarrow> duration option \<Rightarrow> instant \<Rightarrow> 's inner \<Rightarrow>
     tick_outcome \<times> 's inner" where
  "long_poll_tick S g budget refresh now i =
     (let msg_id = wg_msg_id g;
          i1 = snd (forgive_scheduling_stall now i)
      in if waiter_idle_for now msg_id i1 = None then (KeepWaiting, i1)
         else case (case budget of None \<Rightarrow> None
                    | Some b \<Rightarrow> (case unresponsive_for now i1 of None \<Rightarrow> None
                                 | Some q \<Rightarrow> if b \<le> q then Some q else None)) of
           Some quiet \<Rightarrow>
             let (e, i2) = declare_unresponsive S quiet
                   (bump m_response_timeouts_update (remove_waiter msg_id i1))
             in (GiveUp e, i2)
         | None \<Rightarrow>
             (case (case refresh of None \<Rightarrow> None
                    | Some r \<Rightarrow> (case waiter_sent_age now msg_id i1 of None \<Rightarrow> None
                                 | Some age \<Rightarrow> if r \<le> age then Some age else None)) of
                None \<Rightarrow> (KeepWaiting, i1)
              | Some registered_for \<Rightarrow>
                  (case guard_recv g i1 of
                     Some r \<Rightarrow> (AnsweredLate r, i1)
                   | None \<Rightarrow>
                       (RefreshDue msg_id (async_id_for msg_id i1),
                        bump m_long_poll_refreshes_update (guard_drop g i1)))))"

section \<open>Channels\<close>

text \<open>
  The channels handed out so far are the ones in the waiter map together with the resolved
  ones, and no channel is both or is resolved twice. So a caller holding a receiver either
  still has its entry in the map or hears exactly one answer.
\<close>

definition live :: "(message_id \<times> waiter) list \<Rightarrow> chan list" where
  "live ws = map (wt_tx \<circ> snd) ws"

definition chan_ok :: "'s inner \<Rightarrow> bool" where
  "chan_ok i \<longleftrightarrow>
     distinct (map fst (in_waiters i)) \<and>
     distinct (live (in_waiters i) @ map fst (in_resolved i)) \<and>
     set (live (in_waiters i)) \<union> fst ` set (in_resolved i) = {..<in_next_chan i}"

text \<open>The teardown flag is set under the lock that empties the map.\<close>

definition gate_ok :: "'s inner \<Rightarrow> bool" where
  "gate_ok i \<longleftrightarrow> (in_disconnected i \<longrightarrow> in_waiters i = []) \<and> length (in_abandoned i) \<le> ABANDONED_ID_MEMORY"

lemma log_chan_simps [simp]:
  "in_waiters (log_chan c r i) = in_waiters i"
  "in_resolved (log_chan c r i) = (c, r) # in_resolved i"
  "in_next_chan (log_chan c r i) = in_next_chan i"
  "in_disconnected (log_chan c r i) = in_disconnected i"
  "in_abandoned (log_chan c r i) = in_abandoned i"
  "in_credits (log_chan c r i) = in_credits i"
  "in_next_message_id (log_chan c r i) = in_next_message_id i"
  "in_dropped_rx (log_chan c r i) = in_dropped_rx i"
  "in_crypto (log_chan c r i) = in_crypto i"
  "in_metrics (log_chan c r i) = in_metrics i"
  by (simp_all add: log_chan_def)

lemma bump_simps [simp]:
  "in_waiters (bump f i) = in_waiters i"
  "in_resolved (bump f i) = in_resolved i"
  "in_next_chan (bump f i) = in_next_chan i"
  "in_disconnected (bump f i) = in_disconnected i"
  "in_abandoned (bump f i) = in_abandoned i"
  "in_credits (bump f i) = in_credits i"
  "in_next_message_id (bump f i) = in_next_message_id i"
  "in_dropped_rx (bump f i) = in_dropped_rx i"
  "in_crypto (bump f i) = in_crypto i"
  "in_metrics (bump f i) = f (\<lambda>n. n + 1) (in_metrics i)"
  "in_waiters (unbump f i) = in_waiters i"
  "in_resolved (unbump f i) = in_resolved i"
  "in_next_chan (unbump f i) = in_next_chan i"
  "in_disconnected (unbump f i) = in_disconnected i"
  "in_abandoned (unbump f i) = in_abandoned i"
  "in_credits (unbump f i) = in_credits i"
  "in_next_message_id (unbump f i) = in_next_message_id i"
  "in_metrics (unbump f i) = f (\<lambda>n. n - 1) (in_metrics i)"
  by (simp_all add: bump_def unbump_def)

lemma find_waiter_log_bump [simp]:
  "find_waiter m (log_chan c r i) = find_waiter m i"
  "find_waiter m (bump f i) = find_waiter m i"
  by (simp_all add: find_waiter_def)

lemma drop_sender_simps [simp]:
  "in_waiters (drop_sender m i) = in_waiters i"
  "in_next_chan (drop_sender m i) = in_next_chan i"
  "in_disconnected (drop_sender m i) = in_disconnected i"
  "in_abandoned (drop_sender m i) = in_abandoned i"
  "in_credits (drop_sender m i) = in_credits i"
  "in_next_message_id (drop_sender m i) = in_next_message_id i"
  "in_metrics (drop_sender m i) = in_metrics i"
  by (simp_all add: drop_sender_def split: option.splits)

lemma remove_waiter_simps [simp]:
  "in_waiters (remove_waiter m i) = AList.delete m (in_waiters i)"
  "in_next_chan (remove_waiter m i) = in_next_chan i"
  "in_disconnected (remove_waiter m i) = in_disconnected i"
  "in_abandoned (remove_waiter m i) = in_abandoned i"
  "in_credits (remove_waiter m i) = in_credits i"
  "in_next_message_id (remove_waiter m i) = in_next_message_id i"
  "in_metrics (remove_waiter m i) = in_metrics i"
  by (simp_all add: remove_waiter_def)

lemma find_waiter_remove [simp]: "find_waiter m (remove_waiter m' i) = (if m = m' then None else find_waiter m i)"
  by (simp add: find_waiter_def AList.delete_conv')

text \<open>The invariant reads the waiters as a bag.\<close>

lemma mset_delete:
  "distinct (map fst ws) \<Longrightarrow> map_of ws m = Some w \<Longrightarrow> mset ws = add_mset (m, w) (mset (AList.delete m ws))"
proof (induction ws)
  case (Cons a ws)
  then show ?case by (cases a) (auto simp: delete_idem)
qed simp

lemma mset_update:
  "distinct (map fst ws) \<Longrightarrow> mset (AList.update m w ws) = add_mset (m, w) (mset (AList.delete m ws))"
proof (induction ws)
  case (Cons a ws)
  then show ?case by (cases a) (auto simp: delete_idem)
qed simp

lemma delete_absent: "map_of ws m = None \<Longrightarrow> AList.delete m ws = ws"
  by (simp add: delete_idem map_of_eq_None_iff)

lemma find_waiter_absent: "find_waiter m i = None \<Longrightarrow> AList.delete m (in_waiters i) = in_waiters i"
  unfolding find_waiter_def by (rule delete_absent)

lemma chan_ok_mset:
  fixes i j :: "'s inner"
  assumes "mset (in_waiters i) = mset ws" "in_resolved j = in_resolved i"
    "in_next_chan j = in_next_chan i" "in_waiters j = ws"
  shows "chan_ok j = chan_ok i"
proof -
  have f: "mset (map fst ws) = mset (map fst (in_waiters i))" using assms(1) by simp
  have l: "mset (live ws) = mset (live (in_waiters i))" using assms(1) by (simp add: live_def)
  then have a: "mset (live ws @ map fst (in_resolved i)) = mset (live (in_waiters i) @ map fst (in_resolved i))"
    by simp
  show ?thesis
    using mset_eq_imp_distinct_iff [OF f] mset_eq_imp_distinct_iff [OF a] mset_eq_setD [OF l] assms(2-4)
    by (simp only: chan_ok_def)
qed

lemma chan_ok_resolve:
  assumes "chan_ok i" "find_waiter m i = Some w"
    "in_waiters j = AList.delete m (in_waiters i)"
    "in_resolved j = (wt_tx w, r) # in_resolved i" "in_next_chan j = in_next_chan i"
  shows "chan_ok j"
proof -
  let ?d = "AList.delete m (in_waiters i)"
  have "mset (in_waiters i) = mset ((m, w) # ?d)"
    using assms(1,2) mset_delete [of "in_waiters i" m w] by (simp add: chan_ok_def find_waiter_def del: map_of_eq_Some_iff)
  then have "chan_ok (i\<lparr>in_waiters := (m, w) # ?d\<rparr>)"
    using assms(1) chan_ok_mset [of i "(m, w) # ?d"] by simp
  with assms(3-5) show ?thesis by (auto simp: chan_ok_def live_def)
qed

lemma remove_waiter_chan_ok [intro]:
  assumes "chan_ok i"
  shows "chan_ok (remove_waiter m i)"
proof (cases "find_waiter m i")
  case None
  with assms show ?thesis
    by (simp add: remove_waiter_def drop_sender_def find_waiter_absent)
next
  case (Some w)
  show ?thesis
    by (rule chan_ok_resolve [OF assms Some, where r = None]) (simp_all add: remove_waiter_def drop_sender_def Some)
qed

lemma chan_ok_same:
  fixes i j :: "'s inner"
  shows "chan_ok i \<Longrightarrow> map fst (in_waiters j) = map fst (in_waiters i) \<Longrightarrow> live (in_waiters j) = live (in_waiters i) \<Longrightarrow>
   in_resolved j = in_resolved i \<Longrightarrow> in_next_chan j = in_next_chan i \<Longrightarrow> chan_ok j"
  by (simp add: chan_ok_def)

lemma chan_ok_simps [simp]:
  "chan_ok (i\<lparr>in_abandoned := ab\<rparr>) = chan_ok i"
  "chan_ok (i\<lparr>in_dropped_rx := rx\<rparr>) = chan_ok i"
  "chan_ok (i\<lparr>in_credits := p\<rparr>) = chan_ok i"
  "chan_ok (i\<lparr>in_next_message_id := n\<rparr>) = chan_ok i"
  "chan_ok (i\<lparr>in_last_frame_at := t\<rparr>) = chan_ok i"
  "chan_ok (i\<lparr>in_disconnected := d\<rparr>) = chan_ok i"
  "chan_ok (bump f i) = chan_ok i"
  "chan_ok (unbump f i) = chan_ok i"
  by (simp_all add: chan_ok_def)

lemma guard_drop_chan_ok [intro]: "chan_ok i \<Longrightarrow> chan_ok (guard_drop g i)"
  by (simp add: guard_drop_def Let_def remove_waiter_chan_ok split: option.splits)

lemma register_waiter_eq:
  assumes "register_waiter now m c i = Ok (g, j)"
  shows "\<not> in_disconnected i" "g = \<lparr>wg_msg_id = m, wg_rx = in_next_chan i\<rparr>"
    "j = (drop_sender m i)\<lparr>in_waiters := AList.update m (new_waiter now c (in_next_chan i)) (in_waiters i),
       in_next_chan := Suc (in_next_chan i)\<rparr>"
  using assms by (simp_all add: register_waiter_def Let_def split: if_splits)

lemma register_waiter_chan_ok:
  assumes "chan_ok i" "register_waiter now m c i = Ok (g, j)"
  shows "chan_ok j"
proof -
  let ?r = "remove_waiter m i" and ?w = "new_waiter now c (in_next_chan i)"
  let ?k = "?r\<lparr>in_waiters := (m, ?w) # AList.delete m (in_waiters i), in_next_chan := Suc (in_next_chan i)\<rparr>"
  have r: "chan_ok ?r" using assms(1) by auto
  have nin: "in_next_chan i \<notin> set (live (AList.delete m (in_waiters i))) \<union> fst ` set (in_resolved ?r)"
    using r by (simp add: chan_ok_def)
  have k: "chan_ok ?k"
    using r nin AList.delete_notin_dom [of m "in_waiters i"]
    by (simp add: chan_ok_def live_def lessThan_Suc new_waiter_def)
  have "mset (in_waiters ?k) = mset (AList.update m ?w (in_waiters i))"
    using assms(1) by (simp add: chan_ok_def mset_update)
  then have "chan_ok j = chan_ok ?k" by (rule chan_ok_mset)
    (simp_all add: register_waiter_eq(3) [OF assms(2)] remove_waiter_def)
  with k show "chan_ok j" by simp
qed

lemma register_waiter_find:
  "register_waiter now m c i = Ok (g, j) \<Longrightarrow> find_waiter m j = Some (new_waiter now c (wg_rx g)) \<and> wg_msg_id g = m"
  using register_waiter_eq [of now m c i g j] by (simp add: find_waiter_def update_conv')

lemma map_entry_shape:
  assumes "\<And>w. wt_tx (f w) = wt_tx w"
  shows "map fst (AList.map_entry m f ws) = map fst ws" "live (AList.map_entry m f ws) = live ws"
  using assms by (induction ws) (auto simp: live_def)

lemma mark_sent_shape:
  "map fst (in_waiters (mark_sent now ms i)) = map fst (in_waiters i)"
  "live (in_waiters (mark_sent now ms i)) = live (in_waiters i)"
proof -
  have "map fst (foldl (\<lambda>ws m. AList.map_entry m (\<lambda>w. w\<lparr>wt_sent_at := Some now, wt_last_activity := now\<rparr>) ws) ws ms) = map fst ws \<and>
    live (foldl (\<lambda>ws m. AList.map_entry m (\<lambda>w. w\<lparr>wt_sent_at := Some now, wt_last_activity := now\<rparr>) ws) ws ms) = live ws" for ws
    by (induction ms arbitrary: ws) (simp_all add: map_entry_shape)
  then show "map fst (in_waiters (mark_sent now ms i)) = map fst (in_waiters i)"
    "live (in_waiters (mark_sent now ms i)) = live (in_waiters i)"
    by (simp_all add: mark_sent_def)
qed

lemma mark_sent_chan_ok [intro]: "chan_ok i \<Longrightarrow> chan_ok (mark_sent now ms i)"
  by (rule chan_ok_same [of i]) (simp_all add: mark_sent_shape, simp_all add: mark_sent_def)

lemma allocate_msg_id_chan_ok [intro]: "chan_ok i \<Longrightarrow> chan_ok (snd (allocate_msg_id n i))"
  by (simp add: allocate_msg_id_def)

lemma forgive_chan_ok [intro]: "chan_ok i \<Longrightarrow> chan_ok (snd (forgive_scheduling_stall now i))"
  by (rule chan_ok_same [of i])
    (auto simp: forgive_scheduling_stall_def Let_def live_def split_def comp_def)

lemma fold_log_waiters:
  fixes i :: "'s inner" and r :: "waiter \<Rightarrow> frame res option"
  defines "go \<equiv> fold (\<lambda>(_, w) j. log_chan (wt_tx w) (r w) j)"
  shows "in_waiters (go ws i) = in_waiters i" "in_next_chan (go ws i) = in_next_chan i"
    "in_resolved (go ws i) = rev (map (\<lambda>(_, w). (wt_tx w, r w)) ws) @ in_resolved i"
    "in_disconnected (go ws i) = in_disconnected i" "in_abandoned (go ws i) = in_abandoned i"
    "in_credits (go ws i) = in_credits i" "in_metrics (go ws i) = in_metrics i"
    "in_next_message_id (go ws i) = in_next_message_id i" "in_crypto (go ws i) = in_crypto i"
    "in_dropped_rx (go ws i) = in_dropped_rx i"
  unfolding go_def by (induction ws arbitrary: i) auto

lemma fan_error_simps [simp]:
  "in_waiters (fan_error_to_waiters S e i) = []"
  "in_next_chan (fan_error_to_waiters S e i) = in_next_chan i"
  "in_disconnected (fan_error_to_waiters S e i)"
  "in_abandoned (fan_error_to_waiters S e i) = in_abandoned i"
  "in_credits (fan_error_to_waiters S e i) = pool_close S (in_credits i)"
  "in_metrics (fan_error_to_waiters S e i) = in_metrics i"
  "in_next_message_id (fan_error_to_waiters S e i) = in_next_message_id i"
  "in_crypto (fan_error_to_waiters S e i) = in_crypto i"
  "in_resolved (fan_error_to_waiters S e i) =
     rev (map (\<lambda>(_, w). (wt_tx w, Some (Err (clone_err_for_waiters e)))) (in_waiters i)) @ in_resolved i"
  by (simp_all add: fan_error_to_waiters_def Let_def fold_log_waiters)

lemma fan_error_chan_ok [intro]: "chan_ok i \<Longrightarrow> chan_ok (fan_error_to_waiters S e i)"
  by (simp add: chan_ok_def live_def rev_map [symmetric] split_def comp_def image_image image_Un)

lemma guard_drop_simps [simp]:
  "in_waiters (guard_drop g i) = AList.delete (wg_msg_id g) (in_waiters i)"
  "in_disconnected (guard_drop g i) = in_disconnected i"
  "in_next_chan (guard_drop g i) = in_next_chan i"
  "in_next_message_id (guard_drop g i) = in_next_message_id i"
  "in_credits (guard_drop g i) = in_credits i"
  by (cases "find_waiter (wg_msg_id g) i"; simp add: guard_drop_def Let_def find_waiter_absent)+

lemma guard_drop_abandoned:
  "length (in_abandoned i) \<le> ABANDONED_ID_MEMORY \<Longrightarrow> length (in_abandoned (guard_drop g i)) \<le> ABANDONED_ID_MEMORY"
  by (cases "find_waiter (wg_msg_id g) i") (simp_all add: guard_drop_def Let_def ABANDONED_ID_MEMORY_def)

lemma register_waiter_Ok:
  assumes "register_waiter now m c i = Ok (g, j)"
  shows "\<not> in_disconnected i" "in_disconnected j = in_disconnected i" "in_abandoned j = in_abandoned i"
    "in_next_message_id j = in_next_message_id i" "in_credits j = in_credits i"
    "set (map fst (in_waiters j)) = insert m (set (map fst (in_waiters i)))"
  using register_waiter_eq [OF assms] by (simp_all add: dom_update)

lemma gate_ok_intros [intro]:
  "gate_ok i \<Longrightarrow> gate_ok (remove_waiter m i)"
  "gate_ok i \<Longrightarrow> gate_ok (guard_drop g i)"
  "gate_ok i \<Longrightarrow> gate_ok (mark_sent now ms i)"
  "gate_ok i \<Longrightarrow> gate_ok (snd (allocate_msg_id n i))"
  "gate_ok i \<Longrightarrow> gate_ok (snd (forgive_scheduling_stall now i))"
  "gate_ok i \<Longrightarrow> gate_ok (fan_error_to_waiters S e i)"
  using mark_sent_shape(1) [of now ms i]
  by (simp_all add: gate_ok_def guard_drop_abandoned allocate_msg_id_def forgive_scheduling_stall_def Let_def)
    (auto simp: mark_sent_def)

lemma register_waiter_gate_ok: "gate_ok i \<Longrightarrow> register_waiter now m c i = Ok (g, j) \<Longrightarrow> gate_ok j"
  using register_waiter_Ok(1-3) [of now m c i g j] by (simp add: gate_ok_def)

section \<open>What the receiver of a channel observes\<close>

lemma guard_recv_resolved:
  assumes "chan_ok i" "(wg_rx g, r) \<in> set (in_resolved i)"
  shows "guard_recv g i = Some (case r of None \<Rightarrow> Err Disconnected | Some x \<Rightarrow> x)"
proof -
  have "distinct (map fst (rev (in_resolved i)))" using assms(1) by (simp add: chan_ok_def rev_map [symmetric])
  then have "map_of (rev (in_resolved i)) (wg_rx g) = Some r" using assms(2) by (simp add: map_of_eq_Some_iff)
  then show ?thesis by (simp add: guard_recv_def split: option.splits)
qed

text \<open>After a teardown no receiver is left waiting: every channel handed out has an answer.\<close>

lemma disconnected_all_resolved:
  assumes "chan_ok i" "gate_ok i" "in_disconnected i" "wg_rx g < in_next_chan i"
  shows "guard_recv g i \<noteq> None"
proof -
  have "wg_rx g \<in> fst ` set (in_resolved i)" using assms by (auto simp: chan_ok_def gate_ok_def live_def)
  then obtain r where "(wg_rx g, r) \<in> set (in_resolved i)" by force
  with assms(1) show ?thesis by (simp add: guard_recv_resolved)
qed

section \<open>Liveness verdicts\<close>

text \<open>
  The two readings of the clock are complementary: a connection that is provably alive is
  never convicted, and a convicted one had a request on the wire for the whole window.
\<close>

lemma fold_min_mem: "fold min ts t \<in> set (t # ts)" for t :: nat
proof (induction ts arbitrary: t)
  case (Cons a ts)
  from Cons [of "min a t"] show ?case by (auto simp: min_def split: if_splits)
qed simp

lemma quiet_for_bounds:
  assumes "quiet_for now i = Some q"
  shows "in_last_frame_at i = Some t \<Longrightarrow> q \<le> now - t"
    and "\<exists>s \<in> set (sent_instants i). q \<le> now - s"
proof -
  obtain s ts where c: "sent_instants i = s # ts" using assms by (auto simp: quiet_for_def split: list.splits)
  let ?o = "fold min ts s"
  have "?o \<in> set (sent_instants i)" by (simp only: c fold_min_mem)
  moreover have q: "q = now - (case in_last_frame_at i of Some t \<Rightarrow> max t ?o | None \<Rightarrow> ?o)"
    using assms c by (simp add: quiet_for_def Let_def)
  then have "q \<le> now - ?o" by (simp add: diff_le_mono2 split: option.splits)
  ultimately show "\<exists>s \<in> set (sent_instants i). q \<le> now - s" by blast
  show "in_last_frame_at i = Some t \<Longrightarrow> q \<le> now - t" using q by (simp add: diff_le_mono2)
qed

lemma unresponsive_not_alive:
  assumes "unresponsive_for now i = Some q"
  shows "\<not> liveness_is_proven now i"
proof -
  obtain after where a: "in_keepalive_after i = Some after" and q: "quiet_for now i = Some q"
    and w: "after * LIVENESS_WINDOW_PROBES \<le> q"
    using assms by (auto simp: unresponsive_for_def split: option.splits if_splits)
  show ?thesis
    using quiet_for_bounds(1) [OF q] a w
    by (auto simp: liveness_is_proven_def server_silent_for_def split: option.splits)
qed

end
