(* ===== verification/Smb_Receive.thy ===== *)
theory Smb_Receive
  imports Smb_Inner Smb_Msg_File
begin

text \<open>
  The receive path of \<open>src/client/connection.rs\<close>: what \<open>receiver_loop\<close> does with one frame of the
  transport, from decryption to the routing of every sub-response, and the teardown that
  ends the loop. Time of receipt is the argument \<open>now\<close>.
\<close>

section \<open>Definitions\<close>

datatype sub_frame_action =
    Route message_id "frame res"
  | Skip
  | AckOplockBreak oplock_break tree_id

definition decrypt_frame :: "crypto_prims \<Rightarrow> bytes \<Rightarrow> 's inner \<Rightarrow> bytes res" where
  "decrypt_frame K data i =
     (case cs_decryption_key (in_crypto i) of
        None \<Rightarrow> Err (InvalidData (Malformed ''received encrypted message but no decryption key'' []))
      | Some dec_key \<Rightarrow>
          (case cs_encryption_cipher (in_crypto i) of
             None \<Rightarrow> Err (InvalidData (Malformed ''received encrypted message but no cipher'' []))
           | Some cipher \<Rightarrow>
               if length data < transform_header_SIZE then
                 Err (InvalidData (Malformed ''encrypted message too short for TransformHeader'' []))
               else decrypt_message K (take transform_header_SIZE data) (drop transform_header_SIZE data)
                      dec_key cipher))"

text \<open>An interim response restarts the waiter's clock and may carry its \<open>AsyncId\<close>.\<close>

definition note_pending :: "instant \<Rightarrow> header \<Rightarrow> 's inner \<Rightarrow> 's inner" where
  "note_pending now h i = i\<lparr>in_waiters := AList.map_entry (hdr_message_id h)
     (\<lambda>w. let w1 = w\<lparr>wt_last_activity := now\<rparr> in
          case hdr_async_id h of Some a \<Rightarrow> w1\<lparr>wt_async_id := Some a\<rparr> | None \<Rightarrow> w1) (in_waiters i)\<rparr>"

text \<open>The signature check of \<open>prepare_sub_frame\<close>: \<open>Ok None\<close> when there is nothing to report.\<close>

definition check_signature ::
    "crypto_prims \<Rightarrow> bytes \<Rightarrow> bool \<Rightarrow> header \<Rightarrow> crypto_state \<Rightarrow> error option res" where
  "check_signature K sub was_encrypted h c =
     (if cs_should_sign c \<and> \<not> was_encrypted \<and> length sub \<ge> header_SIZE then
        result_bind (slice sub 16 20) (\<lambda>fb.
        result_bind (slice sub 8 12) (\<lambda>sb.
        let flags = (from_le_bytes fb :: u32);
            is_signed = (flags AND HF_SIGNED \<noteq> 0);
            status = (from_le_bytes sb :: u32);
            pending = (status = STATUS_PENDING)
        in if is_signed \<and> \<not> pending then
             (case (cs_signing_key c, cs_signing_algorithm c) of
                (Some key, Some algo) \<Rightarrow>
                  (case verify_signature K sub key algo (hdr_message_id h) (hdr_command h = Cancel) of
                     Ok _ \<Rightarrow> Ok None | Err e \<Rightarrow> Ok (Some e) | Panic \<Rightarrow> Panic)
              | _ \<Rightarrow> Ok None)
           else Ok None))
      else Ok None)"

text \<open>The branch for \<open>MessageId::UNSOLICITED\<close>: an oplock break on a handle of ours, or nothing.\<close>

definition prepare_unsolicited :: "bytes \<Rightarrow> header \<Rightarrow> 's inner \<Rightarrow> (sub_frame_action \<times> 's inner) res" where
  "prepare_unsolicited sub h i =
     (let i1 = bump m_unsolicited_notifications_received_update i in
      if hdr_command h = OplockBreak then
        result_bind (slice sub header_SIZE (length sub)) (\<lambda>body.
        (case run_reader unpack_oplock_break body of
           Panic \<Rightarrow> Panic
         | Err _ \<Rightarrow> Ok (Skip, i1)
         | Ok brk \<Rightarrow>
             (case map_of (in_oplock_trees i1) (ob_file_id brk) of
                Some tree \<Rightarrow> Ok (AckOplockBreak brk tree, i1)
              | None \<Rightarrow> Ok (Skip, i1))))
      else Ok (Skip, i1))"

text \<open>The end of the function: the response itself, or the error its waiter gets instead.\<close>

definition prepare_response :: "bytes \<Rightarrow> header \<Rightarrow> error option \<Rightarrow> 's inner \<Rightarrow> sub_frame_action \<times> 's inner" where
  "prepare_response sub h bad i =
     (case bad of
        Some e \<Rightarrow> (Route (hdr_message_id h) (Err e), bump m_signature_failures_update i)
      | None \<Rightarrow>
          if hdr_status h = STATUS_NETWORK_SESSION_EXPIRED then
            (Route (hdr_message_id h) (Err SessionExpired), bump m_session_expired_events_update i)
          else
            (Route (hdr_message_id h)
               (Ok \<lparr>fr_header = h, fr_body = (if length sub > header_SIZE then drop header_SIZE sub else []),
                    fr_raw = sub\<rparr>), i))"

definition prepare_sub_frame ::
    "crypto_prims \<Rightarrow> 's sem_ops \<Rightarrow> instant \<Rightarrow> bytes \<Rightarrow> bool \<Rightarrow> 's inner \<Rightarrow> (sub_frame_action \<times> 's inner) res" where
  "prepare_sub_frame K S now sub was_encrypted i =
     (case run_reader unpack_header sub of
        Panic \<Rightarrow> Panic
      | Err e \<Rightarrow> Err (InvalidData (Malformed ''sub-frame header parse failed'' []))
      | Ok h \<Rightarrow>
        result_bind (pool_grant S (hdr_credits h) (in_credits i)) (\<lambda>pool.
        let i1 = i\<lparr>in_credits := pool\<rparr> in
        if hdr_message_id h = UNSOLICITED then prepare_unsolicited sub h i1
        else if is_pending (hdr_status h) then
          Ok (Skip, note_pending now h (bump m_status_pending_loops_update i1))
        else
          result_bind (check_signature K sub was_encrypted h (in_crypto i1)) (\<lambda>bad.
            Ok (prepare_response sub h bad i1))))"

definition acknowledge_oplock_break :: "oplock_break \<Rightarrow> tree_id \<Rightarrow> 's inner \<Rightarrow> 's inner" where
  "acknowledge_oplock_break brk tree i =
     i\<lparr>in_oplock_trees := AList.delete (ob_file_id brk) (in_oplock_trees i),
       in_acks := (\<lparr>ob_oplock_level = OplockNone, ob_file_id = ob_file_id brk\<rparr>, tree) # in_acks i\<rparr>"

text \<open>The loop over the sub-frames: the routable entries, or the error of the first bad one.\<close>

fun prepare_all ::
    "crypto_prims \<Rightarrow> 's sem_ops \<Rightarrow> instant \<Rightarrow> bool \<Rightarrow> bytes list \<Rightarrow> (message_id \<times> frame res) list \<Rightarrow> 's inner \<Rightarrow>
     ((message_id \<times> frame res) list \<times> error option \<times> 's inner) res" where
  "prepare_all K S now enc [] routable i = Ok (routable, None, i)"
| "prepare_all K S now enc (sub # subs) routable i =
     (case prepare_sub_frame K S now sub enc i of
        Panic \<Rightarrow> Panic
      | Err e \<Rightarrow> Ok (routable, Some e, i)
      | Ok (Route m r, i1) \<Rightarrow> prepare_all K S now enc subs (routable @ [(m, r)]) i1
      | Ok (Skip, i1) \<Rightarrow> prepare_all K S now enc subs routable i1
      | Ok (AckOplockBreak brk tree, i1) \<Rightarrow>
          prepare_all K S now enc subs routable (acknowledge_oplock_break brk tree i1))"

text \<open>
  Routing one entry. The counter is bumped before the send and taken back when the receiver is
  gone; a response without a waiter is late when its id was abandoned, stray otherwise.
\<close>

definition route :: "message_id \<times> frame res \<Rightarrow> 's inner \<Rightarrow> 's inner" where
  "route mr i =
     (case mr of (m, r) \<Rightarrow>
       (case take_waiter m i of
          (Some tx, i1) \<Rightarrow>
            if is_ok r then
              (let i2 = bump m_responses_routed_ok_update i1; i3 = log_chan tx (Some r) i2 in
               if tx \<in> set (in_dropped_rx i) then
                 bump m_responses_late_after_drop_update (unbump m_responses_routed_ok_update i3)
               else i3)
            else
              (let i2 = bump m_responses_routed_err_update i1; i3 = log_chan tx (Some r) i2 in
               if tx \<in> set (in_dropped_rx i) then
                 bump m_responses_late_after_drop_update (unbump m_responses_routed_err_update i3)
               else i3)
        | (None, i1) \<Rightarrow>
            if m \<in> set (in_abandoned i1) then bump m_responses_late_after_drop_update i1
            else bump m_responses_stray_update i1))"

text \<open>
  One iteration of \<open>receiver_loop\<close> after \<open>receive\<close> returned \<open>raw\<close>; the flag says whether the loop
  goes on. \<open>teardown\<close> is the code shared by the failing branches.
\<close>

definition teardown ::
    "'s sem_ops \<Rightarrow> ((u64 \<Rightarrow> u64) \<Rightarrow> metrics \<Rightarrow> metrics) \<Rightarrow> error \<Rightarrow> 's inner \<Rightarrow> (bool \<times> 's inner) res" where
  "teardown S counter e i = Ok (False, fan_error_to_waiters S e (bump counter i))"

definition process_plain ::
    "crypto_prims \<Rightarrow> 's sem_ops \<Rightarrow> instant \<Rightarrow> bytes \<Rightarrow> bool \<Rightarrow> 's inner \<Rightarrow> (bool \<times> 's inner) res" where
  "process_plain K S now decoded was_encrypted i =
     (case split_compound decoded of
        Panic \<Rightarrow> Panic
      | Err e \<Rightarrow> teardown S m_malformed_frames_update e i
      | Ok subs \<Rightarrow>
          result_bind (prepare_all K S now was_encrypted subs [] i) (\<lambda>(routable, failed, i1).
          (case failed of
             Some e \<Rightarrow> teardown S m_malformed_frames_update e i1
           | None \<Rightarrow> Ok (True, fold route routable i1))))"

definition process_decrypted ::
    "crypto_prims \<Rightarrow> 's sem_ops \<Rightarrow> instant \<Rightarrow> bytes \<Rightarrow> bool \<Rightarrow> 's inner \<Rightarrow> (bool \<times> 's inner) res" where
  "process_decrypted K S now decoded was_encrypted i =
     (if length decoded \<ge> 4 \<and> take 4 decoded = COMPRESSION_PROTOCOL_ID then
        (case decompress_response K decoded of
           Panic \<Rightarrow> Panic
         | Err e \<Rightarrow> teardown S m_decompress_failures_update e i
         | Ok plain \<Rightarrow> process_plain K S now plain was_encrypted i)
      else process_plain K S now decoded was_encrypted i)"

definition process_frame ::
    "crypto_prims \<Rightarrow> 's sem_ops \<Rightarrow> instant \<Rightarrow> bytes \<Rightarrow> 's inner \<Rightarrow> (bool \<times> 's inner) res" where
  "process_frame K S now raw i0 =
     (let i1 = i0\<lparr>in_metrics := m_wire_bytes_received_update (\<lambda>n. n + word_of_nat (length raw)) (in_metrics i0)\<rparr>;
          i = note_server_spoke now i1
      in if length raw \<ge> 4 \<and> take 4 raw = TRANSFORM_PROTOCOL_ID then
           (case decrypt_frame K raw i of
              Panic \<Rightarrow> Panic
            | Err e \<Rightarrow> teardown S m_decrypt_failures_update e i
            | Ok plain \<Rightarrow> process_decrypted K S now plain True i)
         else process_decrypted K S now raw False i)"

text \<open>
  The loop over what the transport delivers: frames until it reports an error, which also
  tears the connection down.
\<close>

fun receiver_loop ::
    "crypto_prims \<Rightarrow> 's sem_ops \<Rightarrow> (instant \<times> bytes res) list \<Rightarrow> 's inner \<Rightarrow> 's inner res" where
  "receiver_loop K S [] i = Ok i"
| "receiver_loop K S ((now, Panic) # _) i = Panic"
| "receiver_loop K S ((now, Err e) # _) i = Ok (fan_error_to_waiters S e i)"
| "receiver_loop K S ((now, Ok raw) # inputs) i =
     result_bind (process_frame K S now raw i) (\<lambda>(go_on, j).
       if go_on then receiver_loop K S inputs j else Ok j)"

section \<open>A parsed header was there\<close>

text \<open>\<open>reads n r\<close>: a successful run of \<open>r\<close> advances the cursor by \<open>n\<close>.\<close>

definition reads :: "nat \<Rightarrow> 'a reader \<Rightarrow> bool" where
  "reads n r \<longleftrightarrow> (\<forall>c x c'. r c = Ok (x, c') \<longrightarrow> rc_pos c' = rc_pos c + n)"

lemma reads_bnd: "reads n m \<Longrightarrow> (\<And>x. reads k (f x)) \<Longrightarrow> reads (n + k) (bnd m f)"
  unfolding reads_def bnd_def by (fastforce split: result.splits prod.splits)

lemma reads_pure:
  "reads 0 (ret x)" "reads 0 (guard b e)" "reads n (fail e)" "reads 0 (\<lambda>c. Ok (y, c))"
  by (auto simp: reads_def ret_def guard_def fail_def)

lemma reads_take_slice: "reads n (take_slice n)"
  by (auto simp: reads_def take_slice_def result_bind_eq_Ok)

lemma reads_ensure: "reads 0 (ensure n)"
  by (auto simp: reads_def ensure_def bnd_def remaining_def position_def guard_def ret_def fail_def
      result_bind_eq_Ok split: result.splits if_splits)

lemma reads_bytes: "reads n (read_bytes n)" "reads n (read_array n)"
  using reads_bnd [OF reads_ensure reads_take_slice] by (simp_all add: read_bytes_def read_array_def)

lemma reads_ints: "reads 2 read_u16_le" "reads 4 read_u32_le" "reads 8 read_u64_le"
  using reads_bnd [OF reads_bytes(2) reads_pure(1)]
  by (simp_all add: read_u16_le_def read_u32_le_def read_u64_le_def)

lemma reads_bnd0: "reads n m \<Longrightarrow> (\<And>x. reads (k - n) (f x)) \<Longrightarrow> n \<le> k \<Longrightarrow> reads k (bnd m f)"
  using reads_bnd [of n m "k - n" f] by simp

lemma reads_unpack_header: "reads 64 unpack_header"
  unfolding unpack_header_def
  by (intro reads_bnd0 [OF reads_bytes(1)] reads_bnd0 [OF reads_ints(1)] reads_bnd0 [OF reads_ints(2)]
      reads_bnd0 [OF reads_ints(3)] reads_bnd0 [OF reads_pure(2)]
      reads_bnd0 [where n = 0 and m = "case command_try_from c of None \<Rightarrow> fail (e c) | Some d \<Rightarrow> ret d" for c e]
      reads_bnd0 [where n = 8 and m = "if hf_is_async a then bnd read_u64_le (p a) else bnd read_u32_le (q a)" for a p q])
    (auto intro!: reads_bnd0 [OF reads_ints(2)] reads_bnd0 [OF reads_ints(3)] reads_pure split: option.splits)

lemma run_header_length:
  assumes "run_reader unpack_header sub = Ok h"
  shows "64 \<le> length sub"
proof -
  obtain c where c: "unpack_header (read_cursor_new sub) = Ok (h, c)"
    using assms by (auto simp: run_reader_def result_bind_eq_Ok)
  have w: "rc_wf (read_cursor_new sub)" "rc_pos (read_cursor_new sub) = 0" "rc_data (read_cursor_new sub) = sub"
    by (simp_all add: rc_wf_def read_cursor_new_def)
  have "rc_pos c = 64" using reads_unpack_header c w(2) unfolding reads_def by fastforce
  moreover have "rc_wf c" "rc_data c = sub" using safe_OkD [OF header.unpack_safe w(1) _ c] w by auto
  ultimately show ?thesis by (simp add: rc_wf_def)
qed

lemma run_header_packed:
  "wf_header h \<Longrightarrow> run_reader unpack_header (header_bytes h @ body) = Ok h"
  using unpack_header_cur [of h "[]" body] by (simp add: run_reader_def read_cursor_new_cur)

section \<open>The receive path does not panic\<close>

definition prims_ok :: "crypto_prims \<Rightarrow> bool" where
  "prims_ok K \<longleftrightarrow> hmac_ok K \<and> cmac_ok K \<and> aead_ok K"

lemma compute_signature_no_panic:
  assumes "prims_ok K"
  shows "compute_signature K m k a i c r \<noteq> Panic"
proof (cases "length k = 16")
  case True
  then show ?thesis
    using compute_signature_total [of K k m a i c r] assms by (auto simp: prims_ok_def)
next
  case False
  show ?thesis
  proof (cases a)
    case HmacSha256
    obtain t where "hmac_sha256 K k m = Some t" "length t = 32"
      using assms unfolding prims_ok_def hmac_ok_def by metis
    with HmacSha256 show ?thesis by (simp add: compute_hmac_sha256_def slice_def array16_def)
  next
    case AesCmac
    then show ?thesis using assms False by (simp add: prims_ok_def cmac_ok_def compute_aes_cmac_def)
  next
    case AesGmac
    then show ?thesis using False by (simp add: compute_aes_gmac_def)
  qed
qed

lemma verify_signature_no_panic: "prims_ok K \<Longrightarrow> verify_signature K m k a i c \<noteq> Panic"
  using compute_signature_no_panic [of K]
  by (auto simp: verify_signature_def slice_def result_bind_eq_Panic sig_defs split: if_splits)

lemma decrypt_message_no_panic: "decrypt_message K th ct k c \<noteq> Panic"
  by (cases c) (simp_all add: decrypt_message_def transform_header_SIZE_def AAD_OFFSET_def slice_def split: option.splits)

lemma decrypt_frame_no_panic: "decrypt_frame K data i \<noteq> Panic"
  by (simp add: decrypt_frame_def decrypt_message_no_panic split: option.splits)

lemma check_signature_no_panic: "prims_ok K \<Longrightarrow> check_signature K sub enc h c \<noteq> Panic"
  using verify_signature_no_panic [of K sub]
  by (auto simp: check_signature_def header_SIZE_def slice_def Let_def split: if_splits option.splits result.splits)

lemma prepare_unsolicited_no_panic: "64 \<le> length sub \<Longrightarrow> prepare_unsolicited sub h i \<noteq> Panic"
  using run_reader_safe(1) [OF oplock_break.unpack_safe, of "drop 64 sub"]
  by (simp add: prepare_unsolicited_def slice_def header_SIZE_def Let_def split: result.split option.split)

lemma prepare_sub_frame_no_panic:
  assumes "prims_ok K" "sem_laws S" "avail S (in_credits i) + 65535 \<le> MAX_PERMITS"
  shows "prepare_sub_frame K S now sub enc i \<noteq> Panic"
proof (cases "run_reader unpack_header sub")
  case (Ok h)
  have "unat (hdr_credits h) \<le> 65535" using unat_u16_less [of "hdr_credits h"] by linarith
  then obtain p where p: "pool_grant S (hdr_credits h) (in_credits i) = Ok p"
    using pool_grant_total [OF assms(2), of "in_credits i" "hdr_credits h"] assms(3) by auto
  with Ok check_signature_no_panic [OF assms(1)] run_header_length [OF Ok]
  show ?thesis by (simp add: prepare_sub_frame_def Let_def result_bind_eq_Panic prepare_unsolicited_no_panic)
qed (simp_all add: prepare_sub_frame_def run_reader_safe(1) [OF header.unpack_safe])

text \<open>The parts of the state that preparing a sub-frame leaves alone.\<close>

definition same_core :: "'s inner \<Rightarrow> 's inner \<Rightarrow> bool" where
  "same_core i j \<longleftrightarrow>
     in_credits j = in_credits i \<and> in_disconnected j = in_disconnected i \<and> in_abandoned j = in_abandoned i \<and>
     in_resolved j = in_resolved i \<and> in_next_chan j = in_next_chan i \<and>
     map fst (in_waiters j) = map fst (in_waiters i) \<and> live (in_waiters j) = live (in_waiters i) \<and>
     in_crypto j = in_crypto i \<and> in_next_message_id j = in_next_message_id i \<and> in_dropped_rx j = in_dropped_rx i"

lemma same_core_refl [simp]: "same_core i i"
  by (simp add: same_core_def)

lemma same_core_bump [simp]: "same_core i (bump f j) = same_core i j"
  by (simp add: same_core_def)

lemma same_core_note_pending [simp]: "same_core i (note_pending now h j) = same_core i j"
proof -
  have "map fst (in_waiters (note_pending now h j)) = map fst (in_waiters j)"
    "live (in_waiters (note_pending now h j)) = live (in_waiters j)"
    by (simp_all add: note_pending_def Let_def map_entry_shape split: option.splits)
  then show ?thesis by (simp add: same_core_def) (simp add: note_pending_def)
qed

lemma same_core_ack [simp]: "same_core i (acknowledge_oplock_break b t j) = same_core i j"
  by (simp add: same_core_def acknowledge_oplock_break_def)

lemma same_core_chan_ok: "same_core i j \<Longrightarrow> chan_ok i \<Longrightarrow> chan_ok j"
  by (simp add: same_core_def chan_ok_def)

lemma same_core_gate_ok: "same_core i j \<Longrightarrow> gate_ok i \<Longrightarrow> gate_ok j"
  unfolding same_core_def gate_ok_def by (metis map_is_Nil_conv)

lemma prepare_unsolicited_Ok:
  assumes "prepare_unsolicited sub h i = Ok (a, j)"
  shows "same_core i j" "a \<noteq> Route m r"
proof -
  have "same_core i j \<and> a \<noteq> Route m r"
    using assms unfolding prepare_unsolicited_def Let_def
    by (cases "slice sub header_SIZE (length sub) :: bytes res"; cases "hdr_command h = OplockBreak"; simp)
      (auto split: result.split_asm option.split_asm)
  then show "same_core i j" "a \<noteq> Route m r" by simp_all
qed

lemma prepare_response_core: "prepare_response sub h bad i = (a, j) \<Longrightarrow> same_core i j"
  by (auto simp: prepare_response_def split: option.split_asm if_split_asm)

text \<open>Every parsed sub-frame banks its grant, whatever happens to it next.\<close>

lemma prepare_sub_frame_Ok:
  assumes "prepare_sub_frame K S now sub enc i = Ok (a, j)"
  obtains h p where "run_reader unpack_header sub = Ok h"
    "pool_grant S (hdr_credits h) (in_credits i) = Ok p" "same_core (i\<lparr>in_credits := p\<rparr>) j"
proof -
  obtain h p where h: "run_reader unpack_header sub = Ok h"
    and p: "pool_grant S (hdr_credits h) (in_credits i) = Ok p"
    using assms by (auto simp: prepare_sub_frame_def result_bind_eq_Ok split: result.splits)
  from assms have "same_core (i\<lparr>in_credits := p\<rparr>) j"
    by (auto simp: prepare_sub_frame_def Let_def h p result_bind_eq_Ok
        dest: prepare_unsolicited_Ok(1) prepare_response_core split: if_split_asm)
  then show thesis by (rule that [OF h p])
qed

section \<open>Invariants\<close>

lemma prepare_all_props:
  assumes "prepare_all K S now enc subs rs i = Ok (rs', f, j)"
  shows "\<exists>p. same_core (i\<lparr>in_credits := p\<rparr>) j"
  using assms
proof (induction subs arbitrary: rs i)
  case (Cons sub subs)
  from Cons.prems consider (fail) "j = i"
    | (step) a i1 rs1 where "prepare_sub_frame K S now sub enc i = Ok (a, i1)"
        "prepare_all K S now enc subs rs1 i1 = Ok (rs', f, j) \<or>
         (\<exists>b t. prepare_all K S now enc subs rs1 (acknowledge_oplock_break b t i1) = Ok (rs', f, j))"
    by (fastforce split: result.split_asm prod.split_asm sub_frame_action.split_asm)
  then show ?case
  proof cases
    case fail
    then show ?thesis by (intro exI [of _ "in_credits i"]) simp
  next
    case step
    obtain p where p: "same_core (i\<lparr>in_credits := p\<rparr>) i1"
      using prepare_sub_frame_Ok [OF step(1)] by metis
    obtain i2 where i2: "prepare_all K S now enc subs rs1 i2 = Ok (rs', f, j)" "same_core (i\<lparr>in_credits := p\<rparr>) i2"
      using step(2) p by auto
    from Cons.IH [OF i2(1)] obtain q where "same_core (i2\<lparr>in_credits := q\<rparr>) j" by blast
    with i2(2) have "same_core (i\<lparr>in_credits := q\<rparr>) j" by (simp add: same_core_def)
    then show ?thesis by blast
  qed
next
  case Nil
  then show ?case by (intro exI [of _ "in_credits i"]) simp
qed

lemma route_cases:
  obtains (hit) w where "find_waiter m i = Some w" "in_waiters (route (m, x) i) = AList.delete m (in_waiters i)"
      "in_resolved (route (m, x) i) = (wt_tx w, Some x) # in_resolved i"
  | (miss) "find_waiter m i = None" "in_waiters (route (m, x) i) = in_waiters i"
      "in_resolved (route (m, x) i) = in_resolved i"
proof (cases "find_waiter m i")
  case None
  with miss show thesis by (simp add: route_def take_waiter_def find_waiter_absent)
next
  case (Some w)
  with hit show thesis by (simp add: route_def take_waiter_def Let_def)
qed

lemma route_frame [simp]:
  "in_next_chan (route mr i) = in_next_chan i"
  "in_disconnected (route mr i) = in_disconnected i"
  "in_abandoned (route mr i) = in_abandoned i"
  "in_credits (route mr i) = in_credits i"
  "in_next_message_id (route mr i) = in_next_message_id i"
  by (simp_all add: route_def take_waiter_def Let_def split: prod.split option.split)

lemma route_chan_ok: "chan_ok i \<Longrightarrow> chan_ok (route mr i)"
proof (cases mr)
  case (Pair m x)
  assume i: "chan_ok i"
  show ?thesis unfolding Pair
  proof (cases rule: route_cases [of m i x])
    case (hit w)
    from chan_ok_resolve [OF i hit(1-3)] show "chan_ok (route (m, x) i)" by simp
  next
    case miss
    with i show "chan_ok (route (m, x) i)" by (simp add: chan_ok_def)
  qed
qed

lemma route_gate_ok: "gate_ok i \<Longrightarrow> gate_ok (route mr i)"
  by (cases mr; rule route_cases [of "fst mr" i "snd mr"]) (auto simp: gate_ok_def)

lemma fold_route_ok:
  "chan_ok i \<Longrightarrow> chan_ok (fold route rs i)" "gate_ok i \<Longrightarrow> gate_ok (fold route rs i)"
  by (induction rs arbitrary: i) (simp_all add: route_chan_ok route_gate_ok)

definition conn_ok :: "'s inner \<Rightarrow> bool" where
  "conn_ok i \<longleftrightarrow> chan_ok i \<and> gate_ok i"

lemma conn_ok_simps [simp]:
  "conn_ok (bump f i) = conn_ok i"
  "conn_ok (i\<lparr>in_credits := p\<rparr>) = conn_ok i"
  "conn_ok (i\<lparr>in_last_frame_at := t\<rparr>) = conn_ok i"
  "conn_ok (i\<lparr>in_metrics := m\<rparr>) = conn_ok i"
  by (simp_all add: conn_ok_def gate_ok_def chan_ok_def)

lemma fan_error_conn_ok: "conn_ok i \<Longrightarrow> conn_ok (fan_error_to_waiters S e i)"
  by (auto simp: conn_ok_def)

lemma process_plain_conn_ok:
  assumes "conn_ok i" "process_plain K S now d enc i = Ok (b, j)"
  shows "conn_ok j"
proof -
  have p: "conn_ok i1" if "prepare_all K S now enc subs [] i = Ok (rs, f, i1)" for subs rs f i1
  proof -
    from prepare_all_props [OF that] obtain p where "same_core (i\<lparr>in_credits := p\<rparr>) i1" ..
    then show ?thesis
      using assms(1) same_core_chan_ok [of _ i1] same_core_gate_ok [of _ i1] unfolding conn_ok_def
      by (metis conn_ok_def conn_ok_simps(2))
  qed
  show ?thesis
  proof (cases "split_compound d")
    case (Ok subs)
    with assms(2) obtain rs f i1 where i1: "prepare_all K S now enc subs [] i = Ok (rs, f, i1)"
      by (auto simp: process_plain_def result_bind_eq_Ok)
    from p [OF this] have "conn_ok (fold route rs i1)" by (simp add: conn_ok_def fold_route_ok)
    with p [OF i1] assms(2) Ok i1 show ?thesis
      by (cases f) (auto simp: process_plain_def teardown_def fan_error_conn_ok)
  qed (use assms in \<open>auto simp: process_plain_def teardown_def fan_error_conn_ok\<close>)
qed

lemma process_frame_conn_ok:
  assumes "conn_ok i" "process_frame K S now raw i = Ok (b, j)"
  shows "conn_ok j"
proof -
  let ?i = "note_server_spoke now (i\<lparr>in_metrics :=
     m_wire_bytes_received_update (\<lambda>n. n + word_of_nat (length raw)) (in_metrics i)\<rparr>)"
  have i: "conn_ok ?i" using assms(1) by (simp add: note_server_spoke_def)
  have d: "conn_ok j" if "process_decrypted K S now d enc ?i = Ok (b, j)" for d enc
    using that process_plain_conn_ok [OF i] i
    by (auto simp: process_decrypted_def teardown_def fan_error_conn_ok split: if_split_asm result.split_asm)
  from assms(2) i d show ?thesis
    by (auto simp: process_frame_def Let_def teardown_def fan_error_conn_ok split: if_split_asm result.split_asm)
qed

end
