(* ===== verification/Smb_Delivery.thy ===== *)
theory Smb_Delivery
  imports Smb_Receive
begin

text \<open>
  What the receive path guarantees: it never panics on any bytes, it delivers a response to
  the caller that registered its \<open>MessageId\<close> and to no other, it never delivers a response
  whose signature does not verify, and its four routing counters partition the responses.
\<close>

section \<open>No input panics\<close>

text \<open>
  Decryption works in place, so the plaintext has the length of the ciphertext; LZ4 is given
  the size of the output buffer.
\<close>

definition prims_len :: "crypto_prims \<Rightarrow> bool" where
  "prims_len K \<longleftrightarrow>
     (\<forall>c k n a t ct p. aead_decrypt K c k n a t ct = Some p \<longrightarrow> length p = length ct) \<and>
     (\<forall>d n p. lz4_decompress K d n = Some p \<longrightarrow> length p \<le> n)"

lemma split_compound_loop_count:
  assumes "split_compound_loop data offset results = Ok out"
  shows "length out + offset \<le> length results + length data"
  using assms
proof (induction data offset results rule: split_compound_loop.induct)
  case (1 data offset results)
  let ?b = "take 4 (drop (offset + 20) data)"
  let ?n = "unat (from_le_bytes ?b :: u32)"
  from "1.prems" have len: "offset + 64 \<le> length data"
    and ok: "\<not> (results \<noteq> [] \<and> offset mod 8 \<noteq> 0)"
    by (auto simp: split_compound_loop.simps [of data offset results] header_SIZE_def usub_def split: if_splits)
  then have b: "(slice data (offset + 20) (offset + 24) :: bytes res) = Ok ?b" by (simp add: slice_def)
  show ?case
  proof (cases "?n = 0")
    case True
    with "1.prems" len ok b have "out = results @ [drop offset data]"
      by (simp add: split_compound_loop.simps [of data offset results] header_SIZE_def Let_def slice_def split: if_splits)
    then show ?thesis using len by simp
  next
    case False
    with "1.prems" len ok b have e: "offset + ?n \<le> length data"
      and r: "split_compound_loop data (offset + ?n) (results @ [take ?n (drop offset data)]) = Ok out"
      by (auto simp: split_compound_loop.simps [of data offset results] header_SIZE_def Let_def slice_def split: if_splits)
    have "length out + (offset + ?n) \<le> length (results @ [take ?n (drop offset data)]) + length data"
      using "1.IH" [OF _ ok b refl refl _ _ False, of "take ?n (drop offset data)"] len e r False
      by (auto simp: header_SIZE_def slice_def)
    with False show ?thesis by simp
  qed
qed

lemma split_compound_count: "split_compound d = Ok subs \<Longrightarrow> length subs \<le> length d"
  using split_compound_loop_count [of d 0 "[]" subs] by (simp add: split_compound_def)

lemma prepare_all_no_panic:
  assumes "prims_ok K" "sem_laws S" "avail S (in_credits i) + 65535 * length subs \<le> MAX_PERMITS"
  shows "prepare_all K S now enc subs rs i \<noteq> Panic"
  using assms(3)
proof (induction subs arbitrary: rs i)
  case (Cons sub subs)
  have np: "prepare_sub_frame K S now sub enc i \<noteq> Panic"
    using prepare_sub_frame_no_panic [OF assms(1,2), of i] Cons.prems by simp
  have next_ok: "prepare_all K S now enc subs rs' i2 \<noteq> Panic"
    if sub: "prepare_sub_frame K S now sub enc i = Ok (a, i1)" and same: "same_core i1 i2" for a i1 i2 rs'
  proof -
    obtain h :: header and p where
      p: "pool_grant S (hdr_credits h) (in_credits i) = Ok p" "same_core (i\<lparr>in_credits := p\<rparr>) i1"
      using prepare_sub_frame_Ok [OF sub] by blast
    then have "avail S (in_credits i2) = avail S (in_credits i) + unat (hdr_credits h)"
      using pool_grant_avail(1) [OF assms(2) p(1)] p(2) same by (simp add: same_core_def)
    moreover have "unat (hdr_credits h) \<le> 65535" using unat_u16_less [of "hdr_credits h"] by linarith
    ultimately have "avail S (in_credits i2) + 65535 * length subs \<le> MAX_PERMITS"
      using Cons.prems unfolding length_Cons mult_Suc_right by linarith
    then show ?thesis by (rule Cons.IH)
  qed
  show ?case
    using np next_ok by (fastforce split: result.splits prod.splits sub_frame_action.splits)
qed simp

lemma process_plain_no_panic:
  assumes "prims_ok K" "sem_laws S" "avail S (in_credits i) + 65535 * length d \<le> MAX_PERMITS"
  shows "process_plain K S now d enc i \<noteq> Panic"
proof (cases "split_compound d")
  case (Ok subs)
  have "65535 * length subs \<le> 65535 * length d" using split_compound_count [OF Ok] by simp
  with assms(3) have "avail S (in_credits i) + 65535 * length subs \<le> MAX_PERMITS" by linarith
  with Ok prepare_all_no_panic [OF assms(1,2)] show ?thesis
    by (auto simp: process_plain_def teardown_def result_bind_eq_Panic split: option.splits)
next
  case Panic
  then show ?thesis using split_compound_loop_no_panic [of 0 d "[]"] by (simp add: split_compound_def)
qed (simp add: process_plain_def teardown_def)

lemma decompress_response_length:
  assumes "prims_len K" "decompress_response K d = Ok p"
  shows "length p \<le> length d + 16777216"
proof -
  have "\<exists>x y z. length x \<le> length d \<and> decompress_message K x y z = Ok p"
    using assms(2)
    by (auto simp: decompress_response_def Let_def slice_def compression_transform_header_SIZE_def
        result_bind_eq_Ok split: if_split_asm)
      (metis (no_types) length_drop length_take diff_le_self min.bounded_iff min.cobounded1 order.trans)
  then obtain x y z where r: "length x \<le> length d" "decompress_message K x y z = Ok p" by blast
  then obtain q where q: "lz4_decompress K y (unat z) = Some q" "p = x @ q" "\<not> z > MAX_DECOMPRESSED_SIZE"
    by (auto simp: decompress_message_def split: if_split_asm option.split_asm)
  have "length q \<le> unat z" using assms(1) q(1) unfolding prims_len_def by blast
  also have "\<dots> \<le> 16777216" using q(3) by (simp add: word_less_nat_alt MAX_DECOMPRESSED_SIZE_def)
  finally show ?thesis using q(2) r(1) by simp
qed

lemma process_decrypted_no_panic:
  assumes "prims_ok K" "prims_len K" "sem_laws S"
    "avail S (in_credits i) + 65535 * (length d + 16777216) \<le> MAX_PERMITS"
  shows "process_decrypted K S now d enc i \<noteq> Panic"
proof -
  have n: "process_plain K S now p enc i \<noteq> Panic" if "length p \<le> length d + 16777216" for p
  proof (rule process_plain_no_panic [OF assms(1,3)])
    have "65535 * length p \<le> 65535 * (length d + 16777216)" using that by simp
    with assms(4) show "avail S (in_credits i) + 65535 * length p \<le> MAX_PERMITS" by linarith
  qed
  show ?thesis
    using n [of d] n decompress_response_length [OF assms(2), of d] decompress_response_no_panic [of K d]
    by (auto simp: process_decrypted_def teardown_def split: result.splits)
qed

lemma decrypt_frame_length:
  assumes "prims_len K" "decrypt_frame K d i = Ok p"
  shows "length p \<le> length d"
proof -
  obtain c k where "decrypt_message K (take 52 d) (drop 52 d) k c = Ok p"
    using assms(2) by (auto simp: decrypt_frame_def transform_header_SIZE_def split: option.split_asm if_split_asm)
  then obtain n a t where "aead_decrypt K c k n a t (drop 52 d) = Some p"
    by (auto simp: decrypt_message_def result_bind_eq_Ok split: option.split_asm if_split_asm)
  then have "length p = length (drop 52 d)" using assms(1) unfolding prims_len_def by blast
  then show ?thesis by simp
qed

lemma process_frame_no_panic:
  assumes "prims_ok K" "prims_len K" "sem_laws S"
    "avail S (in_credits i) + 65535 * (length raw + 16777216) \<le> MAX_PERMITS"
  shows "process_frame K S now raw i \<noteq> Panic"
proof -
  let ?i = "note_server_spoke now (i\<lparr>in_metrics :=
     m_wire_bytes_received_update (\<lambda>n. n + word_of_nat (length raw)) (in_metrics i)\<rparr>)"
  have n: "process_decrypted K S now p enc ?i \<noteq> Panic" if "length p \<le> length raw" for p enc
    by (rule process_decrypted_no_panic) (use assms that in \<open>simp_all add: note_server_spoke_def\<close>)
  show ?thesis
    using n [of raw] n decrypt_frame_length [OF assms(2), of raw ?i] decrypt_frame_no_panic [of K raw ?i]
    by (auto simp: process_frame_def Let_def teardown_def split: result.splits)
qed

section \<open>What a parsed header says about the bytes\<close>

lemma split_bytes:
  assumes "64 \<le> length sub"
  obtains p4 s2 c2 t4 m2 r2 f4 n4 i8 x4 y4 d8 g16 body where
    "sub = p4 @ to_le_bytes (s2 :: u16) @ to_le_bytes (c2 :: u16) @ to_le_bytes (t4 :: u32) @
       to_le_bytes (m2 :: u16) @ to_le_bytes (r2 :: u16) @ to_le_bytes (f4 :: u32) @ to_le_bytes (n4 :: u32) @
       to_le_bytes (i8 :: u64) @ (x4 @ y4) @ to_le_bytes (d8 :: u64) @ g16 @ body"
    "length p4 = 4" "length x4 = 4" "length y4 = 4" "length g16 = 16"
proof -
  have cut: "\<exists>a b. xs = a @ b \<and> length a = n" if "n \<le> length xs" for n and xs :: bytes
    using that by (intro exI [of _ "take n xs"] exI [of _ "drop n xs"]) simp
  have w2: "\<exists>(a :: u16) b. xs = to_le_bytes a @ b" if "2 \<le> length xs" for xs :: bytes
    using to_from_le_bytes [of "take 2 xs", where 'a = 16] that
    by (intro exI [of _ "from_le_bytes (take 2 xs)"] exI [of _ "drop 2 xs"]) simp
  have w4: "\<exists>(a :: u32) b. xs = to_le_bytes a @ b" if "4 \<le> length xs" for xs :: bytes
    using to_from_le_bytes [of "take 4 xs", where 'a = 32] that
    by (intro exI [of _ "from_le_bytes (take 4 xs)"] exI [of _ "drop 4 xs"]) simp
  have w8: "\<exists>(a :: u64) b. xs = to_le_bytes a @ b" if "8 \<le> length xs" for xs :: bytes
    using to_from_le_bytes [of "take 8 xs", where 'a = 64] that
    by (intro exI [of _ "from_le_bytes (take 8 xs)"] exI [of _ "drop 8 xs"]) simp
  obtain p4 b1 where 1: "sub = p4 @ b1" "length p4 = 4" using cut [of 4 sub] assms by auto
  obtain s2 :: u16 and b2 where 2: "b1 = to_le_bytes s2 @ b2" using w2 [of b1] 1 assms by auto
  obtain c2 :: u16 and b3 where 3: "b2 = to_le_bytes c2 @ b3" using w2 [of b2] 1 2 assms by auto
  obtain t4 :: u32 and b4 where 4: "b3 = to_le_bytes t4 @ b4" using w4 [of b3] 1 2 3 assms by auto
  obtain m2 :: u16 and b5 where 5: "b4 = to_le_bytes m2 @ b5" using w2 [of b4] 1 2 3 4 assms by auto
  obtain r2 :: u16 and b6 where 6: "b5 = to_le_bytes r2 @ b6" using w2 [of b5] 1 2 3 4 5 assms by auto
  obtain f4 :: u32 and b7 where 7: "b6 = to_le_bytes f4 @ b7" using w4 [of b6] 1 2 3 4 5 6 assms by auto
  obtain n4 :: u32 and b8 where 8: "b7 = to_le_bytes n4 @ b8" using w4 [of b7] 1 2 3 4 5 6 7 assms by auto
  obtain i8 :: u64 and b9 where 9: "b8 = to_le_bytes i8 @ b9" using w8 [of b8] 1 2 3 4 5 6 7 8 assms by auto
  obtain x4 ba where 10: "b9 = x4 @ ba" "length x4 = 4" using cut [of 4 b9] 1 2 3 4 5 6 7 8 9 assms by auto
  obtain y4 bb where 11: "ba = y4 @ bb" "length y4 = 4" using cut [of 4 ba] 1 2 3 4 5 6 7 8 9 10 assms by auto
  obtain d8 :: u64 and bc where 12: "bb = to_le_bytes d8 @ bc"
    using w8 [of bb] 1 2 3 4 5 6 7 8 9 10 11 assms by auto
  obtain g16 body where 13: "bc = g16 @ body" "length g16 = 16"
    using cut [of 16 bc] 1 2 3 4 5 6 7 8 9 10 11 12 assms by auto
  show thesis by (rule that [of p4 s2 c2 t4 m2 r2 f4 n4 i8 x4 y4 d8 g16 body]) (use 1 2 3 4 5 6 7 8 9 10 11 12 13 in simp_all)
qed

text \<open>The fields the signature check reads from the raw bytes are those of the parsed header.\<close>

lemma header_fields:
  assumes "run_reader unpack_header sub = Ok h"
  shows "take 4 (drop 8 sub) = to_le_bytes (hdr_status h)"
    and "take 4 (drop 16 sub) = to_le_bytes (hdr_flags h)"
    and "take 4 (drop 20 sub) = to_le_bytes (hdr_next_command h)"
    and "take 8 (drop 24 sub) = to_le_bytes (hdr_message_id h)"
    and "wf_header h" and "take 4 sub = PROTOCOL_ID"
proof -
  obtain p4 s2 c2 t4 m2 r2 f4 n4 i8 x4 y4 d8 g16 body where
    sub: "sub = p4 @ to_le_bytes (s2 :: u16) @ to_le_bytes (c2 :: u16) @ to_le_bytes (t4 :: u32) @
       to_le_bytes (m2 :: u16) @ to_le_bytes (r2 :: u16) @ to_le_bytes (f4 :: u32) @ to_le_bytes (n4 :: u32) @
       to_le_bytes (i8 :: u64) @ (x4 @ y4) @ to_le_bytes (d8 :: u64) @ g16 @ body"
    and len: "length p4 = 4" "length x4 = 4" "length y4 = 4" "length g16 = 16"
    by (rule split_bytes [OF run_header_length [OF assms]])
  have x8: "x4 @ y4 @ z = to_le_bytes (from_le_bytes (x4 @ y4) :: u64) @ z" for z
    using to_from_le_bytes [of "x4 @ y4", where 'a = 64] len by simp
  have x4': "x4 @ z = to_le_bytes (from_le_bytes x4 :: u32) @ z" "y4 @ z = to_le_bytes (from_le_bytes y4 :: u32) @ z" for z
    using to_from_le_bytes [of x4, where 'a = 32] to_from_le_bytes [of y4, where 'a = 32] len by simp_all
  have async: "read_u64_le (cur pre (x4 @ y4 @ z)) = Ok (from_le_bytes (x4 @ y4), cur (pre @ x4 @ y4) z)" for pre z
    unfolding x8 [of z] by (simp add: rd_simps) (simp add: to_from_le_bytes len)
  have sync: "read_u32_le (cur pre (x4 @ z)) = Ok (from_le_bytes x4, cur (pre @ x4) z)"
    "read_u32_le (cur pre (y4 @ z)) = Ok (from_le_bytes y4, cur (pre @ y4) z)" for pre z
    unfolding x4' [of z] by (simp_all add: rd_simps) (simp_all add: to_from_le_bytes len)
  obtain c where c: "command_try_from m2 = Some c" and p: "p4 = PROTOCOL_ID"
    and h: "h = \<lparr>hdr_credit_charge = c2, hdr_status = t4, hdr_command = c, hdr_credits = r2, hdr_flags = f4,
      hdr_next_command = n4, hdr_message_id = i8,
      hdr_tree_id = (if hf_is_async f4 then None else Some (from_le_bytes y4)),
      hdr_async_id = (if hf_is_async f4 then Some (from_le_bytes (x4 @ y4)) else None),
      hdr_session_id = d8, hdr_signature = g16\<rparr>"
    using assms len
    by (auto simp: sub run_reader_def read_cursor_new_cur unpack_header_def rd_simps async sync guard_def result_bind_eq_Ok
        split: if_split_asm option.split_asm)
  show "take 4 (drop 8 sub) = to_le_bytes (hdr_status h)" "take 4 (drop 16 sub) = to_le_bytes (hdr_flags h)"
    "take 4 (drop 20 sub) = to_le_bytes (hdr_next_command h)" "take 8 (drop 24 sub) = to_le_bytes (hdr_message_id h)"
    "wf_header h" "take 4 sub = PROTOCOL_ID"
    using len p by (simp_all add: sub h wf_header_def)
qed

section \<open>Signatures\<close>

lemma single_bit_flag: "w AND HF_SIGNED \<noteq> 0 \<longleftrightarrow> hf_is_signed w"
proof -
  have "w AND 2 ^ n = (if bit w n then 2 ^ n else 0)" for n
    by (rule bit_eqI) (auto simp: bit_and_iff bit_exp_iff)
  from this [of 3] have "w AND 8 = (if bit w 3 then 8 else 0)" by simp
  then show ?thesis by (simp add: hf_is_signed_def flag_contains_def HF_SIGNED_def)
qed

text \<open>With a key and an algorithm in place, the check is decided by the SIGNED flag.\<close>

lemma check_signature_eq:
  assumes "run_reader unpack_header sub = Ok h" "\<not> is_pending (hdr_status h)" "cs_should_sign c"
    "cs_signing_key c = Some k" "cs_signing_algorithm c = Some a"
  shows "check_signature K sub False h c =
    (if hf_is_signed (hdr_flags h)
     then (case verify_signature K sub k a (hdr_message_id h) (hdr_command h = Cancel) of
             Ok _ \<Rightarrow> Ok None | Err e \<Rightarrow> Ok (Some e) | Panic \<Rightarrow> Panic)
     else Ok None)"
proof -
  have l: "64 \<le> length sub" by (rule run_header_length [OF assms(1)])
  then have "(slice sub 16 20 :: bytes res) = Ok (to_le_bytes (hdr_flags h))"
    "(slice sub 8 12 :: bytes res) = Ok (to_le_bytes (hdr_status h))"
    using header_fields(1,2) [OF assms(1)] by (simp_all add: slice_def)
  moreover have "hdr_flags h AND HF_SIGNED \<noteq> 0 \<longleftrightarrow> hf_is_signed (hdr_flags h)"
    using single_bit_flag [of "hdr_flags h"] by simp
  ultimately show ?thesis
    using assms l by (simp add: check_signature_def header_SIZE_def is_pending_def)
qed

lemma routed_ok_checked:
  assumes "prepare_sub_frame K S now sub enc i = Ok (Route m (Ok fr), j)"
  shows "run_reader unpack_header sub = Ok (fr_header fr)" "m = hdr_message_id (fr_header fr)" "m \<noteq> UNSOLICITED"
    "\<not> is_pending (hdr_status (fr_header fr))" "fr_raw fr = sub" "fr_body fr = drop 64 sub"
    "check_signature K sub enc (fr_header fr) (in_crypto i) = Ok None"
proof -
  obtain h where h: "run_reader unpack_header sub = Ok h"
    using assms by (auto simp: prepare_sub_frame_def split: result.split_asm)
  from assms have "fr_header fr = h \<and> m = hdr_message_id h \<and> m \<noteq> UNSOLICITED \<and> \<not> is_pending (hdr_status h) \<and>
      fr_raw fr = sub \<and> fr_body fr = drop 64 sub \<and> check_signature K sub enc h (in_crypto i) = Ok None"
    by (auto simp: prepare_sub_frame_def prepare_response_def h Let_def header_SIZE_def result_bind_eq_Ok
        dest: prepare_unsolicited_Ok(2) split: if_split_asm option.split_asm)
  with h show "run_reader unpack_header sub = Ok (fr_header fr)" "m = hdr_message_id (fr_header fr)" "m \<noteq> UNSOLICITED"
    "\<not> is_pending (hdr_status (fr_header fr))" "fr_raw fr = sub" "fr_body fr = drop 64 sub"
    "check_signature K sub enc (fr_header fr) (in_crypto i) = Ok None" by auto
qed

text \<open>A response that carries the SIGNED flag reaches a caller only if its signature verifies.\<close>

lemma delivered_signature_verified:
  assumes "prepare_sub_frame K S now sub False i = Ok (Route m (Ok fr), j)"
    "cs_should_sign (in_crypto i)" "cs_signing_key (in_crypto i) = Some k"
    "cs_signing_algorithm (in_crypto i) = Some a" "hf_is_signed (hdr_flags (fr_header fr))"
  shows "verify_signature K sub k a m (hdr_command (fr_header fr) = Cancel) = Ok ()"
  using routed_ok_checked [OF assms(1)] assms(2-5)
  by (auto simp: check_signature_eq split: result.split_asm)

text \<open>A response without the flag is delivered unchecked.\<close>

lemma prepare_routes:
  assumes "run_reader unpack_header sub = Ok h" "hdr_message_id h \<noteq> UNSOLICITED" "\<not> is_pending (hdr_status h)"
    "hdr_status h \<noteq> STATUS_NETWORK_SESSION_EXPIRED" "check_signature K sub enc h (in_crypto i) = Ok None"
    "pool_grant S (hdr_credits h) (in_credits i) = Ok p"
  shows "prepare_sub_frame K S now sub enc i =
    Ok (Route (hdr_message_id h) (Ok \<lparr>fr_header = h, fr_body = drop 64 sub, fr_raw = sub\<rparr>), i\<lparr>in_credits := p\<rparr>)"
  using assms by (simp add: prepare_sub_frame_def prepare_response_def header_SIZE_def)

section \<open>Delivery\<close>

lemma route_hit:
  assumes "find_waiter m i = Some w"
  shows "find_waiter m (route (m, r) i) = None" "(wt_tx w, Some r) \<in> set (in_resolved (route (m, r) i))"
    "m' \<noteq> m \<Longrightarrow> find_waiter m' (route (m, r) i) = find_waiter m' i"
  using assms
  by (simp_all add: route_def take_waiter_def Let_def) (simp_all add: find_waiter_def AList.delete_conv')

lemma process_single:
  assumes "run_reader unpack_header raw = Ok h" "hdr_next_command h = 0"
    "prepare_sub_frame K S now raw False (note_server_spoke now (i\<lparr>in_metrics :=
       m_wire_bytes_received_update (\<lambda>n. n + word_of_nat (length raw)) (in_metrics i)\<rparr>)) = Ok (Route m r, j)"
  shows "process_frame K S now raw i = Ok (True, route (m, r) j)"
proof -
  have l: "64 \<le> length raw" by (rule run_header_length [OF assms(1)])
  have "take 4 raw = PROTOCOL_ID"
    by (rule header_fields(6) [OF assms(1)])
  then have p: "take 4 raw \<noteq> TRANSFORM_PROTOCOL_ID" "take 4 raw \<noteq> COMPRESSION_PROTOCOL_ID"
    by (simp_all add: PROTOCOL_ID_def TRANSFORM_PROTOCOL_ID_def COMPRESSION_PROTOCOL_ID_def)
  have "chained [raw]" using l header_fields(3) [OF assms(1)] assms(2) by (simp add: next_field_def)
  from split_compound_chained [OF this, of "[]" "[]"] have "split_compound raw = Ok [raw]"
    by (simp add: split_compound_def)
  with p assms(3) show ?thesis
    by (simp add: process_frame_def process_decrypted_def process_plain_def Let_def)
qed

text \<open>
  A response on the wire for an outstanding request: its caller gets it, the entry is gone,
  every other waiter is untouched, and the credits it carries are banked.
\<close>

lemma process_frame_delivers:
  assumes ok: "conn_ok i" "sem_laws S" and w: "find_waiter m i = Some w"
    and h: "run_reader unpack_header raw = Ok h" "hdr_next_command h = 0" "hdr_message_id h = m" "m \<noteq> UNSOLICITED"
    and st: "\<not> is_pending (hdr_status h)" "hdr_status h \<noteq> STATUS_NETWORK_SESSION_EXPIRED"
    and sig: "check_signature K raw False h (in_crypto i) = Ok None"
    and room: "avail S (in_credits i) + unat (hdr_credits h) \<le> MAX_PERMITS"
  obtains j where "process_frame K S now raw i = Ok (True, j)" "conn_ok j"
    "guard_recv \<lparr>wg_msg_id = m, wg_rx = wt_tx w\<rparr> j = Some (Ok \<lparr>fr_header = h, fr_body = drop 64 raw, fr_raw = raw\<rparr>)"
    "find_waiter m j = None" "\<And>m'. m' \<noteq> m \<Longrightarrow> find_waiter m' j = find_waiter m' i"
    "avail S (in_credits j) = avail S (in_credits i) + unat (hdr_credits h)"
proof -
  let ?f = "\<lparr>fr_header = h, fr_body = drop 64 raw, fr_raw = raw\<rparr>"
  let ?i = "note_server_spoke now (i\<lparr>in_metrics :=
     m_wire_bytes_received_update (\<lambda>n. n + word_of_nat (length raw)) (in_metrics i)\<rparr>)"
  obtain p where p: "pool_grant S (hdr_credits h) (in_credits i) = Ok p"
    using pool_grant_total [OF ok(2) room] by blast
  let ?j = "route (m, Ok ?f) (?i\<lparr>in_credits := p\<rparr>)"
  have "prepare_sub_frame K S now raw False ?i = Ok (Route m (Ok ?f), ?i\<lparr>in_credits := p\<rparr>)"
    using prepare_routes [OF h(1) _ st, of K False ?i S p now] h sig p by (simp add: note_server_spoke_def)
  from process_single [OF h(1,2) this] have run: "process_frame K S now raw i = Ok (True, ?j)" .
  have fw: "find_waiter m' (?i\<lparr>in_credits := p\<rparr>) = find_waiter m' i" for m'
    by (simp add: find_waiter_def note_server_spoke_def)
  have j: "conn_ok ?j" by (rule process_frame_conn_ok [OF ok(1) run])
  have w': "find_waiter m (?i\<lparr>in_credits := p\<rparr>) = Some w" using w fw by simp
  note hit = route_hit [OF w', where r = "Ok ?f"]
  show thesis
  proof (rule that [OF run j])
    show "guard_recv \<lparr>wg_msg_id = m, wg_rx = wt_tx w\<rparr> ?j = Some (Ok ?f)"
      using guard_recv_resolved [of ?j "\<lparr>wg_msg_id = m, wg_rx = wt_tx w\<rparr>" "Some (Ok ?f)"] j hit(2)
      by (simp add: conn_ok_def)
    show "avail S (in_credits ?j) = avail S (in_credits i) + unat (hdr_credits h)"
      using pool_grant_avail(1) [OF ok(2) p] by simp
  qed (use hit fw in simp_all)
qed

section \<open>Counters\<close>

text \<open>Every routed entry moves exactly one of the four counters, by one.\<close>

definition routed_total :: "metrics \<Rightarrow> u64" where
  "routed_total m = m_responses_routed_ok m + m_responses_routed_err m + m_responses_late_after_drop m + m_responses_stray m"

lemma route_counts: "routed_total (in_metrics (route mr i)) = routed_total (in_metrics i) + 1"
  by (simp add: route_def take_waiter_def routed_total_def Let_def split: prod.split option.split)

lemma fold_route_counts:
  "routed_total (in_metrics (fold route rs i)) = routed_total (in_metrics i) + word_of_nat (length rs)"
  by (induction rs arbitrary: i) (simp_all add: route_counts algebra_simps)

section \<open>Properties\<close>

text \<open>
  What may be handed to a caller as a response: a sub-frame that parses to the header it is
  delivered with, is not an interim one and passed the signature check.
\<close>

definition genuine :: "crypto_prims \<Rightarrow> bool \<Rightarrow> crypto_state \<Rightarrow> message_id \<Rightarrow> frame \<Rightarrow> bool" where
  "genuine K enc c m fr \<longleftrightarrow>
     run_reader unpack_header (fr_raw fr) = Ok (fr_header fr) \<and> hdr_message_id (fr_header fr) = m \<and>
     fr_body fr = drop 64 (fr_raw fr) \<and> \<not> is_pending (hdr_status (fr_header fr)) \<and>
     check_signature K (fr_raw fr) enc (fr_header fr) c = Ok None"

lemma prepare_sub_frame_crypto:
  "prepare_sub_frame K S now sub enc i = Ok (a, j) \<Longrightarrow> in_crypto j = in_crypto i"
  by (erule prepare_sub_frame_Ok) (simp add: same_core_def)

lemma prepare_all_genuine:
  assumes "prepare_all K S now enc subs rs i = Ok (rs', f, j)" "(m, Ok fr) \<in> set rs'"
  shows "(m, Ok fr) \<in> set rs \<or> genuine K enc (in_crypto i) m fr"
  using assms
proof (induction subs arbitrary: rs i)
  case (Cons sub subs)
  show ?case
  proof (cases "prepare_sub_frame K S now sub enc i")
    case (Ok x)
    obtain a i1 where x: "x = (a, i1)" by (cases x)
    note c = prepare_sub_frame_crypto [OF Ok [unfolded x]]
    show ?thesis
    proof (cases a)
      case (Route m1 r)
      with Cons.prems Ok x have "prepare_all K S now enc subs (rs @ [(m1, r)]) i1 = Ok (rs', f, j)" by simp
      from Cons.IH [OF this Cons.prems(2)] consider "(m, Ok fr) \<in> set rs" | "m1 = m" "r = Ok fr"
        | "genuine K enc (in_crypto i) m fr" using c by auto
      then show ?thesis
        using routed_ok_checked [of K S now sub enc i m fr i1] Ok x Route by cases (auto simp: genuine_def)
    next
      case Skip
      with Cons.prems Ok x c Cons.IH [of rs i1] show ?thesis by simp
    next
      case (AckOplockBreak b t)
      with Cons.prems Ok x c Cons.IH [of rs "acknowledge_oplock_break b t i1"] show ?thesis
        by (simp add: acknowledge_oplock_break_def)
    qed
  qed (use Cons.prems in simp_all)
qed simp

definition senders :: "'s inner \<Rightarrow> (message_id \<times> chan) list" where
  "senders i = map (\<lambda>(m, w). (m, wt_tx w)) (in_waiters i)"

lemma senders_zip: "senders i = zip (map fst (in_waiters i)) (live (in_waiters i))"
proof -
  have "map (\<lambda>(m, w). (m, wt_tx w)) ws = zip (map fst ws) (live ws)" for ws
    by (induction ws) (auto simp: live_def)
  then show ?thesis by (simp add: senders_def)
qed

lemma set_delete: "set (AList.delete m ws) \<subseteq> set ws"
  by (simp add: AList.delete_eq)

lemma fold_route_resolved:
  "(c, Some r) \<in> set (in_resolved (fold route rs i)) \<Longrightarrow>
   (c, Some r) \<in> set (in_resolved i) \<or> (\<exists>m. (m, c) \<in> set (senders i) \<and> (m, r) \<in> set rs)"
proof (induction rs arbitrary: i)
  case (Cons mr rs)
  obtain m x where mr: "mr = (m, x)" by (cases mr)
  from Cons.IH [of "route mr i"] Cons.prems
  have d: "(c, Some r) \<in> set (in_resolved (route (m, x) i)) \<or>
      (\<exists>m'. (m', c) \<in> set (senders (route (m, x) i)) \<and> (m', r) \<in> set rs)"
    by (simp add: mr)
  show ?case
  proof (cases rule: route_cases [of m i x])
    case (hit w)
    have "(m, w) \<in> set (in_waiters i)" using hit(1) by (simp add: find_waiter_def map_of_SomeD)
    then have "(m, wt_tx w) \<in> set (senders i)" by (force simp: senders_def)
    moreover have "set (senders (route (m, x) i)) \<subseteq> set (senders i)"
      using set_delete [of m "in_waiters i"] hit(2) by (auto simp: senders_def)
    ultimately show ?thesis using d hit(3) by (auto simp: mr)
  next
    case miss
    with d show ?thesis by (auto simp: mr senders_def)
  qed
qed simp

lemma process_plain_genuine:
  assumes "process_plain K S now d enc i = Ok (b, j)" "(c, Some (Ok fr)) \<in> set (in_resolved j)"
  shows "(c, Some (Ok fr)) \<in> set (in_resolved i) \<or> (\<exists>m. (m, c) \<in> set (senders i) \<and> genuine K enc (in_crypto i) m fr)"
proof (cases "split_compound d")
  case (Ok subs)
  with assms(1) obtain rs f i1 where a: "prepare_all K S now enc subs [] i = Ok (rs, f, i1)"
    by (auto simp: process_plain_def result_bind_eq_Ok)
  from prepare_all_props [OF this] obtain p where p: "same_core (i\<lparr>in_credits := p\<rparr>) i1" ..
  then have s: "senders i1 = senders i" "in_resolved i1 = in_resolved i" by (simp_all add: senders_zip same_core_def)
  show ?thesis
  proof (cases f)
    case None
    with assms(1) Ok a have "j = fold route rs i1" by (simp add: process_plain_def)
    with fold_route_resolved [of c "Ok fr" rs i1] prepare_all_genuine [OF a] assms(2) s show ?thesis by auto
  next
    case (Some e)
    with assms Ok a s show ?thesis by (auto simp: process_plain_def teardown_def)
  qed
qed (use assms in \<open>auto simp: process_plain_def teardown_def\<close>)

lemma process_frame_genuine:
  assumes "process_frame K S now raw i = Ok (b, j)" "(c, Some (Ok fr)) \<in> set (in_resolved j)"
    "(c, Some (Ok fr)) \<notin> set (in_resolved i)"
  shows "\<exists>m. (m, c) \<in> set (senders i) \<and> genuine K (take 4 raw = TRANSFORM_PROTOCOL_ID) (in_crypto i) m fr"
proof -
  let ?i = "note_server_spoke now (i\<lparr>in_metrics :=
     m_wire_bytes_received_update (\<lambda>n. n + word_of_nat (length raw)) (in_metrics i)\<rparr>)"
  have i: "senders ?i = senders i" "in_resolved ?i = in_resolved i" "in_crypto ?i = in_crypto i"
    by (simp_all add: senders_def note_server_spoke_def)
  have td: "\<not> teardown S u e ?i = Ok (b, j)" for u e
    using assms(2,3) i(2) by (auto simp: teardown_def)
  have d: "\<exists>m. (m, c) \<in> set (senders i) \<and> genuine K enc (in_crypto i) m fr"
    if "process_decrypted K S now d enc ?i = Ok (b, j)" for d enc
    using that process_plain_genuine [of K S now _ enc ?i b j c fr] assms(2,3) i td
    by (auto simp: process_decrypted_def split: if_split_asm result.split_asm)
  have t: "length raw \<ge> 4 \<and> take 4 raw = TRANSFORM_PROTOCOL_ID \<longleftrightarrow> take 4 raw = TRANSFORM_PROTOCOL_ID"
    by (auto dest: arg_cong [of _ _ length] simp: TRANSFORM_PROTOCOL_ID_def)
  from assms(1) show ?thesis
    using td d unfolding process_frame_def Let_def t by (auto split: if_split_asm result.split_asm)
qed


text \<open>A connection with one outstanding READ, and a response to it.\<close>

definition sample_conn :: "(nat \<times> bool) inner" where
  "sample_conn = (inner_new counting_sem 0)\<lparr>in_waiters := [(5, new_waiter 0 Read 0)], in_next_chan := 1\<rparr>"

definition sample_response :: "u32 \<Rightarrow> header" where
  "sample_response flags = (new_request Read)\<lparr>hdr_flags := flags, hdr_message_id := 5, hdr_credits := 3\<rparr>"

definition sample_signing :: crypto_state where
  "sample_signing = crypto_state_new\<lparr>cs_signing_key := Some (replicate 16 1),
     cs_signing_algorithm := Some AesCmac, cs_should_sign := True\<rparr>"

lemma sample_conn_ok: "conn_ok sample_conn"
  by (auto simp: sample_conn_def inner_new_def conn_ok_def chan_ok_def gate_ok_def live_def new_waiter_def)

lemma sample_conn_simps:
  "find_waiter 5 sample_conn = Some (new_waiter 0 Read 0)"
  "in_credits sample_conn = pool_new counting_sem" "in_crypto sample_conn = crypto_state_new"
  by (simp_all add: sample_conn_def inner_new_def find_waiter_def)

lemma sample_response_parses:
  "\<not> hf_is_async flags \<Longrightarrow>
   run_reader unpack_header (header_bytes (sample_response flags) @ body) = Ok (sample_response flags)"
  by (rule run_header_packed) (simp add: wf_header_def sample_response_def new_request_def)

lemma sample_response_fields [simp]:
  "hdr_next_command (sample_response fl) = 0" "hdr_message_id (sample_response fl) = 5"
  "\<not> is_pending (hdr_status (sample_response fl))" "hdr_status (sample_response fl) \<noteq> STATUS_NETWORK_SESSION_EXPIRED"
  "hdr_flags (sample_response fl) = fl" "length (header_bytes (sample_response fl)) = 64" "5 \<noteq> UNSOLICITED"
  "avail counting_sem (pool_new counting_sem) + unat (hdr_credits (sample_response fl)) \<le> MAX_PERMITS"
  by (simp_all add: sample_response_def new_request_def UNSOLICITED_def is_pending_def status_defs
      pool_new_def counting_sem_def MAX_PERMITS_def)

lemma sample_flags [simp]: "\<not> hf_is_async HF_SERVER_TO_REDIR" "\<not> hf_is_signed HF_SERVER_TO_REDIR"
  by (simp_all add: hf_is_async_def hf_is_signed_def flag_contains_def HF_SERVER_TO_REDIR_def HF_ASYNC_COMMAND_def HF_SIGNED_def)

lemma sample_unsigned [simp]:
  "check_signature K sub enc h (in_crypto sample_conn) = Ok None"
  by (simp add: sample_conn_simps check_signature_def crypto_state_new_def)

lemma sample_prims_len: "prims_len sample_prims"
  by (auto simp: prims_len_def sample_prims_def split: if_split_asm)

lemma sample_prims_all: "prims_ok sample_prims"
  by (simp add: prims_ok_def sample_prims_ok)

text \<open>
  C7: Whatever bytes the server sends, encrypted, compressed, compounded or malformed, processing a
  frame does not panic, as long as the credit count stays below the limit of the semaphore.
\<close>

theorem receive_never_panics:
  assumes "prims_ok K" "prims_len K" "sem_laws S"
    "avail S (in_credits i) + 65535 * (length raw + 16777216) \<le> MAX_PERMITS"
  shows "process_frame K S now raw i \<noteq> Panic"
  using assms by (rule process_frame_no_panic)

theorem receive_never_panics_witness:
  "process_frame sample_prims counting_sem 7 [0xFD, 0x53, 0x4D, 0x42, 1, 2, 3] sample_conn \<noteq> Panic"
  by (rule receive_never_panics [OF sample_prims_all sample_prims_len counting_sem_laws])
    (simp add: sample_conn_simps pool_new_def counting_sem_def MAX_PERMITS_def)

text \<open>
  C9: A response on the wire for an outstanding request is delivered: its caller gets exactly that
  frame, the entry is gone, every other waiter is untouched, and the credits it carries are banked.
\<close>

theorem response_delivered:
  assumes "conn_ok i" "sem_laws S" "find_waiter m i = Some w"
    "run_reader unpack_header raw = Ok h" "hdr_next_command h = 0" "hdr_message_id h = m" "m \<noteq> UNSOLICITED"
    "\<not> is_pending (hdr_status h)" "hdr_status h \<noteq> STATUS_NETWORK_SESSION_EXPIRED"
    "check_signature K raw False h (in_crypto i) = Ok None"
    "avail S (in_credits i) + unat (hdr_credits h) \<le> MAX_PERMITS"
  shows "\<exists>j. process_frame K S now raw i = Ok (True, j) \<and>
    guard_recv \<lparr>wg_msg_id = m, wg_rx = wt_tx w\<rparr> j = Some (Ok \<lparr>fr_header = h, fr_body = drop 64 raw, fr_raw = raw\<rparr>) \<and>
    find_waiter m j = None \<and> (\<forall>m'. m' \<noteq> m \<longrightarrow> find_waiter m' j = find_waiter m' i) \<and>
    avail S (in_credits j) = avail S (in_credits i) + unat (hdr_credits h)"
  by (rule process_frame_delivers [OF assms, where now = now]) blast

theorem response_delivered_witness:
  "\<exists>j. process_frame sample_prims counting_sem 9 (header_bytes (sample_response HF_SERVER_TO_REDIR) @ [1, 2]) sample_conn = Ok (True, j) \<and>
     guard_recv \<lparr>wg_msg_id = 5, wg_rx = 0\<rparr> j = Some (Ok \<lparr>fr_header = sample_response HF_SERVER_TO_REDIR,
       fr_body = [1, 2], fr_raw = header_bytes (sample_response HF_SERVER_TO_REDIR) @ [1, 2]\<rparr>)"
  using response_delivered [OF sample_conn_ok counting_sem_laws sample_conn_simps(1) sample_response_parses [OF sample_flags(1)],
      of sample_prims "[1, 2]" 9]
  by (auto simp: sample_conn_simps(2) new_waiter_def)

text \<open>
  C3: What a caller receives as a response is genuine: it is the parse of bytes that carry the
  caller's own message id, it is not an interim response, and when the session signs, the frame was
  not encrypted and the response is marked as signed, its signature verifies under the session key.
\<close>

theorem delivered_frames_are_genuine:
  assumes "conn_ok i" "find_waiter m i = Some w" "process_frame K S now raw i = Ok (b, j)"
    "guard_recv \<lparr>wg_msg_id = m, wg_rx = wt_tx w\<rparr> j = Some (Ok fr)"
  shows "run_reader unpack_header (fr_raw fr) = Ok (fr_header fr) \<and> fr_body fr = drop 64 (fr_raw fr) \<and>
    hdr_message_id (fr_header fr) = m \<and> \<not> is_pending (hdr_status (fr_header fr)) \<and>
    (cs_should_sign (in_crypto i) \<and> cs_signing_key (in_crypto i) = Some k \<and> cs_signing_algorithm (in_crypto i) = Some a \<and>
       take 4 raw \<noteq> TRANSFORM_PROTOCOL_ID \<and> hf_is_signed (hdr_flags (fr_header fr)) \<longrightarrow>
     verify_signature K (fr_raw fr) k a m (hdr_command (fr_header fr) = Cancel) = Ok ())"
proof -
  let ?c = "wt_tx w"
  have live: "(m, ?c) \<in> set (senders i)"
    using assms(2) by (auto simp: find_waiter_def senders_def dest!: map_of_SomeD)
  then have "?c \<in> set (live (in_waiters i))" by (auto simp: senders_zip dest: set_zip_rightD)
  then have new: "(?c, x) \<notin> set (in_resolved i)" for x
    using assms(1) by (force simp: conn_ok_def chan_ok_def)
  have "(?c, Some (Ok fr)) \<in> set (in_resolved j)"
    using assms(4) by (auto simp: guard_recv_def dest!: map_of_SomeD split: option.split_asm)
  from process_frame_genuine [OF assms(3) this new] obtain m' where
    m': "(m', ?c) \<in> set (senders i)" "genuine K (take 4 raw = TRANSFORM_PROTOCOL_ID) (in_crypto i) m' fr" by blast
  have "distinct (map snd (senders i))" "distinct (map fst (senders i))"
    using assms(1) by (simp_all add: senders_def conn_ok_def chan_ok_def live_def comp_def split_def)
  then have "inj_on snd (set (senders i))" by (simp add: distinct_map)
  from inj_onD [OF this _ m'(1) live] have "m' = m" by simp
  with m'(2) show ?thesis
    by (auto simp: genuine_def check_signature_eq split: result.split_asm)
qed

theorem delivered_frames_are_genuine_witness:
  "\<exists>j fr. process_frame sample_prims counting_sem 9 (header_bytes (sample_response HF_SERVER_TO_REDIR) @ [1, 2]) sample_conn = Ok (True, j) \<and>
     guard_recv \<lparr>wg_msg_id = 5, wg_rx = 0\<rparr> j = Some (Ok fr) \<and> hdr_message_id (fr_header fr) = 5"
proof -
  let ?h = "sample_response HF_SERVER_TO_REDIR" and ?r = "header_bytes (sample_response HF_SERVER_TO_REDIR) @ [1, 2]"
  obtain j where j: "process_frame sample_prims counting_sem 9 ?r sample_conn = Ok (True, j)"
    "guard_recv \<lparr>wg_msg_id = 5, wg_rx = wt_tx (new_waiter 0 Read 0)\<rparr> j =
       Some (Ok \<lparr>fr_header = ?h, fr_body = drop 64 ?r, fr_raw = ?r\<rparr>)"
    by (rule process_frame_delivers [OF sample_conn_ok counting_sem_laws sample_conn_simps(1) sample_response_parses [OF sample_flags(1)]])
      (simp_all add: sample_conn_simps(2))
  with delivered_frames_are_genuine [OF sample_conn_ok sample_conn_simps(1) j] show ?thesis
    by (intro exI [of _ j]) (simp add: new_waiter_def)
qed

text \<open>
  C39: A session that signs accepts unsigned responses: when the signing key is in place and a
  plaintext response for an outstanding request does not carry the SIGNED flag, its caller
  gets it with no signature checked at all.
\<close>

theorem unsigned_response_accepted:
  assumes "conn_ok i" "sem_laws S" "find_waiter m i = Some w"
    "cs_should_sign (in_crypto i)" "cs_signing_key (in_crypto i) = Some k" "cs_signing_algorithm (in_crypto i) = Some a"
    "wf_header h" "hdr_next_command h = 0" "hdr_message_id h = m" "m \<noteq> UNSOLICITED"
    "\<not> hf_is_signed (hdr_flags h)"
    "\<not> is_pending (hdr_status h)" "hdr_status h \<noteq> STATUS_NETWORK_SESSION_EXPIRED"
    "avail S (in_credits i) + unat (hdr_credits h) \<le> MAX_PERMITS"
  shows "\<exists>j. process_frame K S now (header_bytes h @ body) i = Ok (True, j) \<and>
    guard_recv \<lparr>wg_msg_id = m, wg_rx = wt_tx w\<rparr> j =
      Some (Ok \<lparr>fr_header = h, fr_body = body, fr_raw = header_bytes h @ body\<rparr>)"
proof -
  let ?r = "header_bytes h @ body"
  have p: "run_reader unpack_header ?r = Ok h" by (rule run_header_packed [OF assms(7)])
  have c: "check_signature K ?r False h (in_crypto i) = Ok None"
    using check_signature_eq [OF p assms(12,4,5,6)] assms(11) by simp
  have "drop 64 ?r = body" using assms(7) by (simp add: wf_header_def)
  then show ?thesis
    using process_frame_delivers [OF assms(1-3) p assms(8-10,12,13) c assms(14)] by metis
qed

theorem unsigned_response_accepted_witness:
  "\<exists>j. process_frame sample_prims counting_sem 9 (header_bytes (sample_response HF_SERVER_TO_REDIR) @ [6])
       (sample_conn\<lparr>in_crypto := sample_signing\<rparr>) = Ok (True, j) \<and>
     guard_recv \<lparr>wg_msg_id = 5, wg_rx = wt_tx (new_waiter 0 Read 0)\<rparr> j = Some (Ok \<lparr>fr_header = sample_response HF_SERVER_TO_REDIR,
       fr_body = [6], fr_raw = header_bytes (sample_response HF_SERVER_TO_REDIR) @ [6]\<rparr>)"
proof -
  let ?i = "sample_conn\<lparr>in_crypto := sample_signing\<rparr>"
  have "conn_ok ?i" "find_waiter 5 ?i = Some (new_waiter 0 Read 0)" "in_credits ?i = pool_new counting_sem"
    using sample_conn_ok sample_conn_simps by (simp_all add: conn_ok_def find_waiter_def gate_ok_def chan_ok_def)
  moreover have "wf_header (sample_response HF_SERVER_TO_REDIR)"
    by (simp add: wf_header_def sample_response_def new_request_def)
  ultimately show ?thesis
    by (intro unsigned_response_accepted [OF _ counting_sem_laws]) (simp_all add: sample_signing_def)
qed

text \<open>
  Routing a batch of responses moves the four response counters by exactly the number of
  responses: each is counted once, as delivered, as an error, as late or as stray.
\<close>

lemma responses_counted_once:
  "routed_total (in_metrics (fold route rs i)) = routed_total (in_metrics i) + word_of_nat (length rs)"
  by (rule fold_route_counts)

end
