(* ===== verification/Smb_Send.thy ===== *)
theory Smb_Send
  imports Smb_Delivery
begin

text \<open>
  The send path of \<open>src/client/connection.rs\<close>: credit reservation, the request header, signing,
  encryption and compression of the frame, the writer task, \<open>dispatch\<close>, compounds and CANCEL,
  and the operations that change the session (activation, teardown, a fresh transport).

  An operation that can fail returns its result together with the state, because it also
  changes the state when it fails: a reservation and a waiter guard that go out of scope are
  dropped. What the transport does with a frame is the argument \<open>net\<close>.
\<close>

section \<open>Session state\<close>

definition set_session_id :: "session_id \<Rightarrow> 's inner \<Rightarrow> 's inner" where
  "set_session_id sid i = i\<lparr>in_crypto := (in_crypto i)\<lparr>cs_session_id := sid\<rparr>\<rparr>"

definition activate_signing :: "bytes \<Rightarrow> signing_algorithm \<Rightarrow> 's inner \<Rightarrow> 's inner" where
  "activate_signing key algorithm i = i\<lparr>in_crypto := (in_crypto i)\<lparr>
     cs_signing_key := Some key, cs_signing_algorithm := Some algorithm, cs_should_sign := True\<rparr>\<rparr>"

definition activate_encryption :: "bytes \<Rightarrow> bytes \<Rightarrow> cipher \<Rightarrow> 's inner \<Rightarrow> 's inner" where
  "activate_encryption enc_key dec_key cipher i = i\<lparr>in_crypto := (in_crypto i)\<lparr>
     cs_encryption_key := Some enc_key, cs_decryption_key := Some dec_key,
     cs_encryption_cipher := Some cipher, cs_nonce_gen := Some nonce_generator_new, cs_should_encrypt := True\<rparr>\<rparr>"

definition register_dfs_tree :: "tree_id \<Rightarrow> 's inner \<Rightarrow> 's inner" where
  "register_dfs_tree t i = i\<lparr>in_dfs_trees := List.insert t (in_dfs_trees i)\<rparr>"

definition deregister_dfs_tree :: "tree_id \<Rightarrow> 's inner \<Rightarrow> 's inner" where
  "deregister_dfs_tree t i = i\<lparr>in_dfs_trees := removeAll t (in_dfs_trees i)\<rparr>"

definition should_set_dfs_flag :: "tree_id option \<Rightarrow> 's inner \<Rightarrow> bool" where
  "should_set_dfs_flag tree i = (case tree of None \<Rightarrow> False | Some t \<Rightarrow> t \<in> set (in_dfs_trees i))"

definition register_oplock :: "file_id \<Rightarrow> tree_id \<Rightarrow> 's inner \<Rightarrow> 's inner" where
  "register_oplock f t i = i\<lparr>in_oplock_trees := AList.update f t (in_oplock_trees i)\<rparr>"

definition forget_oplock :: "file_id \<Rightarrow> 's inner \<Rightarrow> 's inner" where
  "forget_oplock f i = i\<lparr>in_oplock_trees := AList.delete f (in_oplock_trees i)\<rparr>"

definition mark_dead :: "'s sem_ops \<Rightarrow> 's inner \<Rightarrow> 's inner" where
  "mark_dead S i = fan_error_to_waiters S Disconnected i"

text \<open>The state part of \<open>install_transport\<close>; the channels and tasks it rebuilds are not modelled.\<close>

definition install_transport :: "'s sem_ops \<Rightarrow> 's inner \<Rightarrow> 's inner" where
  "install_transport S i =
     (let i1 = fan_error_to_waiters S Disconnected i in
      i1\<lparr>in_credits := pool_reset S (in_credits i1),
         in_next_message_id := 0,
         in_previous_session_id := cs_session_id (in_crypto i1),
         in_crypto := crypto_state_new,
         in_preauth_hasher := preauth_new,
         in_params := None,
         in_last_frame_at := None,
         in_abandoned := [],
         in_dfs_trees := [],
         in_oplock_trees := [],
         in_compression_enabled := False,
         in_disconnected := False\<rparr>)"

section \<open>Credits\<close>

text \<open>
  \<open>reserve_credits\<close> up to its wait: the credits are there, the send fails at once, or it has to
  wait. \<open>reserve_recheck\<close> is what the wait loop does when its timer fires without a grant.
\<close>

datatype reserve_outcome = Reserved credit_reservation | Refused error | MustWait

definition starvation :: "'s sem_ops \<Rightarrow> u16 \<Rightarrow> duration \<Rightarrow> 's inner \<Rightarrow> error" where
  "starvation S charge waited i = CreditStarvation charge (pool_available S (in_credits i)) waited"

definition reserve_credits :: "'s sem_ops \<Rightarrow> u16 \<Rightarrow> 's inner \<Rightarrow> reserve_outcome \<times> 's inner" where
  "reserve_credits S charge i =
     (case try_reserve S charge (in_credits i) of
        (True, p) \<Rightarrow> (Reserved (reservation_new charge), i\<lparr>in_credits := p\<rparr>)
      | (False, p) \<Rightarrow>
          let i1 = i\<lparr>in_credits := p\<rparr> in
          if pool_is_closed S (in_credits i1) \<or> in_disconnected i1 then (Refused Disconnected, i1)
          else if in_waiters i1 = [] then (Refused (starvation S charge 0 i1), i1)
          else (MustWait, bump m_credit_waits_update i1))"

definition reserve_recheck ::
    "'s sem_ops \<Rightarrow> u16 \<Rightarrow> instant \<Rightarrow> instant \<Rightarrow> instant \<Rightarrow> 's inner \<Rightarrow> reserve_outcome \<times> 's inner" where
  "reserve_recheck S charge started deadline now i =
     (if in_waiters i = [] \<or> now \<ge> deadline then
        (Refused (starvation S charge (now - started) i), bump m_credit_starvations_update i)
      else (MustWait, i))"

definition drop_reservation :: "'s sem_ops \<Rightarrow> credit_reservation \<Rightarrow> 's inner \<Rightarrow> 's inner res" where
  "drop_reservation S r i = result_bind (reservation_drop S r (in_credits i)) (\<lambda>p. Ok (i\<lparr>in_credits := p\<rparr>))"

section \<open>The frame\<close>

definition encrypt_bytes :: "crypto_prims \<Rightarrow> bytes \<Rightarrow> 's inner \<Rightarrow> bytes res \<times> 's inner" where
  "encrypt_bytes K plaintext i =
     (let c = in_crypto i in
      case cs_encryption_key c of
        None \<Rightarrow> (Err (InvalidData (Malformed ''encryption active but no encryption key'' [])), i)
      | Some enc_key \<Rightarrow>
      (case cs_encryption_cipher c of
         None \<Rightarrow> (Err (InvalidData (Malformed ''encryption active but no cipher'' [])), i)
       | Some cipher \<Rightarrow>
      (case cs_nonce_gen c of
         None \<Rightarrow> (Err (InvalidData (Malformed ''encryption active but no nonce generator'' [])), i)
       | Some gen \<Rightarrow>
      (case nonce_next gen of
         Panic \<Rightarrow> (Panic, i)
       | Err e \<Rightarrow> (Err e, i)
       | Ok (nonce, gen') \<Rightarrow>
           let i1 = i\<lparr>in_crypto := c\<lparr>cs_nonce_gen := Some gen'\<rparr>\<rparr> in
           (result_bind (encrypt_message K plaintext enc_key cipher nonce (cs_session_id c))
              (\<lambda>(transform_header, ciphertext). Ok (transform_header @ ciphertext)), i1)))))"

definition request_header ::
    "'s sem_ops \<Rightarrow> command \<Rightarrow> tree_id option \<Rightarrow> u16 \<Rightarrow> message_id \<Rightarrow> 's inner \<Rightarrow> header" where
  "request_header S command tree charge msg_id i =
     (let h = (new_request command)\<lparr>
            hdr_message_id := msg_id,
            hdr_credits := request_for S charge (in_credits i),
            hdr_credit_charge := charge,
            hdr_session_id := cs_session_id (in_crypto i)\<rparr>;
          h = (case tree of Some t \<Rightarrow> h\<lparr>hdr_tree_id := Some t\<rparr> | None \<Rightarrow> h);
          c = in_crypto i;
          h = (if cs_should_sign c \<and> \<not> cs_should_encrypt c
               then h\<lparr>hdr_flags := hf_set_signed (hdr_flags h)\<rparr> else h)
      in if should_set_dfs_flag tree i then h\<lparr>hdr_flags := hdr_flags h OR HF_DFS_OPERATIONS\<rparr> else h)"

definition sign_if_active :: "crypto_prims \<Rightarrow> bytes \<Rightarrow> message_id \<Rightarrow> bool \<Rightarrow> crypto_state \<Rightarrow> bytes res" where
  "sign_if_active K msg_bytes msg_id is_cancel c =
     (if cs_should_sign c then
        (case (cs_signing_key c, cs_signing_algorithm c) of
           (Some key, Some algo) \<Rightarrow> sign_message K msg_bytes key algo msg_id is_cancel
         | _ \<Rightarrow> Ok msg_bytes)
      else Ok msg_bytes)"

text \<open>
  The bytes that go out: encrypted, or signed and then compressed when that helps. \<open>compress\<close> is
  False for the variant that captures the request of SESSION_SETUP, which never compresses.
\<close>

definition wire_form ::
    "crypto_prims \<Rightarrow> bool \<Rightarrow> bytes \<Rightarrow> message_id \<Rightarrow> 's inner \<Rightarrow> bytes res \<times> 's inner" where
  "wire_form K compress msg_bytes msg_id i =
     (if cs_should_encrypt (in_crypto i) then encrypt_bytes K msg_bytes i
      else
        (result_bind (sign_if_active K msg_bytes msg_id False (in_crypto i)) (\<lambda>signed.
           if compress \<and> in_compression_enabled i \<and> length signed > header_SIZE then
             (case compress_message K signed header_SIZE of
                Some compressed \<Rightarrow> build_compressed_frame compressed
              | None \<Rightarrow> Ok signed)
           else Ok signed), i))"

section \<open>The writer task\<close>

text \<open>
  What became of a job: the queue had no reader, the reader died before it answered, or the
  transport's \<open>send\<close> (under the send timeout) returned.
\<close>

datatype write_outcome = WriterGone | WriterDied | Wrote "unit res"

fun is_fatal :: "unit res \<Rightarrow> bool" where
  "is_fatal (Err (SendTimeout _ _ _)) = True"
| "is_fatal (Err (Io _)) = True"
| "is_fatal _ = False"

definition writer_job :: "'s sem_ops \<Rightarrow> unit res \<Rightarrow> 's inner \<Rightarrow> 's inner" where
  "writer_job S r i =
     (if is_fatal r then fan_error_to_waiters S Disconnected (bump m_send_failures_update i) else i)"

definition send_and_count ::
    "'s sem_ops \<Rightarrow> write_outcome \<Rightarrow> bytes \<Rightarrow> 's inner \<Rightarrow> unit res \<times> 's inner" where
  "send_and_count S outcome bs i =
     (case outcome of
        WriterGone \<Rightarrow> (Err Disconnected, i)
      | WriterDied \<Rightarrow> (Err Disconnected, i)
      | Wrote r \<Rightarrow>
          let i1 = writer_job S r i in
          (case r of
             Ok _ \<Rightarrow>
               (Ok (), i1\<lparr>in_metrics := m_wire_bytes_sent_update (\<lambda>n. n + word_of_nat (length bs)) (in_metrics i1),
                          in_wire := bs # in_wire i1\<rparr>)
           | _ \<Rightarrow> (r, i1)))"

section \<open>Requests\<close>

text \<open>
  The error exits of \<open>dispatch_reserved\<close> and \<open>execute_with_credits_inner\<close>: the guard, when there is
  one, deregisters the waiter, then the reservation is refunded.
\<close>

definition abort_send ::
    "'s sem_ops \<Rightarrow> waiter_guard option \<Rightarrow> credit_reservation \<Rightarrow> error \<Rightarrow> 's inner \<Rightarrow> 'a res \<times> 's inner" where
  "abort_send S g r e i =
     (let i1 = (case g of Some g \<Rightarrow> guard_drop g i | None \<Rightarrow> i) in
      case drop_reservation S r i1 of
        Ok i2 \<Rightarrow> (Err e, i2)
      | Err e' \<Rightarrow> (Err e', i1)
      | Panic \<Rightarrow> (Panic, i1))"

text \<open>
  The common part of the three single-request paths, from \<open>allocate_msg_id\<close> on; \<open>send_registered\<close> is
  its second half, after \<open>register_waiter\<close>. \<open>compress\<close> as above; \<open>remove\<close> says that a failed send
  calls \<open>remove_waiter\<close> before the guard is dropped.
\<close>

definition send_registered ::
    "crypto_prims \<Rightarrow> 's sem_ops \<Rightarrow> (bytes \<Rightarrow> write_outcome) \<Rightarrow> instant \<Rightarrow> bool \<Rightarrow> bool \<Rightarrow> bytes \<Rightarrow> waiter_guard \<Rightarrow>
     credit_reservation \<Rightarrow> 's inner \<Rightarrow> (waiter_guard \<times> bytes) res \<times> 's inner" where
  "send_registered K S net now compress remove msg_bytes g r i =
     (case wire_form K compress msg_bytes (wg_msg_id g) i of
        (Panic, i1) \<Rightarrow> (Panic, i1)
      | (Err e, i1) \<Rightarrow> abort_send S (Some g) r e i1
      | (Ok wire, i1) \<Rightarrow>
          (case send_and_count S (net wire) wire i1 of
             (Panic, i2) \<Rightarrow> (Panic, i2)
           | (Err e, i2) \<Rightarrow> abort_send S (Some g) r e (if remove then remove_waiter (wg_msg_id g) i2 else i2)
           | (Ok _, i2) \<Rightarrow> (Ok (g, msg_bytes), mark_sent now [wg_msg_id g] i2)))"

definition send_allocated ::
    "crypto_prims \<Rightarrow> 's sem_ops \<Rightarrow> (bytes \<Rightarrow> write_outcome) \<Rightarrow> instant \<Rightarrow> bool \<Rightarrow> bool \<Rightarrow> command \<Rightarrow> unit writer \<Rightarrow>
     tree_id option \<Rightarrow> u16 \<Rightarrow> credit_reservation \<Rightarrow> 's inner \<Rightarrow> (waiter_guard \<times> bytes) res \<times> 's inner" where
  "send_allocated K S net now compress remove command body tree charge r i =
     (let (msg_id, i1) = allocate_msg_id (ucast charge) i in
      case pack_message (request_header S command tree charge msg_id i1) body of
        Panic \<Rightarrow> (Panic, i1)
      | Err e \<Rightarrow> abort_send S None r e i1
      | Ok msg_bytes \<Rightarrow>
          (case register_waiter now msg_id command i1 of
             Panic \<Rightarrow> (Panic, i1)
           | Err e \<Rightarrow> abort_send S None r e i1
           | Ok (g, i2) \<Rightarrow> send_registered K S net now compress remove msg_bytes g r i2))"

definition map_fst_res :: "('a \<Rightarrow> 'b) \<Rightarrow> 'a res \<times> 's \<Rightarrow> 'b res \<times> 's" where
  "map_fst_res f rs = (result_bind (fst rs) (\<lambda>x. Ok (f x)), snd rs)"

definition dispatch_reserved ::
    "crypto_prims \<Rightarrow> 's sem_ops \<Rightarrow> (bytes \<Rightarrow> write_outcome) \<Rightarrow> instant \<Rightarrow> command \<Rightarrow> unit writer \<Rightarrow> tree_id option \<Rightarrow>
     u16 \<Rightarrow> credit_reservation \<Rightarrow> 's inner \<Rightarrow> waiter_guard res \<times> 's inner" where
  "dispatch_reserved K S net now command body tree charge r i =
     (if in_disconnected i then abort_send S None r Disconnected i
      else map_fst_res fst (send_allocated K S net now True False command body tree charge r i))"

text \<open>
  The entry points, when the credits are on hand; \<open>None\<close> where they would wait. The two \<open>execute\<close>
  variants are their send halves: the rest is \<open>await_response\<close> on the guard.
\<close>

definition with_credits ::
    "'s sem_ops \<Rightarrow> u16 \<Rightarrow> (u16 \<Rightarrow> credit_reservation \<Rightarrow> 's inner \<Rightarrow> 'a res \<times> 's inner) \<Rightarrow> 's inner \<Rightarrow>
     ('a res \<times> 's inner) option" where
  "with_credits S credit_charge send i =
     (if in_disconnected i then Some (Err Disconnected, i)
      else
        let charge = max credit_charge 1 in
        case reserve_credits S charge i of
          (Reserved r, i1) \<Rightarrow> Some (send charge r i1)
        | (Refused e, i1) \<Rightarrow> Some (Err e, i1)
        | (MustWait, i1) \<Rightarrow> None)"

definition dispatch_with_credits ::
    "crypto_prims \<Rightarrow> 's sem_ops \<Rightarrow> (bytes \<Rightarrow> write_outcome) \<Rightarrow> instant \<Rightarrow> command \<Rightarrow> unit writer \<Rightarrow> tree_id option \<Rightarrow>
     u16 \<Rightarrow> 's inner \<Rightarrow> (waiter_guard res \<times> 's inner) option" where
  "dispatch_with_credits K S net now command body tree credit_charge =
     with_credits S credit_charge (dispatch_reserved K S net now command body tree)"

definition execute_with_credits_send ::
    "crypto_prims \<Rightarrow> 's sem_ops \<Rightarrow> (bytes \<Rightarrow> write_outcome) \<Rightarrow> instant \<Rightarrow> command \<Rightarrow> unit writer \<Rightarrow> tree_id option \<Rightarrow>
     u16 \<Rightarrow> 's inner \<Rightarrow> (waiter_guard res \<times> 's inner) option" where
  "execute_with_credits_send K S net now command body tree credit_charge =
     with_credits S credit_charge (\<lambda>charge r i.
       map_fst_res fst (send_allocated K S net now True True command body tree charge r i))"

definition execute_capturing_send ::
    "crypto_prims \<Rightarrow> 's sem_ops \<Rightarrow> (bytes \<Rightarrow> write_outcome) \<Rightarrow> instant \<Rightarrow> command \<Rightarrow> unit writer \<Rightarrow> tree_id option \<Rightarrow>
     u16 \<Rightarrow> 's inner \<Rightarrow> ((waiter_guard \<times> bytes) res \<times> 's inner) option" where
  "execute_capturing_send K S net now command body tree credit_charge =
     with_credits S credit_charge (send_allocated K S net now False False command body tree)"

section \<open>Compounds\<close>

record compound_op =
  co_command :: command
  co_body :: "unit writer"
  co_tree_id :: "tree_id option"
  co_credit_charge :: u16

definition compound_op_new :: "command \<Rightarrow> unit writer \<Rightarrow> tree_id option \<Rightarrow> compound_op" where
  "compound_op_new command body tree =
     \<lparr>co_command = command, co_body = body, co_tree_id = tree, co_credit_charge = 1\<rparr>"

definition compound_charge :: "compound_op list \<Rightarrow> u16" where
  "compound_charge ops = foldl saturating_add_u16 0 (map (\<lambda>op. max (co_credit_charge op) 1) ops)"

definition compound_header ::
    "'s sem_ops \<Rightarrow> bool \<Rightarrow> compound_op \<Rightarrow> u16 \<Rightarrow> message_id \<Rightarrow> 's inner \<Rightarrow> header" where
  "compound_header S related op charge msg_id i =
     (let c = in_crypto i;
          h = (new_request (co_command op))\<lparr>
            hdr_message_id := msg_id,
            hdr_credits := request_for S charge (in_credits i),
            hdr_credit_charge := charge,
            hdr_session_id := cs_session_id c,
            hdr_tree_id := co_tree_id op\<rparr>;
          h = (if related then h\<lparr>hdr_flags := hf_set_related (hdr_flags h)\<rparr> else h);
          h = (if cs_should_sign c \<and> \<not> cs_should_encrypt c
               then h\<lparr>hdr_flags := hf_set_signed (hdr_flags h)\<rparr> else h)
      in if should_set_dfs_flag (co_tree_id op) i then h\<lparr>hdr_flags := hdr_flags h OR HF_DFS_OPERATIONS\<rparr> else h)"

text \<open>The first loop: an id, a header and a packed sub-request per operation.\<close>

fun build_sub_requests ::
    "'s sem_ops \<Rightarrow> bool \<Rightarrow> compound_op list \<Rightarrow> 's inner \<Rightarrow> (message_id \<times> bytes) list res \<times> 's inner" where
  "build_sub_requests S related [] i = (Ok [], i)"
| "build_sub_requests S related (op # ops) i =
     (let charge = max (co_credit_charge op) 1;
          (msg_id, i1) = allocate_msg_id (ucast charge) i
      in case pack_message (compound_header S related op charge msg_id i1) (co_body op) of
           Panic \<Rightarrow> (Panic, i1)
         | Err e \<Rightarrow> (Err e, i1)
         | Ok sub \<Rightarrow>
             (case build_sub_requests S True ops i1 of
                (Ok rest, i2) \<Rightarrow> (Ok ((msg_id, sub) # rest), i2)
              | (Err e, i2) \<Rightarrow> (Err e, i2)
              | (Panic, i2) \<Rightarrow> (Panic, i2)))"

fun sign_all :: "crypto_prims \<Rightarrow> crypto_state \<Rightarrow> (message_id \<times> bytes) list \<Rightarrow> bytes list res" where
  "sign_all K c [] = Ok []"
| "sign_all K c ((m, sub) # rest) =
     result_bind (sign_if_active K sub m False c) (\<lambda>s. result_bind (sign_all K c rest) (\<lambda>ss. Ok (s # ss)))"

text \<open>One guard per sub-operation; a failed registration drops the guards made so far.\<close>

fun register_all ::
    "instant \<Rightarrow> (message_id \<times> command) list \<Rightarrow> waiter_guard list \<Rightarrow> 's inner \<Rightarrow> waiter_guard list res \<times> 's inner" where
  "register_all now [] gs i = (Ok gs, i)"
| "register_all now ((m, c) # rest) gs i =
     (case register_waiter now m c i of
        Ok (g, i1) \<Rightarrow> register_all now rest (gs @ [g]) i1
      | Err e \<Rightarrow> (Err e, fold guard_drop gs i)
      | Panic \<Rightarrow> (Panic, i))"

definition send_compound ::
    "crypto_prims \<Rightarrow> 's sem_ops \<Rightarrow> (bytes \<Rightarrow> write_outcome) \<Rightarrow> instant \<Rightarrow> compound_op list \<Rightarrow> credit_reservation \<Rightarrow>
     's inner \<Rightarrow> waiter_guard list res \<times> 's inner" where
  "send_compound K S net now ops r i =
     (let c = in_crypto i; should_encrypt = cs_should_encrypt c in
      case build_sub_requests S False ops i of
        (Panic, i1) \<Rightarrow> (Panic, i1)
      | (Err e, i1) \<Rightarrow> abort_send S None r e i1
      | (Ok subs, i1) \<Rightarrow>
      (case result_bind (layout_compound (map snd subs)) (\<lambda>fs.
              if should_encrypt then Ok fs else sign_all K c (zip (map fst subs) fs)) of
         Panic \<Rightarrow> (Panic, i1)
       | Err e \<Rightarrow> abort_send S None r e i1
       | Ok fs \<Rightarrow>
      (case register_all now (zip (map fst subs) (map co_command ops)) [] i1 of
         (Panic, i2) \<Rightarrow> (Panic, i2)
       | (Err e, i2) \<Rightarrow> abort_send S None r e i2
       | (Ok gs, i2) \<Rightarrow>
      (case (if should_encrypt then encrypt_bytes K (concat fs) i2 else (Ok (concat fs), i2)) of
         (Panic, i3) \<Rightarrow> (Panic, i3)
       | (Err e, i3) \<Rightarrow> abort_send S None r e (fold guard_drop gs i3)
       | (Ok wire, i3) \<Rightarrow>
      (case send_and_count S (net wire) wire i3 of
         (Panic, i4) \<Rightarrow> (Panic, i4)
       | (Err e, i4) \<Rightarrow> abort_send S None r e (fold guard_drop gs i4)
       | (Ok _, i4) \<Rightarrow> (Ok gs, mark_sent now (map fst subs) i4))))))"

definition execute_compound_send ::
    "crypto_prims \<Rightarrow> 's sem_ops \<Rightarrow> (bytes \<Rightarrow> write_outcome) \<Rightarrow> instant \<Rightarrow> compound_op list \<Rightarrow> 's inner \<Rightarrow>
     (waiter_guard list res \<times> 's inner) option" where
  "execute_compound_send K S net now ops i0 =
     (let i = bump m_compound_requests_sent_update i0 in
      if ops = [] then
        Some (Err (InvalidData (Malformed ''compound request must have at least one operation'' [])), i)
      else if in_disconnected i then Some (Err Disconnected, i)
      else case reserve_credits S (compound_charge ops) i of
        (Reserved r, i1) \<Rightarrow> Some (send_compound K S net now ops r i1)
      | (Refused e, i1) \<Rightarrow> Some (Err e, i1)
      | (MustWait, i1) \<Rightarrow> None)"

section \<open>CANCEL and the keepalive probe\<close>

definition send_cancel ::
    "crypto_prims \<Rightarrow> 's sem_ops \<Rightarrow> (bytes \<Rightarrow> write_outcome) \<Rightarrow> message_id \<Rightarrow> u64 option \<Rightarrow> 's inner \<Rightarrow>
     unit res \<times> 's inner" where
  "send_cancel K S net original_msg_id async_id i0 =
     (let i = bump m_explicit_cancels_sent_update i0;
          c = in_crypto i;
          h = (new_request Cancel)\<lparr>hdr_message_id := original_msg_id, hdr_credit_charge := 0, hdr_credits := 0,
                hdr_session_id := cs_session_id c\<rparr>;
          h = (case async_id of
                 Some aid \<Rightarrow> h\<lparr>hdr_flags := hf_set_async (hdr_flags h), hdr_async_id := Some aid, hdr_tree_id := None\<rparr>
               | None \<Rightarrow> h);
          h = (if cs_should_sign c \<and> \<not> cs_should_encrypt c
               then h\<lparr>hdr_flags := hf_set_signed (hdr_flags h)\<rparr> else h)
      in case pack_message h (pack_trivial ()) of
           Panic \<Rightarrow> (Panic, i)
         | Err e \<Rightarrow> (Err e, i)
         | Ok msg_bytes \<Rightarrow>
             (case (if cs_should_encrypt c then encrypt_bytes K msg_bytes i
                    else (sign_if_active K msg_bytes original_msg_id True c, i)) of
                (Panic, i1) \<Rightarrow> (Panic, i1)
              | (Err e, i1) \<Rightarrow> (Err e, i1)
              | (Ok wire, i1) \<Rightarrow> send_and_count S (net wire) wire i1))"

text \<open>
  \<open>echo_probe\<close> up to the wait for the answer, and the reading of what the wait brought: \<open>None\<close> is
  the elapsed budget. \<open>in_disconnected\<close> is read again after a failed dispatch.
\<close>

datatype probe_outcome = Alive | Silent | Skipped | Broken

datatype probe_start = ProbeDone probe_outcome | ProbeSent waiter_guard

definition echo_probe_send ::
    "crypto_prims \<Rightarrow> 's sem_ops \<Rightarrow> (bytes \<Rightarrow> write_outcome) \<Rightarrow> instant \<Rightarrow> 's inner \<Rightarrow> probe_start res \<times> 's inner" where
  "echo_probe_send K S net now i =
     (if in_disconnected i then (Ok (ProbeDone Broken), i)
      else case try_reserve S 1 (in_credits i) of
        (False, p) \<Rightarrow>
          (Ok (ProbeDone Skipped), bump m_keepalive_probes_skipped_update (i\<lparr>in_credits := p\<rparr>))
      | (True, p) \<Rightarrow>
          (case dispatch_reserved K S net now Echo (pack_trivial ()) None 1 (reservation_new 1)
                  (i\<lparr>in_credits := p\<rparr>) of
             (Ok g, j) \<Rightarrow> (Ok (ProbeSent g), bump m_keepalive_probes_sent_update j)
           | (Err e, j) \<Rightarrow>
               if in_disconnected j then (Ok (ProbeDone Broken), j)
               else (Ok (ProbeDone Skipped), bump m_keepalive_probes_skipped_update j)
           | (Panic, j) \<Rightarrow> (Panic, j)))"

fun echo_probe_result :: "frame res option \<Rightarrow> 's inner \<Rightarrow> probe_outcome \<times> 's inner" where
  "echo_probe_result (Some (Err Disconnected)) i = (Broken, i)"
| "echo_probe_result (Some (Err (ServerUnresponsive _))) i = (Broken, i)"
| "echo_probe_result (Some _) i = (Alive, i)"
| "echo_probe_result None i = (Silent, bump m_keepalive_failures_update i)"

text \<open>Whether a round of \<open>keepalive_loop\<close> sends a probe, after it forgave a stall.\<close>

definition keepalive_due :: "instant \<Rightarrow> 's inner \<Rightarrow> bool" where
  "keepalive_due now i =
     (case in_keepalive_after i of
        None \<Rightarrow> False
      | Some after \<Rightarrow> (case quiet_for now i of Some quiet \<Rightarrow> quiet \<ge> after | None \<Rightarrow> False))"

end
