(* ===== verification/Smb_Peer.thy ===== *)
theory Smb_Peer
  imports Smb_Send Smb_Msg_Create
begin

text \<open>
  The interface between a \<open>Connection\<close> and the operations built on it (\<open>src/client/tree.rs\<close>,
  \<open>stream.rs\<close>, \<open>copy.rs\<close>): \<open>execute\<close>, \<open>execute_with_credits\<close>, \<open>execute_compound\<close> and the
  futures that a pipelined loop keeps in flight.

  Everything an operation can observe of the connection, the network and the server is a
  \<open>peer\<close>: what a request sent after a given history is answered with, and which of the
  requests in flight completes next. The answers may depend on the whole history, so a statement
  for all peers covers every server and every schedule. An operation is a computation over the
  history; the history survives an error, so what was sent before a failure can be stated.
\<close>

section \<open>Requests, events and peers\<close>

text \<open>The body of a request; \<open>&dyn Pack\<close> in the source.\<close>

datatype body =
    TreeConnectB tree_connect_request
  | TreeDisconnectB
  | CreateB create_request
  | CloseB close_request
  | FlushB flush_request
  | ReadB read_request
  | WriteB write_request
  | QueryInfoB query_info_request
  | SetInfoB set_info_request
  | QueryDirectoryB query_directory_request
  | IoctlB ioctl_request
  | ChangeNotifyB change_notify_request

text \<open>The \<open>Command\<close> that every caller passes next to such a body.\<close>

fun body_command :: "body \<Rightarrow> command" where
  "body_command (TreeConnectB _) = TreeConnect"
| "body_command TreeDisconnectB = TreeDisconnect"
| "body_command (CreateB _) = Create"
| "body_command (CloseB _) = Close"
| "body_command (FlushB _) = Flush"
| "body_command (ReadB _) = Read"
| "body_command (WriteB _) = Write"
| "body_command (QueryInfoB _) = QueryInfo"
| "body_command (SetInfoB _) = SetInfo"
| "body_command (QueryDirectoryB _) = QueryDirectory"
| "body_command (IoctlB _) = Ioctl"
| "body_command (ChangeNotifyB _) = ChangeNotify"

record request =
  rq_body :: body
  rq_tree :: "tree_id option"
  rq_charge :: u16

datatype event =
    Sent request
  | SentCompound "request list"
  | Launched request
      \<comment> \<open>a future pushed onto a set of futures\<close>
  | Completed request
  | OplockForgotten file_id
  | OplockRegistered file_id tree_id
  | DfsRegistered tree_id
  | DfsDeregistered tree_id

type_synonym history = "event list"

record peer =
  pe_params :: "negotiated_params option"
  pe_server_name :: rstring
  pe_answer :: "history \<Rightarrow> request \<Rightarrow> frame res"
  pe_answers :: "history \<Rightarrow> request list \<Rightarrow> frame res list res"
  pe_next :: "history \<Rightarrow> nat"

section \<open>Computations\<close>

type_synonym 'a act = "history \<Rightarrow> 'a res \<times> history"

definition aret :: "'a \<Rightarrow> 'a act" where
  "aret x h = (Ok x, h)"

definition alift :: "'a res \<Rightarrow> 'a act" where
  "alift r h = (r, h)"

text \<open>The \<open>?\<close> operator after an \<open>await\<close>.\<close>

definition abind :: "'a act \<Rightarrow> ('a \<Rightarrow> 'b act) \<Rightarrow> 'b act" where
  "abind m f h =
     (case m h of (Ok x, h') \<Rightarrow> f x h' | (Err e, h') \<Rightarrow> (Err e, h') | (Panic, h') \<Rightarrow> (Panic, h'))"

text \<open>An \<open>await\<close> whose result is kept for later: \<open>let result = \<dots>.await;\<close>.\<close>

definition attempt :: "'a act \<Rightarrow> 'a res act" where
  "attempt m h = (case m h of (Panic, h') \<Rightarrow> (Panic, h') | (r, h') \<Rightarrow> (Ok r, h'))"

definition emit :: "event \<Rightarrow> unit act" where
  "emit e h = (Ok (), h @ [e])"

definition execute_with_credits :: "peer \<Rightarrow> body \<Rightarrow> tree_id option \<Rightarrow> u16 \<Rightarrow> frame act" where
  "execute_with_credits N b t c h =
     (let r = \<lparr>rq_body = b, rq_tree = t, rq_charge = c\<rparr> in (pe_answer N h r, h @ [Sent r]))"

definition execute :: "peer \<Rightarrow> body \<Rightarrow> tree_id option \<Rightarrow> frame act" where
  "execute N b t = execute_with_credits N b t 1"

definition execute_compound :: "peer \<Rightarrow> request list \<Rightarrow> frame res list act" where
  "execute_compound N ops h = (pe_answers N h ops, h @ [SentCompound ops])"

definition all_or_first_err :: "frame res list \<Rightarrow> usize \<Rightarrow> frame list res" where
  "all_or_first_err frames expected =
     result_bind (fold (\<lambda>r acc. result_bind acc (\<lambda>out. result_bind r (\<lambda>x. Ok (out @ [x])))) frames (Ok []))
       (\<lambda>out. if length out \<noteq> expected
              then Err (InvalidData (Malformed ''compound response has the wrong number of frames'' [length out, expected]))
              else Ok out)"

section \<open>Lemmas\<close>

lemma abind_simps [simp]:
  "abind (aret x) f = f x"
  "abind (alift (Ok x)) f = f x"
  "abind (alift (Err e)) f h = (Err e, h)"
  "abind (alift Panic) f h = (Panic, h)"
  "abind (emit ev) g h = g () (h @ [ev])"
  by (simp_all add: abind_def aret_def alift_def emit_def fun_eq_iff)

lemma aret_apply [simp]: "aret x h = (Ok x, h)"
  by (simp add: aret_def)

lemma alift_apply [simp]: "alift r h = (r, h)"
  by (simp add: alift_def)

lemma abind_assoc: "abind (abind m f) g = abind m (\<lambda>x. abind (f x) g)"
  by (simp add: abind_def fun_eq_iff split: prod.split result.split)

lemma abind_cases:
  assumes "m h = (r, h')"
  shows "abind m f h = (case r of Ok x \<Rightarrow> f x h' | Err e \<Rightarrow> (Err e, h') | Panic \<Rightarrow> (Panic, h'))"
  by (simp add: abind_def assms split: result.split)

lemma abind_Ok: "m h = (Ok x, h') \<Longrightarrow> abind m f h = f x h'"
  by (simp add: abind_def)

lemma abind_eq_Ok: "abind m f h = (Ok y, k) \<longleftrightarrow> (\<exists>x h'. m h = (Ok x, h') \<and> f x h' = (Ok y, k))"
  by (auto simp: abind_def split: prod.split result.split)

lemma attempt_apply: "m h = (r, h') \<Longrightarrow> attempt m h = (case r of Panic \<Rightarrow> (Panic, h') | _ \<Rightarrow> (Ok r, h'))"
  by (simp add: attempt_def split: result.split)

lemma execute_apply:
  "execute N b t h =
     (pe_answer N h \<lparr>rq_body = b, rq_tree = t, rq_charge = 1\<rparr>, h @ [Sent \<lparr>rq_body = b, rq_tree = t, rq_charge = 1\<rparr>])"
  by (simp add: execute_def execute_with_credits_def Let_def)

lemma fold_push_first_err:
  "fold (\<lambda>r acc. result_bind acc (\<lambda>out. result_bind r (\<lambda>x. Ok (out @ [x])))) frames (Err e) = Err e"
  "fold (\<lambda>r acc. result_bind acc (\<lambda>out. result_bind r (\<lambda>x. Ok (out @ [x])))) frames Panic = Panic"
  by (induction frames) simp_all

lemma fold_push_Ok:
  "fold (\<lambda>r acc. result_bind acc (\<lambda>out. result_bind r (\<lambda>x. Ok (out @ [x])))) frames (Ok acc) = Ok out \<longleftrightarrow>
   (\<exists>xs. frames = map Ok xs \<and> out = acc @ xs)"
proof (induction frames arbitrary: acc)
  case Nil
  then show ?case by auto
next
  case (Cons r frames)
  show ?case
  proof (cases r)
    case (Ok x)
    have "(\<exists>xs. r # frames = map Ok xs \<and> out = acc @ xs) \<longleftrightarrow> (\<exists>xs. frames = map Ok xs \<and> out = acc @ x # xs)"
      by (auto simp: Ok Cons_eq_map_conv)
    with Cons.IH [of "acc @ [x]"] show ?thesis by (simp add: Ok)
  qed (auto simp: fold_push_first_err Cons_eq_map_conv)
qed

text \<open>A compound is either answered in full, one frame for each request, or it is an error.\<close>

lemma all_or_first_err_Ok: "all_or_first_err frames n = Ok out \<longleftrightarrow> frames = map Ok out \<and> length out = n"
  by (auto simp: all_or_first_err_def result_bind_eq_Ok fold_push_Ok)

end
