(* ===== verification/Smb_Dir.thy ===== *)
theory Smb_Dir
  imports Smb_Name Smb_Pack
begin

text \<open>
  The buffers that \<open>src/client/tree.rs\<close> parses and builds itself: directory listings
  (\<open>FileBothDirectoryInformation\<close>), the answers to the queries of \<open>stat\<close> and \<open>fs_info\<close>, and the
  rename request.
\<close>

definition FILE_ATTRIBUTE_DIRECTORY :: u32 where "FILE_ATTRIBUTE_DIRECTORY = 0x00000010"

section \<open>Directory listings\<close>

record directory_entry =
  de_name :: rstring
  de_size :: u64
  de_is_directory :: bool
  de_created :: file_time
  de_modified :: file_time

text \<open>One entry, with the offset of the next one.\<close>

definition read_directory_entry :: "(usize \<times> directory_entry) reader" where
  "read_directory_entry =
     bnd read_u32_le (\<lambda>next_entry_offset.
     bnd read_u32_le (\<lambda>file_index.
     bnd unpack_file_time (\<lambda>creation_time.
     bnd unpack_file_time (\<lambda>last_access_time.
     bnd unpack_file_time (\<lambda>last_write_time.
     bnd unpack_file_time (\<lambda>change_time.
     bnd read_u64_le (\<lambda>end_of_file.
     bnd read_u64_le (\<lambda>allocation_size.
     bnd read_u32_le (\<lambda>file_attributes.
     bnd read_u32_le (\<lambda>file_name_length.
     bnd read_u32_le (\<lambda>ea_size.
     bnd read_u8 (\<lambda>short_name_length.
     bnd read_u8 (\<lambda>reserved.
     bnd (skip 24) (\<lambda>_.
     bnd (if file_name_length > 0 then bnd (read_utf16_le (unat file_name_length)) (\<lambda>s. ret (decode_name s))
          else ret []) (\<lambda>name.
     ret (unat next_entry_offset,
          \<lparr>de_name = name,
           de_size = end_of_file,
           de_is_directory = (file_attributes AND FILE_ATTRIBUTE_DIRECTORY \<noteq> 0),
           de_created = creation_time,
           de_modified = last_write_time\<rparr>))))))))))))))))"

function parse_entries :: "bytes \<Rightarrow> usize \<Rightarrow> directory_entry list res" where
  "parse_entries data offset =
     (if offset + 94 > length data then Ok []
      else result_bind (slice_from data offset) (\<lambda>entry_data.
           result_bind (run_reader read_directory_entry entry_data) (\<lambda>(next_entry_offset, entry).
             if next_entry_offset = 0 then Ok [entry]
             else result_bind (parse_entries data (offset + next_entry_offset)) (\<lambda>entries.
                    Ok (entry # entries)))))"
  by pat_completeness auto
termination
  by (relation "measure (\<lambda>(d, p). length d - p)") auto

declare parse_entries.simps [simp del]

definition parse_file_both_directory_info :: "bytes \<Rightarrow> directory_entry list res" where
  "parse_file_both_directory_info data = parse_entries data 0"

section \<open>Rename\<close>

definition build_rename_info_buffer :: "rstring \<Rightarrow> bytes" where
  "build_rename_info_buffer new_name =
     (let name_u16 = encode_utf16 new_name;
          name_byte_len = length name_u16 * 2
      in [0] @ replicate 7 0 @ to_le_bytes (0 :: u64) @ to_le_bytes (word_of_nat name_byte_len :: u32)
         @ concat (map to_le_bytes name_u16))"

section \<open>Metadata\<close>

record file_info =
  fi_size :: u64
  fi_is_directory :: bool
  fi_created :: file_time
  fi_modified :: file_time
  fi_accessed :: file_time

record fs_info =
  fs_total_bytes :: u64
  fs_free_bytes :: u64
  fs_total_free_bytes :: u64
  fs_bytes_per_sector :: u32
  fs_sectors_per_unit :: u32

text \<open>The buffer of FileBasicInformation: creation, access and write time, attributes.\<close>

definition parse_basic_info :: "bytes \<Rightarrow> (file_time \<times> file_time \<times> file_time \<times> u32) res" where
  "parse_basic_info buf =
     (if length buf < 36 then Err (InvalidData (Malformed ''FileBasicInformation too short'' [length buf]))
      else result_bind (le_at 8 buf 0) (\<lambda>created.
           result_bind (le_at 8 buf 8) (\<lambda>accessed.
           result_bind (le_at 8 buf 16) (\<lambda>modified.
           result_bind (le_at 8 buf 24) (\<lambda>change_time :: u64.
           result_bind (le_at 4 buf 32) (\<lambda>file_attributes.
             Ok (created, accessed, modified, file_attributes)))))))"

text \<open>The buffer of FileStandardInformation: end of file and the directory byte.\<close>

definition parse_standard_info :: "bytes \<Rightarrow> (u64 \<times> u8) res" where
  "parse_standard_info buf =
     (if length buf < 22 then Err (InvalidData (Malformed ''FileStandardInformation too short'' [length buf]))
      else result_bind (le_at 8 buf 0) (\<lambda>allocation_size :: u64.
           result_bind (le_at 8 buf 8) (\<lambda>end_of_file.
           result_bind (le_at 4 buf 16) (\<lambda>number_of_links :: u32.
             Ok (end_of_file, buf ! 21)))))"

text \<open>
  The buffer of FileFsFullSizeInformation. The products are on \<open>u64\<close> and wrap, as in a release
  build.
\<close>

definition parse_fs_info :: "bytes \<Rightarrow> fs_info res" where
  "parse_fs_info buf =
     (if length buf < 32 then Err (InvalidData (Malformed ''FileFsFullSizeInformation too short'' [length buf]))
      else result_bind (le_at 8 buf 0) (\<lambda>total_allocation_units.
           result_bind (le_at 8 buf 8) (\<lambda>caller_available_units.
           result_bind (le_at 8 buf 16) (\<lambda>actual_available_units.
           result_bind (le_at 4 buf 24) (\<lambda>sectors_per_unit :: u32.
           result_bind (le_at 4 buf 28) (\<lambda>bytes_per_sector :: u32.
             let bytes_per_unit = ucast sectors_per_unit * ucast bytes_per_sector
             in Ok \<lparr>fs_total_bytes = total_allocation_units * bytes_per_unit,
                    fs_free_bytes = caller_available_units * bytes_per_unit,
                    fs_total_free_bytes = actual_available_units * bytes_per_unit,
                    fs_bytes_per_sector = bytes_per_sector,
                    fs_sectors_per_unit = sectors_per_unit\<rparr>))))))"

section \<open>Lemmas\<close>

lemma safe_read_directory_entry: "safe p read_directory_entry"
  by (auto simp: read_directory_entry_def intro!: safe_intros)

lemma run_reader_no_panic: "safe 0 r \<Longrightarrow> run_reader r bs \<noteq> Panic"
  using safe_no_panic [of 0 r "read_cursor_new bs"]
  by (auto simp: run_reader_def result_bind_eq_Panic read_cursor_new_cur)

lemma parse_entries_no_panic: "parse_entries d off \<noteq> Panic"
proof (induction d off rule: parse_entries.induct)
  case (1 d off)
  then show ?case
    by (subst parse_entries.simps)
       (auto simp: result_bind_eq_Panic slice_from_Ok run_reader_no_panic safe_read_directory_entry)
qed

lemma parse_directory_no_panic: "parse_file_both_directory_info d \<noteq> Panic"
  by (simp add: parse_file_both_directory_info_def parse_entries_no_panic)

lemma parse_info_no_panic:
  "parse_basic_info b \<noteq> Panic" "parse_standard_info b \<noteq> Panic" "parse_fs_info b \<noteq> Panic"
  by (auto simp: parse_basic_info_def parse_standard_info_def parse_fs_info_def result_bind_eq_Panic
        le_at_no_panic Let_def)


section \<open>What a server sends\<close>

text \<open>An entry as MS-FSCC 2.4.8 lays it out, and a listing: entries aligned to eight bytes, the last one with offset 0.\<close>

record raw_entry =
  re_index :: u32
  re_created :: file_time
  re_accessed :: file_time
  re_written :: file_time
  re_changed :: file_time
  re_eof :: u64
  re_allocation :: u64
  re_attributes :: u32
  re_ea_size :: u32
  re_short_len :: u8
  re_short_name :: bytes
  re_name :: rstring

definition entry_bytes :: "u32 \<Rightarrow> raw_entry \<Rightarrow> bytes" where
  "entry_bytes nxt e =
     to_le_bytes nxt @ to_le_bytes (re_index e) @ to_le_bytes (re_created e) @ to_le_bytes (re_accessed e)
     @ to_le_bytes (re_written e) @ to_le_bytes (re_changed e) @ to_le_bytes (re_eof e)
     @ to_le_bytes (re_allocation e) @ to_le_bytes (re_attributes e)
     @ to_le_bytes (word_of_nat (2 * length (encode_utf16 (re_name e))) :: u32) @ to_le_bytes (re_ea_size e)
     @ [re_short_len e] @ [0] @ re_short_name e @ utf16_le_bytes (re_name e)"

definition entry_pad :: "raw_entry \<Rightarrow> nat" where
  "entry_pad e = (8 - (94 + 2 * length (encode_utf16 (re_name e))) mod 8) mod 8"

definition entry_span :: "raw_entry \<Rightarrow> nat" where
  "entry_span e = 94 + 2 * length (encode_utf16 (re_name e)) + entry_pad e"

fun listing_bytes :: "raw_entry list \<Rightarrow> bytes" where
  "listing_bytes [] = []"
| "listing_bytes [e] = entry_bytes 0 e"
| "listing_bytes (e # es) =
     entry_bytes (word_of_nat (entry_span e)) e @ replicate (entry_pad e) 0 @ listing_bytes es"

definition wf_raw_entry :: "raw_entry \<Rightarrow> bool" where
  "wf_raw_entry e \<longleftrightarrow> length (re_short_name e) = 24 \<and> valid_str (re_name e) \<and> length (encode_utf16 (re_name e)) < 32768"

text \<open>What the caller is told about an entry.\<close>

definition entry_view :: "raw_entry \<Rightarrow> directory_entry" where
  "entry_view e =
     \<lparr>de_name = decode_name (re_name e), de_size = re_eof e,
      de_is_directory = (re_attributes e AND FILE_ATTRIBUTE_DIRECTORY \<noteq> 0),
      de_created = re_created e, de_modified = re_written e\<rparr>"

lemma length_entry_bytes: "wf_raw_entry e \<Longrightarrow> length (entry_bytes nxt e) = 94 + 2 * length (encode_utf16 (re_name e))"
  by (simp add: entry_bytes_def wf_raw_entry_def)

lemma read_directory_entry_of:
  assumes "wf_raw_entry e"
  shows "run_reader read_directory_entry (entry_bytes nxt e @ post) = Ok (unat nxt, entry_view e)"
proof -
  define w :: u32 where "w = word_of_nat (2 * length (encode_utf16 (re_name e)))"
  have w: "unat w = 2 * length (encode_utf16 (re_name e))"
    unfolding w_def by (rule unat_of_nat_small) (use assms in \<open>simp add: wf_raw_entry_def\<close>)
  have "0 < w \<longleftrightarrow> re_name e \<noteq> []"
    by (simp add: word_less_nat_alt w)
  moreover have "decode_name [] = []"
    by (simp add: decode_name_def)
  moreover have "utf16_le_bytes [] = []"
    by (simp add: utf16_le_bytes_def encode_utf16_def)
  ultimately show ?thesis
    using assms w
    unfolding run_reader_def read_cursor_new_cur read_directory_entry_def entry_bytes_def w_def [symmetric]
    by (cases "re_name e = []") (simp_all add: wf_raw_entry_def rd_simps entry_view_def)
qed

lemma parse_entries_listing:
  assumes "list_all wf_raw_entry es" "es \<noteq> []"
  shows "parse_entries (pre @ listing_bytes es) (length pre) = Ok (map entry_view es)"
  using assms
proof (induction es arbitrary: pre rule: listing_bytes.induct)
  case (2 e)
  then show ?case
    using read_directory_entry_of [of e 0 "[]"]
    by (subst parse_entries.simps) (simp add: slice_from_Ok length_entry_bytes)
next
  case (3 e f es)
  let ?n = "word_of_nat (entry_span e) :: u32"
  let ?b = "entry_bytes ?n e"
  let ?rest = "listing_bytes (f # es)"
  have e: "wf_raw_entry e" using "3.prems" by simp
  have span: "length (pre @ ?b @ replicate (entry_pad e) 0) = length pre + entry_span e"
    by (simp add: length_entry_bytes [OF e] entry_span_def)
  have "entry_pad e < 8" by (simp add: entry_pad_def)
  then have "entry_span e < 4294967296" and pos: "0 < entry_span e"
    using e by (simp_all add: wf_raw_entry_def entry_span_def)
  then have n: "unat ?n = entry_span e" by simp
  have "parse_entries ((pre @ ?b @ replicate (entry_pad e) 0) @ ?rest) (length pre + entry_span e)
        = Ok (map entry_view (f # es))"
    using "3.IH" [of "pre @ ?b @ replicate (entry_pad e) 0"] "3.prems" span by simp
  moreover have "run_reader read_directory_entry (?b @ replicate (entry_pad e) 0 @ ?rest) = Ok (entry_span e, entry_view e)"
    using read_directory_entry_of [OF e] n by simp
  ultimately show ?case
    using pos by (subst parse_entries.simps) (simp add: slice_from_Ok length_entry_bytes [OF e])
qed simp

lemma parse_listing: "list_all wf_raw_entry es \<Longrightarrow> parse_file_both_directory_info (listing_bytes es) = Ok (map entry_view es)"
  using parse_entries_listing [of es "[]"]
  by (cases "es = []") (simp_all add: parse_file_both_directory_info_def parse_entries.simps)

end
