(* ===== verification/Smb_Tree.thy ===== *)
theory Smb_Tree
  imports Smb_Peer Smb_Dir
begin

text \<open>
  \<open>src/client/tree.rs\<close>: the operations on a share, except the pipelined ones. Each is a
  computation over the history of what was sent (\<open>Smb_Peer\<close>); \<open>N\<close> is the peer.
\<close>

section \<open>Constants and the tree\<close>

definition FILE_DIRECTORY_FILE :: u32 where "FILE_DIRECTORY_FILE = 0x00000001"
definition FILE_NON_DIRECTORY_FILE :: u32 where "FILE_NON_DIRECTORY_FILE = 0x00000040"
definition FILE_BASIC_INFORMATION :: u8 where "FILE_BASIC_INFORMATION = 4"
definition FILE_STANDARD_INFORMATION :: u8 where "FILE_STANDARD_INFORMATION = 5"
definition FILE_RENAME_INFORMATION :: u8 where "FILE_RENAME_INFORMATION = 10"
definition FILE_DISPOSITION_INFORMATION :: u8 where "FILE_DISPOSITION_INFORMATION = 13"
definition FILE_FS_FULL_SIZE_INFORMATION :: u8 where "FILE_FS_FULL_SIZE_INFORMATION = 7"
definition RESTART_SCANS :: u8 where "RESTART_SCANS = 0x01"

record tree =
  tr_tree_id :: tree_id
  tr_share_name :: rstring
  tr_server :: rstring
  tr_is_dfs :: bool
  tr_encrypt_data :: bool

definition max_read :: "peer \<Rightarrow> u32" where
  "max_read N = (case pe_params N of Some p \<Rightarrow> np_max_read_size p | None \<Rightarrow> 65536)"

definition max_write :: "peer \<Rightarrow> u32" where
  "max_write N = (case pe_params N of Some p \<Rightarrow> np_max_write_size p | None \<Rightarrow> 65536)"

text \<open>\<open>n.div_ceil(65536)\<close>, \<open>as u16\<close>.\<close>

definition credit_charge_of :: "nat \<Rightarrow> u16" where
  "credit_charge_of n = word_of_nat ((n + 65535) div 65536)"

text \<open>The same with \<open>.max(1)\<close> before the cast.\<close>

definition credit_charge_min1 :: "nat \<Rightarrow> u16" where
  "credit_charge_min1 n = word_of_nat (max ((n + 65535) div 65536) 1)"

text \<open>The check that follows most responses, and the parse of the body.\<close>

definition expect_success :: "command \<Rightarrow> frame \<Rightarrow> unit act" where
  "expect_success c fr =
     alift (if hdr_status (fr_header fr) \<noteq> STATUS_SUCCESS then Err (Protocol (hdr_status (fr_header fr)) c) else Ok ())"

definition parse_body :: "'a reader \<Rightarrow> frame \<Rightarrow> 'a act" where
  "parse_body r fr = alift (run_reader r (fr_body fr))"

abbreviation SHARE_ALL :: u32 where
  "SHARE_ALL \<equiv> FILE_SHARE_READ OR FILE_SHARE_WRITE OR FILE_SHARE_DELETE"

definition create_request_of :: "u32 \<Rightarrow> u32 \<Rightarrow> u32 \<Rightarrow> create_disposition \<Rightarrow> u32 \<Rightarrow> rstring \<Rightarrow> create_request" where
  "create_request_of access attributes share disposition options name =
     \<lparr>crq_requested_oplock_level = OplockNone,
      crq_impersonation_level = Impersonation,
      crq_desired_access = access,
      crq_file_attributes = attributes,
      crq_share_access = share,
      crq_create_disposition = disposition,
      crq_create_options = options,
      crq_name = name,
      crq_create_contexts = []\<rparr>"

definition tree_op :: "tree \<Rightarrow> body \<Rightarrow> u16 \<Rightarrow> request" where
  "tree_op t b c = \<lparr>rq_body = b, rq_tree = Some (tr_tree_id t), rq_charge = c\<rparr>"

abbreviation CLOSE_SENTINEL :: body where
  "CLOSE_SENTINEL \<equiv> CloseB \<lparr>clq_flags = 0, clq_file_id = SENTINEL\<rparr>"

section \<open>Connecting\<close>

definition tree_connect :: "peer \<Rightarrow> rstring \<Rightarrow> tree act" where
  "tree_connect N share_name =
     (let server = pe_server_name N;
          unc_path = [BACKSLASH, BACKSLASH] @ server @ [BACKSLASH] @ share_name
      in abind (execute N (TreeConnectB \<lparr>tcq_flags = 0, tcq_path = unc_path\<rparr>) None) (\<lambda>fr.
         abind (alift (if hdr_command (fr_header fr) \<noteq> TreeConnect
                       then Err (InvalidData (Malformed ''expected TreeConnect response'' [])) else Ok ())) (\<lambda>_.
         abind (expect_success TreeConnect fr) (\<lambda>_.
         abind (parse_body unpack_tree_connect_response fr) (\<lambda>resp.
         abind (alift (case hdr_tree_id (fr_header fr) of
                         None \<Rightarrow> Err (InvalidData (Malformed ''TreeConnect response missing tree ID'' []))
                       | Some tid \<Rightarrow> Ok tid)) (\<lambda>tid.
           let is_dfs = flag_contains (tcr_capabilities resp) SHC_DFS;
               t = \<lparr>tr_tree_id = tid, tr_share_name = share_name, tr_server = server, tr_is_dfs = is_dfs,
                    tr_encrypt_data = flag_contains (tcr_share_flags resp) SHF_ENCRYPT_DATA\<rparr>
           in if is_dfs then abind (emit (DfsRegistered tid)) (\<lambda>_. aret t) else aret t))))))"

definition tree_disconnect :: "peer \<Rightarrow> tree \<Rightarrow> unit act" where
  "tree_disconnect N t =
     abind (execute N TreeDisconnectB (Some (tr_tree_id t))) (\<lambda>fr.
     abind (expect_success TreeDisconnect fr) (\<lambda>_.
     emit (DfsDeregistered (tr_tree_id t))))"

definition format_path :: "tree \<Rightarrow> rstring \<Rightarrow> rstring" where
  "format_path t path =
     (let normalized = encode_path path in
      if tr_is_dfs t
      then let hostname = takeWhile (\<lambda>c. c \<noteq> 58) (tr_server t)
           in if normalized = [] then hostname @ [BACKSLASH] @ tr_share_name t
              else hostname @ [BACKSLASH] @ tr_share_name t @ [BACKSLASH] @ normalized
      else normalized)"

section \<open>Handles\<close>

definition close_handle :: "peer \<Rightarrow> tree \<Rightarrow> file_id \<Rightarrow> unit act" where
  "close_handle N t fid =
     abind (emit (OplockForgotten fid)) (\<lambda>_.
     abind (execute N (CloseB \<lparr>clq_flags = 0, clq_file_id = fid\<rparr>) (Some (tr_tree_id t))) (expect_success Close))"

definition flush_handle :: "peer \<Rightarrow> tree \<Rightarrow> file_id \<Rightarrow> unit act" where
  "flush_handle N t fid =
     abind (execute N (FlushB \<lparr>flq_file_id = fid\<rparr>) (Some (tr_tree_id t))) (expect_success Flush)"

text \<open>CREATE, the status check and the parse, as in every function that opens a handle.\<close>

definition open_with :: "peer \<Rightarrow> tree \<Rightarrow> create_request \<Rightarrow> create_response act" where
  "open_with N t req =
     abind (execute N (CreateB req) (Some (tr_tree_id t))) (\<lambda>fr.
     abind (expect_success Create fr) (\<lambda>_. parse_body unpack_create_response fr))"

definition open_directory :: "peer \<Rightarrow> tree \<Rightarrow> rstring \<Rightarrow> file_id act" where
  "open_directory N t path =
     abind (open_with N t (create_request_of
              (FAM_FILE_READ_DATA OR FAM_FILE_READ_ATTRIBUTES OR FAM_SYNCHRONIZE) 0 SHARE_ALL
              FileOpen FILE_DIRECTORY_FILE (format_path t path))) (\<lambda>resp. aret (crr_file_id resp))"

definition open_file :: "peer \<Rightarrow> tree \<Rightarrow> rstring \<Rightarrow> (file_id \<times> u64) act" where
  "open_file N t path =
     abind (open_with N t (create_request_of
              (FAM_FILE_READ_DATA OR FAM_FILE_READ_ATTRIBUTES OR FAM_SYNCHRONIZE) 0 SHARE_ALL
              FileOpen 0 (format_path t path))) (\<lambda>resp. aret (crr_file_id resp, crr_end_of_file resp))"

definition open_file_for_write_with_disposition :: "peer \<Rightarrow> tree \<Rightarrow> rstring \<Rightarrow> create_disposition \<Rightarrow> file_id act" where
  "open_file_for_write_with_disposition N t path disposition =
     abind (open_with N t (create_request_of
              (FAM_FILE_WRITE_DATA OR FAM_FILE_WRITE_ATTRIBUTES OR FAM_SYNCHRONIZE) 0x80 0
              disposition FILE_NON_DIRECTORY_FILE (format_path t path))) (\<lambda>resp. aret (crr_file_id resp))"

definition open_file_for_write :: "peer \<Rightarrow> tree \<Rightarrow> rstring \<Rightarrow> file_id act" where
  "open_file_for_write N t path = open_file_for_write_with_disposition N t path FileOverwriteIf"

definition open_file_for_exclusive_create :: "peer \<Rightarrow> tree \<Rightarrow> rstring \<Rightarrow> file_id act" where
  "open_file_for_exclusive_create N t path = open_file_for_write_with_disposition N t path FileCreate"

definition open_file_for_write_at :: "peer \<Rightarrow> tree \<Rightarrow> rstring \<Rightarrow> file_id act" where
  "open_file_for_write_at N t path = open_file_for_write_with_disposition N t path FileOpenIf"

definition open_readwrite_with_disposition ::
    "peer \<Rightarrow> tree \<Rightarrow> rstring \<Rightarrow> create_disposition \<Rightarrow> (file_id \<times> u64) act" where
  "open_readwrite_with_disposition N t path disposition =
     abind (open_with N t (create_request_of
              (FAM_FILE_READ_DATA OR FAM_FILE_WRITE_DATA OR FAM_FILE_READ_ATTRIBUTES
               OR FAM_FILE_WRITE_ATTRIBUTES OR FAM_SYNCHRONIZE) 0x80 SHARE_ALL
              disposition FILE_NON_DIRECTORY_FILE (format_path t path)))
       (\<lambda>resp. aret (crr_file_id resp, crr_end_of_file resp))"

definition open_file_readwrite :: "peer \<Rightarrow> tree \<Rightarrow> rstring \<Rightarrow> (file_id \<times> u64) act" where
  "open_file_readwrite N t path = open_readwrite_with_disposition N t path FileOpenIf"

definition open_readwrite_overwrite :: "peer \<Rightarrow> tree \<Rightarrow> rstring \<Rightarrow> (file_id \<times> u64) act" where
  "open_readwrite_overwrite N t path = open_readwrite_with_disposition N t path FileOverwriteIf"

definition create_directory :: "peer \<Rightarrow> tree \<Rightarrow> rstring \<Rightarrow> unit act" where
  "create_directory N t path =
     abind (open_with N t (create_request_of (FAM_FILE_READ_ATTRIBUTES OR FAM_SYNCHRONIZE)
              FILE_ATTRIBUTE_DIRECTORY SHARE_ALL FileCreate FILE_DIRECTORY_FILE (format_path t path)))
       (\<lambda>resp. close_handle N t (crr_file_id resp))"

section \<open>Listing\<close>

datatype query_step_outcome = Entries "directory_entry list" usize | NoMoreFiles usize

definition default_query_buffer_len :: "peer \<Rightarrow> u32" where
  "default_query_buffer_len N =
     (case pe_params N of Some p \<Rightarrow> min (np_max_transact_size p) 65536 | None \<Rightarrow> 65536)"

definition query_directory_step :: "peer \<Rightarrow> tree \<Rightarrow> file_id \<Rightarrow> bool \<Rightarrow> u32 \<Rightarrow> query_step_outcome act" where
  "query_directory_step N t fid restart output_buffer_length =
     abind (execute_with_credits N
              (QueryDirectoryB
                 \<lparr>qdq_file_information_class = FileBothDirectoryInformation,
                  qdq_flags = (if restart then RESTART_SCANS else 0),
                  qdq_file_index = 0,
                  qdq_file_id = fid,
                  qdq_output_buffer_length = output_buffer_length,
                  qdq_file_name = [42]\<rparr>)
              (Some (tr_tree_id t)) (credit_charge_min1 (unat output_buffer_length))) (\<lambda>fr.
       if hdr_status (fr_header fr) = STATUS_NO_MORE_FILES then aret (NoMoreFiles (length (fr_body fr)))
       else abind (expect_success QueryDirectory fr) (\<lambda>_.
            abind (parse_body unpack_output_response fr) (\<lambda>resp.
            abind (alift (parse_file_both_directory_info (or_output_buffer resp))) (\<lambda>entries.
            aret (Entries entries (length (or_output_buffer resp)))))))"

text \<open>
  The loop until STATUS_NO_MORE_FILES. The server decides how many rounds there are: \<open>None\<close> when
  \<open>fuel\<close> rounds were not enough.
\<close>

fun query_directory_loop ::
    "nat \<Rightarrow> peer \<Rightarrow> tree \<Rightarrow> file_id \<Rightarrow> bool \<Rightarrow> directory_entry list \<Rightarrow> history \<Rightarrow>
     (directory_entry list res \<times> history) option" where
  "query_directory_loop 0 N t fid restart acc h = None"
| "query_directory_loop (Suc fuel) N t fid restart acc h =
     (case query_directory_step N t fid restart (default_query_buffer_len N) h of
        (Ok (NoMoreFiles _), h') \<Rightarrow> Some (Ok acc, h')
      | (Ok (Entries entries _), h') \<Rightarrow> query_directory_loop fuel N t fid False (acc @ entries) h'
      | (Err e, h') \<Rightarrow> Some (Err e, h')
      | (Panic, h') \<Rightarrow> Some (Panic, h'))"

text \<open>CLOSE runs whatever the query returned; the error of the query comes first.\<close>

definition close_after :: "peer \<Rightarrow> tree \<Rightarrow> file_id \<Rightarrow> 'a res \<times> history \<Rightarrow> 'a res \<times> history" where
  "close_after N t fid rh =
     (case rh of
        (Panic, h) \<Rightarrow> (Panic, h)
      | (result, h) \<Rightarrow>
          (case close_handle N t fid h of
             (Panic, h') \<Rightarrow> (Panic, h')
           | (close_result, h') \<Rightarrow> (result_bind result (\<lambda>x. result_bind close_result (\<lambda>_. Ok x)), h')))"

definition list_directory ::
    "nat \<Rightarrow> peer \<Rightarrow> tree \<Rightarrow> rstring \<Rightarrow> history \<Rightarrow> (directory_entry list res \<times> history) option" where
  "list_directory fuel N t path h =
     (case open_directory N t path h of
        (Ok fid, h1) \<Rightarrow> map_option (close_after N t fid) (query_directory_loop fuel N t fid True [] h1)
      | (Err e, h1) \<Rightarrow> Some (Err e, h1)
      | (Panic, h1) \<Rightarrow> Some (Panic, h1))"

section \<open>Compounds\<close>

definition run_compound :: "peer \<Rightarrow> request list \<Rightarrow> frame list act" where
  "run_compound N ops = abind (execute_compound N ops) (\<lambda>frames. alift (all_or_first_err frames (length ops)))"

abbreviation frame_status :: "frame \<Rightarrow> nt_status" where
  "frame_status fr \<equiv> hdr_status (fr_header fr)"

text \<open>The CREATE of a compound worked and a later part failed: a standalone CLOSE, then the error.\<close>

definition close_and_fail :: "peer \<Rightarrow> tree \<Rightarrow> file_id \<Rightarrow> error \<Rightarrow> 'a act" where
  "close_and_fail N t fid e = abind (attempt (close_handle N t fid)) (\<lambda>_. alift (Err e))"

definition read_request_at :: "file_id \<Rightarrow> u64 \<Rightarrow> u32 \<Rightarrow> read_request" where
  "read_request_at fid offset len =
     \<lparr>rdq_padding = 0x50, rdq_flags = 0, rdq_length = len, rdq_offset = offset, rdq_file_id = fid,
      rdq_minimum_count = 0, rdq_channel = 0, rdq_remaining_bytes = 0, rdq_read_channel_info = []\<rparr>"

definition write_request_at :: "file_id \<Rightarrow> u64 \<Rightarrow> bytes \<Rightarrow> write_request" where
  "write_request_at fid offset data =
     \<lparr>wrq_data_offset = 0x70, wrq_offset = offset, wrq_file_id = fid, wrq_channel = 0, wrq_remaining_bytes = 0,
      wrq_write_channel_info_offset = 0, wrq_write_channel_info_length = 0, wrq_flags = 0, wrq_data = data\<rparr>"

definition read_file_compound :: "peer \<Rightarrow> tree \<Rightarrow> rstring \<Rightarrow> bytes act" where
  "read_file_compound N t path =
     (let create_req = create_request_of (FAM_FILE_READ_DATA OR FAM_FILE_READ_ATTRIBUTES OR FAM_SYNCHRONIZE) 0
                         SHARE_ALL FileOpen 0 (format_path t path)
      in abind (run_compound N
                  [tree_op t (CreateB create_req) 1,
                   tree_op t (ReadB (read_request_at SENTINEL 0 (max_read N))) (credit_charge_of (unat (max_read N))),
                   tree_op t CLOSE_SENTINEL 1]) (\<lambda>rs.
         abind (expect_success Create (rs ! 0)) (\<lambda>_.
         abind (parse_body unpack_create_response (rs ! 0)) (\<lambda>create_resp.
           if crr_end_of_file create_resp > ucast (max_read N)
           then alift (Err (FileTooLargeForSingleRead (crr_end_of_file create_resp) (max_read N)))
           else if frame_status (rs ! 1) \<noteq> STATUS_SUCCESS \<and> frame_status (rs ! 1) \<noteq> STATUS_END_OF_FILE
           then close_and_fail N t (crr_file_id create_resp) (Protocol (frame_status (rs ! 1)) Read)
           else if frame_status (rs ! 1) = STATUS_END_OF_FILE then aret []
           else abind (parse_body unpack_read_response (rs ! 1)) (\<lambda>resp. aret (rdr_data resp))))))"

definition read_file :: "peer \<Rightarrow> tree \<Rightarrow> rstring \<Rightarrow> bytes act" where
  "read_file = read_file_compound"

definition query_info_of :: "info_type \<Rightarrow> u8 \<Rightarrow> u32 \<Rightarrow> query_info_request" where
  "query_info_of ty cls len =
     \<lparr>qiq_info_type = ty, qiq_file_info_class = cls, qiq_output_buffer_length = len,
      qiq_additional_information = 0, qiq_flags = 0, qiq_file_id = SENTINEL, qiq_input_buffer = []\<rparr>"

text \<open>A QUERY_INFO part of a compound: on failure parse the CREATE response to find the handle, close it, fail.\<close>

definition query_part :: "peer \<Rightarrow> tree \<Rightarrow> frame \<Rightarrow> frame \<Rightarrow> output_response act" where
  "query_part N t create_frame query_frame =
     (if \<not> is_success_or_partial (frame_status query_frame)
      then abind (parse_body unpack_create_response create_frame) (\<lambda>create_resp.
           close_and_fail N t (crr_file_id create_resp) (Protocol (frame_status query_frame) QueryInfo))
      else parse_body unpack_output_response query_frame)"

definition tree_stat :: "peer \<Rightarrow> tree \<Rightarrow> rstring \<Rightarrow> file_info act" where
  "tree_stat N t path =
     (let create_req = create_request_of (FAM_FILE_READ_ATTRIBUTES OR FAM_SYNCHRONIZE) 0 SHARE_ALL
                         FileOpen 0 (format_path t path)
      in abind (run_compound N
                  [tree_op t (CreateB create_req) 1,
                   tree_op t (QueryInfoB (query_info_of InfoFile FILE_BASIC_INFORMATION 40)) 1,
                   tree_op t (QueryInfoB (query_info_of InfoFile FILE_STANDARD_INFORMATION 24)) 1,
                   tree_op t CLOSE_SENTINEL 1]) (\<lambda>rs.
         abind (expect_success Create (rs ! 0)) (\<lambda>_.
         abind (query_part N t (rs ! 0) (rs ! 1)) (\<lambda>basic_resp.
         abind (alift (parse_basic_info (or_output_buffer basic_resp))) (\<lambda>(created, accessed, modified, file_attributes).
         abind (query_part N t (rs ! 0) (rs ! 2)) (\<lambda>std_resp.
         abind (alift (parse_standard_info (or_output_buffer std_resp))) (\<lambda>(end_of_file, is_directory_byte).
           aret \<lparr>fi_size = end_of_file,
                 fi_is_directory = (is_directory_byte \<noteq> 0 \<or> file_attributes AND FILE_ATTRIBUTE_DIRECTORY \<noteq> 0),
                 fi_created = created, fi_modified = modified, fi_accessed = accessed\<rparr>)))))))"

definition tree_fs_info :: "peer \<Rightarrow> tree \<Rightarrow> fs_info act" where
  "tree_fs_info N t =
     (let create_req = create_request_of (FAM_FILE_READ_ATTRIBUTES OR FAM_SYNCHRONIZE) 0 SHARE_ALL
                         FileOpen FILE_DIRECTORY_FILE []
      in abind (run_compound N
                  [tree_op t (CreateB create_req) 1,
                   tree_op t (QueryInfoB (query_info_of InfoFilesystem FILE_FS_FULL_SIZE_INFORMATION 32)) 1,
                   tree_op t CLOSE_SENTINEL 1]) (\<lambda>rs.
         abind (expect_success Create (rs ! 0)) (\<lambda>_.
         abind (query_part N t (rs ! 0) (rs ! 1)) (\<lambda>query_resp.
         alift (parse_fs_info (or_output_buffer query_resp))))))"

definition set_info_of :: "u8 \<Rightarrow> bytes \<Rightarrow> set_info_request" where
  "set_info_of cls buf =
     \<lparr>siq_info_type = InfoFile, siq_file_info_class = cls, siq_additional_information = 0,
      siq_file_id = SENTINEL, siq_buffer = buf\<rparr>"

definition tree_rename :: "peer \<Rightarrow> tree \<Rightarrow> rstring \<Rightarrow> rstring \<Rightarrow> unit act" where
  "tree_rename N t source target =
     (let create_req = create_request_of (FAM_DELETE OR FAM_FILE_READ_ATTRIBUTES) 0 SHARE_ALL
                         FileOpen 0 (format_path t source)
      in abind (run_compound N
                  [tree_op t (CreateB create_req) 1,
                   tree_op t (SetInfoB (set_info_of FILE_RENAME_INFORMATION
                                          (build_rename_info_buffer (encode_path target)))) 1,
                   tree_op t CLOSE_SENTINEL 1]) (\<lambda>rs.
         abind (expect_success Create (rs ! 0)) (\<lambda>_.
           if frame_status (rs ! 1) \<noteq> STATUS_SUCCESS
           then abind (parse_body unpack_create_response (rs ! 0)) (\<lambda>create_resp.
                close_and_fail N t (crr_file_id create_resp) (Protocol (frame_status (rs ! 1)) SetInfo))
           else aret ())))"

text \<open>The loop over SET_INFO and CLOSE after a CREATE that worked.\<close>

fun check_parts :: "peer \<Rightarrow> tree \<Rightarrow> frame \<Rightarrow> (frame \<times> command) list \<Rightarrow> unit act" where
  "check_parts N t create_frame [] = aret ()"
| "check_parts N t create_frame ((fr, c) # parts) =
     (if frame_status fr \<noteq> STATUS_SUCCESS
      then abind (parse_body unpack_create_response create_frame) (\<lambda>create_resp.
           close_and_fail N t (crr_file_id create_resp) (Protocol (frame_status fr) c))
      else check_parts N t create_frame parts)"

definition delete_compound :: "peer \<Rightarrow> tree \<Rightarrow> rstring \<Rightarrow> u32 \<Rightarrow> unit act" where
  "delete_compound N t path type_option =
     (let create_req = create_request_of (FAM_DELETE OR FAM_FILE_READ_ATTRIBUTES) 0 SHARE_ALL
                         FileOpen type_option (format_path t path)
      in abind (run_compound N
                  [tree_op t (CreateB create_req) 1,
                   tree_op t (SetInfoB (set_info_of FILE_DISPOSITION_INFORMATION [1])) 1,
                   tree_op t CLOSE_SENTINEL 1]) (\<lambda>rs.
         abind (expect_success Create (rs ! 0)) (\<lambda>_.
         check_parts N t (rs ! 0) [(rs ! 1, SetInfo), (rs ! 2, Close)])))"

definition delete_file :: "peer \<Rightarrow> tree \<Rightarrow> rstring \<Rightarrow> unit act" where
  "delete_file N t path = delete_compound N t path FILE_NON_DIRECTORY_FILE"

definition delete_directory :: "peer \<Rightarrow> tree \<Rightarrow> rstring \<Rightarrow> unit act" where
  "delete_directory N t path = delete_compound N t path FILE_DIRECTORY_FILE"

definition write_file_compound :: "peer \<Rightarrow> tree \<Rightarrow> rstring \<Rightarrow> bytes \<Rightarrow> u64 act" where
  "write_file_compound N t path data =
     (let create_req = create_request_of (FAM_FILE_WRITE_DATA OR FAM_FILE_WRITE_ATTRIBUTES OR FAM_SYNCHRONIZE) 0x80 0
                         FileOverwriteIf FILE_NON_DIRECTORY_FILE (format_path t path)
      in abind (run_compound N
                  [tree_op t (CreateB create_req) 1,
                   tree_op t (WriteB (write_request_at SENTINEL 0 data)) (credit_charge_min1 (length data)),
                   tree_op t (FlushB \<lparr>flq_file_id = SENTINEL\<rparr>) 1,
                   tree_op t CLOSE_SENTINEL 1]) (\<lambda>rs.
         abind (expect_success Create (rs ! 0)) (\<lambda>_.
         abind (parse_body unpack_create_response (rs ! 0)) (\<lambda>create_resp.
           if frame_status (rs ! 1) \<noteq> STATUS_SUCCESS
           then close_and_fail N t (crr_file_id create_resp) (Protocol (frame_status (rs ! 1)) Write)
           else abind (parse_body unpack_write_response (rs ! 1)) (\<lambda>resp. aret (ucast (wrr_count resp)))))))"

text \<open>The batch operations: one compound per item, in order, every result kept.\<close>

fun for_each :: "('a \<Rightarrow> 'b act) \<Rightarrow> 'a list \<Rightarrow> 'b res list act" where
  "for_each f [] = aret []"
| "for_each f (x # xs) = abind (attempt (f x)) (\<lambda>r. abind (for_each f xs) (\<lambda>rs. aret (r # rs)))"

definition delete_files :: "peer \<Rightarrow> tree \<Rightarrow> rstring list \<Rightarrow> unit res list act" where
  "delete_files N t paths = for_each (delete_file N t) paths"

definition stat_files :: "peer \<Rightarrow> tree \<Rightarrow> rstring list \<Rightarrow> file_info res list act" where
  "stat_files N t paths = for_each (tree_stat N t) paths"

definition rename_files :: "peer \<Rightarrow> tree \<Rightarrow> (rstring \<times> rstring) list \<Rightarrow> unit res list act" where
  "rename_files N t renames = for_each (\<lambda>(source, target). tree_rename N t source target) renames"

section \<open>Lemmas\<close>

abbreviation close_op :: "tree \<Rightarrow> file_id \<Rightarrow> request" where
  "close_op t fid \<equiv> tree_op t (CloseB \<lparr>clq_flags = 0, clq_file_id = fid\<rparr>) 1"

abbreviation close_events :: "tree \<Rightarrow> file_id \<Rightarrow> event list" where
  "close_events t fid \<equiv> [OplockForgotten fid, Sent (close_op t fid)]"

lemma expect_success_apply:
  "expect_success c fr h =
     (if frame_status fr = STATUS_SUCCESS then (Ok (), h) else (Err (Protocol (frame_status fr) c), h))"
  by (simp add: expect_success_def)

lemma close_handle_apply:
  "close_handle N t fid h =
     (case pe_answer N (h @ [OplockForgotten fid]) (close_op t fid) of
        Ok fr \<Rightarrow> if frame_status fr = STATUS_SUCCESS then Ok () else Err (Protocol (frame_status fr) Close)
      | Err e \<Rightarrow> Err e | Panic \<Rightarrow> Panic,
      h @ close_events t fid)"
  by (simp add: close_handle_def execute_apply tree_op_def abind_def [of "execute _ _ _"] expect_success_apply
      split: result.split)

lemma snd_close_handle [simp]: "snd (close_handle N t fid h) = h @ close_events t fid"
  by (simp add: close_handle_apply)

lemma snd_attempt [simp]: "snd (attempt m h) = snd (m h)"
  by (cases "m h") (simp add: attempt_def split: result.split)

lemma close_and_fail_apply:
  "(close_and_fail N t fid e :: 'a act) h =
     (case fst (close_handle N t fid h) of Panic \<Rightarrow> Panic | _ \<Rightarrow> Err e, h @ close_events t fid)"
proof -
  have "abind (attempt m) (\<lambda>_. alift (Err e) :: 'a act) h = (case fst (m h) of Panic \<Rightarrow> Panic | _ \<Rightarrow> Err e, snd (m h))"
    for m :: "unit act" by (cases "m h") (simp add: abind_def attempt_def split: result.split)
  then show ?thesis by (simp add: close_and_fail_def)
qed

lemma snd_close_and_fail [simp]: "snd (close_and_fail N t fid e h) = h @ close_events t fid"
  by (simp add: close_and_fail_apply)

lemma close_and_fail_not_Ok: "fst (close_and_fail N t fid e h) \<noteq> Ok x"
  by (simp add: close_and_fail_apply split: result.split)

lemma abind_close_and_fail: "abind (close_and_fail N t fid e) f = close_and_fail N t fid e"
  by (rule ext) (simp add: abind_def close_and_fail_apply split: result.split)

lemma run_compound_answered:
  assumes "pe_answers N h = (\<lambda>_. Ok (map Ok rs))" and "length rs = length ops"
  shows "abind (run_compound N ops) f h = f rs (h @ [SentCompound ops])"
proof -
  have "all_or_first_err (map Ok rs) (length ops) = Ok rs" by (simp add: all_or_first_err_Ok assms(2))
  then show ?thesis by (simp add: run_compound_def execute_compound_def abind_def assms(1))
qed

lemma parse_body_Ok: "run_reader r (fr_body fr) = Ok x \<Longrightarrow> abind (parse_body r fr) f = f x"
  by (simp add: parse_body_def)

lemma expect_success_Ok: "frame_status fr = STATUS_SUCCESS \<Longrightarrow> abind (expect_success c fr) f = f ()"
  by (simp add: abind_def expect_success_apply fun_eq_iff)

text \<open>The handle of a failed compound is given back with a CLOSE of its own, and the caller gets an error.\<close>

definition released :: "tree \<Rightarrow> file_id \<Rightarrow> history \<Rightarrow> 'a res \<times> history \<Rightarrow> bool" where
  "released t fid h rh \<longleftrightarrow>
     (\<exists>ops. snd rh = h @ SentCompound ops # close_events t fid) \<and> (\<forall>x. fst rh \<noteq> Ok x)"

lemma released_close_and_fail: "released t fid h (close_and_fail N t fid e (h @ [SentCompound ops]))"
  by (simp add: released_def close_and_fail_not_Ok)

lemmas compound_simps = run_compound_answered parse_body_Ok expect_success_Ok released_close_and_fail

lemma query_part_failed:
  assumes "\<not> is_success_or_partial (frame_status q)" and "run_reader unpack_create_response (fr_body c) = Ok resp"
  shows "released t (crr_file_id resp) h (abind (query_part N t c q) f (h @ [SentCompound ops]))"
  using assms by (simp add: query_part_def parse_body_Ok abind_assoc abind_close_and_fail released_close_and_fail)

lemma released_read_file:
  assumes "pe_answers N h = (\<lambda>_. Ok (map Ok rs))" and "length rs = 3"
    and "frame_status (rs ! 0) = STATUS_SUCCESS" and "run_reader unpack_create_response (fr_body (rs ! 0)) = Ok resp"
    and "crr_end_of_file resp \<le> ucast (max_read N)"
    and "frame_status (rs ! 1) \<noteq> STATUS_SUCCESS" and "frame_status (rs ! 1) \<noteq> STATUS_END_OF_FILE"
  shows "released t (crr_file_id resp) h (read_file N t path h)"
proof -
  have "\<not> ucast (max_read N) < crr_end_of_file resp" using assms(5) by (simp add: not_less)
  then show ?thesis using assms by (simp add: read_file_def read_file_compound_def Let_def compound_simps)
qed

lemma released_write_file:
  assumes "pe_answers N h = (\<lambda>_. Ok (map Ok rs))" and "length rs = 4"
    and "frame_status (rs ! 0) = STATUS_SUCCESS" and "run_reader unpack_create_response (fr_body (rs ! 0)) = Ok resp"
    and "frame_status (rs ! 1) \<noteq> STATUS_SUCCESS"
  shows "released t (crr_file_id resp) h (write_file_compound N t path data h)"
  using assms by (simp add: write_file_compound_def Let_def compound_simps)

lemma released_rename:
  assumes "pe_answers N h = (\<lambda>_. Ok (map Ok rs))" and "length rs = 3"
    and "frame_status (rs ! 0) = STATUS_SUCCESS" and "run_reader unpack_create_response (fr_body (rs ! 0)) = Ok resp"
    and "frame_status (rs ! 1) \<noteq> STATUS_SUCCESS"
  shows "released t (crr_file_id resp) h (tree_rename N t source target h)"
  using assms by (simp add: tree_rename_def Let_def compound_simps)

lemma released_delete:
  assumes "pe_answers N h = (\<lambda>_. Ok (map Ok rs))" and "length rs = 3"
    and "frame_status (rs ! 0) = STATUS_SUCCESS" and "run_reader unpack_create_response (fr_body (rs ! 0)) = Ok resp"
    and "frame_status (rs ! 1) \<noteq> STATUS_SUCCESS \<or> frame_status (rs ! 2) \<noteq> STATUS_SUCCESS"
  shows "released t (crr_file_id resp) h (delete_compound N t path opt h)"
  using assms by (auto simp: delete_compound_def Let_def compound_simps)

lemma released_fs_info:
  assumes "pe_answers N h = (\<lambda>_. Ok (map Ok rs))" and "length rs = 3"
    and "frame_status (rs ! 0) = STATUS_SUCCESS" and "run_reader unpack_create_response (fr_body (rs ! 0)) = Ok resp"
    and "\<not> is_success_or_partial (frame_status (rs ! 1))"
  shows "released t (crr_file_id resp) h (tree_fs_info N t h)"
  using assms by (simp add: tree_fs_info_def Let_def compound_simps query_part_failed)

lemma released_stat:
  assumes "pe_answers N h = (\<lambda>_. Ok (map Ok rs))" and "length rs = 4"
    and "frame_status (rs ! 0) = STATUS_SUCCESS" and "run_reader unpack_create_response (fr_body (rs ! 0)) = Ok resp"
    and "\<not> is_success_or_partial (frame_status (rs ! 1))"
  shows "released t (crr_file_id resp) h (tree_stat N t path h)"
  using assms by (simp add: tree_stat_def Let_def compound_simps query_part_failed)

section \<open>Failed compounds\<close>

text \<open>What a server puts on the wire for a response, and a frame that carries it.\<close>

definition packed :: "unit writer \<Rightarrow> bytes" where
  "packed w = (case run_writer w of Ok bs \<Rightarrow> bs | _ \<Rightarrow> [])"

lemma packed_parses: "\<exists>bs. run_writer w = Ok bs \<and> run_reader r bs = Ok x \<Longrightarrow> run_reader r (packed w) = Ok x"
  by (auto simp: packed_def)

definition reply :: "command \<Rightarrow> nt_status \<Rightarrow> bytes \<Rightarrow> frame" where
  "reply c st bs = \<lparr>fr_header = (new_request c)\<lparr>hdr_status := st\<rparr>, fr_body = bs, fr_raw = bs\<rparr>"

lemma reply_simps [simp]: "frame_status (reply c st bs) = st" "fr_body (reply c st bs) = bs"
  by (simp_all add: reply_def)

definition created_file :: "file_id \<Rightarrow> u64 \<Rightarrow> create_response" where
  "created_file fid len =
     \<lparr>crr_oplock_level = OplockNone, crr_flags = 0, crr_create_action = FileOpened, crr_creation_time = 0,
      crr_last_access_time = 0, crr_last_write_time = 0, crr_change_time = 0, crr_allocation_size = len,
      crr_end_of_file = len, crr_file_attributes = 0, crr_file_id = fid, crr_create_contexts = []\<rparr>"

lemma created_parses: "run_reader unpack_create_response (packed (pack_create_response (created_file fid len))) = Ok (created_file fid len)"
  by (intro packed_parses create_response.run_roundtrip) (simp add: wf_create_response_def created_file_def)

lemma created_simps [simp]: "crr_file_id (created_file fid len) = fid" "crr_end_of_file (created_file fid len) = len"
  by (simp_all add: created_file_def)


definition sample_tree :: tree where
  "sample_tree = \<lparr>tr_tree_id = 7, tr_share_name = [100], tr_server = [115], tr_is_dfs = False, tr_encrypt_data = False\<rparr>"

definition sample_peer :: "frame list \<Rightarrow> peer" where
  "sample_peer rs =
     \<lparr>pe_params = None, pe_server_name = [115], pe_answer = (\<lambda>_ _. Ok (reply Close STATUS_SUCCESS [])),
      pe_answers = (\<lambda>_ _. Ok (map Ok rs)), pe_next = (\<lambda>_. 0)\<rparr>"


text \<open>
  The two cases that give no handle back: a READ that failed on a file that is also too long, and a
  FLUSH (and the CLOSE behind it) that failed.
\<close>

lemma compound_leaks:
  assumes "pe_answers N h = (\<lambda>_. Ok (map Ok rs))"
    and "frame_status (rs ! 0) = STATUS_SUCCESS" and "run_reader unpack_create_response (fr_body (rs ! 0)) = Ok resp"
  shows "(length rs = 3 \<and> ucast (max_read N) < crr_end_of_file resp \<longrightarrow>
            (\<exists>ops. read_file N t path h =
               (Err (FileTooLargeForSingleRead (crr_end_of_file resp) (max_read N)), h @ [SentCompound ops]))) \<and>
         (length rs = 4 \<and> frame_status (rs ! 1) = STATUS_SUCCESS \<and>
            run_reader unpack_write_response (fr_body (rs ! 1)) = Ok wresp \<longrightarrow>
            (\<exists>ops. write_file_compound N t path data h = (Ok (ucast (wrr_count wresp)), h @ [SentCompound ops])))"
  using assms by (auto simp: read_file_def read_file_compound_def write_file_compound_def Let_def compound_simps)

section \<open>Listing a directory\<close>

definition query_op :: "peer \<Rightarrow> tree \<Rightarrow> file_id \<Rightarrow> bool \<Rightarrow> request" where
  "query_op N t fid restart =
     tree_op t (QueryDirectoryB
                 \<lparr>qdq_file_information_class = FileBothDirectoryInformation,
                  qdq_flags = (if restart then RESTART_SCANS else 0),
                  qdq_file_index = 0,
                  qdq_file_id = fid,
                  qdq_output_buffer_length = default_query_buffer_len N,
                  qdq_file_name = [42]\<rparr>) (credit_charge_min1 (unat (default_query_buffer_len N)))"

text \<open>
  A server with the entries of the directory still to send, in pages of its choosing: each query is
  answered with the next page, packed as MS-FSCC lays it out, and the one after the last with
  STATUS_NO_MORE_FILES.
\<close>

fun serves :: "peer \<Rightarrow> tree \<Rightarrow> file_id \<Rightarrow> bool \<Rightarrow> raw_entry list list \<Rightarrow> history \<Rightarrow> bool" where
  "serves N t fid restart [] h =
     (case pe_answer N h (query_op N t fid restart) of
        Ok fr \<Rightarrow> frame_status fr = STATUS_NO_MORE_FILES | _ \<Rightarrow> False)"
| "serves N t fid restart (page # pages) h =
     (list_all wf_raw_entry page \<and> length (listing_bytes page) \<le> MAX_UNPACK_BUFFER \<and>
      (case pe_answer N h (query_op N t fid restart) of
         Ok fr \<Rightarrow> frame_status fr = STATUS_SUCCESS \<and>
                  fr_body fr = packed (pack_output_response \<lparr>or_output_buffer = listing_bytes page\<rparr>)
       | _ \<Rightarrow> False) \<and>
      serves N t fid False pages (h @ [Sent (query_op N t fid restart)]))"

fun query_events :: "peer \<Rightarrow> tree \<Rightarrow> file_id \<Rightarrow> bool \<Rightarrow> nat \<Rightarrow> event list" where
  "query_events N t fid restart 0 = [Sent (query_op N t fid restart)]"
| "query_events N t fid restart (Suc n) = Sent (query_op N t fid restart) # query_events N t fid False n"

lemma query_directory_step_apply:
  "query_directory_step N t fid restart (default_query_buffer_len N) h =
     (case pe_answer N h (query_op N t fid restart) of
        Ok fr \<Rightarrow>
          if frame_status fr = STATUS_NO_MORE_FILES then Ok (NoMoreFiles (length (fr_body fr)))
          else if frame_status fr \<noteq> STATUS_SUCCESS then Err (Protocol (frame_status fr) QueryDirectory)
          else result_bind (run_reader unpack_output_response (fr_body fr)) (\<lambda>resp.
               result_bind (parse_file_both_directory_info (or_output_buffer resp)) (\<lambda>entries.
               Ok (Entries entries (length (or_output_buffer resp)))))
      | Err e \<Rightarrow> Err e | Panic \<Rightarrow> Panic,
      h @ [Sent (query_op N t fid restart)])"
  unfolding query_directory_step_def abind_def [of "execute_with_credits _ _ _ _"]
  by (simp add: execute_with_credits_def query_op_def [unfolded tree_op_def] tree_op_def Let_def parse_body_def expect_success_apply
      abind_def result_bind_def split: result.split)

lemma serves_step:
  assumes "serves N t fid restart (page # pages) h"
  shows "query_directory_step N t fid restart (default_query_buffer_len N) h =
           (Ok (Entries (map entry_view page) (length (listing_bytes page))), h @ [Sent (query_op N t fid restart)])"
proof -
  obtain fr where fr: "pe_answer N h (query_op N t fid restart) = Ok fr" "frame_status fr = STATUS_SUCCESS"
    "fr_body fr = packed (pack_output_response \<lparr>or_output_buffer = listing_bytes page\<rparr>)"
    using assms by (auto split: result.splits)
  have "run_reader unpack_output_response (fr_body fr) = Ok \<lparr>or_output_buffer = listing_bytes page\<rparr>"
    unfolding fr(3) by (intro packed_parses output_response.run_roundtrip)
      (use assms in \<open>simp add: wf_output_response_def\<close>)
  moreover have "parse_file_both_directory_info (listing_bytes page) = Ok (map entry_view page)"
    by (rule parse_listing) (use assms in simp)
  ultimately show ?thesis by (simp add: query_directory_step_apply fr(1,2) status_defs)
qed

lemma query_loop_serves:
  assumes "serves N t fid restart pages h" and "length pages < fuel"
  shows "query_directory_loop fuel N t fid restart acc h =
           Some (Ok (acc @ map entry_view (concat pages)), h @ query_events N t fid restart (length pages))"
  using assms
proof (induction pages arbitrary: restart h fuel acc)
  case Nil
  then show ?case
    by (cases fuel) (auto simp: query_directory_step_apply split: result.splits)
next
  case (Cons page pages)
  then obtain f where f: "fuel = Suc f" "length pages < f" by (cases fuel) auto
  have "serves N t fid False pages (h @ [Sent (query_op N t fid restart)])" using Cons.prems(1) by simp
  from Cons.IH [OF this f(2)] show ?case by (simp add: f(1) serves_step [OF Cons.prems(1)])
qed

lemma close_after_apply:
  "close_after N t fid (r, h) =
     (case r of Panic \<Rightarrow> (Panic, h)
      | _ \<Rightarrow> (case fst (close_handle N t fid h) of Panic \<Rightarrow> Panic | cr \<Rightarrow> result_bind r (\<lambda>x. result_bind cr (\<lambda>_. Ok x)),
              h @ close_events t fid))"
  by (simp add: close_after_def close_handle_apply split: result.split)

text \<open>The handle of a listing is closed on every path: an error of a query, of a parse, or none.\<close>

lemma list_directory_closes:
  assumes "open_directory N t path h = (Ok fid, h1)" and "list_directory fuel N t path h = Some (r, h')" and "r \<noteq> Panic"
  shows "\<exists>k. h' = k @ close_events t fid"
proof -
  obtain q k where "query_directory_loop fuel N t fid True [] h1 = Some (q, k)" "close_after N t fid (q, k) = (r, h')"
    using assms(1,2) by (auto simp: list_directory_def)
  with assms(3) show ?thesis by (auto simp: close_after_apply split: result.splits)
qed

text \<open>
  C13: A server that has a directory to list and splits it into pages as it likes is listed completely
  and in order: with more rounds than pages the listing returns, its entries are the views of all
  entries of all pages, exactly one query more than there are pages is sent, the first alone
  restarting the scan, and the handle is closed. Only the answer to that CLOSE can still turn the
  result into an error.
\<close>

theorem list_directory_complete:
  assumes "open_directory N t path h = (Ok fid, h1)" and "serves N t fid True pages h1" and "length pages < fuel"
  shows "list_directory fuel N t path h =
           Some (result_bind (fst (close_handle N t fid (h1 @ query_events N t fid True (length pages))))
                   (\<lambda>_. Ok (map entry_view (concat pages))),
                 h1 @ query_events N t fid True (length pages) @ close_events t fid)"
  using assms(1) query_loop_serves [OF assms(2,3), of "[]"]
  by (simp add: list_directory_def close_after_apply result_bind_def split: result.split)

definition sample_entry :: raw_entry where
  "sample_entry =
     \<lparr>re_index = 0, re_created = 1, re_accessed = 2, re_written = 3, re_changed = 4, re_eof = 5, re_allocation = 8,
      re_attributes = 32, re_ea_size = 0, re_short_len = 0, re_short_name = replicate 24 0, re_name = [97]\<rparr>"

definition listing_peer :: peer where
  "listing_peer =
     \<lparr>pe_params = None, pe_server_name = [115],
      pe_answer = (\<lambda>h r. case rq_body r of
          CreateB _ \<Rightarrow> Ok (reply Create STATUS_SUCCESS (packed (pack_create_response (created_file SENTINEL 0))))
        | QueryDirectoryB q \<Rightarrow>
            if qdq_flags q = RESTART_SCANS
            then Ok (reply QueryDirectory STATUS_SUCCESS
                      (packed (pack_output_response \<lparr>or_output_buffer = listing_bytes [sample_entry]\<rparr>)))
            else Ok (reply QueryDirectory STATUS_NO_MORE_FILES [])
        | _ \<Rightarrow> Ok (reply Close STATUS_SUCCESS [])),
      pe_answers = (\<lambda>_ _. Err Disconnected), pe_next = (\<lambda>_. 0)\<rparr>"

lemma listing_peer_opens:
  "\<exists>h1. open_directory listing_peer sample_tree [] [] = (Ok SENTINEL, h1)"
  by (simp add: open_directory_def open_with_def abind_assoc execute_apply abind_def [of "execute _ _ _"]
      listing_peer_def expect_success_Ok parse_body_def created_parses)

lemma listing_peer_serves: "serves listing_peer sample_tree SENTINEL True [[sample_entry]] h"
  by (simp add: listing_peer_def query_op_def tree_op_def RESTART_SCANS_def wf_raw_entry_def sample_entry_def
      valid_str_def is_char_def encode_utf16_def encode_utf16_char_def entry_bytes_def MAX_UNPACK_BUFFER_def)

theorem list_directory_complete_witness:
  "\<exists>h'. list_directory 2 listing_peer sample_tree [] [] = Some (Ok [entry_view sample_entry], h')"
proof -
  obtain h1 where h1: "open_directory listing_peer sample_tree [] [] = (Ok SENTINEL, h1)"
    using listing_peer_opens by blast
  from list_directory_complete [OF h1 listing_peer_serves, of 2] show ?thesis
    by (simp add: close_handle_apply) (simp add: listing_peer_def tree_op_def)
qed

end
