(* ===== verification/Smb_Pipelined.thy ===== *)
theory Smb_Pipelined
  imports Smb_Tree "HOL-Library.Multiset"
begin

text \<open>
  \<open>src/client/tree.rs\<close>: the operations that keep a window of requests in flight and take the
  responses in whatever order they complete. The order is the peer's (\<open>pe_next\<close>), so the theorems
  hold for every interleaving of the responses.
\<close>

section \<open>Futures in flight\<close>

definition MAX_PIPELINE_WINDOW :: usize where "MAX_PIPELINE_WINDOW = 32"

text \<open>
  \<open>FuturesUnordered\<close>: the futures pushed and not yet completed, each with the index it returns.
\<close>

type_synonym futures = "(usize \<times> request) list"

definition push_future :: "usize \<Rightarrow> request \<Rightarrow> futures \<Rightarrow> history \<Rightarrow> futures \<times> history" where
  "push_future i r q h = (q @ [(i, r)], h @ [Launched r])"

definition pick :: "peer \<Rightarrow> futures \<Rightarrow> history \<Rightarrow> nat" where
  "pick N q h = pe_next N h mod length q"

definition remove_at :: "nat \<Rightarrow> 'a list \<Rightarrow> 'a list" where
  "remove_at i xs = take i xs @ drop (Suc i) xs"

text \<open>\<open>in_flight.next().await\<close>: \<open>None\<close> when nothing is in flight.\<close>

definition next_future :: "peer \<Rightarrow> futures \<Rightarrow> history \<Rightarrow> (usize \<times> frame res \<times> futures \<times> history) option" where
  "next_future N q h =
     (if q = [] then None
      else let (i, r) = q ! pick N q h
           in Some (i, pe_answer N h r, remove_at (pick N q h) q, h @ [Completed r]))"

lemma next_future_SomeE:
  assumes "next_future N q h = Some (i, fr, q', h')"
  obtains r where "mset q = add_mset (i, r) (mset q')" "fr = pe_answer N h r" "h' = h @ [Completed r]"
proof -
  define k where "k = pick N q h"
  have q: "q \<noteq> []" using assms by (auto simp: next_future_def)
  then have k: "k < length q" by (simp add: k_def pick_def)
  obtain r where r: "q ! k = (i, r)" "q' = remove_at k q" "fr = pe_answer N h r" "h' = h @ [Completed r]"
    using assms q by (auto simp: next_future_def k_def Let_def split: prod.splits)
  have "mset q = mset (take k q @ q ! k # drop (Suc k) q)" using id_take_nth_drop [OF k] by simp
  then show thesis using that [of r] r by (simp add: remove_at_def)
qed

lemma next_future_length: "next_future N q h = Some (i, fr, q', h') \<Longrightarrow> length q = Suc (length q')"
  by (metis next_future_SomeE size_add_mset size_mset)

lemma next_future_None [simp]: "next_future N q h = None \<longleftrightarrow> q = []"
  by (simp add: next_future_def Let_def split: prod.split)

lemma next_future_Nil [simp]: "next_future N [] h = None"
  by simp

text \<open>The initial window: chunks \<open>sent\<close>, \<open>sent + 1\<close>, \dots, \<open>n\<close> of them.\<close>

fun launch_window :: "(usize \<Rightarrow> request) \<Rightarrow> nat \<Rightarrow> usize \<Rightarrow> futures \<Rightarrow> history \<Rightarrow> futures \<times> history" where
  "launch_window req 0 sent q h = (q, h)"
| "launch_window req (Suc n) sent q h =
     (let (q', h') = push_future sent (req sent) q h in launch_window req n (Suc sent) q' h')"

definition div_ceil :: "nat \<Rightarrow> nat \<Rightarrow> nat res" where
  "div_ceil a b = (if b = 0 then Panic else Ok ((a + b - 1) div b))"

section \<open>Pipelined reads\<close>

definition read_chunk :: "tree \<Rightarrow> file_id \<Rightarrow> u64 \<Rightarrow> u32 \<Rightarrow> u16 \<Rightarrow> usize \<Rightarrow> usize \<Rightarrow> request" where
  "read_chunk t fid file_size chunk_size credit_charge total_chunks i =
     (let offset = i * unat chunk_size;
          this_chunk = if i = total_chunks - 1 then word_of_nat (unat file_size - offset) else chunk_size
      in tree_op t (ReadB (read_request_at fid (word_of_nat offset) this_chunk)) credit_charge)"

text \<open>A response is copied to the place of its chunk, cut at the end of the buffer. Also how many bytes it filled.\<close>

definition store_chunk :: "usize \<Rightarrow> bytes \<Rightarrow> bytes \<Rightarrow> (bytes \<times> usize) res" where
  "store_chunk dest_offset src data =
     (if src = [] then Ok (data, 0)
      else let dest_end = min (dest_offset + length src) (length data)
           in result_bind (usub dest_end dest_offset) (\<lambda>src_len.
              result_bind (slice src 0 src_len) (\<lambda>part.
              result_bind (copy_from_slice data dest_offset dest_end part) (\<lambda>data'.
              Ok (data', src_len)))))"

function read_window ::
    "peer \<Rightarrow> (usize \<Rightarrow> request) \<Rightarrow> usize \<Rightarrow> usize \<Rightarrow> usize \<Rightarrow> usize \<Rightarrow> futures \<Rightarrow> bytes \<Rightarrow> bytes act" where
  "read_window N req chunk_size total_chunks sent received q data h =
     (if received < total_chunks
      then case next_future N q h of
             None \<Rightarrow> (Ok data, h)
           | Some (i, Err e, q', h') \<Rightarrow> (Err e, h')
           | Some (i, Panic, q', h') \<Rightarrow> (Panic, h')
           | Some (i, Ok fr, q', h') \<Rightarrow>
               (if frame_status fr = STATUS_END_OF_FILE
                then read_window N req chunk_size total_chunks sent (Suc received) q' data h'
                else if frame_status fr \<noteq> STATUS_SUCCESS then (Err (Protocol (frame_status fr) Read), h')
                else case result_bind (run_reader unpack_read_response (fr_body fr))
                            (\<lambda>resp. store_chunk (i * chunk_size) (rdr_data resp) data) of
                       Err e \<Rightarrow> (Err e, h')
                     | Panic \<Rightarrow> (Panic, h')
                     | Ok (data', _) \<Rightarrow>
                         (if sent < total_chunks
                          then let (q'', h'') = push_future sent (req sent) q' h'
                               in read_window N req chunk_size total_chunks (Suc sent) (Suc received) q'' data' h''
                          else read_window N req chunk_size total_chunks sent (Suc received) q' data' h'))
      else (Ok data, h))"
  by pat_completeness auto
termination
  by (relation "measure (\<lambda>(N, req, chunk_size, total_chunks, sent, received, q, data, h). total_chunks - received)") auto

declare read_window.simps [simp del]

definition read_pipelined_loop ::
    "peer \<Rightarrow> tree \<Rightarrow> file_id \<Rightarrow> u64 \<Rightarrow> u32 \<Rightarrow> u16 \<Rightarrow> usize \<Rightarrow> bytes act" where
  "read_pipelined_loop N t fid file_size chunk_size credit_charge total_chunks h =
     (let req = read_chunk t fid file_size chunk_size credit_charge total_chunks;
          initial_window = min total_chunks MAX_PIPELINE_WINDOW;
          (q, h') = launch_window req initial_window 0 [] h
      in read_window N req (unat chunk_size) total_chunks initial_window 0 q (replicate (unat file_size) 0) h')"

definition pipeline_chunk_size :: "u64 \<Rightarrow> u32 \<Rightarrow> u32" where
  "pipeline_chunk_size file_size max_read_size =
     (if file_size \<le> ucast max_read_size then min (ucast file_size) max_read_size
      else min (512 * 1024) max_read_size)"

definition read_file_pipelined :: "peer \<Rightarrow> tree \<Rightarrow> rstring \<Rightarrow> bytes act" where
  "read_file_pipelined N t path =
     abind (open_file N t path) (\<lambda>(fid, file_size).
       if file_size = 0 then abind (close_handle N t fid) (\<lambda>_. aret [])
       else let chunk_size = pipeline_chunk_size file_size (max_read N)
            in abind (alift (div_ceil (unat file_size) (unat chunk_size))) (\<lambda>total_chunks.
               \<lambda>h. close_after N t fid
                     (read_pipelined_loop N t fid file_size chunk_size (credit_charge_of (unat chunk_size)) total_chunks h)))"

section \<open>Reads with progress\<close>

record progress =
  pg_bytes_transferred :: u64
  pg_total_bytes :: "u64 option"

datatype control_flow = Continue | Break

text \<open>The callback is a \<open>FnMut\<close>: it has a state of its own, returned with the result.\<close>

type_synonym 'c on_progress = "progress \<Rightarrow> 'c \<Rightarrow> control_flow \<times> 'c"

function read_window_with_progress ::
    "peer \<Rightarrow> (usize \<Rightarrow> request) \<Rightarrow> u64 \<Rightarrow> usize \<Rightarrow> usize \<Rightarrow> 'c on_progress \<Rightarrow> usize \<Rightarrow> usize \<Rightarrow> u64 \<Rightarrow> 'c \<Rightarrow>
     futures \<Rightarrow> bytes \<Rightarrow> history \<Rightarrow> (bytes res \<times> history) \<times> 'c" where
  "read_window_with_progress N req file_size chunk_size total_chunks on_progress sent received bytes_received c q data h =
     (if received < total_chunks
      then case next_future N q h of
             None \<Rightarrow> ((Ok data, h), c)
           | Some (i, Err e, q', h') \<Rightarrow> ((Err e, h'), c)
           | Some (i, Panic, q', h') \<Rightarrow> ((Panic, h'), c)
           | Some (i, Ok fr, q', h') \<Rightarrow>
               (if frame_status fr = STATUS_END_OF_FILE
                then read_window_with_progress N req file_size chunk_size total_chunks on_progress
                       sent (Suc received) bytes_received c q' data h'
                else if frame_status fr \<noteq> STATUS_SUCCESS then ((Err (Protocol (frame_status fr) Read), h'), c)
                else case result_bind (run_reader unpack_read_response (fr_body fr))
                            (\<lambda>resp. store_chunk (i * chunk_size) (rdr_data resp) data) of
                       Err e \<Rightarrow> ((Err e, h'), c)
                     | Panic \<Rightarrow> ((Panic, h'), c)
                     | Ok (data', src_len) \<Rightarrow>
                         let bytes_received' = bytes_received + word_of_nat src_len
                         in case on_progress \<lparr>pg_bytes_transferred = bytes_received', pg_total_bytes = Some file_size\<rparr> c of
                              (Break, c') \<Rightarrow> ((Err Cancelled, h'), c')
                            | (Continue, c') \<Rightarrow>
                                (if sent < total_chunks
                                 then let (q'', h'') = push_future sent (req sent) q' h'
                                      in read_window_with_progress N req file_size chunk_size total_chunks on_progress
                                           (Suc sent) (Suc received) bytes_received' c' q'' data' h''
                                 else read_window_with_progress N req file_size chunk_size total_chunks on_progress
                                        sent (Suc received) bytes_received' c' q' data' h'))
      else ((Ok data, h), c))"
  by pat_completeness auto
termination
  by (relation "measure (\<lambda>(N, req, fsz, chunk_size, total_chunks, cb, sent, received, n, c, q, data, h). total_chunks - received)")
    auto

declare read_window_with_progress.simps [simp del]

definition read_pipelined_loop_with_progress ::
    "peer \<Rightarrow> tree \<Rightarrow> file_id \<Rightarrow> u64 \<Rightarrow> u32 \<Rightarrow> u16 \<Rightarrow> usize \<Rightarrow> 'c on_progress \<Rightarrow> 'c \<Rightarrow> history \<Rightarrow>
     (bytes res \<times> history) \<times> 'c" where
  "read_pipelined_loop_with_progress N t fid file_size chunk_size credit_charge total_chunks on_progress c h =
     (let req = read_chunk t fid file_size chunk_size credit_charge total_chunks;
          initial_window = min total_chunks MAX_PIPELINE_WINDOW;
          (q, h') = launch_window req initial_window 0 [] h
      in read_window_with_progress N req file_size (unat chunk_size) total_chunks on_progress
           initial_window 0 0 c q (replicate (unat file_size) 0) h')"

definition read_file_pipelined_with_progress ::
    "peer \<Rightarrow> tree \<Rightarrow> rstring \<Rightarrow> 'c on_progress \<Rightarrow> 'c \<Rightarrow> history \<Rightarrow> (bytes res \<times> history) \<times> 'c" where
  "read_file_pipelined_with_progress N t path on_progress c h =
     (case open_file N t path h of
        (Err e, h1) \<Rightarrow> ((Err e, h1), c)
      | (Panic, h1) \<Rightarrow> ((Panic, h1), c)
      | (Ok (fid, file_size), h1) \<Rightarrow>
          if file_size = 0
          then case close_handle N t fid h1 of
                 (Ok _, h2) \<Rightarrow> ((Ok [], h2), snd (on_progress \<lparr>pg_bytes_transferred = 0, pg_total_bytes = Some 0\<rparr> c))
               | (Err e, h2) \<Rightarrow> ((Err e, h2), c)
               | (Panic, h2) \<Rightarrow> ((Panic, h2), c)
          else let chunk_size = pipeline_chunk_size file_size (max_read N)
               in case div_ceil (unat file_size) (unat chunk_size) of
                    Ok total_chunks \<Rightarrow>
                      let (rh, c') = read_pipelined_loop_with_progress N t fid file_size chunk_size
                                       (credit_charge_of (unat chunk_size)) total_chunks on_progress c h1
                      in (close_after N t fid rh, c')
                  | Err e \<Rightarrow> ((Err e, h1), c)
                  | Panic \<Rightarrow> ((Panic, h1), c))"

section \<open>Pipelined writes\<close>

definition write_chunk_data :: "bytes \<Rightarrow> usize \<Rightarrow> usize \<Rightarrow> bytes" where
  "write_chunk_data data chunk_size i =
     (let offset = i * chunk_size; stop = min (offset + chunk_size) (length data)
      in take (stop - offset) (drop offset data))"

definition write_chunk :: "tree \<Rightarrow> file_id \<Rightarrow> bytes \<Rightarrow> u32 \<Rightarrow> u16 \<Rightarrow> usize \<Rightarrow> request" where
  "write_chunk t fid data chunk_size credit_charge i =
     tree_op t (WriteB (write_request_at fid (word_of_nat (i * unat chunk_size))
                          (write_chunk_data data (unat chunk_size) i))) credit_charge"

function write_window ::
    "peer \<Rightarrow> (usize \<Rightarrow> request) \<Rightarrow> usize \<Rightarrow> usize \<Rightarrow> usize \<Rightarrow> futures \<Rightarrow> u64 \<Rightarrow> u64 act" where
  "write_window N req total_chunks sent received q total_written h =
     (if received < total_chunks
      then case next_future N q h of
             None \<Rightarrow> (Ok total_written, h)
           | Some (i, Err e, q', h') \<Rightarrow> (Err e, h')
           | Some (i, Panic, q', h') \<Rightarrow> (Panic, h')
           | Some (i, Ok fr, q', h') \<Rightarrow>
               (if frame_status fr \<noteq> STATUS_SUCCESS then (Err (Protocol (frame_status fr) Write), h')
                else case run_reader unpack_write_response (fr_body fr) of
                       Err e \<Rightarrow> (Err e, h')
                     | Panic \<Rightarrow> (Panic, h')
                     | Ok resp \<Rightarrow>
                         (if sent < total_chunks
                          then let (q'', h'') = push_future sent (req sent) q' h'
                               in write_window N req total_chunks (Suc sent) (Suc received) q''
                                    (total_written + ucast (wrr_count resp)) h''
                          else write_window N req total_chunks sent (Suc received) q'
                                 (total_written + ucast (wrr_count resp)) h'))
      else (Ok total_written, h))"
  by pat_completeness auto
termination
  by (relation "measure (\<lambda>(N, req, total_chunks, sent, received, q, n, h). total_chunks - received)") auto

declare write_window.simps [simp del]

definition write_pipelined_loop ::
    "peer \<Rightarrow> tree \<Rightarrow> file_id \<Rightarrow> bytes \<Rightarrow> u32 \<Rightarrow> u16 \<Rightarrow> usize \<Rightarrow> u64 act" where
  "write_pipelined_loop N t fid data chunk_size credit_charge total_chunks h =
     (let req = write_chunk t fid data chunk_size credit_charge;
          initial_window = min total_chunks MAX_PIPELINE_WINDOW;
          (q, h') = launch_window req initial_window 0 [] h
      in write_window N req total_chunks initial_window 0 q 0 h')"

text \<open>FLUSH when the writes worked, and its error at once; then CLOSE; then the error of the writes.\<close>

definition flush_then_close :: "peer \<Rightarrow> tree \<Rightarrow> file_id \<Rightarrow> 'a res \<times> history \<Rightarrow> 'a res \<times> history" where
  "flush_then_close N t fid rh =
     (case rh of
        (Ok x, h) \<Rightarrow> abind (flush_handle N t fid) (\<lambda>_ h'. close_after N t fid (Ok x, h')) h
      | _ \<Rightarrow> close_after N t fid rh)"

definition write_file_pipelined :: "peer \<Rightarrow> tree \<Rightarrow> rstring \<Rightarrow> bytes \<Rightarrow> u64 act" where
  "write_file_pipelined N t path data =
     (if data = [] then write_file_compound N t path data
      else abind (open_with N t (create_request_of
                    (FAM_FILE_WRITE_DATA OR FAM_FILE_WRITE_ATTRIBUTES OR FAM_SYNCHRONIZE) 0x80 0
                    FileOverwriteIf FILE_NON_DIRECTORY_FILE (format_path t path))) (\<lambda>create_resp.
           let fid = crr_file_id create_resp; chunk_size = max_write N
           in abind (alift (div_ceil (length data) (unat chunk_size))) (\<lambda>total_chunks.
              \<lambda>h. flush_then_close N t fid
                    (write_pipelined_loop N t fid data chunk_size (credit_charge_of (unat chunk_size)) total_chunks h))))"

definition write_file :: "peer \<Rightarrow> tree \<Rightarrow> rstring \<Rightarrow> bytes \<Rightarrow> u64 act" where
  "write_file N t path data =
     (if length data \<le> unat (max_write N) then write_file_compound N t path data else write_file_pipelined N t path data)"

section \<open>Streamed writes\<close>

text \<open>
  The callback \<open>next_chunk\<close>: a \<open>FnMut\<close> that yields a chunk, an error of the source, or the end.
\<close>

type_synonym 'c next_chunk = "'c \<Rightarrow> (io_error_kind + bytes) option \<times> 'c"

text \<open>The local variables of \<open>write_streamed_loop\<close> that the closure \<open>next_wire_chunk\<close> borrows.\<close>

record 'c wire_source =
  ws_pending_data :: bytes
  ws_pending_offset :: usize
  ws_done :: bool
  ws_callback_err :: "io_error_kind option"
  ws_callback :: 'c

definition next_wire_chunk :: "usize \<Rightarrow> 'c next_chunk \<Rightarrow> 'c wire_source \<Rightarrow> bytes option \<times> 'c wire_source" where
  "next_wire_chunk mw next_chunk s =
     (if ws_pending_offset s < length (ws_pending_data s)
      then let stop = min (ws_pending_offset s + mw) (length (ws_pending_data s));
               part = take (stop - ws_pending_offset s) (drop (ws_pending_offset s) (ws_pending_data s))
           in (Some part,
               if length (ws_pending_data s) \<le> stop then s\<lparr>ws_pending_data := [], ws_pending_offset := 0\<rparr>
               else s\<lparr>ws_pending_offset := stop\<rparr>)
      else if ws_done s then (None, s)
      else case next_chunk (ws_callback s) of
             (None, c) \<Rightarrow> (None, s\<lparr>ws_done := True, ws_callback := c\<rparr>)
           | (Some (Inl e), c) \<Rightarrow> (None, s\<lparr>ws_done := True, ws_callback_err := Some e, ws_callback := c\<rparr>)
           | (Some (Inr data), c) \<Rightarrow>
               if data = [] then (None, s\<lparr>ws_done := True, ws_callback := c\<rparr>)
               else if length data \<le> mw then (Some data, s\<lparr>ws_callback := c\<rparr>)
               else (Some (take mw data),
                     s\<lparr>ws_pending_data := data, ws_pending_offset := mw, ws_callback := c\<rparr>))"

definition stream_write :: "tree \<Rightarrow> file_id \<Rightarrow> u64 \<Rightarrow> bytes \<Rightarrow> request" where
  "stream_write t fid offset data =
     tree_op t (WriteB (write_request_at fid offset data)) (credit_charge_min1 (length data))"

text \<open>\<open>in_flight\<close> always is the number of futures; the index a future returns is not used here.\<close>

fun fill_window ::
    "nat \<Rightarrow> tree \<Rightarrow> file_id \<Rightarrow> usize \<Rightarrow> 'c next_chunk \<Rightarrow> 'c wire_source \<Rightarrow> u64 \<Rightarrow> futures \<Rightarrow> history \<Rightarrow>
     'c wire_source \<times> u64 \<times> futures \<times> history" where
  "fill_window 0 t fid mw next_chunk s offset q h = (s, offset, q, h)"
| "fill_window (Suc room) t fid mw next_chunk s offset q h =
     (case next_wire_chunk mw next_chunk s of
        (None, s') \<Rightarrow> (s', offset, q, h)
      | (Some data, s') \<Rightarrow>
          let (q', h') = push_future 0 (stream_write t fid offset data) q h
          in fill_window room t fid mw next_chunk s' (offset + word_of_nat (length data)) q' h')"

function drain_futures :: "peer \<Rightarrow> futures \<Rightarrow> history \<Rightarrow> history" where
  "drain_futures N q h =
     (case next_future N q h of None \<Rightarrow> h | Some (_, _, q', h') \<Rightarrow> drain_futures N q' h')"
  by pat_completeness auto
termination
  by (relation "measure (\<lambda>(N, q, h). length q)") (auto dest: next_future_length)

declare drain_futures.simps [simp del]

text \<open>The source decides how many rounds there are: \<open>None\<close> when \<open>fuel\<close> rounds were not enough.\<close>

fun slide_window ::
    "nat \<Rightarrow> peer \<Rightarrow> tree \<Rightarrow> file_id \<Rightarrow> usize \<Rightarrow> 'c next_chunk \<Rightarrow> 'c wire_source \<Rightarrow> u64 \<Rightarrow> u64 \<Rightarrow> futures \<Rightarrow> history \<Rightarrow>
     (u64 res \<times> history) option" where
  "slide_window 0 N t fid mw next_chunk s offset total_written q h = None"
| "slide_window (Suc fuel) N t fid mw next_chunk s offset total_written q h =
     (case next_future N q h of
        None \<Rightarrow> Some (case ws_callback_err s of Some e \<Rightarrow> Err (Io e) | None \<Rightarrow> Ok total_written, h)
      | Some (_, Err e, q', h') \<Rightarrow> Some (Err e, h')
      | Some (_, Panic, q', h') \<Rightarrow> Some (Panic, h')
      | Some (_, Ok fr, q', h') \<Rightarrow>
          if frame_status fr \<noteq> STATUS_SUCCESS
          then Some (Err (Protocol (frame_status fr) Write), drain_futures N q' h')
          else case run_reader unpack_write_response (fr_body fr) of
                 Err e \<Rightarrow> Some (Err e, h')
               | Panic \<Rightarrow> Some (Panic, h')
               | Ok resp \<Rightarrow>
                   let total_written' = total_written + ucast (wrr_count resp)
                   in if ws_callback_err s \<noteq> None
                      then slide_window fuel N t fid mw next_chunk s offset total_written' q' h'
                      else case next_wire_chunk mw next_chunk s of
                             (None, s') \<Rightarrow> slide_window fuel N t fid mw next_chunk s' offset total_written' q' h'
                           | (Some data, s') \<Rightarrow>
                               let (q'', h'') = push_future 0 (stream_write t fid offset data) q' h'
                               in slide_window fuel N t fid mw next_chunk s' (offset + word_of_nat (length data))
                                    total_written' q'' h'')"

definition write_streamed_loop ::
    "nat \<Rightarrow> peer \<Rightarrow> tree \<Rightarrow> file_id \<Rightarrow> 'c next_chunk \<Rightarrow> 'c \<Rightarrow> u32 \<Rightarrow> history \<Rightarrow> (u64 res \<times> history) option" where
  "write_streamed_loop fuel N t fid next_chunk c max_write_size h =
     (let s = \<lparr>ws_pending_data = [], ws_pending_offset = 0, ws_done = False, ws_callback_err = None, ws_callback = c\<rparr>;
          (s', offset, q, h') = fill_window MAX_PIPELINE_WINDOW t fid (unat max_write_size) next_chunk s 0 [] h
      in slide_window fuel N t fid (unat max_write_size) next_chunk s' offset 0 q h')"

definition write_file_streamed ::
    "nat \<Rightarrow> peer \<Rightarrow> tree \<Rightarrow> rstring \<Rightarrow> 'c next_chunk \<Rightarrow> 'c \<Rightarrow> history \<Rightarrow> (u64 res \<times> history) option" where
  "write_file_streamed fuel N t path next_chunk c h =
     (case open_file_for_write N t path h of
        (Ok fid, h1) \<Rightarrow>
          map_option (flush_then_close N t fid) (write_streamed_loop fuel N t fid next_chunk c (max_write N) h1)
      | (Err e, h1) \<Rightarrow> Some (Err e, h1)
      | (Panic, h1) \<Rightarrow> Some (Panic, h1))"

section \<open>The sliding window\<close>

lemma launch_window_apply:
  "launch_window req n sent q h =
     (q @ map (\<lambda>i. (i, req i)) [sent..<sent + n], h @ map (\<lambda>i. Launched (req i)) [sent..<sent + n])"
  by (induction n arbitrary: sent q h) (simp_all add: push_future_def upt_conv_Cons del: upt_Suc)

text \<open>
  The window of a loop over chunks: the chunks below \<open>sent\<close> were launched, \<open>received\<close> of them are
  back, the others are in flight, and something is in flight until every chunk is back.
\<close>

definition window :: "(usize \<Rightarrow> request) \<Rightarrow> usize \<Rightarrow> usize \<Rightarrow> usize \<Rightarrow> futures \<Rightarrow> bool" where
  "window req total_n sent received q \<longleftrightarrow>
     distinct (map fst q) \<and> (\<forall>(i, r) \<in> set q. r = req i \<and> i < sent) \<and>
     length q + received = sent \<and> sent \<le> total_n \<and> (sent < total_n \<longrightarrow> q \<noteq> [])"

lemma window_start: "window req total_n (min total_n MAX_PIPELINE_WINDOW) 0 (map (\<lambda>i. (i, req i)) [0..<min total_n MAX_PIPELINE_WINDOW])"
  by (auto simp: window_def comp_def MAX_PIPELINE_WINDOW_def)

text \<open>
  One completion: its index and request, and the windows after it, with and without the next chunk
  launched. The last equation says which chunks are then still to come.
\<close>

lemma window_step:
  assumes "window req total_n sent received q" and "received < total_n"
  obtains i q' where
    "next_future N q h = Some (i, pe_answer N h (req i), q', h @ [Completed (req i)])"
    "i < sent" "i < total_n" "i \<in> fst ` set q" "fst ` set q' = fst ` set q - {i}"
    "sent = total_n \<Longrightarrow> window req total_n sent (Suc received) q'"
    "sent < total_n \<Longrightarrow> window req total_n (Suc sent) (Suc received) (q' @ [(sent, req sent)])"
proof -
  have "q \<noteq> []" using assms by (auto simp: window_def)
  then obtain i fr q' h' where n: "next_future N q h = Some (i, fr, q', h')"
    by (cases "next_future N q h") auto
  then obtain r where r: "mset q = add_mset (i, r) (mset q')" "fr = pe_answer N h r" "h' = h @ [Completed r]"
    by (rule next_future_SomeE)
  have q: "set q = insert (i, r) (set q')" using arg_cong [OF r(1), of set_mset] by simp
  then have i: "r = req i" "i < sent" "i < total_n" "i \<in> fst ` set q" using assms(1) by (auto simp: window_def)
  have "mset (map fst q) = mset (i # map fst q')"
    using arg_cong [OF r(1), of "image_mset fst"] by simp
  then have d: "distinct (i # map fst q')" using assms(1) by (metis window_def mset_eq_imp_distinct_iff)
  have "length q = Suc (length q')" using n by (rule next_future_length)
  with assms(1) q d have w: "distinct (map fst q')" "\<forall>(j, s) \<in> set q'. s = req j \<and> j < sent"
    "length q' + Suc received = sent" "sent \<le> total_n"
    by (auto simp: window_def)
  have "fst ` set q' = fst ` set q - {i}" using q d by auto
  have "sent \<notin> fst ` set q'" using w(2) by auto
  then have "sent < total_n \<Longrightarrow> window req total_n (Suc sent) (Suc received) (q' @ [(sent, req sent)])"
    "sent = total_n \<Longrightarrow> window req total_n sent (Suc received) q'"
    using w by (force simp: window_def)+
  with \<open>fst ` set q' = fst ` set q - {i}\<close> show thesis using that n r(2,3) i by simp
qed

section \<open>Reads against an honest server\<close>

text \<open>
  A server that holds \<open>content\<close> in the file: whatever happened before, a READ that starts inside it
  is answered with the bytes asked for, up to the end.
\<close>

definition serves_file :: "peer \<Rightarrow> tree \<Rightarrow> file_id \<Rightarrow> bytes \<Rightarrow> bool" where
  "serves_file N t fid content \<longleftrightarrow>
     (\<forall>h offset len c. unat offset < length content \<longrightarrow>
        (case pe_answer N h (tree_op t (ReadB (read_request_at fid offset len)) c) of
           Ok fr \<Rightarrow> frame_status fr = STATUS_SUCCESS \<and>
             (case run_reader unpack_read_response (fr_body fr) of
                Ok resp \<Rightarrow> rdr_data resp = take (unat len) (drop (unat offset) content)
              | _ \<Rightarrow> False)
         | _ \<Rightarrow> False))"

definition chunk_of :: "usize \<Rightarrow> bytes \<Rightarrow> usize \<Rightarrow> bytes" where
  "chunk_of cs content i = take cs (drop (i * cs) content)"

lemma chunks_cover:
  fixes cs :: nat
  assumes "0 < cs"
  shows "k < n \<Longrightarrow> k div cs < (n + cs - 1) div cs" and "i < (n + cs - 1) div cs \<longleftrightarrow> i * cs < n"
proof -
  show *: "i < (n + cs - 1) div cs \<longleftrightarrow> i * cs < n" for i :: nat
  proof -
    have "i < (n + cs - 1) div cs \<longleftrightarrow> Suc i * cs \<le> n + cs - 1"
      using assms by (simp add: less_eq_div_iff_mult_less_eq Suc_le_eq [symmetric])
    then show ?thesis using assms by auto
  qed
  show "k div cs < (n + cs - 1) div cs" if "k < n"
    unfolding * using that by (metis div_times_less_eq_dividend le_less_trans)
qed

lemma div_eq_iff_between: "0 < cs \<Longrightarrow> k div cs = i \<longleftrightarrow> i * cs \<le> k \<and> k < i * cs + cs" for cs :: nat
proof
  assume "0 < cs" "k div cs = i"
  then show "i * cs \<le> k \<and> k < i * cs + cs" using dividend_less_div_times [of cs k] by auto
next
  assume "i * cs \<le> k \<and> k < i * cs + cs"
  then show "k div cs = i" by (intro div_nat_eqI) (simp_all add: ac_simps)
qed

lemma read_chunk_answer:
  assumes "serves_file N t fid content" and "length content = unat file_size" and "0 < chunk_size"
    and "total_n = (unat file_size + unat chunk_size - 1) div unat chunk_size" and "i < total_n"
  shows "\<exists>fr resp. pe_answer N h (read_chunk t fid file_size chunk_size c total_n i) = Ok fr \<and> frame_status fr = STATUS_SUCCESS \<and>
           run_reader unpack_read_response (fr_body fr) = Ok resp \<and> rdr_data resp = chunk_of (unat chunk_size) content i"
proof -
  define cs where "cs = unat chunk_size"
  have chs: "unat chunk_size < 2 ^ 32" using unsigned_less [of chunk_size] by simp
  have cs: "0 < cs" using assms(3) by (simp add: cs_def unat_gt_0)
  have i: "i * cs < unat file_size" using assms(4,5) chunks_cover(2) [OF cs] by (simp add: cs_def)
  define off :: u64 where "off = word_of_nat (i * cs)"
  have off: "unat off = i * cs"
    unfolding off_def by (rule unat_of_nat_u64) (rule order.strict_trans [OF i], simp)
  define len :: u32 where "len = (if i = total_n - 1 then word_of_nat (unat file_size - i * cs) else chunk_size)"
  have "take (unat len) (drop (i * cs) content) = chunk_of cs content i"
  proof (cases "i = total_n - 1")
    case True
    then have "\<not> Suc i < total_n" by simp
    then have le: "unat file_size - i * cs \<le> cs" using assms(4) chunks_cover(2) [OF cs] by (simp add: cs_def)
    have "unat (word_of_nat (unat file_size - i * cs) :: u32) = unat file_size - i * cs"
      by (rule unat_of_nat_u32) (rule order.strict_trans1 [OF le], use chs in \<open>simp add: cs_def\<close>)
    then have "unat len = unat file_size - i * cs" using True by (simp add: len_def)
    then show ?thesis using le assms(2) by (simp add: chunk_of_def)
  qed (simp add: len_def chunk_of_def cs_def)
  moreover have "read_chunk t fid file_size chunk_size c total_n i = tree_op t (ReadB (read_request_at fid off len)) c"
    unfolding read_chunk_def Let_def len_def off_def cs_def by (rule refl)
  ultimately show ?thesis
    using assms(1) [unfolded serves_file_def, rule_format, where offset = off and h = h and len = len and c = c] off i assms(2)
    by (auto simp: cs_def split: result.splits)
qed

text \<open>Storing a chunk fills exactly the bytes of that chunk.\<close>

lemma store_chunk_of:
  assumes "length data = length content" and "i * cs < length content" and "0 < cs"
  obtains data' n where "store_chunk (i * cs) (chunk_of cs content i) data = Ok (data', n)" "length data' = length content"
    "\<And>k. k < length content \<Longrightarrow> data' ! k = (if k div cs = i then content ! k else data ! k)"
proof -
  define off where "off = i * cs"
  define stop where "stop = min (off + cs) (length content)"
  have len: "length (chunk_of cs content i) = stop - off" "off < stop" "stop \<le> length data"
    using assms by (auto simp: chunk_of_def stop_def off_def)
  then have ne: "chunk_of cs content i \<noteq> []" by auto
  have stop: "min (off + length (chunk_of cs content i)) (length data) = stop" using len assms(1) by (simp add: stop_def)
  have "store_chunk off (chunk_of cs content i) data = Ok (take off data @ chunk_of cs content i @ drop stop data, stop - off)"
    using ne len by (simp add: store_chunk_def stop Let_def usub_def slice_def copy_from_slice_def)
  moreover have "length (take off data @ chunk_of cs content i @ drop stop data) = length content"
    using len assms(1) by simp
  moreover have "(take off data @ chunk_of cs content i @ drop stop data) ! k = (if k div cs = i then content ! k else data ! k)"
    if "k < length content" for k
  proof -
    have "k div cs = i \<longleftrightarrow> off \<le> k \<and> k < off + cs"
      unfolding off_def using assms(3) by (rule div_eq_iff_between)
    then have div: "k div cs = i \<longleftrightarrow> off \<le> k \<and> k < stop" using that by (auto simp: stop_def)
    consider "k < off" | "off \<le> k" "k < stop" | "stop \<le> k" by linarith
    then show ?thesis
    proof cases
      case 1
      with len div show ?thesis by (simp add: nth_append)
    next
      case 2
      then have "k - off < cs" "k - off < length (chunk_of cs content i)" by (auto simp: len stop_def)
      with 2 len div that show ?thesis by (simp add: nth_append) (simp add: chunk_of_def off_def)
    next
      case 3
      with len(2) have "\<not> k - off < stop - off" "k - off - (stop - off) = k - stop" by linarith+
      with 3 len div that assms(1) show ?thesis by (simp add: nth_append)
    qed
  qed
  ultimately show thesis using that unfolding off_def by blast
qed

lemma read_window_honest:
  assumes "\<And>i h. i < total_n \<Longrightarrow> \<exists>fr resp. pe_answer N h (req i) = Ok fr \<and> frame_status fr = STATUS_SUCCESS \<and>
             run_reader unpack_read_response (fr_body fr) = Ok resp \<and> rdr_data resp = chunk_of cs content i"
    and "0 < cs" and "\<And>i. i < total_n \<longleftrightarrow> i * cs < length content"
    and "window req total_n sent received q" and "length data = length content"
    and "\<And>k. k < length content \<Longrightarrow> k div cs < sent \<Longrightarrow> k div cs \<notin> fst ` set q \<Longrightarrow> data ! k = content ! k"
  shows "\<exists>h'. read_window N req cs total_n sent received q data h = (Ok content, h')"
  using assms(4-6)
proof (induction "total_n - received" arbitrary: sent received q data h)
  case 0
  then have "length q + received = sent" "sent \<le> total_n" "total_n \<le> received" by (simp_all add: window_def)
  then have "length q = 0" "sent = total_n" by linarith+
  moreover have "k div cs < total_n" if "k < length content" for k
    unfolding assms(3) using that by (metis div_times_less_eq_dividend le_less_trans)
  ultimately have "data = content" using 0(3,4) by (auto intro: nth_equalityI)
  then show ?case using 0(1) by (simp add: read_window.simps [of _ _ _ _ _ received])
next
  case (Suc n)
  then have rec: "received < total_n" by simp
  from window_step [OF Suc.prems(1) this, of N h] obtain i q' where i:
    "next_future N q h = Some (i, pe_answer N h (req i), q', h @ [Completed (req i)])"
    "i < sent" "i < total_n" "i \<in> fst ` set q" "fst ` set q' = fst ` set q - {i}"
    "sent = total_n \<Longrightarrow> window req total_n sent (Suc received) q'"
    "sent < total_n \<Longrightarrow> window req total_n (Suc sent) (Suc received) (q' @ [(sent, req sent)])"
    by blast
  obtain fr resp where fr: "pe_answer N h (req i) = Ok fr" "frame_status fr = STATUS_SUCCESS"
    "run_reader unpack_read_response (fr_body fr) = Ok resp" "rdr_data resp = chunk_of cs content i"
    using assms(1) [OF i(3)] by blast
  have "i * cs < length content" using i(3) assms(3) by simp
  from store_chunk_of [OF Suc.prems(2) this assms(2)] obtain data' m where d:
    "store_chunk (i * cs) (chunk_of cs content i) data = Ok (data', m)" "length data' = length content"
    "\<And>k. k < length content \<Longrightarrow> data' ! k = (if k div cs = i then content ! k else data ! k)" by blast
  have done': "data' ! k = content ! k" if "k < length content" "k div cs < sent" "k div cs \<notin> fst ` set q'" for k
    using d(3) [OF that(1)] Suc.prems(3) [OF that(1,2)] that(3) i(5) by auto
  have "sent \<le> total_n" using Suc.prems(1) by (simp add: window_def)
  then consider "sent = total_n" | "sent < total_n" by linarith
  then show ?case
  proof cases
    case 1
    have "\<exists>h'. read_window N req cs total_n sent (Suc received) q' data' (h @ [Completed (req i)]) = (Ok content, h')"
      by (rule Suc.hyps(1)) (use Suc.hyps(2) i(6) [OF 1] d(2) done' in auto)
    then show ?thesis using rec i(1) fr d(1) 1
      by (subst read_window.simps) (simp add: status_defs)
  next
    case 2
    have "\<exists>h'. read_window N req cs total_n (Suc sent) (Suc received) (q' @ [(sent, req sent)]) data'
             (h @ [Completed (req i), Launched (req sent)]) = (Ok content, h')"
      by (rule Suc.hyps(1)) (use Suc.hyps(2) i(7) [OF 2] d(2) done' in \<open>auto simp: less_Suc_eq\<close>)
    then show ?thesis using rec i(1) fr d(1) 2
      by (subst read_window.simps) (simp add: status_defs push_future_def)
  qed
qed

lemma unat_min: "unat (min a b) = min (unat a) (unat b)"
  by (simp add: min_def word_le_nat_alt)

lemma pipeline_chunk_size_pos:
  assumes "0 < file_size" and "0 < max_read_size"
  shows "0 < pipeline_chunk_size file_size max_read_size"
proof (cases "file_size \<le> ucast max_read_size")
  case True
  have "unat (ucast max_read_size :: u64) = unat max_read_size" 
    using unsigned_less [of max_read_size] by (simp add: unsigned_ucast_eq take_bit_nat_eq_self)
  with True have "unat file_size \<le> unat max_read_size" by (simp add: word_le_nat_alt)
  then have "unat file_size < 2 ^ 32" using unsigned_less [of max_read_size] by (simp add: order.strict_trans1)
  then have "unat (ucast file_size :: u32) = unat file_size" by (simp add: unsigned_ucast_eq unsigned_take_bit_eq take_bit_nat_eq_self)
  then show ?thesis using assms True by (simp add: pipeline_chunk_size_def word_less_nat_alt unat_min)
qed (use assms in \<open>simp add: pipeline_chunk_size_def\<close>)

lemma read_pipelined_loop_honest:
  assumes "serves_file N t fid content" and "length content = unat file_size" and "0 < chunk_size"
  shows "\<exists>h'. read_pipelined_loop N t fid file_size chunk_size c ((unat file_size + unat chunk_size - 1) div unat chunk_size) h =
           (Ok content, h')"
proof -
  have cs: "0 < unat chunk_size" using assms(3) by (simp add: unat_gt_0)
  define n where "n = (unat file_size + unat chunk_size - 1) div unat chunk_size"
  have n: "i < n \<longleftrightarrow> i * unat chunk_size < length content" for i
    unfolding n_def assms(2) using cs by (rule chunks_cover(2))
  show ?thesis
    unfolding read_pipelined_loop_def Let_def launch_window_apply prod.case n_def [symmetric] append_Nil add_0
    by (rule read_window_honest [where content = content, OF read_chunk_answer [OF assms n_def] cs n window_start])
      (auto simp: assms(2) n image_image)
qed

text \<open>
  C4: Pipelined reading is reading. The file is read in chunks with up to 32 requests in flight and
  the responses are taken in whatever order the peer completes them; against a server that holds the
  content, the result is that content exactly, for every size and every order of completion, and the
  handle is closed afterwards. Only the answer to the CLOSE can still make it an error.
\<close>

theorem pipelined_read_any_order:
  assumes "open_file N t path h = (Ok (fid, file_size), h1)" and "length content = unat file_size"
    and "serves_file N t fid content" and "0 < max_read N"
  shows "\<exists>h2. read_file_pipelined N t path h =
           (result_bind (fst (close_handle N t fid h2)) (\<lambda>_. Ok content), h2 @ close_events t fid)"
proof (cases "file_size = 0")
  case True
  then have "content = []" using assms(2) by simp
  then show ?thesis using assms(1) True
    by (intro exI [of _ h1]) (simp add: read_file_pipelined_def abind_Ok abind_cases [OF surjective_pairing] result_bind_def split: result.split)
next
  case False
  define cs where "cs = pipeline_chunk_size file_size (max_read N)"
  have cs: "0 < cs" unfolding cs_def using False assms(4) by (intro pipeline_chunk_size_pos) (simp_all add: word_neq_0_conv)
  obtain h2 where "read_pipelined_loop N t fid file_size cs (credit_charge_of (unat cs))
      ((unat file_size + unat cs - 1) div unat cs) h1 = (Ok content, h2)"
    using read_pipelined_loop_honest [OF assms(3,2) cs] by blast
  moreover have "unat cs \<noteq> 0" using cs by (simp add: unat_eq_0)
  ultimately show ?thesis using False
    by (intro exI [of _ h2])
      (simp add: read_file_pipelined_def abind_Ok [where m = "open_file N t path", OF assms(1)] cs_def [symmetric] Let_def div_ceil_def close_after_apply
        result_bind_def split: result.split)
qed

definition file_peer :: "file_id \<Rightarrow> bytes \<Rightarrow> peer" where
  "file_peer fid content =
     \<lparr>pe_params = None, pe_server_name = [115],
      pe_answer = (\<lambda>h r. case rq_body r of
          CreateB _ \<Rightarrow> Ok (reply Create STATUS_SUCCESS
             (packed (pack_create_response (created_file fid (word_of_nat (length content))))))
        | ReadB q \<Rightarrow> Ok (reply Read STATUS_SUCCESS
             (packed (pack_read_response \<lparr>rdr_data_offset = 0x50, rdr_data_remaining = 0, rdr_flags = 0,
                rdr_data = take (unat (rdq_length q)) (drop (unat (rdq_offset q)) content)\<rparr>)))
        | _ \<Rightarrow> Ok (reply Close STATUS_SUCCESS [])),
      pe_answers = (\<lambda>_ _. Err Disconnected), pe_next = (\<lambda>h. 7 * length h)\<rparr>"

lemma file_peer_serves: "length content \<le> MAX_UNPACK_BUFFER \<Longrightarrow> serves_file (file_peer fid content) t fid content"
  unfolding serves_file_def
proof (intro allI impI)
  fix h offset len c
  assume "length content \<le> MAX_UNPACK_BUFFER"
  then have "run_reader unpack_read_response (packed (pack_read_response \<lparr>rdr_data_offset = 0x50, rdr_data_remaining = 0,
      rdr_flags = 0, rdr_data = take (unat (len :: u32)) (drop (unat (offset :: u64)) content)\<rparr>)) =
    Ok \<lparr>rdr_data_offset = 0x50, rdr_data_remaining = 0, rdr_flags = 0, rdr_data = take (unat len) (drop (unat offset) content)\<rparr>"
    by (intro packed_parses read_response.run_roundtrip) (auto simp: wf_read_response_def)
  then show "case pe_answer (file_peer fid content) h (tree_op t (ReadB (read_request_at fid offset len)) c) of
      Ok fr \<Rightarrow> frame_status fr = STATUS_SUCCESS \<and>
        (case run_reader unpack_read_response (fr_body fr) of
           Ok resp \<Rightarrow> rdr_data resp = take (unat len) (drop (unat offset) content) | _ \<Rightarrow> False) | _ \<Rightarrow> False"
    by (simp add: file_peer_def tree_op_def read_request_at_def)
qed

lemma file_peer_opens:
  "\<exists>h1. open_file (file_peer fid content) t path h = (Ok (fid, word_of_nat (length content)), h1)"
  by (simp add: open_file_def open_with_def abind_assoc execute_apply abind_def [of "execute _ _ _"]
      file_peer_def expect_success_Ok parse_body_def created_parses)

lemma file_peer_closes [simp]: "fst (close_handle (file_peer fid content) t fid' h) = Ok ()"
  by (simp add: close_handle_apply) (simp add: file_peer_def tree_op_def)

theorem pipelined_read_any_order_witness:
  "fst (read_file_pipelined (file_peer SENTINEL (replicate 200000 7)) sample_tree [97] []) = Ok (replicate 200000 7)"
proof -
  define content :: bytes where "content = replicate 200000 7"
  have len: "length content = unat (200000 :: u64)" "length content \<le> MAX_UNPACK_BUFFER"
    by (simp_all add: content_def MAX_UNPACK_BUFFER_def)
  obtain h1 where h1: "open_file (file_peer SENTINEL content) sample_tree [97] [] = (Ok (SENTINEL, 200000), h1)"
    using file_peer_opens [of SENTINEL content sample_tree "[97]" "[]"] by (auto simp: len(1))
  have "0 < max_read (file_peer SENTINEL content)" by (simp add: max_read_def file_peer_def)
  from pipelined_read_any_order [OF h1 len(1) file_peer_serves [OF len(2)] this]
  show ?thesis unfolding content_def [symmetric] by auto
qed

section \<open>Progress and truncation\<close>

lemma read_window_never_break:
  assumes "\<And>p c. fst (on_progress p c) = Continue"
  shows "fst (read_window_with_progress N req fsz cs total_n on_progress sent received n c q data h) =
         read_window N req cs total_n sent received q data h"
proof (induction "total_n - received" arbitrary: sent received n c q data h)
  case 0
  then show ?case by (simp add: read_window.simps [of _ _ _ _ _ received] read_window_with_progress.simps [of _ _ _ _ _ _ _ received])
next
  case (Suc m)
  define g where "g p c = snd (on_progress p c)" for p c
  have cb: "on_progress p c = (Continue, g p c)" for p c using assms [of p c] by (cases "on_progress p c") (simp add: g_def)
  have "m = total_n - Suc received" "received < total_n" using Suc.hyps(2) by simp_all
  note IH = Suc.hyps(1) [OF this(1)]
  show ?case
  proof (cases "next_future N q h")
    case None
    then show ?thesis by (subst read_window.simps, subst read_window_with_progress.simps) simp
  next
    case (Some x)
    then obtain i ans q' h' where "next_future N q h = Some (i, ans, q', h')" by (cases x) auto
    then show ?thesis using \<open>received < total_n\<close>
      by (subst read_window.simps, subst read_window_with_progress.simps)
        (simp add: IH cb Let_def push_future_def split: prod.split result.split)
  qed
qed

lemma read_loop_never_break:
  assumes "\<And>p c. fst (on_progress p c) = Continue"
  shows "fst (read_pipelined_loop_with_progress N t fid fsz cs cc total_n on_progress c h) =
         read_pipelined_loop N t fid fsz cs cc total_n h"
  unfolding read_pipelined_loop_with_progress_def read_pipelined_loop_def Let_def launch_window_apply prod.case
  by (rule read_window_never_break [OF assms])

text \<open>
  The variant that reports progress and the plain one are two copies of the same loop. As long as
  the callback never breaks, they agree on everything: the result, what is sent, the order of it.
\<close>

lemma progress_read_is_plain_read:
  assumes "\<And>p c. fst (on_progress p c) = Continue"
  shows "fst (read_file_pipelined_with_progress N t path on_progress c h) = read_file_pipelined N t path h"
  by (cases "open_file N t path h")
    (auto simp: read_file_pipelined_with_progress_def read_file_pipelined_def abind_def Let_def case_prod_unfold
      read_loop_never_break [OF assms] split: result.split)

lemma read_window_all_eof:
  assumes "\<And>i h. \<exists>fr. pe_answer N h (req i) = Ok fr \<and> frame_status fr = STATUS_END_OF_FILE"
    and "\<forall>(i, r) \<in> set q. r = req i"
  shows "\<exists>h'. read_window N req cs total_n sent received q data h = (Ok data, h')"
  using assms(2)
proof (induction "total_n - received" arbitrary: received q h)
  case 0
  then show ?case by (simp add: read_window.simps [of _ _ _ _ _ received])
next
  case (Suc m)
  show ?case
  proof (cases "next_future N q h")
    case None
    then show ?thesis by (subst read_window.simps) simp
  next
    case (Some x)
    then obtain i ans q' h' where n: "next_future N q h = Some (i, ans, q', h')" by (cases x) auto
    then obtain r where r: "mset q = add_mset (i, r) (mset q')" "ans = pe_answer N h r" by (rule next_future_SomeE)
    have q: "set q = insert (i, r) (set q')" using arg_cong [OF r(1), of set_mset] by simp
    with Suc.prems have "ans = pe_answer N h (req i)" using r(2) by auto
    then obtain fr where "ans = Ok fr" "frame_status fr = STATUS_END_OF_FILE" using assms(1) by metis
    moreover have "\<exists>h''. read_window N req cs total_n sent (Suc received) q' data h' = (Ok data, h'')"
      by (rule Suc.hyps(1)) (use Suc.hyps(2) Suc.prems q in auto)
    ultimately show ?thesis using n Suc.hyps(2) by (subst read_window.simps) simp
  qed
qed

text \<open>
  A file that was cut short after it was opened is not noticed. When the server answers the READs
  with STATUS_END_OF_FILE, the pipelined read still succeeds, and what it returns has the length the
  file had at open, made of zeros.
\<close>

lemma truncated_file_reads_as_zeros:
  assumes "open_file N t path h = (Ok (fid, file_size), h1)" and "file_size \<noteq> 0" and "0 < max_read N"
    and "\<forall>k offset len c. \<exists>fr. pe_answer N k (tree_op t (ReadB (read_request_at fid offset len)) c) = Ok fr \<and>
            frame_status fr = STATUS_END_OF_FILE"
  shows "\<exists>h2. read_file_pipelined N t path h =
           (result_bind (fst (close_handle N t fid h2)) (\<lambda>_. Ok (replicate (unat file_size) 0)), h2 @ close_events t fid)"
proof -
  define cs where "cs = pipeline_chunk_size file_size (max_read N)"
  define n where "n = (unat file_size + unat cs - 1) div unat cs"
  have cs: "unat cs \<noteq> 0"
    unfolding cs_def using pipeline_chunk_size_pos [of file_size "max_read N"] assms(2,3) by (simp add: unat_eq_0 word_neq_0_conv)
  have "\<exists>h2. read_pipelined_loop N t fid file_size cs (credit_charge_of (unat cs)) n h1 = (Ok (replicate (unat file_size) 0), h2)"
    unfolding read_pipelined_loop_def Let_def launch_window_apply prod.case
    by (rule read_window_all_eof) (use assms(4) in \<open>auto simp: read_chunk_def Let_def\<close>)
  then obtain h2 where h2: "read_pipelined_loop N t fid file_size cs (credit_charge_of (unat cs)) n h1 =
      (Ok (replicate (unat file_size) 0), h2)" by blast
  have "div_ceil (unat file_size) (unat cs) = Ok n" using cs by (simp add: div_ceil_def n_def)
  then show ?thesis using assms(2)
    by (intro exI [of _ h2])
      (simp add: read_file_pipelined_def abind_Ok [where m = "open_file N t path", OF assms(1)] cs_def [symmetric] Let_def h2
        close_after_apply result_bind_def split: result.split)
qed

definition truncated_peer :: peer where
  "truncated_peer = (file_peer SENTINEL [1, 2, 3])
     \<lparr>pe_answer := (\<lambda>h r. case rq_body r of ReadB _ \<Rightarrow> Ok (reply Read STATUS_END_OF_FILE [])
                    | _ \<Rightarrow> pe_answer (file_peer SENTINEL [1, 2, 3]) h r)\<rparr>"

lemma truncated_peer_opens: "\<exists>h1. open_file truncated_peer t path h = (Ok (SENTINEL, 3), h1)"
  by (simp add: open_file_def open_with_def abind_assoc execute_apply abind_def [of "execute _ _ _"]
      truncated_peer_def file_peer_def expect_success_Ok parse_body_def created_parses)

theorem truncated_file_reads_as_zeros_witness:
  "fst (read_file_pipelined truncated_peer sample_tree [97] []) = Ok [0, 0, 0]"
proof -
  obtain h1 where h1: "open_file truncated_peer sample_tree [97] [] = (Ok (SENTINEL, 3), h1)"
    using truncated_peer_opens by blast
  have "0 < max_read truncated_peer" by (simp add: max_read_def truncated_peer_def file_peer_def)
  moreover have "\<forall>k offset len c. \<exists>fr. pe_answer truncated_peer k (tree_op sample_tree (ReadB (read_request_at SENTINEL offset len)) c) =
      Ok fr \<and> frame_status fr = STATUS_END_OF_FILE"
    by (simp add: truncated_peer_def tree_op_def)
  moreover have "fst (close_handle truncated_peer sample_tree SENTINEL h2) = Ok ()" for h2
    by (simp add: close_handle_apply) (simp add: truncated_peer_def file_peer_def tree_op_def)
  moreover have "replicate (unat (3 :: u64)) 0 = [0, 0, 0 :: u8]"
    unfolding replicate_app_Cons_same [symmetric] by (simp add: numeral_3_eq_3 [symmetric]) (simp add: numeral_3_eq_3)
  ultimately show ?thesis using truncated_file_reads_as_zeros [OF h1] by fastforce
qed

section \<open>Writes on the server\<close>

text \<open>A WRITE on the content of a file, zeros in the gap it may leave.\<close>

definition apply_write :: "usize \<Rightarrow> bytes \<Rightarrow> bytes \<Rightarrow> bytes" where
  "apply_write offset src file =
     take offset (file @ replicate (offset - length file) 0) @ src @ drop (offset + length src) file"

fun apply_event :: "event \<Rightarrow> bytes \<Rightarrow> bytes" where
  "apply_event (Completed r) file =
     (case rq_body r of WriteB w \<Rightarrow> apply_write (unat (wrq_offset w)) (wrq_data w) file | _ \<Rightarrow> file)"
| "apply_event _ file = file"

text \<open>The file after the writes that completed, in the order they completed.\<close>

definition server_file :: "event list \<Rightarrow> bytes \<Rightarrow> bytes" where
  "server_file evs file = fold apply_event evs file"

lemma length_apply_write: "length (apply_write off src file) = max (off + length src) (length file)"
  by (cases "off \<le> length file") (auto simp: apply_write_def max_def)

lemma nth_apply_write:
  assumes "k < max (off + length src) (length file)"
  shows "apply_write off src file ! k =
           (if off \<le> k \<and> k < off + length src then src ! (k - off) else if k < length file then file ! k else 0)"
proof -
  have len: "length (take off (file @ replicate (off - length file) 0)) = off" by simp
  consider "k < off" | "off \<le> k" "k < off + length src" | "off + length src \<le> k" by linarith
  then show ?thesis
  proof cases
    case 1
    then have "apply_write off src file ! k = (file @ replicate (off - length file) 0) ! k"
      unfolding apply_write_def nth_append [of "take off (file @ replicate (off - length file) 0)"] len by (simp del: take_append)
    with 1 show ?thesis by (cases "k < length file") (simp_all add: nth_append)
  next
    case 2
    then show ?thesis unfolding apply_write_def by (simp only: nth_append len) auto
  next
    case 3
    then have "k < length file" using assms by linarith
    moreover have "apply_write off src file ! k = drop (off + length src) file ! (k - off - length src)"
      unfolding apply_write_def using 3 by (simp only: nth_append len) auto
    ultimately show ?thesis using 3 by simp
  qed
qed

lemma write_chunk_data_eq: "write_chunk_data data cs i = chunk_of cs data i"
  by (cases "i * cs + cs \<le> length data") (simp_all add: write_chunk_data_def chunk_of_def Let_def min_def)

text \<open>The chunks of \<open>done\<close> are on the server, and nothing beyond the data.\<close>

definition holds_chunks :: "usize \<Rightarrow> bytes \<Rightarrow> usize set \<Rightarrow> bytes \<Rightarrow> bool" where
  "holds_chunks cs data done_chunks file \<longleftrightarrow>
     length file \<le> length data \<and>
     (\<forall>k < length data. k div cs \<in> done_chunks \<longrightarrow> k < length file \<and> file ! k = data ! k)"

lemma holds_chunks_write:
  assumes "holds_chunks cs data D file" and "0 < cs" and "i * cs < length data"
  shows "holds_chunks cs data (insert i D) (apply_write (i * cs) (chunk_of cs data i) file)"
  unfolding holds_chunks_def
proof (intro conjI allI impI)
  let ?off = "i * cs" and ?src = "chunk_of cs data i"
  have len: "?off + length ?src = min (?off + cs) (length data)" using assms(3) by (auto simp: chunk_of_def min_def)
  then show "length (apply_write ?off ?src file) \<le> length data"
    using assms(1) by (simp add: length_apply_write holds_chunks_def)
  fix k assume k: "k < length data" "k div cs \<in> insert i D"
  have div: "k div cs = i \<longleftrightarrow> ?off \<le> k \<and> k < ?off + length ?src"
    unfolding div_eq_iff_between [OF assms(2)] len using k(1) by auto
  show "k < length (apply_write ?off ?src file)"
    using k div assms(1) by (auto simp: length_apply_write holds_chunks_def less_max_iff_disj)
  then have "apply_write ?off ?src file ! k =
      (if k div cs = i then ?src ! (k - ?off) else if k < length file then file ! k else 0)"
    unfolding div by (subst nth_apply_write) (simp_all add: length_apply_write)
  also have "\<dots> = data ! k"
  proof (cases "k div cs = i")
    case True
    then have "?off \<le> k" "k < ?off + cs" using div_eq_iff_between [OF assms(2), of k i] by auto
    then have "?off \<le> k" "k - ?off < cs" by linarith+
    then show ?thesis using True k(1) by (simp add: chunk_of_def)
  next
    case False
    then show ?thesis using k assms(1) by (auto simp: holds_chunks_def)
  qed
  finally show "apply_write ?off ?src file ! k = data ! k" .
qed

lemma holds_all_chunks:
  assumes "holds_chunks cs data D file" and "\<And>k. k < length data \<Longrightarrow> k div cs \<in> D"
  shows "file = data"
proof (rule nth_equalityI)
  show "length file = length data"
  proof (rule ccontr)
    assume "length file \<noteq> length data"
    with assms(1) have "length file < length data" by (simp add: holds_chunks_def)
    with assms show False by (auto simp: holds_chunks_def)
  qed
  then show "file ! k = data ! k" if "k < length file" for k
    using assms that by (auto simp: holds_chunks_def)
qed

lemma server_file_simps [simp]:
  "server_file [] file = file" "server_file (ev # evs) file = server_file evs (apply_event ev file)"
  by (simp_all add: server_file_def)

lemma apply_write_chunk:
  assumes "length data < 2 ^ 64" and "i * unat cs < length data"
  shows "apply_event (Completed (write_chunk t fid data cs c i)) file =
         apply_write (i * unat cs) (chunk_of (unat cs) data i) file"
proof -
  define w :: u64 where "w = word_of_nat (i * unat cs)"
  have "unat w = i * unat cs" unfolding w_def by (rule unat_of_nat_u64) (use assms in simp)
  then show ?thesis
    by (simp add: write_chunk_def tree_op_def write_request_at_def write_chunk_data_eq w_def [symmetric] del: of_nat_mult)
qed

lemma write_window_fills:
  assumes "\<And>i fl. i < total_n \<Longrightarrow> apply_event (Completed (req i)) fl = apply_write (i * cs) (chunk_of cs data i) fl"
    and "0 < cs" and "\<And>i. i < total_n \<longleftrightarrow> i * cs < length data"
    and "window req total_n sent received q" and "holds_chunks cs data {i. i < sent \<and> i \<notin> fst ` set q} fl"
    and "write_window N req total_n sent received q n h = (Ok m, h')"
  shows "\<exists>evs. h' = h @ evs \<and> server_file evs fl = data"
  using assms(4-6)
proof (induction "total_n - received" arbitrary: sent received q fl n h)
  case 0
  then have "length q + received = sent" "sent \<le> total_n" "total_n \<le> received" by (simp_all add: window_def)
  then have "length q = 0" "sent = total_n" by linarith+
  moreover have "k div cs < total_n" if "k < length data" for k
    unfolding assms(3) using that by (metis div_times_less_eq_dividend le_less_trans)
  ultimately have "fl = data" using 0(3) by (intro holds_all_chunks [OF 0(3)]) simp
  then show ?case using 0(1,4) by (simp add: write_window.simps [of _ _ _ _ received])
next
  case (Suc n')
  then have rec: "received < total_n" by simp
  from window_step [OF Suc.prems(1) this, of N h] obtain i q' where i:
    "next_future N q h = Some (i, pe_answer N h (req i), q', h @ [Completed (req i)])"
    "i < sent" "i < total_n" "i \<in> fst ` set q" "fst ` set q' = fst ` set q - {i}"
    "sent = total_n \<Longrightarrow> window req total_n sent (Suc received) q'"
    "sent < total_n \<Longrightarrow> window req total_n (Suc sent) (Suc received) (q' @ [(sent, req sent)])"
    by blast
  define fl' where "fl' = apply_event (Completed (req i)) fl"
  have D: "insert i {j. j < sent \<and> j \<notin> fst ` set q} = {j. j < sent \<and> j \<notin> fst ` set q'}" using i(2,5) by auto
  have f': "holds_chunks cs data {j. j < sent \<and> j \<notin> fst ` set q'} fl'"
    unfolding fl'_def assms(1) [OF i(3)] D [symmetric]
    by (rule holds_chunks_write [OF Suc.prems(2) assms(2)]) (use i(3) assms(3) in simp)
  have "sent \<le> total_n" using Suc.prems(1) by (simp add: window_def)
  then consider "sent = total_n" | "sent < total_n" by linarith
  then show ?case
  proof cases
    case 1
    obtain n'' where "write_window N req total_n sent (Suc received) q' n'' (h @ [Completed (req i)]) = (Ok m, h')"
      using Suc.prems(3) rec i(1) 1 by (subst (asm) write_window.simps) (auto split: result.splits if_splits)
    from Suc.hyps(1) [OF _ i(6) [OF 1] f' this] Suc.hyps(2) show ?thesis
      by (fastforce simp: fl'_def)
  next
    case 2
    have "{j. j < Suc sent \<and> j \<notin> fst ` set (q' @ [(sent, req sent)])} = {j. j < sent \<and> j \<notin> fst ` set q'}"
      by (auto simp: less_Suc_eq)
    with f' have f'': "holds_chunks cs data {j. j < Suc sent \<and> j \<notin> fst ` set (q' @ [(sent, req sent)])} fl'" by simp
    obtain n'' where "write_window N req total_n (Suc sent) (Suc received) (q' @ [(sent, req sent)]) n''
        (h @ [Completed (req i), Launched (req sent)]) = (Ok m, h')"
      using Suc.prems(3) rec i(1) 2 by (subst (asm) write_window.simps) (auto simp: push_future_def split: result.splits if_splits)
    from Suc.hyps(1) [OF _ i(7) [OF 2] f'' this] Suc.hyps(2) show ?thesis
      by (fastforce simp: fl'_def)
  qed
qed

lemma abind_alift_Ok: "abind (alift r) f h = (Ok y, k) \<longleftrightarrow> (\<exists>x. r = Ok x \<and> f x h = (Ok y, k))"
  by (simp add: abind_eq_Ok)

abbreviation flush_op :: "tree \<Rightarrow> file_id \<Rightarrow> request" where
  "flush_op t fid \<equiv> tree_op t (FlushB \<lparr>flq_file_id = fid\<rparr>) 1"

lemma flush_handle_apply:
  "flush_handle N t fid h =
     (case pe_answer N h (flush_op t fid) of
        Ok fr \<Rightarrow> if frame_status fr = STATUS_SUCCESS then Ok () else Err (Protocol (frame_status fr) Flush)
      | Err e \<Rightarrow> Err e | Panic \<Rightarrow> Panic,
      h @ [Sent (flush_op t fid)])"
  by (simp add: flush_handle_def execute_apply tree_op_def abind_def [of "execute _ _ _"] expect_success_apply
      split: result.split)

lemma flush_then_close_Ok:
  assumes "flush_then_close N t fid (r, h) = (Ok x, h')"
  shows "r = Ok x \<and> h' = h @ Sent (flush_op t fid) # close_events t fid"
proof (cases r)
  case (Ok y)
  then show ?thesis using assms
    by (auto simp: flush_then_close_def abind_eq_Ok flush_handle_apply close_after_apply result_bind_eq_Ok split: result.splits)
qed (use assms in \<open>auto simp: flush_then_close_def close_after_apply split: result.splits\<close>)

lemma write_file_pipelined_open:
  "data \<noteq> [] \<Longrightarrow> write_file_pipelined N t path data =
     abind (open_file_for_write N t path) (\<lambda>fid.
     abind (alift (div_ceil (length data) (unat (max_write N)))) (\<lambda>total_chunks h.
       flush_then_close N t fid (write_pipelined_loop N t fid data (max_write N)
         (credit_charge_of (unat (max_write N))) total_chunks h)))"
  by (simp add: write_file_pipelined_def open_file_for_write_def open_file_for_write_with_disposition_def abind_assoc Let_def)

lemma server_file_append [simp]: "server_file (a @ b) file = server_file b (server_file a file)"
  by (simp add: server_file_def)

lemma server_file_launched [simp]: "server_file (map (\<lambda>i. Launched (f i)) xs) file = file"
  by (induction xs) simp_all

lemma write_pipelined_loop_fills:
  assumes "write_pipelined_loop N t fid data cs c ((length data + unat cs - 1) div unat cs) h = (Ok m, h')"
    and "0 < cs" and "length data < 2 ^ 64"
  shows "\<exists>evs. h' = h @ evs \<and> server_file evs [] = data"
proof -
  have cs: "0 < unat cs" using assms(2) by (simp add: unat_gt_0)
  define n where "n = (length data + unat cs - 1) div unat cs"
  have n: "i < n \<longleftrightarrow> i * unat cs < length data" for i
    unfolding n_def using cs by (rule chunks_cover(2))
  let ?req = "write_chunk t fid data cs c" and ?w = "[0..<min n MAX_PIPELINE_WINDOW]"
  have a: "apply_event (Completed (?req i)) fl = apply_write (i * unat cs) (chunk_of (unat cs) data i) fl" if "i < n" for i fl
    using assms(3) that by (intro apply_write_chunk) (simp_all add: n)
  have "write_window N ?req n (min n MAX_PIPELINE_WINDOW) 0 (map (\<lambda>i. (i, ?req i)) ?w) 0
      (h @ map (\<lambda>i. Launched (?req i)) ?w) = (Ok m, h')"
    using assms(1) unfolding write_pipelined_loop_def Let_def launch_window_apply prod.case n_def [symmetric] append_Nil add_0 .
  from write_window_fills [OF a cs n window_start _ this, of "[]"]
  obtain evs where "h' = (h @ map (\<lambda>i. Launched (?req i)) ?w) @ evs" "server_file evs [] = data"
    by (auto simp: holds_chunks_def image_image)
  then show ?thesis by (intro exI [of _ "map (\<lambda>i. Launched (?req i)) ?w @ evs"]) simp
qed


definition write_peer :: "nt_status \<Rightarrow> peer" where
  "write_peer flush_status =
     \<lparr>pe_params = None, pe_server_name = [115],
      pe_answer = (\<lambda>h r. case rq_body r of
          CreateB _ \<Rightarrow> Ok (reply Create STATUS_SUCCESS (packed (pack_create_response (created_file SENTINEL 0))))
        | WriteB w \<Rightarrow> Ok (reply Write STATUS_SUCCESS
             (packed (pack_write_response \<lparr>wrr_count = word_of_nat (length (wrq_data w)), wrr_remaining = 0,
                wrr_write_channel_info_offset = 0, wrr_write_channel_info_length = 0\<rparr>)))
        | FlushB _ \<Rightarrow> Ok (reply Flush flush_status [])
        | _ \<Rightarrow> Ok (reply Close STATUS_SUCCESS [])),
      pe_answers = (\<lambda>_ _. Err Disconnected), pe_next = (\<lambda>h. 7 * length h)\<rparr>"

lemma write_peer_acks:
  "\<exists>fr resp. pe_answer (write_peer st) h (tree_op t (WriteB w) c) = Ok fr \<and> frame_status fr = STATUS_SUCCESS \<and>
     run_reader unpack_write_response (fr_body fr) = Ok resp \<and> wrr_count resp = word_of_nat (length (wrq_data w))"
proof -
  let ?r = "\<lparr>wrr_count = word_of_nat (length (wrq_data w)), wrr_remaining = 0,
      wrr_write_channel_info_offset = 0, wrr_write_channel_info_length = 0\<rparr> :: write_response"
  have "run_reader unpack_write_response (packed (pack_write_response ?r)) = Ok ?r"
    by (intro packed_parses write_response.run_roundtrip) simp
  then show ?thesis by (simp add: write_peer_def tree_op_def)
qed

lemma write_peer_simps:
  "fst (close_handle (write_peer st) t fid h) = Ok ()"
  "fst (flush_handle (write_peer st) t fid h) = (if st = STATUS_SUCCESS then Ok () else Err (Protocol st Flush))"
  "max_write (write_peer st) = 65536"
  by (simp add: close_handle_apply, simp add: write_peer_def tree_op_def)
    (simp_all add: flush_handle_apply write_peer_def tree_op_def max_write_def)

lemma write_peer_opens: "\<exists>h1. open_file_for_write (write_peer st) t path h = (Ok SENTINEL, h1)"
  by (simp add: open_file_for_write_def open_file_for_write_with_disposition_def open_with_def abind_assoc execute_apply
      abind_def [of "execute _ _ _"] write_peer_def expect_success_Ok parse_body_def created_parses)

text \<open>Against a server that acknowledges every write, the writes succeed.\<close>

lemma write_window_acked:
  assumes "\<And>i h. \<exists>fr resp. pe_answer N h (req i) = Ok fr \<and> frame_status fr = STATUS_SUCCESS \<and>
             run_reader unpack_write_response (fr_body fr) = Ok resp"
    and "window req total_n sent received q"
  shows "\<exists>m h'. write_window N req total_n sent received q n h = (Ok m, h')"
  using assms(2)
proof (induction "total_n - received" arbitrary: sent received q n h)
  case 0
  then show ?case by (simp add: write_window.simps [of _ _ _ _ received])
next
  case (Suc n')
  have rec: "received < total_n" using Suc.hyps(2) by simp
  from window_step [OF Suc.prems(1) this, of N h] obtain i q' where i:
    "next_future N q h = Some (i, pe_answer N h (req i), q', h @ [Completed (req i)])"
    "i < sent" "i < total_n" "i \<in> fst ` set q" "fst ` set q' = fst ` set q - {i}"
    "sent = total_n \<Longrightarrow> window req total_n sent (Suc received) q'"
    "sent < total_n \<Longrightarrow> window req total_n (Suc sent) (Suc received) (q' @ [(sent, req sent)])"
    by blast
  obtain fr resp where fr: "pe_answer N h (req i) = Ok fr" "frame_status fr = STATUS_SUCCESS"
    "run_reader unpack_write_response (fr_body fr) = Ok resp" using assms(1) [of h i] by blast
  have "n' = total_n - Suc received" using Suc.hyps(2) by simp
  note IH = Suc.hyps(1) [OF this]
  have "sent \<le> total_n" using Suc.prems(1) by (simp add: window_def)
  then consider "sent = total_n" | "sent < total_n" by linarith
  then show ?case
  proof cases
    case 1
    with rec i(1) fr show ?thesis
      using IH [OF i(6) [OF 1], of "n + ucast (wrr_count resp)" "h @ [Completed (req i)]"]
      by (subst write_window.simps) simp
  next
    case 2
    with rec i(1) fr show ?thesis
      using IH [OF i(7) [OF 2], of "n + ucast (wrr_count resp)" "h @ [Completed (req i), Launched (req sent)]"]
      by (subst write_window.simps) (simp add: push_future_def)
  qed
qed

lemma write_peer_loop: "\<exists>m h'. write_pipelined_loop (write_peer st) t fid data cs c total_n h = (Ok m, h')"
  unfolding write_pipelined_loop_def Let_def launch_window_apply prod.case append_Nil add_0
  by (rule write_window_acked [OF _ window_start]) (use write_peer_acks in \<open>unfold write_chunk_def, blast\<close>)

lemma flush_then_close_Ok_apply:
  "flush_then_close N t fid (Ok x, h) =
     (case fst (flush_handle N t fid h) of
        Ok _ \<Rightarrow> close_after N t fid (Ok x, h @ [Sent (flush_op t fid)])
      | Err e \<Rightarrow> (Err e, h @ [Sent (flush_op t fid)])
      | Panic \<Rightarrow> (Panic, h @ [Sent (flush_op t fid)]))"
  by (simp add: flush_then_close_def abind_def flush_handle_apply split: result.split)

lemma write_peer_pipelined:
  assumes "data \<noteq> []"
  shows "\<exists>m h'. write_file_pipelined (write_peer STATUS_SUCCESS) t path data h = (Ok m, h')"
proof -
  obtain h1 where h1: "open_file_for_write (write_peer STATUS_SUCCESS) t path h = (Ok SENTINEL, h1)"
    using write_peer_opens by blast
  obtain n where n: "div_ceil (length data) 65536 = Ok n" by (simp add: div_ceil_def)
  obtain m h2 where h2: "write_pipelined_loop (write_peer STATUS_SUCCESS) t SENTINEL data 65536 (credit_charge_of 65536) n h1 = (Ok m, h2)"
    using write_peer_loop by blast
  show ?thesis
    by (simp add: write_file_pipelined_open [OF assms] abind_Ok [where m = "open_file_for_write _ _ _", OF h1]
      write_peer_simps n h2 flush_then_close_Ok_apply close_after_apply result_bind_def)
qed


section \<open>Streamed writes\<close>

text \<open>A callback that hands out the chunks of a list.\<close>

fun list_source :: "bytes list next_chunk" where
  "list_source [] = (None, [])"
| "list_source (x # xs) = (Some (Inr x), xs)"

text \<open>What is still to be sent: the rest of the pending chunk and the chunks up to the first empty one.\<close>

definition to_send :: "bytes list wire_source \<Rightarrow> bytes" where
  "to_send s = drop (ws_pending_offset s) (ws_pending_data s) @
     (if ws_done s then [] else concat (takeWhile (\<lambda>x. x \<noteq> []) (ws_callback s)))"

lemma next_wire_chunk_list:
  assumes "0 < mw" and "ws_callback_err s = None" and "next_wire_chunk mw list_source s = (r, s')"
  shows "ws_callback_err s' = None \<and>
         (case r of None \<Rightarrow> to_send s = [] \<and> to_send s' = [] | Some bs \<Rightarrow> bs \<noteq> [] \<and> to_send s = bs @ to_send s')"
proof (cases "ws_pending_offset s < length (ws_pending_data s)")
  case True
  let ?o = "ws_pending_offset s" and ?d = "ws_pending_data s"
  let ?stop = "min (?o + mw) (length ?d)"
  have "drop ?o ?d = take (?stop - ?o) (drop ?o ?d) @ drop ?stop ?d"
    using True append_take_drop_id [of "?stop - ?o" "drop ?o ?d"] by (simp add: add.commute)
  moreover have "r = Some (take (?stop - ?o) (drop ?o ?d))" "ws_callback_err s' = None"
      "to_send s' = drop ?stop ?d @ (if ws_done s then [] else concat (takeWhile (\<lambda>x. x \<noteq> []) (ws_callback s)))"
    using assms True by (auto simp: next_wire_chunk_def Let_def to_send_def split: if_splits)
  moreover have "take (?stop - ?o) (drop ?o ?d) \<noteq> []" using True assms(1) by auto
  ultimately show ?thesis by (simp add: to_send_def [of s])
next
  case False
  then show ?thesis using assms
    by (cases "ws_callback s") (auto simp: next_wire_chunk_def to_send_def split: if_splits)
qed

text \<open>
  A window over the data \<open>D\<close>: up to \<open>o\<close> it was launched; a write in flight carries the bytes of
  \<open>D\<close> at its place; what is not in flight is in the file.
\<close>

fun covers :: "request \<Rightarrow> nat \<Rightarrow> bool" where
  "covers r k = (case rq_body r of WriteB w \<Rightarrow> unat (wrq_offset w) \<le> k \<and> k < unat (wrq_offset w) + length (wrq_data w) | _ \<Rightarrow> False)"

definition writes_part :: "tree \<Rightarrow> file_id \<Rightarrow> bytes \<Rightarrow> nat \<Rightarrow> request \<Rightarrow> bool" where
  "writes_part t fid D off r \<longleftrightarrow>
     (\<exists>a bs. r = stream_write t fid (word_of_nat a) bs \<and> a + length bs \<le> off \<and> bs = take (length bs) (drop a D))"

definition in_file :: "bytes \<Rightarrow> nat \<Rightarrow> request set \<Rightarrow> bytes \<Rightarrow> bool" where
  "in_file D off R fl \<longleftrightarrow> length fl \<le> off \<and>
     (\<forall>k < off. (\<forall>r \<in> R. \<not> covers r k) \<longrightarrow> k < length fl \<and> fl ! k = D ! k)"

lemma stream_write_simps:
  assumes "a < 2 ^ 64"
  shows "covers (stream_write t fid (word_of_nat a) bs) k \<longleftrightarrow> a \<le> k \<and> k < a + length bs"
    and "apply_event (Completed (stream_write t fid (word_of_nat a) bs)) fl = apply_write a bs fl"
  using assms by (simp_all add: stream_write_def tree_op_def write_request_at_def)

declare apply_event.simps(1) [simp del] covers.simps [simp del]

lemma in_file_complete:
  assumes "in_file D off (insert r R) fl" and "writes_part t fid D off r" and "off \<le> length D" and "length D < 2 ^ 64"
  shows "in_file D off R (apply_event (Completed r) fl)"
proof -
  obtain a bs where r: "r = stream_write t fid (word_of_nat a) bs" "a + length bs \<le> off" "bs = take (length bs) (drop a D)"
    using assms(2) by (auto simp: writes_part_def)
  have "a < 2 ^ 64" using r(2) assms(3,4) by simp
  note [simp] = stream_write_simps [OF this, of t fid bs, folded r(1)]
  have len: "length fl \<le> off" using assms(1) by (simp add: in_file_def)
  show ?thesis
    unfolding in_file_def
  proof (intro conjI allI impI)
    show "length (apply_event (Completed r) fl) \<le> off" using len r(2) by (simp add: length_apply_write)
    fix k assume k: "k < off" "\<forall>r \<in> R. \<not> covers r k"
    have old: "k < length fl \<and> fl ! k = D ! k" if "\<not> (a \<le> k \<and> k < a + length bs)"
      using assms(1) k that by (auto simp: in_file_def)
    show "k < length (apply_event (Completed r) fl)" using old by (auto simp: length_apply_write less_max_iff_disj)
    then have "apply_event (Completed r) fl ! k =
        (if a \<le> k \<and> k < a + length bs then bs ! (k - a) else if k < length fl then fl ! k else 0)"
      by (simp add: nth_apply_write length_apply_write)
    moreover have "bs ! (k - a) = D ! k" if "a \<le> k \<and> k < a + length bs"
    proof -
      have "k - a < length bs" "a + (k - a) = k" "a \<le> length D" using that r(2) assms(3) by auto
      then show ?thesis by (subst r(3)) (simp add: nth_drop)
    qed
    ultimately show "apply_event (Completed r) fl ! k = D ! k" using old by auto
  qed
qed

definition stream_inv :: "tree \<Rightarrow> file_id \<Rightarrow> bytes \<Rightarrow> bytes list wire_source \<Rightarrow> nat \<Rightarrow> futures \<Rightarrow> bytes \<Rightarrow> bool" where
  "stream_inv t fid D s off q fl \<longleftrightarrow>
     ws_callback_err s = None \<and> off \<le> length D \<and> to_send s = drop off D \<and>
     (\<forall>r \<in> snd ` set q. writes_part t fid D off r) \<and> in_file D off (snd ` set q) fl"

lemma in_file_all:
  assumes "in_file D (length D) {} fl"
  shows "fl = D"
proof (rule nth_equalityI)
  have "\<not> length fl < length D" using assms by (auto simp: in_file_def)
  then show "length fl = length D" using assms by (simp add: in_file_def)
  then show "fl ! k = D ! k" if "k < length fl" for k using assms that by (simp add: in_file_def)
qed

lemma stream_pull:
  assumes "stream_inv t fid D s off q fl" and "0 < mw" and "length D < 2 ^ 64"
    and "next_wire_chunk mw list_source s = (Some bs, s')"
  shows "bs \<noteq> []" and "to_send s = bs @ to_send s'"
    and "stream_inv t fid D s' (off + length bs) (q @ [(0, stream_write t fid (word_of_nat off) bs)]) fl"
proof -
  have n: "bs \<noteq> []" "drop off D = bs @ to_send s'" "ws_callback_err s' = None"
    using next_wire_chunk_list [OF assms(2) _ assms(4)] assms(1) by (simp_all add: stream_inv_def)
  then show "bs \<noteq> []" "to_send s = bs @ to_send s'" using assms(1) by (simp_all add: stream_inv_def)
  have "to_send s' = drop (length bs) (drop off D)" unfolding n(2) by simp
  moreover have "drop (length bs) (drop off D) = drop (off + length bs) D" by (simp add: add.commute)
  moreover have "bs = take (length bs) (drop off D)" unfolding n(2) by simp
  ultimately have bs: "bs = take (length bs) (drop off D)" "to_send s' = drop (off + length bs) D" by simp_all
  have "length (drop off D) = length bs + length (to_send s')" using n(2) by simp
  then have le: "off + length bs \<le> length D" using n(1) by (cases "off \<le> length D") auto
  have part: "writes_part t fid D (off + length bs) r" if "writes_part t fid D off r" for r
    using that by (fastforce simp: writes_part_def)
  have new: "writes_part t fid D (off + length bs) (stream_write t fid (word_of_nat off) bs)"
    unfolding writes_part_def using bs(1) by blast
  have "off < 2 ^ 64" using le assms(3) by simp
  then have "in_file D (off + length bs) (insert (stream_write t fid (word_of_nat off) bs) (snd ` set q)) fl"
    using assms(1) by (auto simp: stream_inv_def in_file_def stream_write_simps not_less)
  then show "stream_inv t fid D s' (off + length bs) (q @ [(0, stream_write t fid (word_of_nat off) bs)]) fl"
    using assms(1) n(3) bs(2) le part new by (auto simp: stream_inv_def)
qed

lemma stream_complete:
  assumes "stream_inv t fid D s off q fl" and "length D < 2 ^ 64" and "next_future N q h = Some (i, ans, q', h')"
  obtains r where "h' = h @ [Completed r]" "stream_inv t fid D s off q' (apply_event (Completed r) fl)"
proof -
  from assms(3) obtain r where r: "mset q = add_mset (i, r) (mset q')" "h' = h @ [Completed r]" by (rule next_future_SomeE)
  have q: "set q = insert (i, r) (set q')" using arg_cong [OF r(1), of set_mset] by simp
  with assms(1) have "in_file D off (insert r (snd ` set q')) fl" "writes_part t fid D off r" "off \<le> length D"
    by (simp_all add: stream_inv_def)
  from in_file_complete [OF this assms(2)] assms(1) q have "stream_inv t fid D s off q' (apply_event (Completed r) fl)"
    by (auto simp: stream_inv_def)
  with r(2) show thesis by (rule that)
qed

lemma fill_window_keeps:
  "fill_window room t fid mw src s off q h = (s', o', q', h') \<Longrightarrow> length q \<le> length q'"
  by (induction room t fid mw src s off q h rule: fill_window.induct)
    (fastforce simp: push_future_def split: prod.splits option.splits)+

lemma fill_window_inv:
  assumes "stream_inv t fid D s off q fl" and "0 < mw" and "length D < 2 ^ 64"
    and "fill_window room t fid mw list_source s (word_of_nat off) q h = (s', o', q', h')"
  shows "\<exists>off'. o' = word_of_nat off' \<and> stream_inv t fid D s' off' q' fl \<and>
           (\<exists>evs. h' = h @ evs \<and> (\<forall>f. server_file evs f = f)) \<and>
           (0 < room \<longrightarrow> q' = [] \<longrightarrow> to_send s' = []) \<and>
           length q' + length (to_send s') \<le> length q + length (to_send s)"
  using assms(1,4)
proof (induction room arbitrary: s off q h)
  case 0
  then show ?case by (auto intro!: exI [of _ "[]"])
next
  case (Suc room)
  obtain r s1 where n: "next_wire_chunk mw list_source s = (r, s1)" by fastforce
  have err: "ws_callback_err s = None" using Suc.prems(1) by (simp add: stream_inv_def)
  show ?case
  proof (cases r)
    case None
    with next_wire_chunk_list [OF assms(2) err n] have e: "to_send s = []" "to_send s1 = []" "ws_callback_err s1 = None" by auto
    then have "stream_inv t fid D s1 off q fl" using Suc.prems(1) by (simp add: stream_inv_def)
    with Suc.prems(2) n None e show ?thesis by (auto intro!: exI [of _ "[]"])
  next
    case (Some bs)
    note p = stream_pull [OF Suc.prems(1) assms(2,3) n [unfolded Some]]
    let ?r = "stream_write t fid (word_of_nat off) bs"
    have "fill_window room t fid mw list_source s1 (word_of_nat (off + length bs)) (q @ [(0, ?r)]) (h @ [Launched ?r]) = (s', o', q', h')"
      using Suc.prems(2) n Some by (simp add: push_future_def)
    from Suc.IH [OF p(3) this] obtain off' evs where IH: "o' = word_of_nat off'" "stream_inv t fid D s' off' q' fl"
      "h' = (h @ [Launched ?r]) @ evs" "\<forall>f. server_file evs f = f"
      "length q' + length (to_send s') \<le> length (q @ [(0, ?r)]) + length (to_send s1)" by auto
    have "q' \<noteq> []"
      using \<open>fill_window room _ _ _ _ _ _ _ _ = _\<close> by (auto dest!: fill_window_keeps)
    moreover have "1 \<le> length bs" using p(1) by (cases bs) auto
    ultimately show ?thesis using IH p(2) by (intro exI [of _ off']) (auto intro!: exI [of _ "Launched ?r # evs"])
  qed
qed

lemma slide_window_list:
  assumes "stream_inv t fid D s off q fl" and "q = [] \<longrightarrow> to_send s = []" and "0 < mw" and "length D < 2 ^ 64"
    and "length q + length (to_send s) < fuel"
  shows "\<exists>r h'. slide_window fuel N t fid mw list_source s (word_of_nat off) tw q h = Some (r, h') \<and>
           (\<forall>m. r = Ok m \<longrightarrow> (\<exists>evs. h' = h @ evs \<and> server_file evs fl = D))"
  using assms(1,2,5)
proof (induction fuel arbitrary: s off q fl tw h)
  case 0
  then show ?case by simp
next
  case (Suc fuel)
  have err: "ws_callback_err s = None" using Suc.prems(1) by (simp add: stream_inv_def)
  show ?case
  proof (cases "next_future N q h")
    case None
    then have "q = []" "to_send s = []" using Suc.prems(2) by simp_all
    then have "fl = D" using Suc.prems(1) by (intro in_file_all) (auto simp: stream_inv_def)
    with None err show ?thesis by simp
  next
    case (Some x)
    then obtain i ans q' h' where n: "next_future N q h = Some (i, ans, q', h')" by (cases x) auto
    from stream_complete [OF Suc.prems(1) assms(4) n] obtain r where
      r: "h' = h @ [Completed r]" "stream_inv t fid D s off q' (apply_event (Completed r) fl)" by blast
    have len: "length q = Suc (length q')" using n by (rule next_future_length)
    obtain w s1 where nw: "next_wire_chunk mw list_source s = (w, s1)" by fastforce
    show ?thesis
    proof (cases w)
      case None
      with next_wire_chunk_list [OF assms(3) err nw] have e: "to_send s = []" "to_send s1 = []" "ws_callback_err s1 = None" by auto
      then have "stream_inv t fid D s1 off q' (apply_event (Completed r) fl)" using r(2) by (simp add: stream_inv_def)
      note IH = Suc.IH [OF this, of _ h']
      show ?thesis using n nw None err e len Suc.prems(3) IH r(1)
        by (auto simp: Let_def split: result.split) fastforce
    next
      case (Some bs)
      note p = stream_pull [OF r(2) assms(3,4) nw [unfolded Some]]
      have "1 \<le> length bs" using p(1) by (cases bs) auto
      note IH = Suc.IH [OF p(3), of _ "h' @ [Launched (stream_write t fid (word_of_nat off) bs)]"]
      show ?thesis using n nw Some err len Suc.prems(3) IH r(1) p(2) \<open>1 \<le> length bs\<close>
        by (auto simp: Let_def push_future_def split: result.split) fastforce
    qed
  qed
qed


text \<open>A server that acknowledges every write makes a streamed write succeed.\<close>

lemma write_peer_slide:
  assumes "\<forall>r \<in> snd ` set q. \<exists>w c. r = tree_op t (WriteB w) c" and "ws_callback_err s = None" and "0 < mw"
    and "slide_window fuel (write_peer st) t fid mw list_source s off tw q h = Some (r, h')"
  shows "\<exists>m. r = Ok m"
  using assms(1,2,4)
proof (induction fuel arbitrary: s off tw q h)
  case 0
  then show ?case by simp
next
  case (Suc fuel)
  show ?case
  proof (cases "next_future (write_peer st) q h")
    case None
    then show ?thesis using Suc.prems(2,3) by auto
  next
    case (Some x)
    then obtain i ans q' h1 where n: "next_future (write_peer st) q h = Some (i, ans, q', h1)" by (cases x) auto
    then obtain r1 where r1: "mset q = add_mset (i, r1) (mset q')" "ans = pe_answer (write_peer st) h r1" by (rule next_future_SomeE)
    have q: "set q = insert (i, r1) (set q')" using arg_cong [OF r1(1), of set_mset] by simp
    with Suc.prems(1) obtain w c where "r1 = tree_op t (WriteB w) c" by auto
    then obtain fr resp where fr: "ans = Ok fr" "frame_status fr = STATUS_SUCCESS"
      "run_reader unpack_write_response (fr_body fr) = Ok resp" using write_peer_acks [of st h t w c] r1(2) by auto
    obtain u s1 where nw: "next_wire_chunk mw list_source s = (u, s1)" by fastforce
    have err: "ws_callback_err s1 = None" using next_wire_chunk_list [OF assms(3) Suc.prems(2) nw] by simp
    have q': "\<forall>r \<in> snd ` set q'. \<exists>w c. r = tree_op t (WriteB w) c" using Suc.prems(1) q by simp
    then have q'': "\<forall>r \<in> snd ` set (q' @ [(0, stream_write t fid off bs)]). \<exists>w c. r = tree_op t (WriteB w) c" for bs
      by (simp add: stream_write_def) blast
    note IH = Suc.IH [OF q' err] Suc.IH [OF q'' err]
    show ?thesis
    proof (cases u)
      case None
      then show ?thesis using Suc.prems(2,3) n fr nw by (intro IH(1)) (simp add: Let_def)
    next
      case (Some bs)
      then show ?thesis using Suc.prems(2,3) n fr nw by (intro IH(2)) (simp add: Let_def push_future_def)
    qed
  qed
qed

lemma fill_window_writes:
  assumes "\<forall>r \<in> snd ` set q. \<exists>w c. r = tree_op t (WriteB w) c" and "fill_window room t fid mw src s off q h = (s', o', q', h')"
  shows "\<forall>r \<in> snd ` set q'. \<exists>w c. r = tree_op t (WriteB w) c"
  using assms
  by (induction room t fid mw src s off q h rule: fill_window.induct)
    (fastforce simp: push_future_def stream_write_def split: prod.splits option.splits)+


text \<open>
  C35: A refused FLUSH leaks the handle. When the writes worked and the server refuses the FLUSH, both
  the pipelined and the streamed write return that error with the FLUSH as the last thing they send:
  the CLOSE is skipped, although the documentation promises that the handle is always closed.
\<close>

theorem flush_failure_leaks_handle:
  assumes "open_file_for_write N t path h = (Ok fid, h1)"
    and "\<forall>k. \<exists>fr. pe_answer N k (flush_op t fid) = Ok fr \<and> frame_status fr = st" and "st \<noteq> STATUS_SUCCESS"
  shows "(data \<noteq> [] \<and> 0 < max_write N \<and>
            write_pipelined_loop N t fid data (max_write N) (credit_charge_of (unat (max_write N)))
              ((length data + unat (max_write N) - 1) div unat (max_write N)) h1 = (Ok m, h2) \<longrightarrow>
            write_file_pipelined N t path data h = (Err (Protocol st Flush), h2 @ [Sent (flush_op t fid)])) \<and>
         (write_streamed_loop fuel N t fid next_chunk c (max_write N) h1 = Some (Ok m, h2) \<longrightarrow>
            write_file_streamed fuel N t path next_chunk c h = Some (Err (Protocol st Flush), h2 @ [Sent (flush_op t fid)]))"
proof -
  obtain fr where "pe_answer N h2 (flush_op t fid) = Ok fr" "frame_status fr = st" using assms(2) by blast
  then have f: "flush_then_close N t fid (Ok m, h2) = (Err (Protocol st Flush), h2 @ [Sent (flush_op t fid)])"
    using assms(3) by (simp add: flush_then_close_Ok_apply flush_handle_apply)
  show ?thesis
    by (auto simp: write_file_pipelined_open abind_Ok [where m = "open_file_for_write _ _ _", OF assms(1)] div_ceil_def unat_eq_0 f
        write_file_streamed_def assms(1))
qed

theorem flush_failure_leaks_handle_witness:
  "\<exists>h2. write_file_pipelined (write_peer STATUS_ACCESS_DENIED) sample_tree [97] [1, 2, 3] [] =
     (Err (Protocol STATUS_ACCESS_DENIED Flush), h2 @ [Sent (flush_op sample_tree SENTINEL)])"
proof -
  let ?N = "write_peer STATUS_ACCESS_DENIED" and ?data = "[1, 2, 3] :: bytes"
  obtain h1 where h1: "open_file_for_write ?N sample_tree [97] [] = (Ok SENTINEL, h1)" using write_peer_opens by blast
  have "\<forall>k. \<exists>fr. pe_answer ?N k (flush_op sample_tree SENTINEL) = Ok fr \<and> frame_status fr = STATUS_ACCESS_DENIED"
    by (simp add: write_peer_def tree_op_def)
  note leak = flush_failure_leaks_handle [OF h1 this, THEN conjunct1, of ?data, unfolded write_peer_simps]
  obtain m h2 where "write_pipelined_loop ?N sample_tree SENTINEL ?data 65536 (credit_charge_of (unat (65536 :: u32)))
      ((length ?data + unat (65536 :: u32) - 1) div unat (65536 :: u32)) h1 = (Ok m, h2)" using write_peer_loop by blast
  then show ?thesis using leak by (intro exI [of _ h2]) (simp add: STATUS_ACCESS_DENIED_def STATUS_SUCCESS_def)
qed

end
