(* ===== verification/Smb_Stream.thy ===== *)
theory Smb_Stream
  imports Smb_Pipelined
begin

text \<open>
  \<open>src/client/stream.rs\<close>: the objects that move a file in pieces. \<open>FileDownload\<close> and \<open>FileUpload\<close>
  send one request at a time, \<open>FileReader\<close> serves positioned reads, \<open>FileWriter\<close> takes pushed
  chunks and keeps a window of writes in flight. Each object is a record; its methods take the
  record and the history and return both changed.
\<close>

section \<open>Downloads\<close>

record file_download =
  fd_tree :: tree
  fd_file_id :: file_id
  fd_file_size :: u64
  fd_bytes_received :: u64
  fd_chunk_size :: u32
  fd_done :: bool

definition file_download_new :: "tree \<Rightarrow> file_id \<Rightarrow> u64 \<Rightarrow> u32 \<Rightarrow> file_download" where
  "file_download_new t fid file_size chunk_size =
     \<lparr>fd_tree = t, fd_file_id = fid, fd_file_size = file_size, fd_bytes_received = 0, fd_chunk_size = chunk_size, fd_done = False\<rparr>"

definition tree_download :: "peer \<Rightarrow> tree \<Rightarrow> rstring \<Rightarrow> file_download act" where
  "tree_download N t path =
     abind (open_file N t path) (\<lambda>(fid, file_size). aret (file_download_new t fid file_size (max_read N)))"

definition download_progress :: "file_download \<Rightarrow> progress" where
  "download_progress d = \<lparr>pg_bytes_transferred = fd_bytes_received d, pg_total_bytes = Some (fd_file_size d)\<rparr>"

definition download_close :: "peer \<Rightarrow> file_download \<Rightarrow> history \<Rightarrow> unit res \<times> file_download \<times> history" where
  "download_close N d h =
     (if fd_done d then (Ok (), d, h)
      else let (r, h') = close_handle N (fd_tree d) (fd_file_id d) h in (r, d\<lparr>fd_done := True\<rparr>, h'))"

text \<open>\<open>let _ = self.close().await; None\<close> at the end of the file.\<close>

definition close_and_stop :: "peer \<Rightarrow> file_download \<Rightarrow> history \<Rightarrow> bytes res option \<times> file_download \<times> history" where
  "close_and_stop N d h =
     (case download_close N d h of (Panic, d', h') \<Rightarrow> (Some Panic, d', h') | (_, d', h') \<Rightarrow> (None, d', h'))"

definition next_chunk :: "peer \<Rightarrow> file_download \<Rightarrow> history \<Rightarrow> bytes res option \<times> file_download \<times> history" where
  "next_chunk N d h =
     (if fd_done d then (None, d, h)
      else
        let remaining = unat (fd_file_size d) - unat (fd_bytes_received d) in
        if remaining = 0
        then case download_close N d h of
               (Ok _, d', h') \<Rightarrow> (None, d', h')
             | (Err e, d', h') \<Rightarrow> (Some (Err e), d', h')
             | (Panic, d', h') \<Rightarrow> (Some Panic, d', h')
        else
          let this_chunk = word_of_nat (min remaining (unat (fd_chunk_size d))) :: u32;
              req = read_request_at (fd_file_id d) (fd_bytes_received d) this_chunk
          in case execute_with_credits N (ReadB req) (Some (tr_tree_id (fd_tree d))) (credit_charge_min1 (unat this_chunk)) h of
               (Err e, h') \<Rightarrow> (Some (Err e), d\<lparr>fd_done := True\<rparr>, h')
             | (Panic, h') \<Rightarrow> (Some Panic, d, h')
             | (Ok fr, h') \<Rightarrow>
                 if frame_status fr = STATUS_END_OF_FILE then close_and_stop N d h'
                 else if frame_status fr \<noteq> STATUS_SUCCESS
                 then (Some (Err (Protocol (frame_status fr) Read)), d\<lparr>fd_done := True\<rparr>, h')
                 else case run_reader unpack_read_response (fr_body fr) of
                        Err e \<Rightarrow> (Some (Err e), d\<lparr>fd_done := True\<rparr>, h')
                      | Panic \<Rightarrow> (Some Panic, d, h')
                      | Ok resp \<Rightarrow>
                          if rdr_data resp = [] then close_and_stop N d h'
                          else let d' = d\<lparr>fd_bytes_received := fd_bytes_received d + word_of_nat (length (rdr_data resp))\<rparr>
                               in if fd_file_size d' \<le> fd_bytes_received d'
                                  then case download_close N d' h' of
                                         (Ok _, d'', h'') \<Rightarrow> (Some (Ok (rdr_data resp)), d'', h'')
                                       | (Err e, d'', h'') \<Rightarrow> (Some (Err e), d'', h'')
                                       | (Panic, d'', h'') \<Rightarrow> (Some Panic, d'', h'')
                                  else (Some (Ok (rdr_data resp)), d', h'))"

text \<open>The two consumers of a download. \<open>None\<close> when \<open>fuel\<close> chunks were not enough.\<close>

fun download_collect :: "nat \<Rightarrow> peer \<Rightarrow> file_download \<Rightarrow> bytes \<Rightarrow> history \<Rightarrow> (bytes res \<times> history) option" where
  "download_collect 0 N d data h = None"
| "download_collect (Suc fuel) N d data h =
     (case next_chunk N d h of
        (None, d', h') \<Rightarrow> Some (Ok data, h')
      | (Some (Ok chunk), d', h') \<Rightarrow> download_collect fuel N d' (data @ chunk) h'
      | (Some (Err e), d', h') \<Rightarrow> Some (Err e, h')
      | (Some Panic, d', h') \<Rightarrow> Some (Panic, h'))"

fun collect_with_progress ::
    "nat \<Rightarrow> peer \<Rightarrow> 'c on_progress \<Rightarrow> 'c \<Rightarrow> file_download \<Rightarrow> bytes \<Rightarrow> history \<Rightarrow> (bytes res \<times> history) option" where
  "collect_with_progress 0 N on_progress c d data h = None"
| "collect_with_progress (Suc fuel) N on_progress c d data h =
     (case next_chunk N d h of
        (None, d', h') \<Rightarrow> Some (Ok data, h')
      | (Some (Err e), d', h') \<Rightarrow> Some (Err e, h')
      | (Some Panic, d', h') \<Rightarrow> Some (Panic, h')
      | (Some (Ok chunk), d', h') \<Rightarrow>
          (case on_progress (download_progress d') c of
             (Continue, c') \<Rightarrow> collect_with_progress fuel N on_progress c' d' (data @ chunk) h'
           | (Break, _) \<Rightarrow>
               (case download_close N d' h' of
                  (Panic, _, h'') \<Rightarrow> Some (Panic, h'')
                | (_, _, h'') \<Rightarrow> Some (Err Cancelled, h''))))"

section \<open>Positioned reads\<close>

record file_reader =
  frd_tree :: tree
  frd_file_id :: file_id
  frd_file_size :: u64
  frd_max_read :: u32
  frd_closed :: bool

definition open_file_reader :: "peer \<Rightarrow> tree \<Rightarrow> rstring \<Rightarrow> file_reader act" where
  "open_file_reader N t path =
     abind (open_file N t path) (\<lambda>(fid, file_size).
     aret \<lparr>frd_tree = t, frd_file_id = fid, frd_file_size = file_size, frd_max_read = max_read N, frd_closed = False\<rparr>)"

text \<open>The loop of \<open>read_at\<close>, from \<open>pos\<close> to \<open>stop\<close>. Every round that goes on has received a byte.\<close>

function read_range :: "peer \<Rightarrow> file_reader \<Rightarrow> nat \<Rightarrow> nat \<Rightarrow> bytes \<Rightarrow> bytes act" where
  "read_range N f pos stop out h =
     (if pos < stop
      then let chunk_len = word_of_nat (min (stop - pos) (unat (frd_max_read f))) :: u32
           in case execute_with_credits N (ReadB (read_request_at (frd_file_id f) (word_of_nat pos) chunk_len))
                     (Some (tr_tree_id (frd_tree f))) (credit_charge_min1 (unat chunk_len)) h of
                (Err e, h') \<Rightarrow> (Err e, h')
              | (Panic, h') \<Rightarrow> (Panic, h')
              | (Ok fr, h') \<Rightarrow>
                  if frame_status fr = STATUS_END_OF_FILE then (Ok out, h')
                  else if frame_status fr \<noteq> STATUS_SUCCESS then (Err (Protocol (frame_status fr) Read), h')
                  else case run_reader unpack_read_response (fr_body fr) of
                         Err e \<Rightarrow> (Err e, h')
                       | Panic \<Rightarrow> (Panic, h')
                       | Ok resp \<Rightarrow>
                           if rdr_data resp = [] then (Ok out, h')
                           else read_range N f (pos + length (rdr_data resp)) stop (out @ rdr_data resp) h'
      else (Ok out, h))"
  by pat_completeness auto
termination
  by (relation "measure (\<lambda>(N, f, pos, stop, out, h). stop - pos)") (auto intro: diff_less_mono2)

declare read_range.simps [simp del]

definition read_at :: "peer \<Rightarrow> file_reader \<Rightarrow> u64 \<Rightarrow> u64 \<Rightarrow> bytes act" where
  "read_at N f offset len h =
     (if len = 0 \<or> frd_file_size f \<le> offset then (Ok [], h)
      else let to_read = min (unat len) (unat (frd_file_size f) - unat offset)
           in read_range N f (unat offset) (unat offset + to_read) [] h)"

definition reader_close :: "peer \<Rightarrow> file_reader \<Rightarrow> unit act" where
  "reader_close N f = close_handle N (frd_tree f) (frd_file_id f)"

section \<open>Uploads\<close>

record file_upload =
  fu_tree :: tree
  fu_file_id :: file_id
  fu_data :: bytes
  fu_total_bytes :: u64
  fu_bytes_written :: u64
  fu_chunk_size :: u32
  fu_done :: bool

definition file_upload_new :: "tree \<Rightarrow> file_id \<Rightarrow> bytes \<Rightarrow> u32 \<Rightarrow> file_upload" where
  "file_upload_new t fid data chunk_size =
     \<lparr>fu_tree = t, fu_file_id = fid, fu_data = data, fu_total_bytes = word_of_nat (length data),
      fu_bytes_written = 0, fu_chunk_size = chunk_size, fu_done = False\<rparr>"

definition file_upload_new_done :: "tree \<Rightarrow> u64 \<Rightarrow> file_upload" where
  "file_upload_new_done t total_bytes =
     \<lparr>fu_tree = t, fu_file_id = SENTINEL, fu_data = [], fu_total_bytes = total_bytes,
      fu_bytes_written = total_bytes, fu_chunk_size = 0, fu_done = True\<rparr>"

definition flush_and_close :: "peer \<Rightarrow> file_upload \<Rightarrow> history \<Rightarrow> unit res \<times> file_upload \<times> history" where
  "flush_and_close N u h =
     (if fu_done u then (Ok (), u, h)
      else let (r, h') = abind (flush_handle N (fu_tree u) (fu_file_id u)) (\<lambda>_. close_handle N (fu_tree u) (fu_file_id u)) h
           in (r, u\<lparr>fu_done := True\<rparr>, h'))"

text \<open>\<open>self.flush_and_close().await?; Ok(false)\<close>.\<close>

definition upload_finish :: "peer \<Rightarrow> file_upload \<Rightarrow> history \<Rightarrow> bool res \<times> file_upload \<times> history" where
  "upload_finish N u h = (let (r, u', h') = flush_and_close N u h in (result_bind r (\<lambda>_. Ok False), u', h'))"

definition write_next_chunk :: "peer \<Rightarrow> file_upload \<Rightarrow> history \<Rightarrow> bool res \<times> file_upload \<times> history" where
  "write_next_chunk N u h =
     (if fu_done u then (Ok False, u, h)
      else
        let offset = unat (fu_bytes_written u) in
        if length (fu_data u) \<le> offset then upload_finish N u h
        else
          let this_chunk = min (length (fu_data u) - offset) (unat (fu_chunk_size u));
              req = write_request_at (fu_file_id u) (word_of_nat offset) (take this_chunk (drop offset (fu_data u)))
          in case execute_with_credits N (WriteB req) (Some (tr_tree_id (fu_tree u))) (credit_charge_min1 this_chunk) h of
               (Err e, h') \<Rightarrow> (Err e, u\<lparr>fu_done := True\<rparr>, h')
             | (Panic, h') \<Rightarrow> (Panic, u, h')
             | (Ok fr, h') \<Rightarrow>
                 if frame_status fr \<noteq> STATUS_SUCCESS
                 then let (r, h'') = close_and_fail N (fu_tree u) (fu_file_id u) (Protocol (frame_status fr) Write) h'
                      in (r, u\<lparr>fu_done := True\<rparr>, h'')
                 else case run_reader unpack_write_response (fr_body fr) of
                        Err e \<Rightarrow> (Err e, u, h')
                      | Panic \<Rightarrow> (Panic, u, h')
                      | Ok resp \<Rightarrow>
                          let u' = u\<lparr>fu_bytes_written := fu_bytes_written u + ucast (wrr_count resp)\<rparr>
                          in if fu_total_bytes u' \<le> fu_bytes_written u' then upload_finish N u' h'
                             else (Ok True, u', h'))"

section \<open>The push writer\<close>

record file_writer =
  fw_tree :: tree
  fw_file_id :: file_id
  fw_max_write_size :: u32
  fw_offset :: u64
  fw_in_flight :: futures
  fw_total_written :: u64
  fw_pending_data :: bytes
  fw_pending_offset :: usize
  fw_stashed_chunk :: "bytes option"
  fw_done :: bool

definition file_writer_new :: "tree \<Rightarrow> file_id \<Rightarrow> u32 \<Rightarrow> file_writer" where
  "file_writer_new t fid max_write_size =
     \<lparr>fw_tree = t, fw_file_id = fid, fw_max_write_size = max_write_size, fw_offset = 0, fw_in_flight = [],
      fw_total_written = 0, fw_pending_data = [], fw_pending_offset = 0, fw_stashed_chunk = None, fw_done = False\<rparr>"

definition open_file_writer :: "peer \<Rightarrow> tree \<Rightarrow> rstring \<Rightarrow> file_writer act" where
  "open_file_writer N t path =
     abind (open_file_for_write N t path) (\<lambda>fid. aret (file_writer_new t fid (max_write N)))"

definition open_file_writer_exclusive :: "peer \<Rightarrow> tree \<Rightarrow> rstring \<Rightarrow> file_writer act" where
  "open_file_writer_exclusive N t path =
     abind (open_file_for_exclusive_create N t path) (\<lambda>fid. aret (file_writer_new t fid (max_write N)))"

definition open_file_writer_at :: "peer \<Rightarrow> tree \<Rightarrow> rstring \<Rightarrow> u64 \<Rightarrow> file_writer act" where
  "open_file_writer_at N t path offset =
     abind (open_file_for_write_at N t path) (\<lambda>fid. aret ((file_writer_new t fid (max_write N))\<lparr>fw_offset := offset\<rparr>))"

definition next_pending_chunk :: "file_writer \<Rightarrow> bytes option \<times> file_writer" where
  "next_pending_chunk w =
     (if length (fw_pending_data w) \<le> fw_pending_offset w then (None, w)
      else let stop = min (fw_pending_offset w + unat (fw_max_write_size w)) (length (fw_pending_data w));
               part = take (stop - fw_pending_offset w) (drop (fw_pending_offset w) (fw_pending_data w))
           in (Some part,
               if length (fw_pending_data w) \<le> stop then w\<lparr>fw_pending_data := [], fw_pending_offset := 0\<rparr>
               else w\<lparr>fw_pending_offset := stop\<rparr>))"

definition launch_wire_chunk :: "bytes \<Rightarrow> file_writer \<Rightarrow> history \<Rightarrow> file_writer \<times> history" where
  "launch_wire_chunk data w h =
     (let (q, h') = push_future 0 (stream_write (fw_tree w) (fw_file_id w) (fw_offset w) data) (fw_in_flight w) h
      in (w\<lparr>fw_in_flight := q, fw_offset := fw_offset w + word_of_nat (length data)\<rparr>, h'))"

text \<open>A method of the writer: the result, the writer after it and the history.\<close>

type_synonym 'a wact = "file_writer \<Rightarrow> history \<Rightarrow> 'a res \<times> file_writer \<times> history"

definition wbind :: "'a wact \<Rightarrow> ('a \<Rightarrow> 'b wact) \<Rightarrow> 'b wact" where
  "wbind m f w h =
     (case m w h of (Ok x, w', h') \<Rightarrow> f x w' h' | (Err e, w', h') \<Rightarrow> (Err e, w', h') | (Panic, w', h') \<Rightarrow> (Panic, w', h'))"

definition drain_one :: "peer \<Rightarrow> unit wact" where
  "drain_one N w h =
     (case next_future N (fw_in_flight w) h of
        None \<Rightarrow> (Ok (), w, h)
      | Some (_, Err e, q, h') \<Rightarrow> (Err e, w\<lparr>fw_in_flight := q\<rparr>, h')
      | Some (_, Panic, q, h') \<Rightarrow> (Panic, w\<lparr>fw_in_flight := q\<rparr>, h')
      | Some (_, Ok fr, q, h') \<Rightarrow>
          if frame_status fr \<noteq> STATUS_SUCCESS
          then let (r, h'') = close_and_fail N (fw_tree w) (fw_file_id w) (Protocol (frame_status fr) Write) (drain_futures N q h')
               in (r, w\<lparr>fw_in_flight := [], fw_done := True\<rparr>, h'')
          else case run_reader unpack_write_response (fr_body fr) of
                 Err e \<Rightarrow> (Err e, w\<lparr>fw_in_flight := q\<rparr>, h')
               | Panic \<Rightarrow> (Panic, w\<lparr>fw_in_flight := q\<rparr>, h')
               | Ok resp \<Rightarrow>
                   (Ok (), w\<lparr>fw_in_flight := q, fw_total_written := fw_total_written w + ucast (wrr_count resp)\<rparr>, h'))"

definition can_send :: "file_writer \<Rightarrow> bool" where
  "can_send w = (length (fw_in_flight w) < MAX_PIPELINE_WINDOW)"

definition launch_and_return :: "bytes \<Rightarrow> bool wact" where
  "launch_and_return data w h = (let (w', h') = launch_wire_chunk data w h in (Ok True, w', h'))"

definition send_or_stash :: "peer \<Rightarrow> bytes \<Rightarrow> bool wact" where
  "send_or_stash N data =
     wbind (\<lambda>w. if MAX_PIPELINE_WINDOW \<le> length (fw_in_flight w) then drain_one N w else (\<lambda>h. (Ok (), w, h))) (\<lambda>_ w.
       if can_send w then launch_and_return data w
       else if fw_in_flight w \<noteq> []
       then wbind (drain_one N) (\<lambda>_ w'. if can_send w' then launch_and_return data w'
                                      else (\<lambda>h. (Ok False, w'\<lparr>fw_stashed_chunk := Some data\<rparr>, h))) w
       else (\<lambda>h. (Ok False, w\<lparr>fw_stashed_chunk := Some data\<rparr>, h)))"

definition flush_stash :: "peer \<Rightarrow> unit wact" where
  "flush_stash N w =
     (case fw_stashed_chunk w of
        None \<Rightarrow> (\<lambda>h. (Ok (), w, h))
      | Some stashed \<Rightarrow>
          wbind (\<lambda>w. if fw_in_flight w \<noteq> [] \<and> \<not> can_send w then drain_one N w else (\<lambda>h. (Ok (), w, h))) (\<lambda>_ w h.
            if can_send w then let (w', h') = launch_wire_chunk stashed w h in (Ok (), w', h')
            else (Ok (), w\<lparr>fw_stashed_chunk := Some stashed\<rparr>, h)) (w\<lparr>fw_stashed_chunk := None\<rparr>))"

text \<open>
  The loop of \<open>write_chunk\<close> stops when a chunk was stashed; the one of \<open>finish\<close> flushes the stash
  and goes on. \<open>None\<close> when \<open>fuel\<close> wire chunks were not enough.
\<close>

fun send_pending :: "nat \<Rightarrow> bool \<Rightarrow> peer \<Rightarrow> file_writer \<Rightarrow> history \<Rightarrow> (unit res \<times> file_writer \<times> history) option" where
  "send_pending 0 finishing N w h = None"
| "send_pending (Suc fuel) finishing N w h =
     (case next_pending_chunk w of
        (None, w') \<Rightarrow> Some (Ok (), w', h)
      | (Some wire_chunk, w') \<Rightarrow>
          (case send_or_stash N wire_chunk w' h of
             (Ok True, w'', h') \<Rightarrow> send_pending fuel finishing N w'' h'
           | (Ok False, w'', h') \<Rightarrow>
               if finishing
               then (case flush_stash N w'' h' of
                       (Ok _, w3, h3) \<Rightarrow> send_pending fuel finishing N w3 h3
                     | (Err e, w3, h3) \<Rightarrow> Some (Err e, w3, h3)
                     | (Panic, w3, h3) \<Rightarrow> Some (Panic, w3, h3))
               else Some (Ok (), w'', h')
           | (Err e, w'', h') \<Rightarrow> Some (Err e, w'', h')
           | (Panic, w'', h') \<Rightarrow> Some (Panic, w'', h')))"

definition add_pending :: "bytes \<Rightarrow> file_writer \<Rightarrow> file_writer" where
  "add_pending data w =
     (if fw_pending_offset w < length (fw_pending_data w)
      then w\<lparr>fw_pending_data := drop (fw_pending_offset w) (fw_pending_data w) @ data, fw_pending_offset := 0\<rparr>
      else w\<lparr>fw_pending_data := data, fw_pending_offset := 0\<rparr>)"

definition writer_write_chunk :: "nat \<Rightarrow> peer \<Rightarrow> bytes \<Rightarrow> file_writer \<Rightarrow> history \<Rightarrow> (unit res \<times> file_writer \<times> history) option" where
  "writer_write_chunk fuel N data w h =
     (if data = [] then Some (Ok (), w, h)
      else case flush_stash N (add_pending data w) h of
             (Ok _, w', h') \<Rightarrow> send_pending fuel False N w' h'
           | (Err e, w', h') \<Rightarrow> Some (Err e, w', h')
           | (Panic, w', h') \<Rightarrow> Some (Panic, w', h'))"

lemma drain_one_length:
  "drain_one N w h = (Ok (), w', h') \<Longrightarrow> fw_in_flight w \<noteq> [] \<Longrightarrow> length (fw_in_flight w') < length (fw_in_flight w)"
  by (auto simp: drain_one_def close_and_fail_apply Let_def split: option.splits result.splits if_splits prod.splits
      dest!: next_future_length)

function drain_all :: "peer \<Rightarrow> unit wact" where
  "drain_all N w h =
     (if fw_in_flight w = [] then (Ok (), w, h)
      else case drain_one N w h of
             (Ok _, w', h') \<Rightarrow> drain_all N w' h'
           | (Err e, w', h') \<Rightarrow> (Err e, w', h')
           | (Panic, w', h') \<Rightarrow> (Panic, w', h'))"
  by pat_completeness auto
termination
  by (relation "measure (\<lambda>(N, w, h). length (fw_in_flight w))") (auto dest: drain_one_length [OF sym])

declare drain_all.simps [simp del]

definition writer_finish :: "nat \<Rightarrow> peer \<Rightarrow> file_writer \<Rightarrow> history \<Rightarrow> (u64 res \<times> history) option" where
  "writer_finish fuel N w h =
     (case flush_stash N w h of
        (Err e, w', h') \<Rightarrow> Some (Err e, h')
      | (Panic, w', h') \<Rightarrow> Some (Panic, h')
      | (Ok _, w', h') \<Rightarrow>
          map_option
            (\<lambda>rh. case rh of
               (Err e, w1, h1) \<Rightarrow> (Err e, h1)
             | (Panic, w1, h1) \<Rightarrow> (Panic, h1)
             | (Ok _, w1, h1) \<Rightarrow>
                 (case drain_all N w1 h1 of
                    (Err e, w2, h2) \<Rightarrow> (Err e, h2)
                  | (Panic, w2, h2) \<Rightarrow> (Panic, h2)
                  | (Ok _, w2, h2) \<Rightarrow>
                      abind (flush_handle N (fw_tree w2) (fw_file_id w2)) (\<lambda>_.
                      abind (close_handle N (fw_tree w2) (fw_file_id w2)) (\<lambda>_.
                      aret (fw_total_written w2))) h2))
            (send_pending fuel True N w' h'))"

text \<open>
  \<open>abort\<close>: drains what is in flight, counting what was acknowledged, up to a transport error; then
  CLOSE, whose failure is ignored.
\<close>

function drain_ignoring :: "peer \<Rightarrow> futures \<Rightarrow> u64 \<Rightarrow> history \<Rightarrow> u64 \<times> history" where
  "drain_ignoring N q total_written h =
     (case next_future N q h of
        None \<Rightarrow> (total_written, h)
      | Some (_, Ok fr, q', h') \<Rightarrow>
          drain_ignoring N q'
            (if frame_status fr = STATUS_SUCCESS
             then case run_reader unpack_write_response (fr_body fr) of
                    Ok resp \<Rightarrow> total_written + ucast (wrr_count resp) | _ \<Rightarrow> total_written
             else total_written) h'
      | Some (_, _, q', h') \<Rightarrow> (total_written, h'))"
  by pat_completeness auto
termination
  by (relation "measure (\<lambda>(N, q, tw, h). length q)") (auto dest: next_future_length)

declare drain_ignoring.simps [simp del]

definition writer_abort :: "peer \<Rightarrow> file_writer \<Rightarrow> u64 act" where
  "writer_abort N w h =
     (let (total_written, h') = drain_ignoring N (fw_in_flight w) (fw_total_written w) h
      in abind (attempt (close_handle N (fw_tree w) (fw_file_id w))) (\<lambda>_. aret total_written) h')"

section \<open>Positioned reads of an honest server\<close>

lemma read_range_honest:
  assumes "serves_file N (frd_tree f) (frd_file_id f) content" and "0 < frd_max_read f"
    and "stop \<le> length content" and "length content < 2 ^ 64"
  shows "\<exists>h'. read_range N f pos stop out h = (Ok (out @ take (stop - pos) (drop pos content)), h')"
proof (induction "stop - pos" arbitrary: pos out h rule: less_induct)
  case less
  show ?case
  proof (cases "pos < stop")
    case False
    then show ?thesis by (simp add: read_range.simps)
  next
    case True
    define len :: u32 where "len = word_of_nat (min (stop - pos) (unat (frd_max_read f)))"
    define off :: u64 where "off = word_of_nat pos"
    have off: "unat off = pos" unfolding off_def by (rule unat_of_nat_u64) (use True assms(3,4) in simp)
    have len: "unat len = min (stop - pos) (unat (frd_max_read f))"
      unfolding len_def by (rule unat_of_nat_u32) (rule order.strict_trans1 [OF min.cobounded2], simp)
    have "0 < unat (frd_max_read f)" using assms(2) by (simp add: unat_gt_0)
    with len True have pos: "0 < unat len" "unat len \<le> stop - pos" by simp_all
    define part where "part = take (unat len) (drop pos content)"
    have part: "length part = unat len" "part \<noteq> []" using pos True assms(3) by (auto simp: part_def)
    obtain fr resp where fr: "execute_with_credits N (ReadB (read_request_at (frd_file_id f) off len))
        (Some (tr_tree_id (frd_tree f))) (credit_charge_min1 (unat len)) h =
        (Ok fr, h @ [Sent (tree_op (frd_tree f) (ReadB (read_request_at (frd_file_id f) off len)) (credit_charge_min1 (unat len)))])"
      "frame_status fr = STATUS_SUCCESS" "run_reader unpack_read_response (fr_body fr) = Ok resp" "rdr_data resp = part"
      using assms(1) [unfolded serves_file_def, rule_format, where offset = off and len = len and h = h and c = "credit_charge_min1 (unat len)"]
        True assms(3) off
      by (auto simp: execute_with_credits_def tree_op_def part_def Let_def split: result.splits)
    obtain h' where "read_range N f (pos + unat len) stop (out @ part)
        (h @ [Sent (tree_op (frd_tree f) (ReadB (read_request_at (frd_file_id f) off len)) (credit_charge_min1 (unat len)))]) =
        (Ok ((out @ part) @ take (stop - (pos + unat len)) (drop (pos + unat len) content)), h')"
      using less.hyps [of "pos + unat len"] pos True by (metis add_gr_0 diff_less_mono2 less_add_same_cancel1)
    moreover have "part @ take (stop - (pos + unat len)) (drop (pos + unat len) content) = take (stop - pos) (drop pos content)"
      using pos take_add [of "unat len" "stop - (pos + unat len)" "drop pos content"] by (simp add: part_def add.commute)
    ultimately show ?thesis using True fr part
      by (subst read_range.simps) (simp add: len_def [symmetric] off_def [symmetric] Let_def status_defs)
  qed
qed

text \<open>
  C24: \<open>read_at\<close> is \<open>pread\<close>. For every offset and length, inside the file, across its end or beyond it,
  and however small the chunks the server allows, a positioned read of a server that holds the
  content returns exactly the bytes of that range that exist.
\<close>

theorem read_at_is_pread:
  assumes "serves_file N (frd_tree f) (frd_file_id f) content" and "0 < frd_max_read f" and "length content = unat (frd_file_size f)"
  shows "fst (read_at N f offset len h) = Ok (take (unat len) (drop (unat offset) content))"
proof -
  have lt: "length content < 2 ^ 64" using assms(3) unsigned_less [of "frd_file_size f"] by simp
  show ?thesis
  proof (cases "len = 0 \<or> frd_file_size f \<le> offset")
    case True
    then show ?thesis using assms(3) by (auto simp: read_at_def word_le_nat_alt)
  next
    case False
    let ?stop = "unat offset + min (unat len) (length content - unat offset)"
    have o: "unat offset < length content" using False assms(3) by (simp add: word_le_nat_alt)
    have "?stop \<le> length content" using o by (auto simp: min_def)
    from read_range_honest [OF assms(1,2) this lt, of "unat offset" "[]" h]
    obtain h' where "read_range N f (unat offset) ?stop [] h = (Ok ([] @ take (?stop - unat offset) (drop (unat offset) content)), h')"
      by blast
    moreover have "take (?stop - unat offset) (drop (unat offset) content) = take (unat len) (drop (unat offset) content)"
      by (simp add: min_def)
    ultimately show ?thesis using False assms(3) by (simp add: read_at_def Let_def)
  qed
qed

theorem read_at_is_pread_witness:
  "fst (read_at (file_peer SENTINEL [1, 2, 3, 4, 5]) \<lparr>frd_tree = sample_tree, frd_file_id = SENTINEL, frd_file_size = 5,
      frd_max_read = 2, frd_closed = False\<rparr> 1 9 []) = Ok [2, 3, 4, 5]"
proof -
  have "length [1, 2, 3, 4, 5 :: u8] \<le> MAX_UNPACK_BUFFER" by (simp add: MAX_UNPACK_BUFFER_def)
  from file_peer_serves [OF this, of SENTINEL sample_tree] show ?thesis
    by (subst read_at_is_pread [where content = "[1, 2, 3, 4, 5]"]) simp_all
qed

section \<open>The push writer\<close>

text \<open>
  The writer has taken the bytes \<open>D\<close>. Up to \<open>off\<close> they are launched; \<open>c\<close> and the pending buffer are the
  rest. A write in flight carries the bytes of \<open>D\<close> at its place, and what is not in flight is in the
  file. Nothing is ever stashed.
\<close>

definition fw_inv :: "bytes \<Rightarrow> bytes \<Rightarrow> file_writer \<Rightarrow> nat \<Rightarrow> bytes \<Rightarrow> bool" where
  "fw_inv D c w off fl \<longleftrightarrow>
     fw_offset w = word_of_nat off \<and> off \<le> length D \<and> drop off D = c @ drop (fw_pending_offset w) (fw_pending_data w) \<and>
     fw_stashed_chunk w = None \<and> length (fw_in_flight w) \<le> MAX_PIPELINE_WINDOW \<and>
     (\<forall>r \<in> snd ` set (fw_in_flight w). writes_part (fw_tree w) (fw_file_id w) D off r) \<and>
     in_file D off (snd ` set (fw_in_flight w)) fl"

lemma fw_inv_drain:
  assumes "fw_inv D c w off fl" and "length D < 2 ^ 64" and "drain_one N w h = (Ok (), w', h')"
  shows "\<exists>evs. h' = h @ evs \<and> fw_inv D c w' off (server_file evs fl)"
    and "fw_in_flight w \<noteq> [] \<Longrightarrow> length (fw_in_flight w') < length (fw_in_flight w)"
    and "length (fw_in_flight w') \<le> length (fw_in_flight w)"
    and "fw_pending_data w' = fw_pending_data w \<and> fw_pending_offset w' = fw_pending_offset w \<and>
         fw_max_write_size w' = fw_max_write_size w \<and> fw_tree w' = fw_tree w \<and> fw_file_id w' = fw_file_id w"
proof -
  show "fw_in_flight w \<noteq> [] \<Longrightarrow> length (fw_in_flight w') < length (fw_in_flight w)"
    using assms(3) by (rule drain_one_length)
  show le: "length (fw_in_flight w') \<le> length (fw_in_flight w)"
    using drain_one_length [OF assms(3)] assms(3) by (cases "fw_in_flight w = []") (auto simp: drain_one_def)
  have ok: "(w' = w \<and> h' = h) \<or> (\<exists>i ans q tw. next_future N (fw_in_flight w) h = Some (i, ans, q, h') \<and>
      w' = w\<lparr>fw_in_flight := q, fw_total_written := tw\<rparr>)"
    using assms(3) by (auto simp: drain_one_def close_and_fail_apply Let_def split: option.splits result.splits if_splits prod.splits)
  then show "fw_pending_data w' = fw_pending_data w \<and> fw_pending_offset w' = fw_pending_offset w \<and>
      fw_max_write_size w' = fw_max_write_size w \<and> fw_tree w' = fw_tree w \<and> fw_file_id w' = fw_file_id w" by auto
  show "\<exists>evs. h' = h @ evs \<and> fw_inv D c w' off (server_file evs fl)"
  proof (cases "w' = w \<and> h' = h")
    case True
    then show ?thesis using assms(1) by (intro exI [of _ "[]"]) simp
  next
    case False
    then obtain i ans q tw where n: "next_future N (fw_in_flight w) h = Some (i, ans, q, h')"
      and w': "w' = w\<lparr>fw_in_flight := q, fw_total_written := tw\<rparr>" using ok by blast
    from n obtain r where r: "mset (fw_in_flight w) = add_mset (i, r) (mset q)" "h' = h @ [Completed r]" by (rule next_future_SomeE)
    have q: "set (fw_in_flight w) = insert (i, r) (set q)" using arg_cong [OF r(1), of set_mset] by simp
    with assms(1) have "in_file D off (insert r (snd ` set q)) fl" "writes_part (fw_tree w) (fw_file_id w) D off r" "off \<le> length D"
      by (simp_all add: fw_inv_def)
    from in_file_complete [OF this assms(2)] show ?thesis
      using assms(1) q w' r(2) le by (intro exI [of _ "[Completed r]"]) (auto simp: fw_inv_def)
  qed
qed

lemma fw_inv_launch:
  assumes "fw_inv D c w off fl" and "length D < 2 ^ 64" and "can_send w" and "launch_wire_chunk c w h = (w', h')"
  shows "fw_inv D [] w' (off + length c) fl"
    and "h' = h @ [Launched (stream_write (fw_tree w) (fw_file_id w) (fw_offset w) c)]"
    and "fw_pending_data w' = fw_pending_data w \<and> fw_pending_offset w' = fw_pending_offset w \<and>
         fw_max_write_size w' = fw_max_write_size w \<and> fw_tree w' = fw_tree w \<and> fw_file_id w' = fw_file_id w"
proof -
  let ?r = "stream_write (fw_tree w) (fw_file_id w) (word_of_nat off) c"
  let ?rest = "drop (fw_pending_offset w) (fw_pending_data w)"
  have w': "w' = w\<lparr>fw_in_flight := fw_in_flight w @ [(0, ?r)], fw_offset := word_of_nat (off + length c)\<rparr>"
    and h': "h' = h @ [Launched (stream_write (fw_tree w) (fw_file_id w) (fw_offset w) c)]"
    using assms(1,4) by (auto simp: launch_wire_chunk_def push_future_def fw_inv_def)
  show "h' = h @ [Launched (stream_write (fw_tree w) (fw_file_id w) (fw_offset w) c)]" by (rule h')
  show "fw_pending_data w' = fw_pending_data w \<and> fw_pending_offset w' = fw_pending_offset w \<and>
      fw_max_write_size w' = fw_max_write_size w \<and> fw_tree w' = fw_tree w \<and> fw_file_id w' = fw_file_id w" by (simp add: w')
  have d: "drop off D = c @ ?rest" "off \<le> length D" using assms(1) by (simp_all add: fw_inv_def)
  have c: "c = take (length c) (drop off D)" "drop (length c) (drop off D) = ?rest" unfolding d(1) by simp_all
  have rest: "drop (off + length c) D = ?rest" using c(2) by (simp add: add.commute)
  have "length (drop off D) = length c + length ?rest" unfolding d(1) by simp
  then have le: "off + length c \<le> length D" using d(2) by simp
  have "writes_part (fw_tree w) (fw_file_id w) D (off + length c) r" if "writes_part (fw_tree w) (fw_file_id w) D off r" for r
    using that by (fastforce simp: writes_part_def)
  moreover have "writes_part (fw_tree w) (fw_file_id w) D (off + length c) ?r" unfolding writes_part_def using c(1) by blast
  moreover have "in_file D (off + length c) (insert ?r (snd ` set (fw_in_flight w))) fl"
    using assms(1) le assms(2) by (auto simp: fw_inv_def in_file_def stream_write_simps not_less)
  ultimately show "fw_inv D [] w' (off + length c) fl"
    using assms(1,3) le rest by (auto simp: fw_inv_def w' can_send_def)
qed

text \<open>After at most one drained response there is room, so a chunk is always sent and never stashed.\<close>

lemma fw_inv_send:
  assumes "fw_inv D c w off fl" and "length D < 2 ^ 64" and "send_or_stash N c w h = (Ok b, w', h')"
  shows "b" and "\<exists>evs. h' = h @ evs \<and> fw_inv D [] w' (off + length c) (server_file evs fl)"
    and "fw_pending_data w' = fw_pending_data w \<and> fw_pending_offset w' = fw_pending_offset w \<and>
         fw_max_write_size w' = fw_max_write_size w \<and> fw_tree w' = fw_tree w \<and> fw_file_id w' = fw_file_id w"
proof -
  have "\<exists>w1 h1. can_send w1 \<and> launch_and_return c w1 h1 = (Ok b, w', h') \<and>
          (w1 = w \<and> h1 = h \<or> drain_one N w h = (Ok (), w1, h1))"
  proof (cases "MAX_PIPELINE_WINDOW \<le> length (fw_in_flight w)")
    case True
    then obtain w1 h1 where d: "drain_one N w h = (Ok (), w1, h1)"
      using assms(3) by (auto simp: send_or_stash_def wbind_def split: result.splits prod.splits)
    have "fw_in_flight w \<noteq> []" using True by (auto simp: MAX_PIPELINE_WINDOW_def)
    then have "can_send w1"
      using fw_inv_drain(2) [OF assms(1,2) d] assms(1) by (simp add: can_send_def fw_inv_def)
    then show ?thesis using assms(3) True d by (auto simp: send_or_stash_def wbind_def)
  next
    case False
    then show ?thesis using assms(3) by (intro exI [of _ w] exI [of _ h]) (auto simp: send_or_stash_def wbind_def can_send_def)
  qed
  then obtain w1 h1 where r: "can_send w1" "launch_and_return c w1 h1 = (Ok b, w', h')"
    "w1 = w \<and> h1 = h \<or> drain_one N w h = (Ok (), w1, h1)" by blast
  then show "b" by (auto simp: launch_and_return_def split: prod.splits)
  have l: "launch_wire_chunk c w1 h1 = (w', h')" using r(2) by (auto simp: launch_and_return_def split: prod.splits)
  have "\<exists>evs. h1 = h @ evs \<and> fw_inv D c w1 off (server_file evs fl)"
  proof (cases "w1 = w \<and> h1 = h")
    case True
    then show ?thesis using assms(1) by (intro exI [of _ "[]"]) simp
  next
    case False
    then show ?thesis using r(3) fw_inv_drain(1) [OF assms(1,2)] by blast
  qed
  then obtain evs where e: "h1 = h @ evs" "fw_inv D c w1 off (server_file evs fl)" by blast
  note L = fw_inv_launch [OF e(2) assms(2) r(1) l]
  show "\<exists>evs. h' = h @ evs \<and> fw_inv D [] w' (off + length c) (server_file evs fl)"
    using L(1,2) e(1) by (intro exI [of _ "evs @ [Launched (stream_write (fw_tree w1) (fw_file_id w1) (fw_offset w1) c)]"]) simp
  show "fw_pending_data w' = fw_pending_data w \<and> fw_pending_offset w' = fw_pending_offset w \<and>
      fw_max_write_size w' = fw_max_write_size w \<and> fw_tree w' = fw_tree w \<and> fw_file_id w' = fw_file_id w"
    using L(3) r(3) fw_inv_drain(4) [OF assms(1,2)] by auto
qed

lemma fw_inv_next_pending:
  assumes "fw_inv D [] w off fl" and "0 < fw_max_write_size w" and "next_pending_chunk w = (Some c, w')"
  shows "fw_inv D c w' off fl" and "c \<noteq> []"
    and "drop (fw_pending_offset w) (fw_pending_data w) = c @ drop (fw_pending_offset w') (fw_pending_data w')"
    and "fw_max_write_size w' = fw_max_write_size w \<and> fw_tree w' = fw_tree w \<and> fw_file_id w' = fw_file_id w"
proof -
  let ?o = "fw_pending_offset w" and ?d = "fw_pending_data w"
  let ?stop = "min (?o + unat (fw_max_write_size w)) (length ?d)"
  have o: "?o < length ?d" using assms(3) by (simp add: next_pending_chunk_def Let_def split: if_splits)
  have "0 < unat (fw_max_write_size w)" using assms(2) by (simp add: unat_gt_0)
  then show "c \<noteq> []" using assms(3) o by (auto simp: next_pending_chunk_def Let_def split: if_splits)
  have "drop ?o ?d = take (?stop - ?o) (drop ?o ?d) @ drop ?stop ?d"
    using o append_take_drop_id [of "?stop - ?o" "drop ?o ?d"] by (simp add: add.commute)
  moreover have "c = take (?stop - ?o) (drop ?o ?d)" "drop (fw_pending_offset w') (fw_pending_data w') = drop ?stop ?d"
    using assms(3) o by (auto simp: next_pending_chunk_def Let_def split: if_splits)
  ultimately show split: "drop ?o ?d = c @ drop (fw_pending_offset w') (fw_pending_data w')" by simp
  have same: "fw_offset w' = fw_offset w \<and> fw_stashed_chunk w' = fw_stashed_chunk w \<and> fw_in_flight w' = fw_in_flight w \<and>
      fw_max_write_size w' = fw_max_write_size w \<and> fw_tree w' = fw_tree w \<and> fw_file_id w' = fw_file_id w"
    using assms(3) o by (auto simp: next_pending_chunk_def Let_def split: if_splits)
  then show "fw_max_write_size w' = fw_max_write_size w \<and> fw_tree w' = fw_tree w \<and> fw_file_id w' = fw_file_id w" by simp
  show "fw_inv D c w' off fl" using assms(1) same split by (simp add: fw_inv_def)
qed

lemma fw_inv_send_pending:
  assumes "fw_inv D [] w off fl" and "0 < fw_max_write_size w" and "length D < 2 ^ 64"
    and "length (drop (fw_pending_offset w) (fw_pending_data w)) < fuel"
  shows "\<exists>r w' h'. send_pending fuel finishing N w h = Some (r, w', h') \<and>
           (r = Ok () \<longrightarrow> (\<exists>evs. h' = h @ evs \<and> fw_inv D [] w' (length D) (server_file evs fl)) \<and>
             fw_max_write_size w' = fw_max_write_size w \<and> fw_tree w' = fw_tree w \<and> fw_file_id w' = fw_file_id w)"
  using assms(1,2,4)
proof (induction fuel arbitrary: w off fl h)
  case 0
  then show ?case by simp
next
  case (Suc fuel)
  show ?case
  proof (cases "next_pending_chunk w")
    case (Pair c w1)
    show ?thesis
    proof (cases c)
      case None
      then have "w1 = w" "length (fw_pending_data w) \<le> fw_pending_offset w"
        using Pair by (auto simp: next_pending_chunk_def Let_def split: if_splits)
      moreover then have "off = length D" using Suc.prems(1) by (auto simp: fw_inv_def)
      ultimately show ?thesis using Suc.prems(1) Pair None by (auto intro!: exI [of _ "[]"])
    next
      case (Some bs)
      note P = fw_inv_next_pending [OF Suc.prems(1,2) Pair [unfolded Some]]
      show ?thesis
      proof (cases "send_or_stash N bs w1 h")
        case (fields r w2 h2)
        show ?thesis
        proof (cases r)
          case (Ok b)
          note S = fw_inv_send [OF P(1) assms(3) fields [unfolded Ok]]
          obtain evs where e: "h2 = h @ evs" "fw_inv D [] w2 (off + length bs) (server_file evs fl)" using S(2) by blast
          have "1 \<le> length bs" using P(2) by (cases bs) auto
          moreover have "length (drop (fw_pending_offset w) (fw_pending_data w)) =
              length bs + length (drop (fw_pending_offset w1) (fw_pending_data w1))" unfolding P(3) by simp
          ultimately have "length (drop (fw_pending_offset w2) (fw_pending_data w2)) < fuel" using S(3) Suc.prems(3) by simp
          moreover have mw: "fw_max_write_size w2 = fw_max_write_size w" "fw_tree w2 = fw_tree w" "fw_file_id w2 = fw_file_id w"
            using S(3) P(4) by simp_all
          ultimately obtain r' w' h' where R: "send_pending fuel finishing N w2 h2 = Some (r', w', h')"
            "r' = Ok () \<longrightarrow> (\<exists>evs'. h' = h2 @ evs' \<and> fw_inv D [] w' (length D) (server_file evs' (server_file evs fl))) \<and>
               fw_max_write_size w' = fw_max_write_size w2 \<and> fw_tree w' = fw_tree w2 \<and> fw_file_id w' = fw_file_id w2"
            using Suc.IH [OF e(2), of h2] Suc.prems(2) by auto
          have "\<exists>evs. h' = h @ evs \<and> fw_inv D [] w' (length D) (server_file evs fl)" if ok: "r' = Ok ()"
          proof -
            obtain evs' where "h' = h2 @ evs'" "fw_inv D [] w' (length D) (server_file evs' (server_file evs fl))"
              using R(2) ok by blast
            then show ?thesis using e(1) by (intro exI [of _ "evs @ evs'"]) simp
          qed
          moreover have "send_pending (Suc fuel) finishing N w h = Some (r', w', h')"
            using Pair Some fields Ok S(1) R(1) by simp
          ultimately show ?thesis using R(2) mw by auto
        qed (use Pair Some fields in simp_all)
      qed
    qed
  qed
qed

lemma fw_inv_grow:
  assumes "fw_inv D [] w off fl"
  shows "fw_inv (D @ data) [] (add_pending data w) off fl"
proof -
  let ?w = "add_pending data w"
  have off: "off \<le> length D" "drop off D = drop (fw_pending_offset w) (fw_pending_data w)" using assms by (simp_all add: fw_inv_def)
  have "drop off (D @ data) = drop (fw_pending_offset ?w) (fw_pending_data ?w)" using off by (auto simp: add_pending_def)
  moreover have "writes_part t fid (D @ data) off r" if part: "writes_part t fid D off r" for t fid r
  proof -
    obtain a bs where r: "r = stream_write t fid (word_of_nat a) bs" "a + length bs \<le> off" "bs = take (length bs) (drop a D)"
      using part unfolding writes_part_def by blast
    have "take (length bs) (drop a (D @ data)) = take (length bs) (drop a D)" using r(2) off(1) by simp
    with r show ?thesis unfolding writes_part_def by metis
  qed
  moreover have "in_file (D @ data) off R fl" if "in_file D off R fl" for R
    using that off(1) by (auto simp: in_file_def nth_append)
  moreover have "fw_offset ?w = fw_offset w" "fw_stashed_chunk ?w = fw_stashed_chunk w" "fw_in_flight ?w = fw_in_flight w"
      "fw_tree ?w = fw_tree w" "fw_file_id ?w = fw_file_id w" by (simp_all add: add_pending_def)
  ultimately show ?thesis using assms by (auto simp: fw_inv_def)
qed

lemma flush_stash_nothing: "fw_stashed_chunk w = None \<Longrightarrow> flush_stash N w h = (Ok (), w, h)"
  by (simp add: flush_stash_def)

lemma fw_inv_write_chunk:
  assumes "fw_inv D [] w (length D) fl" and "0 < fw_max_write_size w" and "length (D @ data) < 2 ^ 64" and "length data < fuel"
  shows "\<exists>r w' h'. writer_write_chunk fuel N data w h = Some (r, w', h') \<and>
           (r = Ok () \<longrightarrow> (\<exists>evs. h' = h @ evs \<and> fw_inv (D @ data) [] w' (length (D @ data)) (server_file evs fl)) \<and>
             fw_max_write_size w' = fw_max_write_size w \<and> fw_tree w' = fw_tree w \<and> fw_file_id w' = fw_file_id w)"
proof (cases "data = []")
  case True
  then show ?thesis using assms(1) by (auto simp: writer_write_chunk_def intro!: exI [of _ "[]"])
next
  case False
  let ?w = "add_pending data w"
  note G = fw_inv_grow [OF assms(1), of data]
  have "length (drop (fw_pending_offset ?w) (fw_pending_data ?w)) = length (drop (length D) (D @ data))"
    using G by (simp add: fw_inv_def)
  then have "length (drop (fw_pending_offset ?w) (fw_pending_data ?w)) < fuel" using assms(4) by simp
  moreover have same: "fw_max_write_size ?w = fw_max_write_size w" "fw_tree ?w = fw_tree w" "fw_file_id ?w = fw_file_id w"
    by (simp_all add: add_pending_def)
  moreover have "flush_stash N ?w h = (Ok (), ?w, h)" by (rule flush_stash_nothing) (use G in \<open>simp add: fw_inv_def\<close>)
  then have "writer_write_chunk fuel N data w h = send_pending fuel False N ?w h" using False by (simp add: writer_write_chunk_def)
  ultimately show ?thesis using fw_inv_send_pending [OF G _ assms(3), of fuel False N h] assms(2) by simp
qed

lemma fw_inv_drain_all:
  assumes "fw_inv D [] w off fl" and "length D < 2 ^ 64" and "drain_all N w h = (Ok (), w', h')"
  shows "\<exists>evs. h' = h @ evs \<and> fw_inv D [] w' off (server_file evs fl) \<and> fw_in_flight w' = [] \<and>
           fw_tree w' = fw_tree w \<and> fw_file_id w' = fw_file_id w"
  using assms(1,3)
proof (induction "length (fw_in_flight w)" arbitrary: w fl h rule: less_induct)
  case less
  show ?case
  proof (cases "fw_in_flight w = []")
    case True
    then show ?thesis using less.prems by (auto simp: drain_all.simps intro!: exI [of _ "[]"])
  next
    case False
    then obtain w1 h1 where d: "drain_one N w h = (Ok (), w1, h1)" "drain_all N w1 h1 = (Ok (), w', h')"
      using less.prems(2) by (subst (asm) drain_all.simps) (auto split: result.splits prod.splits)
    note F = fw_inv_drain [OF less.prems(1) assms(2) d(1)]
    obtain evs where e: "h1 = h @ evs" "fw_inv D [] w1 off (server_file evs fl)" using F(1) by blast
    from less.hyps [OF F(2) [OF False] e(2) d(2)] obtain evs' where
      "h' = h1 @ evs'" "fw_inv D [] w' off (server_file evs' (server_file evs fl))" "fw_in_flight w' = []"
      "fw_tree w' = fw_tree w1" "fw_file_id w' = fw_file_id w1" by blast
    then show ?thesis using e(1) F(4) by (intro exI [of _ "evs @ evs'"]) simp
  qed
qed

lemma writer_finish_complete:
  assumes "fw_inv D [] w (length D) fl" and "0 < fw_max_write_size w" and "length D < 2 ^ 64" and "0 < fuel"
  shows "\<exists>r h'. writer_finish fuel N w h = Some (r, h') \<and>
           (\<forall>m. r = Ok m \<longrightarrow> (\<exists>evs. h' = h @ evs @ Sent (flush_op (fw_tree w) (fw_file_id w)) # close_events (fw_tree w) (fw_file_id w) \<and>
             server_file evs fl = D))"
proof -
  have st: "flush_stash N w h = (Ok (), w, h)" by (rule flush_stash_nothing) (use assms(1) in \<open>simp add: fw_inv_def\<close>)
  have "drop (fw_pending_offset w) (fw_pending_data w) = []" using assms(1) by (simp add: fw_inv_def)
  then have "length (drop (fw_pending_offset w) (fw_pending_data w)) < fuel" using assms(4) by simp
  from fw_inv_send_pending [OF assms(1-3) this] obtain r w1 h1 where
    s: "send_pending fuel True N w h = Some (r, w1, h1)"
       "r = Ok () \<longrightarrow> (\<exists>evs. h1 = h @ evs \<and> fw_inv D [] w1 (length D) (server_file evs fl)) \<and>
          fw_max_write_size w1 = fw_max_write_size w \<and> fw_tree w1 = fw_tree w \<and> fw_file_id w1 = fw_file_id w" by blast
  have "\<exists>x. writer_finish fuel N w h = Some x" by (simp add: writer_finish_def st s(1))
  then obtain r2 h2 where f: "writer_finish fuel N w h = Some (r2, h2)" by auto
  moreover have "\<exists>evs. h2 = h @ evs @ Sent (flush_op (fw_tree w) (fw_file_id w)) # close_events (fw_tree w) (fw_file_id w) \<and>
      server_file evs fl = D" if ok: "r2 = Ok m" for m
  proof -
    have r: "r = Ok ()" using f ok by (cases r) (auto simp: writer_finish_def st s(1))
    with s(2) obtain e1 where e1: "h1 = h @ e1" "fw_inv D [] w1 (length D) (server_file e1 fl)"
      "fw_tree w1 = fw_tree w" "fw_file_id w1 = fw_file_id w" by auto
    obtain w3 h3 where d: "drain_all N w1 h1 = (Ok (), w3, h3)"
      "abind (flush_handle N (fw_tree w3) (fw_file_id w3)) (\<lambda>_. abind (close_handle N (fw_tree w3) (fw_file_id w3)) (\<lambda>_. aret (fw_total_written w3))) h3
         = (Ok m, h2)"
      using f ok r by (auto simp: writer_finish_def st s(1) split: prod.splits result.splits)
    from fw_inv_drain_all [OF e1(2) assms(3) d(1)] obtain e2 where e2: "h3 = h1 @ e2"
      "fw_inv D [] w3 (length D) (server_file e2 (server_file e1 fl))" "fw_in_flight w3 = []"
      "fw_tree w3 = fw_tree w" "fw_file_id w3 = fw_file_id w" using e1(3,4) by auto
    have "server_file e2 (server_file e1 fl) = D" using e2(2,3) by (intro in_file_all) (simp add: fw_inv_def)
    moreover have "h2 = h3 @ Sent (flush_op (fw_tree w) (fw_file_id w)) # close_events (fw_tree w) (fw_file_id w)"
      using d(2) e2(4,5) by (auto simp: abind_eq_Ok flush_handle_apply close_handle_apply)
    ultimately show ?thesis using e1(1) e2(1) by (intro exI [of _ "e1 @ e2"]) simp
  qed
  ultimately show ?thesis by blast
qed

section \<open>Refinement\<close>

text \<open>A caller that pushes the chunks of a list one after the other, stopping at the first error.\<close>

fun push_all :: "nat \<Rightarrow> peer \<Rightarrow> bytes list \<Rightarrow> file_writer \<Rightarrow> history \<Rightarrow> (unit res \<times> file_writer \<times> history) option" where
  "push_all fuel N [] w h = Some (Ok (), w, h)"
| "push_all fuel N (c # cs) w h =
     (case writer_write_chunk fuel N c w h of
        Some (Ok _, w', h') \<Rightarrow> push_all fuel N cs w' h'
      | x \<Rightarrow> x)"

lemma push_all_inv:
  assumes "fw_inv D [] w (length D) fl" and "0 < fw_max_write_size w" and "length (D @ concat chunks) < 2 ^ 64"
    and "\<forall>c \<in> set chunks. length c < fuel"
  shows "\<exists>r w' h'. push_all fuel N chunks w h = Some (r, w', h') \<and>
           (r = Ok () \<longrightarrow> (\<exists>evs. h' = h @ evs \<and> fw_inv (D @ concat chunks) [] w' (length (D @ concat chunks)) (server_file evs fl)) \<and>
             fw_max_write_size w' = fw_max_write_size w \<and> fw_tree w' = fw_tree w \<and> fw_file_id w' = fw_file_id w)"
  using assms
proof (induction chunks arbitrary: D w fl h)
  case Nil
  then show ?case by (auto intro!: exI [of _ "[]"])
next
  case (Cons c cs)
  have "length (D @ c) < 2 ^ 64" "length c < fuel" using Cons.prems(3,4) by simp_all
  from fw_inv_write_chunk [OF Cons.prems(1,2) this] obtain r w1 h1 where
    c: "writer_write_chunk fuel N c w h = Some (r, w1, h1)"
       "r = Ok () \<longrightarrow> (\<exists>evs. h1 = h @ evs \<and> fw_inv (D @ c) [] w1 (length (D @ c)) (server_file evs fl)) \<and>
          fw_max_write_size w1 = fw_max_write_size w \<and> fw_tree w1 = fw_tree w \<and> fw_file_id w1 = fw_file_id w" by blast
  show ?case
  proof (cases r)
    case (Ok u)
    with c(2) obtain e1 where e1: "h1 = h @ e1" "fw_inv (D @ c) [] w1 (length (D @ c)) (server_file e1 fl)"
      "fw_max_write_size w1 = fw_max_write_size w" "fw_tree w1 = fw_tree w" "fw_file_id w1 = fw_file_id w" by auto
    have "length ((D @ c) @ concat cs) < 2 ^ 64" "\<forall>c \<in> set cs. length c < fuel" "0 < fw_max_write_size w1"
      using Cons.prems(2-4) e1(3) by simp_all
    from Cons.IH [OF e1(2) this(3,1,2)] obtain r' w' h' where R: "push_all fuel N cs w1 h1 = Some (r', w', h')"
      "r' = Ok () \<longrightarrow> (\<exists>evs. h' = h1 @ evs \<and> fw_inv ((D @ c) @ concat cs) [] w' (length ((D @ c) @ concat cs))
          (server_file evs (server_file e1 fl))) \<and>
        fw_max_write_size w' = fw_max_write_size w1 \<and> fw_tree w' = fw_tree w1 \<and> fw_file_id w' = fw_file_id w1" by blast
    have "\<exists>evs. h' = h @ evs \<and> fw_inv (D @ concat (c # cs)) [] w' (length (D @ concat (c # cs))) (server_file evs fl)"
      if ok: "r' = Ok ()"
    proof -
      obtain e2 where "h' = h1 @ e2" "fw_inv ((D @ c) @ concat cs) [] w' (length ((D @ c) @ concat cs)) (server_file e2 (server_file e1 fl))"
        using R(2) ok by blast
      then show ?thesis using e1(1) by (intro exI [of _ "e1 @ e2"]) simp
    qed
    then show ?thesis using c(1) Ok R e1(3-5) by auto
  qed (use c in auto)
qed


lemma next_future_single: "next_future N [(i, r)] h = Some (i, pe_answer N h r, [], h @ [Completed r])"
  by (simp add: next_future_def pick_def remove_at_def)

lemma write_peer_push:
  "push_all (Suc (Suc n)) (write_peer st) [[1, 2, 3]] (file_writer_new t fid 65536) h =
     Some (Ok (), (file_writer_new t fid 65536)\<lparr>fw_in_flight := [(0, stream_write t fid 0 [1, 2, 3])], fw_offset := 3\<rparr>,
           h @ [Launched (stream_write t fid 0 [1, 2, 3])])"
  by (simp add: writer_write_chunk_def flush_stash_def add_pending_def file_writer_new_def
      next_pending_chunk_def send_or_stash_def wbind_def can_send_def MAX_PIPELINE_WINDOW_def launch_and_return_def launch_wire_chunk_def
      push_future_def)

lemma write_peer_finish:
  "\<exists>m h'. writer_finish 1 (write_peer STATUS_SUCCESS)
     ((file_writer_new t fid 65536)\<lparr>fw_in_flight := [(0, stream_write t fid 0 [1, 2, 3])], fw_offset := 3\<rparr>) h = Some (Ok m, h')"
proof -
  let ?w = "(file_writer_new t fid 65536)\<lparr>fw_in_flight := [(0, stream_write t fid 0 [1, 2, 3])], fw_offset := 3\<rparr>"
  obtain fr resp where fr: "pe_answer (write_peer STATUS_SUCCESS) h (stream_write t fid 0 [1, 2, 3]) = Ok fr"
    "frame_status fr = STATUS_SUCCESS" "run_reader unpack_write_response (fr_body fr) = Ok resp"
    using write_peer_acks unfolding stream_write_def by blast
  have "drain_one (write_peer STATUS_SUCCESS) ?w h =
      (Ok (), ?w\<lparr>fw_in_flight := [], fw_total_written := ucast (wrr_count resp)\<rparr>, h @ [Completed (stream_write t fid 0 [1, 2, 3])])"
    by (simp add: drain_one_def next_future_single fr file_writer_new_def)
  then have "drain_all (write_peer STATUS_SUCCESS) ?w h =
      (Ok (), ?w\<lparr>fw_in_flight := [], fw_total_written := ucast (wrr_count resp)\<rparr>, h @ [Completed (stream_write t fid 0 [1, 2, 3])])"
    by (simp add: drain_all.simps)
  moreover have "send_pending 1 True (write_peer STATUS_SUCCESS) ?w h = Some (Ok (), ?w, h)"
    by (simp add: next_pending_chunk_def file_writer_new_def)
  moreover have "flush_stash (write_peer STATUS_SUCCESS) ?w h = (Ok (), ?w, h)" by (simp add: flush_stash_def file_writer_new_def)
  ultimately show ?thesis
    by (simp add: writer_finish_def abind_cases [OF surjective_pairing [of "flush_handle _ _ _ _"]]
      abind_cases [OF surjective_pairing [of "close_handle _ _ _ _"]] write_peer_simps)
qed


section \<open>Downloads of an honest server\<close>

lemma next_chunk_honest:
  assumes "serves_file N (fd_tree d) (fd_file_id d) content" and "length content = unat (fd_file_size d)" and "0 < fd_chunk_size d"
    and "\<not> fd_done d" and "fd_bytes_received d < fd_file_size d"
  obtains n h1 where "0 < n" "unat (fd_bytes_received d) + n \<le> length content"
    "next_chunk N d h =
       (let d' = d\<lparr>fd_bytes_received := fd_bytes_received d + word_of_nat n\<rparr>; part = take n (drop (unat (fd_bytes_received d)) content)
        in if unat (fd_bytes_received d) + n = length content
           then (Some (result_bind (fst (close_handle N (fd_tree d) (fd_file_id d) h1)) (\<lambda>_. Ok part)), d'\<lparr>fd_done := True\<rparr>,
                 h1 @ close_events (fd_tree d) (fd_file_id d))
           else (Some (Ok part), d', h1))"
proof -
  define pos where "pos = unat (fd_bytes_received d)"
  have pos: "pos < length content" using assms(2,5) by (simp add: pos_def word_less_nat_alt)
  define n where "n = min (length content - pos) (unat (fd_chunk_size d))"
  define len :: u32 where "len = word_of_nat n"
  have len: "unat len = n"
    unfolding len_def n_def by (rule unat_of_nat_u32) (rule order.strict_trans1 [OF min.cobounded2], simp)
  have n: "0 < n" "pos + n \<le> length content" using pos assms(3) by (auto simp: n_def unat_gt_0)
  define part where "part = take n (drop pos content)"
  have part: "length part = n" "part \<noteq> []" using n by (auto simp: part_def)
  define r where "r = tree_op (fd_tree d) (ReadB (read_request_at (fd_file_id d) (fd_bytes_received d) len)) (credit_charge_min1 n)"
  obtain fr resp where fr: "pe_answer N h r = Ok fr" "frame_status fr = STATUS_SUCCESS"
    "run_reader unpack_read_response (fr_body fr) = Ok resp" "rdr_data resp = part"
    using assms(1) [unfolded serves_file_def, rule_format, where offset = "fd_bytes_received d" and len = len and h = h and c = "credit_charge_min1 n"]
      pos by (auto simp: r_def part_def pos_def len split: result.splits)
  have x: "execute_with_credits N (ReadB (read_request_at (fd_file_id d) (fd_bytes_received d) len)) (Some (tr_tree_id (fd_tree d)))
      (credit_charge_min1 (unat len)) h = (Ok fr, h @ [Sent r])"
    using fr(1) by (simp add: execute_with_credits_def r_def tree_op_def len Let_def)
  have lt: "length content < 2 ^ 64" using assms(2) unsigned_less [of "fd_file_size d"] by simp
  have "unat (fd_bytes_received d + word_of_nat n) = pos + n"
    using n lt by (simp add: unat_word_ariths(1) pos_def unsigned_of_nat take_bit_nat_eq_self)
  then have fin: "fd_file_size d \<le> fd_bytes_received d + word_of_nat n \<longleftrightarrow> pos + n = length content"
    using n(2) assms(2) by (auto simp: word_le_nat_alt)
  have rem: "unat (fd_file_size d) - pos \<noteq> 0" "word_of_nat (min (unat (fd_file_size d) - pos) (unat (fd_chunk_size d))) = len"
    using pos assms(2) by (simp_all add: len_def n_def)
  show thesis
  proof (rule that [of n "h @ [Sent r]"])
    show "0 < n" "unat (fd_bytes_received d) + n \<le> length content" using n by (simp_all add: pos_def)
    show "next_chunk N d h =
       (let d' = d\<lparr>fd_bytes_received := fd_bytes_received d + word_of_nat n\<rparr>; part = take n (drop (unat (fd_bytes_received d)) content)
        in if unat (fd_bytes_received d) + n = length content
           then (Some (result_bind (fst (close_handle N (fd_tree d) (fd_file_id d) (h @ [Sent r]))) (\<lambda>_. Ok part)), d'\<lparr>fd_done := True\<rparr>,
                 (h @ [Sent r]) @ close_events (fd_tree d) (fd_file_id d))
           else (Some (Ok part), d', h @ [Sent r]))"
      using rem x fr(2-4) part fin assms(4)
      by (simp add: next_chunk_def Let_def pos_def [symmetric] part_def [symmetric] download_close_def result_bind_def
        close_handle_apply status_defs split: result.split)
  qed
qed

lemma download_collect_honest:
  assumes "serves_file N (fd_tree d) (fd_file_id d) content" and "length content = unat (fd_file_size d)" and "0 < fd_chunk_size d"
    and "\<not> fd_done d" and "fd_bytes_received d \<le> fd_file_size d"
    and "length content - unat (fd_bytes_received d) < fuel"
  shows "\<exists>h2. download_collect fuel N d data h =
           Some (result_bind (fst (close_handle N (fd_tree d) (fd_file_id d) h2))
                   (\<lambda>_. Ok (data @ drop (unat (fd_bytes_received d)) content)),
                 h2 @ close_events (fd_tree d) (fd_file_id d))"
  using assms
proof (induction fuel arbitrary: d data h)
  case 0
  then show ?case by simp
next
  case (Suc fuel)
  show ?case
  proof (cases "fd_bytes_received d = fd_file_size d")
    case True
    then show ?thesis using Suc.prems(2,4)
      by (intro exI [of _ h]) (simp add: next_chunk_def download_close_def close_handle_apply result_bind_def split: result.split)
  next
    case False
    then have "fd_bytes_received d < fd_file_size d" using Suc.prems(5) by simp
    from next_chunk_honest [OF Suc.prems(1-4) this, of h] obtain n h1 where
      n: "0 < n" "unat (fd_bytes_received d) + n \<le> length content" and
      c: "next_chunk N d h =
       (let d' = d\<lparr>fd_bytes_received := fd_bytes_received d + word_of_nat n\<rparr>; part = take n (drop (unat (fd_bytes_received d)) content)
        in if unat (fd_bytes_received d) + n = length content
           then (Some (result_bind (fst (close_handle N (fd_tree d) (fd_file_id d) h1)) (\<lambda>_. Ok part)), d'\<lparr>fd_done := True\<rparr>,
                 h1 @ close_events (fd_tree d) (fd_file_id d))
           else (Some (Ok part), d', h1))" by blast
    define pos where "pos = unat (fd_bytes_received d)"
    define d' where "d' = d\<lparr>fd_bytes_received := fd_bytes_received d + word_of_nat n\<rparr>"
    have lt: "length content < 2 ^ 64" using Suc.prems(2) unsigned_less [of "fd_file_size d"] by simp
    have pos': "unat (fd_bytes_received d') = pos + n"
      using n lt by (simp add: d'_def unat_word_ariths(1) pos_def unsigned_of_nat take_bit_nat_eq_self)
    have split: "take n (drop pos content) @ drop (pos + n) content = drop pos content"
      by (metis add.commute append_take_drop_id drop_drop)
    show ?thesis
    proof (cases "pos + n = length content")
      case True
      have "0 < fuel" using Suc.prems(6) n by simp
      then obtain f where "fuel = Suc f" by (cases fuel) auto
      moreover have "take n (drop pos content) = drop pos content" using split True by simp
      ultimately show ?thesis using True c [folded pos_def d'_def]
        by (intro exI [of _ h1]) (simp add: pos_def [symmetric] next_chunk_def [of N "_\<lparr>fd_done := True\<rparr>"] result_bind_def split: result.split)
    next
      case neq: False
      have "fd_bytes_received d' \<le> fd_file_size d'" using pos' n(2) Suc.prems(2) by (simp add: word_le_nat_alt pos_def) (simp add: d'_def)
      moreover have "length content - unat (fd_bytes_received d') < fuel" using pos' n Suc.prems(6) by (simp add: pos_def)
      ultimately obtain h2 where "download_collect fuel N d' (data @ take n (drop pos content)) h1 =
          Some (result_bind (fst (close_handle N (fd_tree d') (fd_file_id d') h2))
                   (\<lambda>_. Ok ((data @ take n (drop pos content)) @ drop (pos + n) content)),
                 h2 @ close_events (fd_tree d') (fd_file_id d'))"
        using Suc.IH [of d' "data @ take n (drop pos content)" h1] Suc.prems(1-4) unfolding pos' by (auto simp: d'_def)
      then show ?thesis using neq split c [folded pos_def d'_def] by (intro exI [of _ h2]) (simp add: pos_def [symmetric] d'_def)
    qed
  qed
qed

text \<open>
  A download delivers the file. Against a server that holds the content, collecting the chunks
  returns the content, in order and complete, whatever the chunk size, and the handle is closed
  exactly once, with the last chunk. If that CLOSE is refused, the whole download is an error.
\<close>

lemma download_collects_file:
  assumes "tree_download N t path h = (Ok d, h1)" and "serves_file N t (fd_file_id d) content"
    and "length content = unat (fd_file_size d)" and "0 < max_read N" and "length content < fuel"
  shows "\<exists>h2. download_collect fuel N d [] h1 =
           Some (result_bind (fst (close_handle N t (fd_file_id d) h2)) (\<lambda>_. Ok content), h2 @ close_events t (fd_file_id d))"
proof -
  obtain fid file_size where d: "d = file_download_new t fid file_size (max_read N)"
    using assms(1) by (auto simp: tree_download_def abind_eq_Ok)
  have f: "fd_tree d = t" "\<not> fd_done d" "fd_bytes_received d = 0" "fd_chunk_size d = max_read N" by (simp_all add: d file_download_new_def)
  then show ?thesis using download_collect_honest [of N d content fuel "[]" h1] assms(2-5) by simp
qed

theorem download_collects_file_witness:
  "\<exists>d h1 h2. tree_download (file_peer SENTINEL [1, 2, 3]) sample_tree [97] [] = (Ok d, h1) \<and>
     download_collect 9 (file_peer SENTINEL [1, 2, 3]) d [] h1 = Some (Ok [1, 2, 3], h2)"
proof -
  let ?N = "file_peer SENTINEL [1, 2, 3]" and ?d = "file_download_new sample_tree SENTINEL 3 65536"
  obtain h1 where "open_file ?N sample_tree [97] [] = (Ok (SENTINEL, 3), h1)"
    using file_peer_opens [of SENTINEL "[1, 2, 3]" sample_tree "[97]" "[]"] by auto
  then have o: "tree_download ?N sample_tree [97] [] = (Ok ?d, h1)"
    by (simp add: tree_download_def abind_def max_read_def) (simp add: file_peer_def)
  have "length [1, 2, 3 :: u8] \<le> MAX_UNPACK_BUFFER" by (simp add: MAX_UNPACK_BUFFER_def)
  from download_collects_file [OF o _ , of "[1, 2, 3]" 9] file_peer_serves [OF this, of SENTINEL sample_tree]
  have "\<exists>h2. download_collect 9 ?N ?d [] h1 = Some (Ok [1, 2, 3], h2)"
    by (auto simp: file_download_new_def max_read_def) (auto simp: file_peer_def)
  with o show ?thesis by blast
qed

end
