(* ===== verification/Smb_Durable.thy ===== *)
theory Smb_Durable
  imports Smb_Tree Smb_Create_Context
begin

text \<open>
  \<open>src/client/durable.rs\<close>: opening a file so that the handle survives a disconnect, and claiming it back
  on a new connection. The random \<open>CreateGuid\<close> and the generation of the connection are arguments.
\<close>

section \<open>Which file a handle points at\<close>

definition FILE_INTERNAL_INFORMATION :: u8 where "FILE_INTERNAL_INFORMATION = 6"
definition FS_VOLUME_INFORMATION :: u8 where "FS_VOLUME_INFORMATION = 1"
definition FS_VOLUME_SERIAL_OFFSET :: usize where "FS_VOLUME_SERIAL_OFFSET = 8"

record file_identity =
  fid_volume_serial :: u32
  fid_index_number :: u64

definition index_query :: query_info_request where
  "index_query = query_info_of InfoFile FILE_INTERNAL_INFORMATION 8"

definition volume_query :: query_info_request where
  "volume_query = query_info_of InfoFilesystem FS_VOLUME_INFORMATION 128"

definition query_payload :: "frame \<Rightarrow> bytes option" where
  "query_payload fr =
     (if frame_status fr \<noteq> STATUS_SUCCESS then None
      else case run_reader unpack_output_response (fr_body fr) of Ok resp \<Rightarrow> Some (or_output_buffer resp) | _ \<Rightarrow> None)"

definition index_of_payload :: "bytes \<Rightarrow> u64 option" where
  "index_of_payload body = (case run_reader read_u64_le body of Ok n \<Rightarrow> Some n | _ \<Rightarrow> None)"

definition serial_of_payload :: "bytes \<Rightarrow> u32 option" where
  "serial_of_payload body =
     (if FS_VOLUME_SERIAL_OFFSET + 4 \<le> length body
      then Some (from_le_bytes (take 4 (drop FS_VOLUME_SERIAL_OFFSET body))) else None)"

definition identity_from_frames :: "frame option \<Rightarrow> frame option \<Rightarrow> file_identity option" where
  "identity_from_frames index vol =
     (case Option.bind (Option.bind index query_payload) index_of_payload of
        None \<Rightarrow> None
      | Some index_number \<Rightarrow>
          let volume_serial = unwrap_or (Option.bind (Option.bind vol query_payload) serial_of_payload) 0
          in Some \<lparr>fid_volume_serial = volume_serial, fid_index_number = index_number\<rparr>)"

section \<open>Opening and reclaiming\<close>

record durable_handle =
  dh_file_id :: file_id
  dh_grant :: durable_grant
  dh_identity :: file_identity
  dh_create_guid :: guid
  dh_generation :: u64

record durable_open =
  do_file_id :: file_id
  do_size :: u64
  do_durable :: "durable_handle option"

definition handle_is_current :: "durable_handle \<Rightarrow> u64 \<Rightarrow> bool" where
  "handle_is_current d generation \<longleftrightarrow> dh_generation d = generation"

definition identify_ops :: "tree \<Rightarrow> create_request \<Rightarrow> request list" where
  "identify_ops t req = [tree_op t (CreateB req) 1, tree_op t (QueryInfoB index_query) 1, tree_op t (QueryInfoB volume_query) 1]"

text \<open>\<open>Result::ok\<close>, and \<open>frames.get(i)\<close>.\<close>

definition result_ok :: "'a res \<Rightarrow> 'a option" where
  "result_ok r = (case r of Ok x \<Rightarrow> Some x | _ \<Rightarrow> None)"

definition frame_at :: "frame res list \<Rightarrow> nat \<Rightarrow> frame option" where
  "frame_at results i = (if i < length results then result_ok (results ! i) else None)"

definition create_and_identify :: "peer \<Rightarrow> tree \<Rightarrow> create_request \<Rightarrow> (frame \<times> file_identity option) act" where
  "create_and_identify N t create_req =
     abind (execute_compound N (identify_ops t create_req)) (\<lambda>results.
     case frame_at results 0 of
       None \<Rightarrow> alift (Err (InvalidData (Malformed ''compound CREATE produced no response'' [])))
     | Some create \<Rightarrow>
         abind (expect_success Create create) (\<lambda>_.
         aret (create, identity_from_frames (frame_at results 1) (frame_at results 2))))"

definition durable_create_request :: "oplock_level \<Rightarrow> create_disposition \<Rightarrow> rstring \<Rightarrow> bytes \<Rightarrow> create_request" where
  "durable_create_request oplock disposition name contexts =
     (create_request_of
        (FAM_FILE_READ_DATA OR FAM_FILE_WRITE_DATA OR FAM_FILE_READ_ATTRIBUTES OR FAM_FILE_WRITE_ATTRIBUTES OR FAM_SYNCHRONIZE)
        0x80 (FILE_SHARE_READ OR FILE_SHARE_WRITE) disposition FILE_NON_DIRECTORY_FILE name)
     \<lparr>crq_requested_oplock_level := oplock, crq_create_contexts := contexts\<rparr>"

text \<open>\<open>conn.params().is_some_and(|p| p.dialect >= Dialect::Smb3_0)\<close>.\<close>

definition durable_possible :: "peer \<Rightarrow> bool" where
  "durable_possible N = (case pe_params N of None \<Rightarrow> False | Some p \<Rightarrow> dialect_code (np_dialect p) \<ge> dialect_code Smb3_0)"

definition durable_request_contexts :: "peer \<Rightarrow> guid \<Rightarrow> bytes res" where
  "durable_request_contexts N create_guid =
     (if durable_possible N
      then result_bind (durable_request_context \<lparr>drq_timeout_ms = 0, drq_persistent = False, drq_create_guid = create_guid\<rparr>)
             (\<lambda>c. pack_contexts [c])
      else Ok [])"

text \<open>\<open>find(&answered, NAME_DH2Q).map(|c| DurableGrant::from_bytes(&c.data)).transpose()\<close>.\<close>

definition find_grant :: "create_context list \<Rightarrow> durable_grant option res" where
  "find_grant answered =
     (case find_context answered NAME_DH2Q of
        None \<Rightarrow> Ok None
      | Some c \<Rightarrow> result_bind (durable_grant_from_bytes (cc_data c)) (\<lambda>g. Ok (Some g)))"

text \<open>Both proofs or nothing: without an identity the handle could never be proven later.\<close>

definition note_durable ::
    "tree \<Rightarrow> u64 \<Rightarrow> guid \<Rightarrow> durable_grant option \<Rightarrow> file_identity option \<Rightarrow> file_id \<Rightarrow> durable_handle option act" where
  "note_durable t generation create_guid grant identity fid =
     (case (grant, identity) of
        (Some g, Some i) \<Rightarrow>
          abind (emit (OplockRegistered fid (tr_tree_id t))) (\<lambda>_.
          aret (Some \<lparr>dh_file_id = fid, dh_grant = g, dh_identity = i, dh_create_guid = create_guid, dh_generation = generation\<rparr>))
      | _ \<Rightarrow> aret None)"

definition open_file_durable :: "peer \<Rightarrow> tree \<Rightarrow> u64 \<Rightarrow> guid \<Rightarrow> rstring \<Rightarrow> durable_open act" where
  "open_file_durable N t generation create_guid path =
     abind (alift (durable_request_contexts N create_guid)) (\<lambda>contexts.
     abind (create_and_identify N t (durable_create_request (if durable_possible N then Batch else OplockNone) FileOpenIf
              (format_path t path) contexts)) (\<lambda>(create, identity).
     abind (parse_body unpack_create_response create) (\<lambda>resp.
     abind (alift (parse_contexts (crr_create_contexts resp))) (\<lambda>answered.
     abind (alift (find_grant answered)) (\<lambda>grant.
     abind (note_durable t generation create_guid grant identity (crr_file_id resp)) (\<lambda>durable.
     aret \<lparr>do_file_id = crr_file_id resp, do_size = crr_end_of_file resp, do_durable = durable\<rparr>))))))"

definition reclaim_request :: "tree \<Rightarrow> durable_handle \<Rightarrow> rstring \<Rightarrow> create_request res" where
  "reclaim_request t d path =
     result_bind (durable_reconnect_context \<lparr>drc_file_id = dh_file_id d, drc_create_guid = dh_create_guid d,
                                             drc_persistent = dg_persistent (dh_grant d)\<rparr>) (\<lambda>c.
     result_bind (pack_contexts [c]) (\<lambda>contexts.
     Ok (durable_create_request Batch FileOpen (format_path t path) contexts)))"

text \<open>A refusal of the server means that the open is gone; every other error is passed on.\<close>

definition refused_is_expired :: "rstring \<Rightarrow> 'a act \<Rightarrow> 'a act" where
  "refused_is_expired path m h =
     (case m h of (Err (Protocol status c), h') \<Rightarrow> (Err (DurableHandleLost path Expired), h') | r \<Rightarrow> r)"

text \<open>The second proof: the file behind the new handle is the one of the old handle.\<close>

definition check_reclaimed ::
    "peer \<Rightarrow> tree \<Rightarrow> u64 \<Rightarrow> durable_handle \<Rightarrow> rstring \<Rightarrow> file_identity option \<Rightarrow> file_id \<Rightarrow> durable_handle act" where
  "check_reclaimed N t generation d path identity fid =
     (case identity of
        None \<Rightarrow> close_and_fail N t fid (DurableHandleLost path IdentityUnavailable)
      | Some i \<Rightarrow>
          if i \<noteq> dh_identity d then close_and_fail N t fid (DurableHandleLost path IdentityMismatch)
          else abind (emit (OplockRegistered fid (tr_tree_id t))) (\<lambda>_.
               aret (d\<lparr>dh_file_id := fid, dh_generation := generation\<rparr>)))"

definition reclaim_durable_handle :: "peer \<Rightarrow> tree \<Rightarrow> u64 \<Rightarrow> durable_handle \<Rightarrow> rstring \<Rightarrow> durable_handle act" where
  "reclaim_durable_handle N t generation d path =
     abind (alift (reclaim_request t d path)) (\<lambda>create_req.
     abind (refused_is_expired path (create_and_identify N t create_req)) (\<lambda>(create, identity).
     abind (parse_body unpack_create_response create) (\<lambda>resp.
     check_reclaimed N t generation d path identity (crr_file_id resp))))"

section \<open>The book-keeping of oplocks\<close>

text \<open>What the events of an operation do to the shared state of the connection.\<close>

fun apply_oplock_event :: "event \<Rightarrow> 's inner \<Rightarrow> 's inner" where
  "apply_oplock_event (OplockRegistered fid tid) i = register_oplock fid tid i"
| "apply_oplock_event (OplockForgotten fid) i = forget_oplock fid i"
| "apply_oplock_event _ i = i"

section \<open>Lemmas\<close>

lemma create_and_identify_Ok:
  "create_and_identify N t req h = (Ok (create, identity), h') \<longleftrightarrow>
     (\<exists>results. pe_answers N h (identify_ops t req) = Ok results \<and> frame_at results 0 = Some create \<and>
        frame_status create = STATUS_SUCCESS \<and> identity = identity_from_frames (frame_at results 1) (frame_at results 2) \<and>
        h' = h @ [SentCompound (identify_ops t req)])"
  by (auto simp: create_and_identify_def abind_eq_Ok execute_compound_def expect_success_def split: option.splits if_splits)

lemma refused_is_expired_Ok: "refused_is_expired path m h = (Ok x, h') \<longleftrightarrow> m h = (Ok x, h')"
  by (cases "m h" rule: prod.exhaust) (auto simp: refused_is_expired_def split: result.splits error.splits)

lemma check_reclaimed_Ok:
  "check_reclaimed N t g d path identity fid h = (Ok d', h') \<longleftrightarrow>
     identity = Some (dh_identity d) \<and> d' = d\<lparr>dh_file_id := fid, dh_generation := g\<rparr> \<and>
     h' = h @ [OplockRegistered fid (tr_tree_id t)]"
proof -
  have "close_and_fail N t fid e h \<noteq> (Ok d', h')" for e
    using close_and_fail_not_Ok [of N t fid e h d'] by auto
  then show ?thesis by (auto simp: check_reclaimed_def split: option.split)
qed

lemma parse_body_iff: "parse_body r fr h = (Ok x, h') \<longleftrightarrow> run_reader r (fr_body fr) = Ok x \<and> h' = h"
  by (auto simp: parse_body_def)

lemma reclaim_Ok:
  "reclaim_durable_handle N t g d path h = (Ok d', h') \<longleftrightarrow>
     (\<exists>req results create resp. reclaim_request t d path = Ok req \<and>
        pe_answers N h (identify_ops t req) = Ok results \<and> frame_at results 0 = Some create \<and> frame_status create = STATUS_SUCCESS \<and>
        run_reader unpack_create_response (fr_body create) = Ok resp \<and>
        identity_from_frames (frame_at results 1) (frame_at results 2) = Some (dh_identity d) \<and>
        d' = d\<lparr>dh_file_id := crr_file_id resp, dh_generation := g\<rparr> \<and>
        h' = h @ [SentCompound (identify_ops t req), OplockRegistered (crr_file_id resp) (tr_tree_id t)])"
  unfolding reclaim_durable_handle_def
  by (auto simp: abind_eq_Ok refused_is_expired_Ok create_and_identify_Ok check_reclaimed_Ok parse_body_iff)

text \<open>The CREATE worked, but the identity is missing or another: the handle is put back.\<close>

lemma reclaim_refused:
  assumes "reclaim_request t d path = Ok req" and "pe_answers N h (identify_ops t req) = Ok results"
    and "frame_at results 0 = Some create" and "frame_status create = STATUS_SUCCESS"
    and "run_reader unpack_create_response (fr_body create) = Ok resp"
    and "identity_from_frames (frame_at results 1) (frame_at results 2) \<noteq> Some (dh_identity d)"
  shows "released t (crr_file_id resp) h (reclaim_durable_handle N t g d path h)"
proof -
  let ?i = "identity_from_frames (frame_at results 1) (frame_at results 2)"
  have "create_and_identify N t req h = (Ok (create, ?i), h @ [SentCompound (identify_ops t req)])"
    unfolding create_and_identify_Ok using assms(2-4) by blast
  then have "reclaim_durable_handle N t g d path h =
      check_reclaimed N t g d path ?i (crr_file_id resp) (h @ [SentCompound (identify_ops t req)])"
    using assms(1,5) by (simp add: reclaim_durable_handle_def abind_def refused_is_expired_def parse_body_def)
  with assms(6) show ?thesis
    by (auto simp: check_reclaimed_def released_close_and_fail split: option.split)
qed

lemma open_durable_Ok:
  assumes "open_file_durable N t g cg path h = (Ok d, h')"
  obtains req results create resp where "pe_answers N h (identify_ops t req) = Ok results" "frame_at results 0 = Some create"
    "frame_status create = STATUS_SUCCESS" "run_reader unpack_create_response (fr_body create) = Ok resp"
    "do_file_id d = crr_file_id resp" "crq_requested_oplock_level req = (if durable_possible N then Batch else OplockNone)"
    "\<forall>dh. do_durable d = Some dh \<longrightarrow> dh_file_id dh = crr_file_id resp \<and> dh_create_guid dh = cg \<and> dh_generation dh = g \<and>
        identity_from_frames (frame_at results 1) (frame_at results 2) = Some (dh_identity dh)"
    "h' = h @ SentCompound (identify_ops t req) #
        (if do_durable d = None then [] else [OplockRegistered (crr_file_id resp) (tr_tree_id t)])"
proof -
  have note_Ok: "note_durable t g cg grant identity fid h = (Ok x, h') \<Longrightarrow>
      h' = h @ (if x = None then [] else [OplockRegistered fid (tr_tree_id t)]) \<and>
      (\<forall>dh. x = Some dh \<longrightarrow> dh_file_id dh = fid \<and> dh_create_guid dh = cg \<and> dh_generation dh = g \<and> identity = Some (dh_identity dh))"
    for grant identity fid h x h' by (auto simp: note_durable_def split: option.splits)
  from assms show thesis
    unfolding open_file_durable_def abind_eq_Ok
    by (clarsimp simp: abind_eq_Ok create_and_identify_Ok parse_body_iff) (drule note_Ok, rule that, auto simp: durable_create_request_def)
qed

text \<open>The reconnect context travels alone and carries the old handle and its \<open>CreateGuid\<close>.\<close>

lemma reclaim_request_alone:
  assumes "wf_guid (dh_create_guid d)"
  shows "\<exists>req b. reclaim_request t d path = Ok req \<and>
     durable_reconnect_to_bytes \<lparr>drc_file_id = dh_file_id d, drc_create_guid = dh_create_guid d,
       drc_persistent = dg_persistent (dh_grant d)\<rparr> = Ok b \<and>
     parse_contexts (crq_create_contexts req) = Ok [create_context_new NAME_DH2C b]"
proof -
  let ?r = "\<lparr>drc_file_id = dh_file_id d, drc_create_guid = dh_create_guid d, drc_persistent = dg_persistent (dh_grant d)\<rparr>"
  obtain b where b: "durable_reconnect_to_bytes ?r = Ok b" "length b = 36"
    using durable_body_sizes(2) [of ?r] assms by auto
  then have wf: "\<forall>ctx\<in>set [create_context_new NAME_DH2C b]. wf_create_context ctx"
    by (simp add: wf_create_context_def create_context_new_def NAME_DH2C_def)
  from parse_pack_contexts [OF wf] pack_contexts_image [OF wf] b show ?thesis
    by (simp add: reclaim_request_def durable_reconnect_context_def durable_create_request_def)
qed

section \<open>Reclaiming\<close>

text \<open>
  What a server reports about a handle it has just opened is the identity of the file behind it
  (MS-FSCC 2.4.22 and 2.5.9), if it reports one.
\<close>

definition reports_identity :: "peer \<Rightarrow> tree \<Rightarrow> (file_id \<Rightarrow> file_identity) \<Rightarrow> bool" where
  "reports_identity N t ident \<longleftrightarrow>
     (\<forall>h req results create resp i. pe_answers N h (identify_ops t req) = Ok results \<longrightarrow> frame_at results 0 = Some create \<longrightarrow>
        run_reader unpack_create_response (fr_body create) = Ok resp \<longrightarrow>
        identity_from_frames (frame_at results 1) (frame_at results 2) = Some i \<longrightarrow> i = ident (crr_file_id resp))"

text \<open>
  C14: A resumed write goes to the same file. Let \<open>file1\<close> and \<open>file2\<close> be the files behind the handles of
  the old and the new session, told apart by their identities, which the servers report truthfully.
  If a file was opened durably and the handle is claimed back later, then the new handle stands for
  the file the old one stood for, whatever else the server does; the claim carried the \<open>CreateGuid\<close> of
  the open, and the new handle belongs to the new session.
\<close>

theorem resumed_handle_is_same_file:
  assumes "open_file_durable N1 t1 g1 cg path h1 = (Ok opened, k1)" and "do_durable opened = Some d"
    and "reclaim_durable_handle N2 t2 g2 d path h2 = (Ok d', k2)"
    and "reports_identity N1 t1 (ident \<circ> file1)" and "reports_identity N2 t2 (ident \<circ> file2)" and "inj ident"
  shows "file2 (dh_file_id d') = file1 (do_file_id opened) \<and> handle_is_current d' g2 \<and>
    dh_create_guid d' = cg \<and> dh_identity d' = dh_identity d"
proof -
  obtain req1 results1 create1 resp1 where o: "pe_answers N1 h1 (identify_ops t1 req1) = Ok results1" "frame_at results1 0 = Some create1"
    "frame_status create1 = STATUS_SUCCESS" "run_reader unpack_create_response (fr_body create1) = Ok resp1" "do_file_id opened = crr_file_id resp1"
    "crq_requested_oplock_level req1 = (if durable_possible N1 then Batch else OplockNone)" "\<forall>dh. do_durable opened = Some dh \<longrightarrow> dh_file_id dh = crr_file_id resp1 \<and> dh_create_guid dh = cg \<and> dh_generation dh = g1 \<and>
        identity_from_frames (frame_at results1 1) (frame_at results1 2) = Some (dh_identity dh)"
    by (rule open_durable_Ok [OF assms(1)])
  from o(7) assms(2) have i: "identity_from_frames (frame_at results1 1) (frame_at results1 2) = Some (dh_identity d)"
    and cg: "dh_create_guid d = cg" by simp_all
  from assms(4) [unfolded reports_identity_def, rule_format, OF o(1,2,4) i]
  have "dh_identity d = ident (file1 (do_file_id opened))" by (simp add: o(5))
  moreover from assms(3) obtain req results create resp where r: "pe_answers N2 h2 (identify_ops t2 req) = Ok results"
    "frame_at results 0 = Some create" "run_reader unpack_create_response (fr_body create) = Ok resp"
    "identity_from_frames (frame_at results 1) (frame_at results 2) = Some (dh_identity d)"
    and d': "d' = d\<lparr>dh_file_id := crr_file_id resp, dh_generation := g2\<rparr>" unfolding reclaim_Ok by blast
  from assms(5) [unfolded reports_identity_def, rule_format, OF r] have "dh_identity d = ident (file2 (crr_file_id resp))" by simp
  ultimately show ?thesis using d' cg assms(6) by (auto simp: handle_is_current_def dest: injD)
qed


text \<open>
  C37: An oplock without durability is never acknowledged. On SMB 3 the open always asks for a batch
  oplock. When the server grants it but does not grant a durable handle, or does not say which file it
  is, the open succeeds without noting the oplock; a later break of it finds no tree and is skipped,
  so nothing is sent and the client that caused the break waits for the server's timeout.
\<close>

theorem oplock_without_durability_unanswered:
  assumes "open_file_durable N t g cg path h = (Ok opened, k)" and "do_durable opened = None"
    and "map_of (in_oplock_trees i) (do_file_id opened) = None"
    and "hdr_command hdr = OplockBreak" and "run_reader unpack_oplock_break (drop header_SIZE sub) = Ok brk"
    and "ob_file_id brk = do_file_id opened" and "header_SIZE \<le> length sub"
  shows "(durable_possible N \<longrightarrow> (\<exists>req. k = h @ [SentCompound (identify_ops t req)] \<and> crq_requested_oplock_level req = Batch)) \<and>
    (\<exists>j. prepare_unsolicited sub hdr (fold apply_oplock_event (drop (length h) k) i) = Ok (Skip, j) \<and> in_acks j = in_acks i)"
proof -
  obtain req where "k = h @ [SentCompound (identify_ops t req)]"
    "crq_requested_oplock_level req = (if durable_possible N then Batch else OplockNone)"
  proof (rule open_durable_Ok [OF assms(1)])
    fix req results create resp
    assume "crq_requested_oplock_level req = (if durable_possible N then Batch else OplockNone)"
      "k = h @ SentCompound (identify_ops t req) #
        (if do_durable opened = None then [] else [OplockRegistered (crr_file_id resp) (tr_tree_id t)])"
    with assms(2) that show thesis by simp
  qed
  then show ?thesis using assms(3-7)
    by (auto simp: prepare_unsolicited_def slice_def Let_def bump_def)
qed

section \<open>A server\<close>

text \<open>A server that opens file 9 of volume 4 with the handle \<open>fid\<close>, answering with the contexts \<open>ctxs\<close>.\<close>

definition opened_file :: "file_id \<Rightarrow> create_context list \<Rightarrow> create_response" where
  "opened_file fid ctxs = (created_file fid 0)\<lparr>crr_create_contexts := chain_image ctxs\<rparr>"

definition payload_reply :: "bytes \<Rightarrow> frame" where
  "payload_reply body = reply QueryInfo STATUS_SUCCESS (packed (pack_output_response \<lparr>or_output_buffer = body\<rparr>))"

definition durable_peer :: "file_id \<Rightarrow> create_context list \<Rightarrow> peer" where
  "durable_peer fid ctxs =
     \<lparr>pe_params = Some \<lparr>np_dialect = Smb3_1_1, np_max_read_size = 65536, np_max_write_size = 65536, np_max_transact_size = 65536,
        np_server_guid = guid_ZERO, np_signing_required = False, np_capabilities = 0, np_gmac_negotiated = False, np_cipher = None,
        np_compression_supported = False\<rparr>,
      pe_server_name = [115], pe_answer = (\<lambda>_ _. Ok (reply Close STATUS_SUCCESS [])),
      pe_answers = (\<lambda>_ _. Ok [Ok (reply Create STATUS_SUCCESS (packed (pack_create_response (opened_file fid ctxs)))),
        Ok (payload_reply (to_le_bytes (9 :: u64))), Ok (payload_reply (replicate 8 0 @ to_le_bytes (4 :: u32)))]),
      pe_next = (\<lambda>_. 0)\<rparr>"

definition granted :: create_context where
  "granted = create_context_new NAME_DH2Q (to_le_bytes (60000 :: u32) @ to_le_bytes (0 :: u32))"

lemma granted_wf: "wf_create_context granted"
  by (simp add: granted_def create_context_new_def NAME_DH2Q_def wf_create_context_def)

lemma opened_file_parses:
  assumes "ctxs = [] \<or> ctxs = [granted]"
  shows "run_reader unpack_create_response (packed (pack_create_response (opened_file fid ctxs))) = Ok (opened_file fid ctxs)"
    and "parse_contexts (crr_create_contexts (opened_file fid ctxs)) = Ok ctxs"
proof -
  have "length (chain_image ctxs) \<le> MAX_UNPACK_BUFFER"
    using assms by (auto simp: granted_def create_context_new_def NAME_DH2Q_def length_entry_padded length_entry_image_value
        MAX_UNPACK_BUFFER_def align8_def)
  then show "run_reader unpack_create_response (packed (pack_create_response (opened_file fid ctxs))) = Ok (opened_file fid ctxs)"
    by (intro packed_parses create_response.run_roundtrip) (simp add: wf_create_response_def opened_file_def)
  have "\<forall>c\<in>set ctxs. wf_create_context c" using assms granted_wf by auto
  from parse_pack_contexts [OF this] pack_contexts_image [OF this]
  show "parse_contexts (crr_create_contexts (opened_file fid ctxs)) = Ok ctxs" by (simp add: opened_file_def)
qed

lemma durable_peer_identity:
  "identity_from_frames (Some (payload_reply (to_le_bytes (9 :: u64)))) (Some (payload_reply (replicate 8 0 @ to_le_bytes (4 :: u32)))) =
     Some \<lparr>fid_volume_serial = 4, fid_index_number = 9\<rparr>"
proof -
  have p: "query_payload (payload_reply body) = Some body" if "length body \<le> 16" for body
  proof -
    have "run_reader unpack_output_response (packed (pack_output_response \<lparr>or_output_buffer = body\<rparr>)) = Ok \<lparr>or_output_buffer = body\<rparr>"
      by (intro packed_parses output_response.run_roundtrip) (use that in \<open>simp add: wf_output_response_def MAX_UNPACK_BUFFER_def\<close>)
    then show ?thesis by (simp add: query_payload_def payload_reply_def)
  qed
  have "index_of_payload (to_le_bytes (9 :: u64)) = Some 9"
    using read_uint_cur(4) [of "[]" 9 "[]"] by (simp add: index_of_payload_def run_reader_def read_cursor_new_cur)
  moreover have "serial_of_payload (replicate 8 0 @ to_le_bytes (4 :: u32)) = Some 4"
    by (simp add: serial_of_payload_def FS_VOLUME_SERIAL_OFFSET_def)
  ultimately show ?thesis
    using p [of "to_le_bytes (9 :: u64)"] p [of "replicate 8 0 @ to_le_bytes (4 :: u32)"] by (simp add: identity_from_frames_def)
qed

lemma durable_peer_answers:
  "pe_answers (durable_peer fid ctxs) h ops = Ok results \<longleftrightarrow>
     results = [Ok (reply Create STATUS_SUCCESS (packed (pack_create_response (opened_file fid ctxs)))),
        Ok (payload_reply (to_le_bytes (9 :: u64))), Ok (payload_reply (replicate 8 0 @ to_le_bytes (4 :: u32)))]"
  by (auto simp: durable_peer_def)

lemma durable_peer_reports:
  "reports_identity (durable_peer fid ctxs) t (\<lambda>_. \<lparr>fid_volume_serial = 4, fid_index_number = 9\<rparr>)"
  using durable_peer_identity by (auto simp: reports_identity_def durable_peer_answers frame_at_def result_ok_def)

definition sample_handle :: "file_id \<Rightarrow> u64 \<Rightarrow> durable_handle" where
  "sample_handle fid g = \<lparr>dh_file_id = fid, dh_grant = \<lparr>dg_timeout_ms = 60000, dg_persistent = False\<rparr>,
     dh_identity = \<lparr>fid_volume_serial = 4, fid_index_number = 9\<rparr>, dh_create_guid = guid_ZERO, dh_generation = g\<rparr>"

lemma durable_request_contexts_Ok: "wf_guid cg \<Longrightarrow> \<exists>b. durable_request_contexts N cg = Ok b"
proof -
  assume "wf_guid cg"
  then obtain b where b: "durable_request_to_bytes \<lparr>drq_timeout_ms = 0, drq_persistent = False, drq_create_guid = cg\<rparr> = Ok b" "length b = 32"
    using durable_body_sizes(1) [of "\<lparr>drq_timeout_ms = 0, drq_persistent = False, drq_create_guid = cg\<rparr>"] by auto
  then have "\<forall>ctx\<in>set [create_context_new NAME_DH2Q b]. wf_create_context ctx"
    by (simp add: wf_create_context_def create_context_new_def NAME_DH2Q_def)
  from pack_contexts_image [OF this] b show ?thesis
    by (simp add: durable_request_contexts_def durable_request_context_def)
qed

lemma durable_peer_opens:
  assumes "ctxs = [] \<or> ctxs = [granted]"
  shows "\<exists>k. open_file_durable (durable_peer fid ctxs) sample_tree g guid_ZERO [97] [] =
     (Ok \<lparr>do_file_id = fid, do_size = 0, do_durable = (if ctxs = [] then None else Some (sample_handle fid g))\<rparr>, k)"
proof -
  obtain b where b: "durable_request_contexts (durable_peer fid ctxs) guid_ZERO = Ok b"
    using durable_request_contexts_Ok [of guid_ZERO] by (auto simp: wf_guid_def guid_ZERO_def)
  have c: "create_and_identify (durable_peer fid ctxs) sample_tree req [] =
      (Ok (reply Create STATUS_SUCCESS (packed (pack_create_response (opened_file fid ctxs))), Some \<lparr>fid_volume_serial = 4, fid_index_number = 9\<rparr>),
       [SentCompound (identify_ops sample_tree req)])" for req
    using durable_peer_identity by (simp add: create_and_identify_Ok durable_peer_answers frame_at_def result_ok_def)
  have "durable_grant_from_bytes (cc_data granted) = Ok \<lparr>dg_timeout_ms = 60000, dg_persistent = False\<rparr>"
    using read_uint_cur(3) [of _ 0 "[]"]
    by (simp add: granted_def create_context_new_def durable_grant_from_bytes_def run_reader_def read_cursor_new_cur rd_simps)
  then have g: "find_grant ctxs = Ok (if ctxs = [] then None else Some \<lparr>dg_timeout_ms = 60000, dg_persistent = False\<rparr>)"
    using assms by (auto simp: find_grant_def find_context_def granted_def create_context_new_def)
  have f: "crr_file_id (opened_file fid ctxs) = fid" "crr_end_of_file (opened_file fid ctxs) = 0"
    by (simp_all add: opened_file_def)
  show ?thesis
    by (simp add: open_file_durable_def abind_def b c parse_body_def opened_file_parses [OF assms] f note_durable_def g emit_def
        sample_handle_def)
qed

lemma sample_reclaim:
  "reclaim_durable_handle (durable_peer fid2 []) sample_tree 2 (sample_handle fid g) [97] [] =
    (Ok (sample_handle fid2 2), snd (reclaim_durable_handle (durable_peer fid2 []) sample_tree 2 (sample_handle fid g) [97] []))"
proof -
  obtain req where r: "reclaim_request sample_tree (sample_handle fid g) [97] = Ok req"
    using reclaim_request_alone [of "sample_handle fid g"] by (auto simp: sample_handle_def wf_guid_def guid_ZERO_def)
  have "reclaim_durable_handle (durable_peer fid2 []) sample_tree 2 (sample_handle fid g) [97] [] =
      (Ok (sample_handle fid2 2), [SentCompound (identify_ops sample_tree req), OplockRegistered fid2 (tr_tree_id sample_tree)])"
    unfolding reclaim_Ok
    using r durable_peer_identity opened_file_parses(1) [of "[]" fid2]
    by (simp add: durable_peer_answers frame_at_def result_ok_def sample_handle_def) (simp add: opened_file_def)
  then show ?thesis by simp
qed

theorem resumed_handle_is_same_file_witness:
  "\<exists>opened d d' k1 k2. open_file_durable (durable_peer SENTINEL [granted]) sample_tree 1 guid_ZERO [97] [] = (Ok opened, k1) \<and>
     do_durable opened = Some d \<and>
     reclaim_durable_handle (durable_peer \<lparr>persistent = 1, volatile = 2\<rparr> []) sample_tree 2 d [97] [] = (Ok d', k2) \<and>
     handle_is_current d' 2"
proof -
  obtain k1 where o: "open_file_durable (durable_peer SENTINEL [granted]) sample_tree 1 guid_ZERO [97] [] =
      (Ok \<lparr>do_file_id = SENTINEL, do_size = 0, do_durable = Some (sample_handle SENTINEL 1)\<rparr>, k1)"
    using durable_peer_opens [of "[granted]" SENTINEL 1] by auto
  have r: "reports_identity (durable_peer fid ctxs) t (id \<circ> (\<lambda>_. \<lparr>fid_volume_serial = 4, fid_index_number = 9\<rparr>))" for fid ctxs t
    using durable_peer_reports by (simp add: comp_def)
  from resumed_handle_is_same_file [OF o _ sample_reclaim r r inj_on_id] o sample_reclaim show ?thesis
    by (metis durable_open.select_convs(3))
qed


theorem oplock_without_durability_unanswered_witness:
  "\<exists>opened k j. open_file_durable (durable_peer SENTINEL []) sample_tree 1 guid_ZERO [97] [] = (Ok opened, k) \<and>
     prepare_unsolicited (replicate 64 0 @ packed (pack_oplock_break \<lparr>ob_oplock_level = LevelII, ob_file_id = SENTINEL\<rparr>))
       (new_request OplockBreak) (fold apply_oplock_event k (inner_new counting_sem 0)) = Ok (Skip, j) \<and> in_acks j = []"
proof -
  obtain k where o: "open_file_durable (durable_peer SENTINEL []) sample_tree 1 guid_ZERO [97] [] =
      (Ok \<lparr>do_file_id = SENTINEL, do_size = 0, do_durable = None\<rparr>, k)"
    using durable_peer_opens [of "[]" SENTINEL 1] by auto
  have b: "run_reader unpack_oplock_break (packed (pack_oplock_break \<lparr>ob_oplock_level = LevelII, ob_file_id = SENTINEL\<rparr>)) =
      Ok \<lparr>ob_oplock_level = LevelII, ob_file_id = SENTINEL\<rparr>"
    by (intro packed_parses oplock_break.run_roundtrip) simp
  from oplock_without_durability_unanswered [OF o, of "inner_new counting_sem 0" "new_request OplockBreak"
      "replicate 64 0 @ packed (pack_oplock_break \<lparr>ob_oplock_level = LevelII, ob_file_id = SENTINEL\<rparr>)"
      "\<lparr>ob_oplock_level = LevelII, ob_file_id = SENTINEL\<rparr>"] o b show ?thesis
    by (auto simp: inner_new_def new_request_def header_SIZE_def)
qed

end
