(* ===== verification/Smb_Copy.thy ===== *)
theory Smb_Copy
  imports Smb_Pipelined Smb_Msg_Wrap
begin

text \<open>
  \<open>src/client/copy.rs\<close>: copying on the server with FSCTL_SRV_COPYCHUNK. A range is cut into batches
  of chunks within the limits of the server, which the client learns when a request is rejected.
\<close>

section \<open>Limits and batches\<close>

text \<open>\<open>CopyChunk\<close> has the fields of \<open>SrvCopychunk\<close>, into which it is converted.\<close>

type_synonym copy_chunk = srv_copychunk

record copy_chunk_result =
  ccr_chunks_written :: u32
  ccr_total_bytes_written :: u64

record server_side_copy_limits =
  sl_max_chunks :: u32
  sl_max_chunk_size :: u32
  sl_max_data_size :: u32

definition CONSERVATIVE :: server_side_copy_limits where
  "CONSERVATIVE = \<lparr>sl_max_chunks = 16, sl_max_chunk_size = 1024 * 1024, sl_max_data_size = 16 * 1024 * 1024\<rparr>"

definition sanitized :: "server_side_copy_limits \<Rightarrow> server_side_copy_limits" where
  "sanitized l =
     (let max_chunk_size = max (sl_max_chunk_size l) 1
      in \<lparr>sl_max_chunks = max (sl_max_chunks l) 1, sl_max_chunk_size = max_chunk_size,
          sl_max_data_size = max (sl_max_data_size l) max_chunk_size\<rparr>)"

datatype copy_chunk_outcome = Copied copy_chunk_result | Rejected server_side_copy_limits

text \<open>
  The loop of \<open>build_batch\<close>: \<open>n\<close> chunks so far covering \<open>off\<close> bytes. Every round that goes on has
  taken at least one byte.
\<close>

function batch_from :: "u64 \<Rightarrow> u64 \<Rightarrow> nat \<Rightarrow> server_side_copy_limits \<Rightarrow> nat \<Rightarrow> nat \<Rightarrow> copy_chunk list \<times> nat" where
  "batch_from base_src base_dst left l n off =
     (if n < unat (sl_max_chunks l) \<and> off < left \<and> off < unat (sl_max_data_size l)
      then let this = min (min (unat (sl_max_chunk_size l)) (left - off)) (unat (sl_max_data_size l) - off)
           in if this = 0 then ([], off)
              else let (chunks, total_len) = batch_from base_src base_dst left l (Suc n) (off + this)
                   in (\<lparr>cpk_source_offset = base_src + word_of_nat off, cpk_target_offset = base_dst + word_of_nat off,
                        cpk_length = word_of_nat this\<rparr> # chunks, total_len)
      else ([], off))"
  by pat_completeness auto
termination
  by (relation "measure (\<lambda>(a, b, left, l, n, off). left - off)") auto

declare batch_from.simps [simp del]

definition build_batch :: "u64 \<Rightarrow> u64 \<Rightarrow> nat \<Rightarrow> server_side_copy_limits \<Rightarrow> copy_chunk list \<times> nat" where
  "build_batch base_src base_dst left l = batch_from base_src base_dst left l 0 0"

section \<open>Requests\<close>

definition SMB2_0_IOCTL_IS_FSCTL :: u32 where "SMB2_0_IOCTL_IS_FSCTL = 0x00000001"

definition parse_copychunk_response :: "bytes \<Rightarrow> srv_copychunk_response res" where
  "parse_copychunk_response frame_body =
     result_bind (run_reader unpack_ioctl_response frame_body) (\<lambda>ioctl_resp.
     run_reader unpack_srv_copychunk_response (ior_output_data ioctl_resp))"

definition request_resume_key :: "peer \<Rightarrow> tree \<Rightarrow> file_id \<Rightarrow> bytes act" where
  "request_resume_key N t source =
     abind (execute N (IoctlB \<lparr>ioq_ctl_code = FSCTL_SRV_REQUEST_RESUME_KEY, ioq_file_id = source, ioq_max_input_response = 0,
                              ioq_max_output_response = 32, ioq_flags = SMB2_0_IOCTL_IS_FSCTL, ioq_input_data = []\<rparr>)
              (Some (tr_tree_id t))) (\<lambda>fr.
     abind (expect_success Ioctl fr) (\<lambda>_.
     abind (parse_body unpack_ioctl_response fr) (\<lambda>ioctl_resp.
     abind (alift (run_reader unpack_resume_key_response (ior_output_data ioctl_resp))) (\<lambda>resume.
     aret (rkr_resume_key resume)))))"

definition copy_chunks_request :: "file_id \<Rightarrow> bytes \<Rightarrow> copy_chunk list \<Rightarrow> ioctl_request" where
  "copy_chunks_request dest source_key chunks =
     \<lparr>ioq_ctl_code = FSCTL_SRV_COPYCHUNK, ioq_file_id = dest, ioq_max_input_response = 0,
      ioq_max_output_response = word_of_nat srv_copychunk_response_SIZE, ioq_flags = SMB2_0_IOCTL_IS_FSCTL,
      ioq_input_data = packed (pack_srv_copychunk_copy \<lparr>cpy_source_key = source_key, cpy_chunks = chunks\<rparr>)\<rparr>"

definition copy_chunks :: "peer \<Rightarrow> tree \<Rightarrow> file_id \<Rightarrow> bytes \<Rightarrow> copy_chunk list \<Rightarrow> copy_chunk_outcome act" where
  "copy_chunks N t dest source_key chunks =
     abind (execute N (IoctlB (copy_chunks_request dest source_key chunks)) (Some (tr_tree_id t))) (\<lambda>fr. alift (
       if frame_status fr = STATUS_INVALID_PARAMETER
       then case parse_copychunk_response (fr_body fr) of
              Ok resp \<Rightarrow> Ok (Rejected \<lparr>sl_max_chunks = cpr_chunks_written resp,
                                        sl_max_chunk_size = cpr_chunk_bytes_written resp,
                                        sl_max_data_size = cpr_total_bytes_written resp\<rparr>)
            | Err _ \<Rightarrow> Err (Protocol (frame_status fr) Ioctl)
            | Panic \<Rightarrow> Panic
       else if frame_status fr \<noteq> STATUS_SUCCESS then Err (Protocol (frame_status fr) Ioctl)
       else result_bind (parse_copychunk_response (fr_body fr)) (\<lambda>resp.
            Ok (Copied \<lparr>ccr_chunks_written = cpr_chunks_written resp,
                        ccr_total_bytes_written = ucast (cpr_total_bytes_written resp)\<rparr>))))"

text \<open>The loop over batches. \<open>None\<close> when \<open>fuel\<close> requests were not enough.\<close>

fun copy_loop ::
    "nat \<Rightarrow> peer \<Rightarrow> tree \<Rightarrow> file_id \<Rightarrow> bytes \<Rightarrow> u64 \<Rightarrow> u64 \<Rightarrow> nat \<Rightarrow> server_side_copy_limits \<Rightarrow> nat \<Rightarrow> history \<Rightarrow>
     (u64 res \<times> history) option" where
  "copy_loop 0 N t dest key source_offset dest_offset len limits copied h = None"
| "copy_loop (Suc fuel) N t dest key source_offset dest_offset len limits copied h =
     (if copied < len
      then let (chunks, batch_len) = build_batch (source_offset + word_of_nat copied) (dest_offset + word_of_nat copied)
                                       (len - copied) limits
           in case copy_chunks N t dest key chunks h of
                (Err e, h') \<Rightarrow> Some (Err e, h')
              | (Panic, h') \<Rightarrow> Some (Panic, h')
              | (Ok (Copied result), h') \<Rightarrow>
                  if ccr_total_bytes_written result = 0
                  then Some (Err (InvalidData (Malformed ''server-side copy reported success but wrote 0 bytes'' [])), h')
                  else copy_loop fuel N t dest key source_offset dest_offset len limits
                         (copied + min (unat (ccr_total_bytes_written result)) batch_len) h'
              | (Ok (Rejected advertised), h') \<Rightarrow>
                  if sanitized advertised = limits
                  then Some (Err (InvalidData (Malformed ''server rejected server-side copy without advertising smaller limits'' [])), h')
                  else copy_loop fuel N t dest key source_offset dest_offset len (sanitized advertised) copied h'
      else Some (Ok (word_of_nat copied), h))"

definition server_side_copy_range ::
    "nat \<Rightarrow> peer \<Rightarrow> tree \<Rightarrow> file_id \<Rightarrow> bytes \<Rightarrow> u64 \<Rightarrow> u64 \<Rightarrow> u64 \<Rightarrow> history \<Rightarrow> (u64 res \<times> history) option" where
  "server_side_copy_range fuel N t dest key source_offset dest_offset len h =
     (if len = 0 then Some (Ok 0, h)
      else copy_loop fuel N t dest key source_offset dest_offset (unat len) (sanitized CONSERVATIVE) 0 h)"

text \<open>Both handles are closed, the destination first; errors of a CLOSE are ignored.\<close>

definition close_both :: "peer \<Rightarrow> tree \<Rightarrow> file_id \<Rightarrow> file_id \<Rightarrow> 'a res \<times> history \<Rightarrow> 'a res \<times> history" where
  "close_both N t dst src rh =
     (case rh of
        (Panic, h) \<Rightarrow> (Panic, h)
      | (r, h) \<Rightarrow> abind (attempt (close_handle N t dst)) (\<lambda>_. abind (attempt (close_handle N t src)) (\<lambda>_. alift r)) h)"

definition copy_paths ::
    "nat \<Rightarrow> peer \<Rightarrow> tree \<Rightarrow> rstring \<Rightarrow> rstring \<Rightarrow> bool \<Rightarrow> u64 \<Rightarrow> u64 \<Rightarrow> u64 option \<Rightarrow> history \<Rightarrow> (u64 res \<times> history) option" where
  "copy_paths fuel N t source_path dest_path truncate_dest source_offset dest_offset len h =
     (case open_file N t source_path h of
        (Err e, h1) \<Rightarrow> Some (Err e, h1)
      | (Panic, h1) \<Rightarrow> Some (Panic, h1)
      | (Ok (src_id, src_size), h1) \<Rightarrow>
          (case (if truncate_dest then open_readwrite_overwrite else open_file_readwrite) N t dest_path h1 of
             (Err e, h2) \<Rightarrow> Some (close_and_fail N t src_id e h2)
           | (Panic, h2) \<Rightarrow> Some (Panic, h2)
           | (Ok (dst_id, _), h2) \<Rightarrow>
               map_option (close_both N t dst_id src_id)
                 (case request_resume_key N t src_id h2 of
                    (Err e, h3) \<Rightarrow> Some (Err e, h3)
                  | (Panic, h3) \<Rightarrow> Some (Panic, h3)
                  | (Ok key, h3) \<Rightarrow>
                      map_option (\<lambda>(r, h4). case r of
                          Ok copied \<Rightarrow> abind (flush_handle N t dst_id) (\<lambda>_. aret copied) h4
                        | _ \<Rightarrow> (r, h4))
                        (server_side_copy_range fuel N t dst_id key source_offset dest_offset
                           (case len of Some n \<Rightarrow> n | None \<Rightarrow> src_size) h3))))"

definition server_side_copy_file :: "nat \<Rightarrow> peer \<Rightarrow> tree \<Rightarrow> rstring \<Rightarrow> rstring \<Rightarrow> history \<Rightarrow> (u64 res \<times> history) option" where
  "server_side_copy_file fuel N t source_path dest_path = copy_paths fuel N t source_path dest_path True 0 0 None"

definition server_side_copy_file_range ::
    "nat \<Rightarrow> peer \<Rightarrow> tree \<Rightarrow> rstring \<Rightarrow> u64 \<Rightarrow> rstring \<Rightarrow> u64 \<Rightarrow> u64 \<Rightarrow> history \<Rightarrow> (u64 res \<times> history) option" where
  "server_side_copy_file_range fuel N t source_path source_offset dest_path dest_offset len =
     copy_paths fuel N t source_path dest_path False source_offset dest_offset (Some len)"

section \<open>Batches\<close>

text \<open>Chunks that lie one after the other in both files, the first at \<open>off\<close> from the bases.\<close>

fun tiles :: "u64 \<Rightarrow> u64 \<Rightarrow> nat \<Rightarrow> copy_chunk list \<Rightarrow> nat \<Rightarrow> bool" where
  "tiles base_src base_dst off [] stop = (stop = off)"
| "tiles base_src base_dst off (c # cs) stop =
     (cpk_source_offset c = base_src + word_of_nat off \<and> cpk_target_offset c = base_dst + word_of_nat off \<and>
      tiles base_src base_dst (off + unat (cpk_length c)) cs stop)"

definition sane :: "server_side_copy_limits \<Rightarrow> bool" where
  "sane l \<longleftrightarrow> 0 < sl_max_chunks l \<and> 0 < sl_max_chunk_size l \<and> sl_max_chunk_size l \<le> sl_max_data_size l"

lemma max_1_pos: "0 < max x (1 :: 'a::len word)"
  by (rule order.strict_trans2 [of _ 1]) simp_all

lemma sane_sanitized: "sane (sanitized l)"
  by (simp add: sane_def sanitized_def Let_def max_1_pos)

lemma batch_from_tiles:
  assumes "batch_from base_src base_dst left l n off = (chunks, stop)" and "n \<le> unat (sl_max_chunks l)"
    and "off \<le> left" and "off \<le> unat (sl_max_data_size l)"
  shows "tiles base_src base_dst off chunks stop \<and> off \<le> stop \<and> stop \<le> left \<and> stop \<le> unat (sl_max_data_size l) \<and>
         n + length chunks \<le> unat (sl_max_chunks l) \<and>
         (\<forall>c \<in> set chunks. 0 < cpk_length c \<and> cpk_length c \<le> sl_max_chunk_size l)"
  using assms
proof (induction base_src base_dst left l n off arbitrary: chunks rule: batch_from.induct)
  case (1 base_src base_dst left l n off)
  define this' where "this' = min (min (unat (sl_max_chunk_size l)) (left - off)) (unat (sl_max_data_size l) - off)"
  show ?case
  proof (cases "n < unat (sl_max_chunks l) \<and> off < left \<and> off < unat (sl_max_data_size l) \<and> this' \<noteq> 0")
    case False
    then have "chunks = [] \<and> stop = off" using 1(2) by (subst (asm) batch_from.simps) (auto simp: this'_def [symmetric] Let_def split: if_splits)
    then show ?thesis using 1(3-5) by simp
  next
    case True
    obtain cs stop' where b: "batch_from base_src base_dst left l (Suc n) (off + this') = (cs, stop')" by fastforce
    define w :: u32 where "w = word_of_nat this'"
    have w: "unat w = this'" unfolding w_def by (rule unat_of_nat_u32)
        (rule order.strict_trans1 [of _ "unat (sl_max_chunk_size l)"], simp_all add: this'_def)
    have c: "chunks = \<lparr>cpk_source_offset = base_src + word_of_nat off, cpk_target_offset = base_dst + word_of_nat off, cpk_length = w\<rparr> # cs"
      "stop' = stop" using 1(2) True b by (subst (asm) batch_from.simps, auto simp: this'_def [symmetric] Let_def w_def)+
    have "tiles base_src base_dst (off + this') cs stop \<and> off + this' \<le> stop \<and> stop \<le> left \<and> stop \<le> unat (sl_max_data_size l) \<and>
        Suc n + length cs \<le> unat (sl_max_chunks l) \<and> (\<forall>c \<in> set cs. 0 < cpk_length c \<and> cpk_length c \<le> sl_max_chunk_size l)"
      by (rule 1(1) [OF _ this'_def _ b [unfolded c(2)]]) (use True in \<open>auto simp: this'_def\<close>)
    moreover have "0 < w \<and> w \<le> sl_max_chunk_size l"
      using True by (simp add: word_less_nat_alt word_le_nat_alt w) (simp add: this'_def)
    ultimately show ?thesis by (simp add: c w)
  qed
qed

lemma build_batch_pos:
  assumes "build_batch base_src base_dst left l = (chunks, stop)" and "0 < left" and "sane l"
  shows "0 < stop"
proof -
  define this' where "this' = min (min (unat (sl_max_chunk_size l)) left) (unat (sl_max_data_size l))"
  have p: "0 < unat (sl_max_chunks l)" "0 < unat (sl_max_chunk_size l)" "0 < unat (sl_max_data_size l)"
    using assms(3) by (auto simp: sane_def unat_gt_0)
  then have t: "0 < this'" "this' \<le> left" "this' \<le> unat (sl_max_data_size l)" using assms(2) by (simp_all add: this'_def)
  obtain cs stop' where b: "batch_from base_src base_dst left l (Suc 0) (0 + this') = (cs, stop')" by fastforce
  have "stop = stop'" using assms(1,2) p t(1) b
    by (simp add: build_batch_def batch_from.simps [of _ _ _ _ 0] this'_def [symmetric] Let_def)
  moreover have "0 + this' \<le> stop'" using batch_from_tiles [OF b] p(1) t by simp
  ultimately show ?thesis using t(1) by simp
qed

text \<open>
  A batch fits what the server advertised and wastes nothing. Whatever limits a server announces,
  once sanitised, a batch for a range that is not empty covers at least one byte and no more than
  the range and the data limit; it has no more chunks than allowed, none empty and none too long;
  and the chunks tile the covered part without gap or overlap, in both files.
\<close>

lemma batch_tiles_range:
  assumes "build_batch base_src base_dst left (sanitized advertised) = (chunks, stop)" and "0 < left"
  shows "0 < stop \<and> stop \<le> left \<and> stop \<le> unat (sl_max_data_size (sanitized advertised)) \<and>
         length chunks \<le> unat (sl_max_chunks (sanitized advertised)) \<and>
         tiles base_src base_dst 0 chunks stop \<and>
         list_all (\<lambda>c. 0 < cpk_length c \<and> cpk_length c \<le> sl_max_chunk_size (sanitized advertised)) chunks"
  using batch_from_tiles [OF assms(1) [unfolded build_batch_def]] build_batch_pos [OF assms sane_sanitized]
  by (simp add: list_all_iff)

section \<open>Copying a range\<close>

lemma copy_chunks_apply:
  "copy_chunks N t dest key chunks h =
     (let r = tree_op t (IoctlB (copy_chunks_request dest key chunks)) 1
      in (result_bind (pe_answer N h r) (\<lambda>fr.
            if frame_status fr = STATUS_INVALID_PARAMETER
            then case parse_copychunk_response (fr_body fr) of
                   Ok resp \<Rightarrow> Ok (Rejected \<lparr>sl_max_chunks = cpr_chunks_written resp,
                                             sl_max_chunk_size = cpr_chunk_bytes_written resp,
                                             sl_max_data_size = cpr_total_bytes_written resp\<rparr>)
                 | Err _ \<Rightarrow> Err (Protocol (frame_status fr) Ioctl)
                 | Panic \<Rightarrow> Panic
            else if frame_status fr \<noteq> STATUS_SUCCESS then Err (Protocol (frame_status fr) Ioctl)
            else result_bind (parse_copychunk_response (fr_body fr)) (\<lambda>resp.
                 Ok (Copied \<lparr>ccr_chunks_written = cpr_chunks_written resp,
                             ccr_total_bytes_written = ucast (cpr_total_bytes_written resp)\<rparr>))),
          h @ [Sent r]))"
  by (simp add: copy_chunks_def execute_apply tree_op_def abind_def [of "execute _ _ _"] result_bind_def Let_def split: result.split)

text \<open>A copy that reports success has copied the whole range.\<close>

lemma copy_loop_all:
  assumes "copied \<le> len" and "copy_loop fuel N t dest key so d_o len limits copied h = Some (Ok n, h')"
  shows "n = word_of_nat len"
  using assms
proof (induction fuel arbitrary: limits copied h)
  case 0
  then show ?case by simp
next
  case (Suc fuel)
  show ?case
  proof (cases "copied < len")
    case True
    obtain chunks b where bb: "build_batch (so + word_of_nat copied) (d_o + word_of_nat copied) (len - copied) limits = (chunks, b)" by fastforce
    have "b \<le> len - copied" using batch_from_tiles [OF bb [unfolded build_batch_def]] by simp
    then have le: "copied + min k b \<le> len" for k using True by simp
    from Suc.prems True bb Suc.IH [OF le] Suc.IH [OF less_imp_le [OF True]] show ?thesis
      by (auto simp: Let_def split: prod.splits result.splits copy_chunk_outcome.splits if_splits)
  qed (use Suc.prems in auto)
qed

text \<open>Unless the server rejects a request, every round copies a byte, so the loop ends.\<close>

lemma copy_loop_ends:
  assumes "\<And>chunks h l. fst (copy_chunks N t dest key chunks h) \<noteq> Ok (Rejected l)" and "sane limits"
    and "len - copied < fuel"
  shows "copy_loop fuel N t dest key so d_o len limits copied h \<noteq> None"
  using assms(3)
proof (induction fuel arbitrary: copied h)
  case 0
  then show ?case by simp
next
  case (Suc fuel)
  show ?case
  proof (cases "copied < len")
    case True
    obtain chunks b where bb: "build_batch (so + word_of_nat copied) (d_o + word_of_nat copied) (len - copied) limits = (chunks, b)" by fastforce
    have b: "0 < b" using build_batch_pos [OF bb _ assms(2)] True by simp
    obtain r h' where c: "copy_chunks N t dest key chunks h = (r, h')" by fastforce
    show ?thesis
    proof (cases r)
      case (Ok out)
      show ?thesis
      proof (cases out)
        case (Copied res)
        have "copy_loop fuel N t dest key so d_o len limits (copied + min (unat (ccr_total_bytes_written res)) b) h' \<noteq> None"
          if "ccr_total_bytes_written res \<noteq> 0"
        proof (rule Suc.IH)
          have "0 < unat (ccr_total_bytes_written res)" using that by (simp add: unat_gt_0 word_neq_0_conv)
          then show "len - (copied + min (unat (ccr_total_bytes_written res)) b) < fuel" using b Suc.prems True by (auto simp: min_def)
        qed
        then show ?thesis using True bb c Ok Copied by simp
      next
        case (Rejected l)
        then show ?thesis using assms(1) [of chunks h l] c Ok by simp
      qed
    qed (use True bb c in simp_all)
  qed simp
qed

text \<open>A server that answers every copy with one of two limits in turn.\<close>

definition limits_reply :: "u32 \<Rightarrow> frame" where
  "limits_reply n = reply Ioctl STATUS_INVALID_PARAMETER
     (packed (pack_ioctl_response \<lparr>ior_ctl_code = FSCTL_SRV_COPYCHUNK, ior_file_id = SENTINEL, ior_flags = 0,
        ior_output_data = packed (pack_srv_copychunk_response
          \<lparr>cpr_chunks_written = n, cpr_chunk_bytes_written = 1, cpr_total_bytes_written = 1\<rparr>)\<rparr>))"

definition alternating_peer :: peer where
  "alternating_peer =
     \<lparr>pe_params = None, pe_server_name = [115],
      pe_answer = (\<lambda>h r. Ok (limits_reply (if even (length h) then 1 else 2))),
      pe_answers = (\<lambda>_ _. Err Disconnected), pe_next = (\<lambda>_. 0)\<rparr>"

lemma limits_reply_parses:
  "parse_copychunk_response (fr_body (limits_reply n)) =
     Ok \<lparr>cpr_chunks_written = n, cpr_chunk_bytes_written = 1, cpr_total_bytes_written = 1\<rparr>"
proof -
  let ?r = "\<lparr>cpr_chunks_written = n, cpr_chunk_bytes_written = 1, cpr_total_bytes_written = 1\<rparr> :: srv_copychunk_response"
  have r: "run_reader unpack_srv_copychunk_response (packed (pack_srv_copychunk_response ?r)) = Ok ?r"
    by (intro packed_parses srv_copychunk_response.run_roundtrip) simp
  have "length (packed (pack_srv_copychunk_response ?r)) = 12"
    by (simp add: packed_def run_writer_def pack_srv_copychunk_response_def wr_simps)
  then have "run_reader unpack_ioctl_response (fr_body (limits_reply n)) =
      Ok \<lparr>ior_ctl_code = FSCTL_SRV_COPYCHUNK, ior_file_id = SENTINEL, ior_flags = 0, ior_output_data = packed (pack_srv_copychunk_response ?r)\<rparr>"
    unfolding limits_reply_def reply_simps
    by (intro packed_parses ioctl_response.run_roundtrip) (simp add: wf_ioctl_response_def MAX_UNPACK_BUFFER_def)
  with r show ?thesis by (simp add: parse_copychunk_response_def)
qed

lemma alternating_rejects:
  "copy_chunks alternating_peer t dest key chunks h =
     (Ok (Rejected \<lparr>sl_max_chunks = (if even (length h) then 1 else 2), sl_max_chunk_size = 1, sl_max_data_size = 1\<rparr>),
      h @ [Sent (tree_op t (IoctlB (copy_chunks_request dest key chunks)) 1)])"
proof -
  have "frame_status (limits_reply n) = STATUS_INVALID_PARAMETER" for n by (simp add: limits_reply_def)
  then show ?thesis by (simp add: copy_chunks_apply alternating_peer_def limits_reply_parses Let_def)
qed

lemma alternating_never_ends:
  assumes "copied < len" and "sl_max_chunks limits \<noteq> (if even (length h) then 1 else 2)"
  shows "copy_loop fuel alternating_peer t dest key so d_o len limits copied h = None"
  using assms
proof (induction fuel arbitrary: limits h)
  case 0
  then show ?case by simp
next
  case (Suc fuel)
  let ?n = "if even (length h) then 1 else 2 :: u32"
  let ?l = "sanitized \<lparr>sl_max_chunks = ?n, sl_max_chunk_size = 1, sl_max_data_size = 1\<rparr>"
  obtain chunks b where bb: "build_batch (so + word_of_nat copied) (d_o + word_of_nat copied) (len - copied) limits = (chunks, b)" by fastforce
  have l: "sl_max_chunks ?l = ?n" by (simp add: sanitized_def Let_def max_def word_le_nat_alt)
  then have "?l \<noteq> limits" using Suc.prems(2) by metis
  moreover have "copy_loop fuel alternating_peer t dest key so d_o len ?l copied
      (h @ [Sent (tree_op t (IoctlB (copy_chunks_request dest key chunks)) 1)]) = None"
    by (rule Suc.IH) (use Suc.prems(1) l in simp_all)
  ultimately show ?case using Suc.prems(1) bb by (simp add: alternating_rejects)
qed

text \<open>
  C34: Renegotiation need not end. The loop gives up when the limits a rejection advertises are the
  ones it already used, but a server that advertises two limits in turn is asked again and again:
  however many requests are allowed, the copy has not returned.
\<close>

theorem copy_renegotiation_never_ends:
  "server_side_copy_range fuel alternating_peer t dest key source_offset dest_offset 1 h = None"
proof -
  have "sl_max_chunks (sanitized CONSERVATIVE) = 16" by (simp add: sanitized_def CONSERVATIVE_def Let_def)
  then show ?thesis by (simp add: server_side_copy_range_def) (rule alternating_never_ends, simp_all)
qed

section \<open>Handles\<close>

lemma close_both_apply:
  "close_both N t dst src (r, h) =
     (case r of Panic \<Rightarrow> (Panic, h)
      | _ \<Rightarrow> if fst (close_handle N t dst h) = Panic then (Panic, h @ close_events t dst)
             else (if fst (close_handle N t src (h @ close_events t dst)) = Panic then Panic else r,
                   h @ close_events t dst @ close_events t src))"
proof -
  have a: "abind (attempt m) (\<lambda>_. g) k = (if fst (m k) = Panic then (Panic, snd (m k)) else g (snd (m k)))"
    for m :: "unit act" and g :: "'a act" and k
    by (cases "m k") (simp add: abind_def attempt_def split: result.split)
  show ?thesis by (simp add: close_both_def a split: result.split)
qed

text \<open>
  The path-based copies never leak a handle. Once both files are open, whatever fails (the resume
  key, a copy request, the FLUSH) or nothing, the last things sent are the CLOSE of the destination
  and the CLOSE of the source; and when the destination cannot be opened, the source is closed.
\<close>


lemma copy_closes_both_handles:
  assumes "open_file N t source_path h = (Ok (src, src_size), h1)"
    and "(if truncate_dest then open_readwrite_overwrite else open_file_readwrite) N t dest_path h1 = (d, h2)"
    and "copy_paths fuel N t source_path dest_path truncate_dest so d_o len h = Some (r, h')" and "r \<noteq> Panic"
  shows "case d of
           Ok (dst, _) \<Rightarrow> \<exists>k. h' = k @ close_events t dst @ close_events t src
         | Err e \<Rightarrow> r = Err e \<and> h' = h2 @ close_events t src
         | Panic \<Rightarrow> False"
proof (cases d)
  case (Ok x)
  obtain dst dsize where x: "x = (dst, dsize)" by (cases x)
  obtain q k where "close_both N t dst src (q, k) = (r, h')"
    using assms Ok x by (auto simp: copy_paths_def)
  then show ?thesis using assms(4) Ok x by (auto simp: close_both_apply split: result.splits if_splits)
next
  case (Err e)
  then show ?thesis using assms by (auto simp: copy_paths_def close_and_fail_apply split: result.splits)
next
  case Panic
  then show ?thesis using assms by (simp add: copy_paths_def)
qed

text \<open>A server without the copy FSCTLs.\<close>

definition no_copy_peer :: peer where
  "no_copy_peer = (file_peer SENTINEL [1, 2, 3])
     \<lparr>pe_answer := (\<lambda>h r. case rq_body r of IoctlB _ \<Rightarrow> Ok (reply Ioctl STATUS_NOT_SUPPORTED [])
                    | _ \<Rightarrow> pe_answer (file_peer SENTINEL [1, 2, 3]) h r)\<rparr>"

lemma no_copy_peer_simps:
  "\<exists>h1. open_file no_copy_peer t path h = (Ok (SENTINEL, 3), h1)"
  "\<exists>h1. open_readwrite_overwrite no_copy_peer t path h = (Ok (SENTINEL, 3), h1)"
  "\<exists>h1. request_resume_key no_copy_peer t fid h = (Err (Protocol STATUS_NOT_SUPPORTED Ioctl), h1)"
  "fst (close_handle no_copy_peer t fid h) = Ok ()"
  by (simp_all add: open_file_def open_readwrite_overwrite_def open_readwrite_with_disposition_def open_with_def abind_assoc
      execute_apply abind_def [of "execute _ _ _"] no_copy_peer_def file_peer_def expect_success_Ok parse_body_def created_parses
      request_resume_key_def expect_success_def close_handle_apply tree_op_def status_defs)

theorem copy_closes_both_handles_witness:
  "\<exists>k. snd (the (server_side_copy_file 1 no_copy_peer sample_tree [97] [98] [])) =
     k @ close_events sample_tree SENTINEL @ close_events sample_tree SENTINEL"
proof -
  obtain h1 h2 h3 where h: "open_file no_copy_peer sample_tree [97] [] = (Ok (SENTINEL, 3), h1)"
    "open_readwrite_overwrite no_copy_peer sample_tree [98] h1 = (Ok (SENTINEL, 3), h2)"
    "request_resume_key no_copy_peer sample_tree SENTINEL h2 = (Err (Protocol STATUS_NOT_SUPPORTED Ioctl), h3)"
    using no_copy_peer_simps(1-3) by metis
  obtain h' where c: "copy_paths 1 no_copy_peer sample_tree [97] [98] True 0 0 None [] = Some (Err (Protocol STATUS_NOT_SUPPORTED Ioctl), h')"
    by (simp add: copy_paths_def h close_both_apply no_copy_peer_simps(4))
  from copy_closes_both_handles [OF h(1) _ c, of "Ok (SENTINEL, 3)" h2] h(2) show ?thesis
    unfolding server_side_copy_file_def c by simp
qed

end
