(* ===== verification/Smb_Dfs.thy ===== *)
theory Smb_Dfs
  imports Smb_Copy
begin

text \<open>
  \<open>src/msg/dfs.rs\<close> and \<open>src/client/dfs.rs\<close>: the referral request and response, the IOCTL exchange
  over IPC$, and the resolver with its cache.

  \<open>str::to_lowercase\<close> is table-driven; it is the argument \<open>lower\<close> of the definitions that call it.
  The clock is an argument too: one instant per look at the cache.
\<close>

section \<open>Messages\<close>

record req_get_dfs_referral =
  drq_max_referral_level :: u16
  drq_request_file_name :: rstring

record dfs_referral_entry =
  dre_version :: u16
  dre_server_type :: u16
  dre_referral_entry_flags :: u16
  dre_ttl :: u32
  dre_dfs_path :: rstring
  dre_dfs_alternate_path :: rstring
  dre_network_address :: rstring

record resp_get_dfs_referral =
  drr_path_consumed :: u16
  drr_header_flags :: u32
  drr_entries :: "dfs_referral_entry list"

definition pack_req_get_dfs_referral :: "req_get_dfs_referral \<Rightarrow> unit writer" where
  "pack_req_get_dfs_referral r = seq [
     write_u16_le (drq_max_referral_level r),
     write_utf16_le (drq_request_file_name r),
     write_u16_le 0]"

lemma read_u16_le_advances:
  "read_u16_le c = Ok (cu, c') \<Longrightarrow> rc_data c' = rc_data c \<and> rc_pos c' = rc_pos c + 2 \<and> rc_pos c' \<le> length (rc_data c)"
  by (auto simp: read_u16_le_def read_array_def ensure_def remaining_def position_def take_slice_def slice_def usub_def
      result_bind_def split: result.splits if_splits)

function read_null_terminated_loop :: "u16 list \<Rightarrow> u16 list reader" where
  "read_null_terminated_loop code_units c =
     (case read_u16_le c of
        Ok (cu, c') \<Rightarrow> if cu = 0 then Ok (code_units, c') else read_null_terminated_loop (code_units @ [cu]) c'
      | Err e \<Rightarrow> Err e
      | Panic \<Rightarrow> Panic)"
  by pat_completeness auto
termination
  by (relation "measure (\<lambda>(us, c). length (rc_data c) - rc_pos c)") (auto dest!: read_u16_le_advances)

declare read_null_terminated_loop.simps [simp del]

definition from_utf16_or :: "string \<Rightarrow> u16 list \<Rightarrow> rstring res" where
  "from_utf16_or msg us = map_err (\<lambda>_. InvalidData (Malformed msg [])) (from_utf16 us)"

definition read_null_terminated_utf16 :: "rstring reader" where
  "read_null_terminated_utf16 =
     bnd (read_null_terminated_loop []) (\<lambda>us. lift (from_utf16_or ''invalid UTF-16LE in DFS request file name'' us))"

definition unpack_req_get_dfs_referral :: "req_get_dfs_referral reader" where
  "unpack_req_get_dfs_referral =
     bnd read_u16_le (\<lambda>max_referral_level.
     bnd read_null_terminated_utf16 (\<lambda>request_file_name.
     ret \<lparr>drq_max_referral_level = max_referral_level, drq_request_file_name = request_file_name\<rparr>))"

text \<open>The same loop over a buffer and an absolute position.\<close>

function read_null_terminated_at :: "u16 list \<Rightarrow> bytes \<Rightarrow> usize \<Rightarrow> u16 list res" where
  "read_null_terminated_at code_units buf pos =
     (if pos + 2 > length buf then Err (InvalidData (Malformed ''DFS referral string extends past buffer'' []))
      else result_bind (le_at 2 buf pos) (\<lambda>cu :: u16.
           if cu = 0 then Ok code_units else read_null_terminated_at (code_units @ [cu]) buf (pos + 2)))"
  by pat_completeness auto
termination
  by (relation "measure (\<lambda>(us, buf, pos). length buf - pos)") auto

declare read_null_terminated_at.simps [simp del]

definition read_null_terminated_utf16_at :: "bytes \<Rightarrow> usize \<Rightarrow> rstring res" where
  "read_null_terminated_utf16_at buf offset =
     result_bind (read_null_terminated_at [] buf offset) (from_utf16_or ''invalid UTF-16LE in DFS referral string'')"

definition read_offset_string :: "bytes \<Rightarrow> usize \<Rightarrow> u16 \<Rightarrow> rstring res" where
  "read_offset_string buf entry_start offset = read_null_terminated_utf16_at buf (entry_start + unat offset)"

definition ensure_remaining :: "bytes \<Rightarrow> usize \<Rightarrow> usize \<Rightarrow> unit res" where
  "ensure_remaining buf pos need =
     (if pos + need > length buf
      then Err (InvalidData (Malformed ''DFS referral entry truncated'' [need, pos, length buf])) else Ok ())"

text \<open>The fields of an entry from \<open>ttl\<close> on, which version 2 has four bytes further along.\<close>

definition parse_referral_tail :: "u16 \<Rightarrow> bytes \<Rightarrow> usize \<Rightarrow> u16 \<Rightarrow> u16 \<Rightarrow> usize \<Rightarrow> dfs_referral_entry res" where
  "parse_referral_tail version buf entry_start server_type flags pos =
     result_bind (le_at 4 buf pos) (\<lambda>ttl.
     result_bind (le_at 2 buf (pos + 4)) (\<lambda>dfs_path_offset.
     result_bind (le_at 2 buf (pos + 6)) (\<lambda>dfs_alternate_path_offset.
     result_bind (le_at 2 buf (pos + 8)) (\<lambda>network_address_offset.
     result_bind (read_offset_string buf entry_start dfs_path_offset) (\<lambda>dfs_path.
     result_bind (read_offset_string buf entry_start dfs_alternate_path_offset) (\<lambda>dfs_alternate_path.
     result_bind (read_offset_string buf entry_start network_address_offset) (\<lambda>network_address.
     Ok \<lparr>dre_version = version, dre_server_type = server_type, dre_referral_entry_flags = flags, dre_ttl = ttl,
         dre_dfs_path = dfs_path, dre_dfs_alternate_path = dfs_alternate_path,
         dre_network_address = network_address\<rparr>)))))))"

definition parse_referral_entry :: "u16 \<Rightarrow> bytes \<Rightarrow> usize \<Rightarrow> dfs_referral_entry res" where
  "parse_referral_entry version buf entry_start =
     (let pos = entry_start + 4 in
      if version = 2
      then result_bind (ensure_remaining buf pos 18) (\<lambda>_.
           result_bind (le_at 2 buf pos) (\<lambda>server_type.
           result_bind (le_at 2 buf (pos + 2)) (\<lambda>flags.
           result_bind (le_at 4 buf (pos + 4)) (\<lambda>proximity :: u32.
           parse_referral_tail version buf entry_start server_type flags (pos + 8)))))
      else if version = 3 \<or> version = 4
      then result_bind (ensure_remaining buf pos 14) (\<lambda>_.
           result_bind (le_at 2 buf pos) (\<lambda>server_type.
           result_bind (le_at 2 buf (pos + 2)) (\<lambda>flags.
           parse_referral_tail version buf entry_start server_type flags (pos + 4))))
      else Err (InvalidData (Malformed ''unsupported DFS referral version'' [unat version])))"

text \<open>The loop over the entries.\<close>

fun parse_referrals :: "nat \<Rightarrow> bytes \<Rightarrow> usize \<Rightarrow> dfs_referral_entry list \<Rightarrow> dfs_referral_entry list res" where
  "parse_referrals 0 entry_data offset entries = Ok entries"
| "parse_referrals (Suc n) entry_data offset entries =
     (if offset + 4 > length entry_data
      then Err (InvalidData (Malformed ''DFS referral entry truncated (version/size header)'' []))
      else result_bind (le_at 2 entry_data offset) (\<lambda>version.
           result_bind (le_at 2 entry_data (offset + 2)) (\<lambda>size_field :: u16.
           let entry_size = unat size_field; entry_end = offset + entry_size in
           if entry_size < 4 then Err (InvalidData (Malformed ''DFS referral entry size too small'' [entry_size]))
           else if entry_end > length entry_data
           then Err (InvalidData (Malformed ''DFS referral entry extends past buffer'' [entry_end, length entry_data]))
           else result_bind (parse_referral_entry version entry_data offset) (\<lambda>entry.
                parse_referrals n entry_data entry_end (entries @ [entry])))))"

definition unpack_resp_get_dfs_referral :: "resp_get_dfs_referral reader" where
  "unpack_resp_get_dfs_referral =
     bnd read_u16_le (\<lambda>path_consumed.
     bnd read_u16_le (\<lambda>number_of_referrals.
     bnd read_u32_le (\<lambda>header_flags.
     bnd remaining (\<lambda>n.
     bnd (read_bytes n) (\<lambda>entry_data.
     bnd (lift (parse_referrals (unat number_of_referrals) entry_data 0 [])) (\<lambda>entries.
     ret \<lparr>drr_path_consumed = path_consumed, drr_header_flags = header_flags, drr_entries = entries\<rparr>))))))"

section \<open>The exchange\<close>

definition DFS_MAX_OUTPUT_RESPONSE :: u32 where "DFS_MAX_OUTPUT_RESPONSE = 8192"

definition ipc_path :: "peer \<Rightarrow> rstring" where
  "ipc_path N = [BACKSLASH, BACKSLASH] @ pe_server_name N @ [BACKSLASH, 73, 80, 67, 36]"

definition tree_connect_ipc :: "peer \<Rightarrow> tree_id act" where
  "tree_connect_ipc N =
     abind (execute N (TreeConnectB \<lparr>tcq_flags = 0, tcq_path = ipc_path N\<rparr>) None) (\<lambda>fr.
     abind (alift (if hdr_command (fr_header fr) \<noteq> TreeConnect
                   then Err (InvalidData (Malformed ''expected TreeConnect response'' [])) else Ok ())) (\<lambda>_.
     abind (expect_success TreeConnect fr) (\<lambda>_.
     abind (parse_body unpack_tree_connect_response fr) (\<lambda>_.
     alift (case hdr_tree_id (fr_header fr) of
              None \<Rightarrow> Err (InvalidData (Malformed ''TreeConnect response missing tree ID'' []))
            | Some tid \<Rightarrow> Ok tid)))))"

definition dfs_ioctl_request :: "rstring \<Rightarrow> ioctl_request" where
  "dfs_ioctl_request path =
     \<lparr>ioq_ctl_code = FSCTL_DFS_GET_REFERRALS, ioq_file_id = SENTINEL, ioq_max_input_response = 0,
      ioq_max_output_response = DFS_MAX_OUTPUT_RESPONSE, ioq_flags = SMB2_0_IOCTL_IS_FSCTL,
      ioq_input_data = packed (pack_req_get_dfs_referral \<lparr>drq_max_referral_level = 4, drq_request_file_name = path\<rparr>)\<rparr>"

definition send_dfs_ioctl :: "peer \<Rightarrow> tree_id \<Rightarrow> rstring \<Rightarrow> resp_get_dfs_referral act" where
  "send_dfs_ioctl N tid path =
     abind (execute N (IoctlB (dfs_ioctl_request path)) (Some tid)) (\<lambda>fr.
     abind (expect_success Ioctl fr) (\<lambda>_.
     abind (parse_body unpack_ioctl_response fr) (\<lambda>ioctl_resp.
     alift (run_reader unpack_resp_get_dfs_referral (ior_output_data ioctl_resp)))))"

definition ipc_disconnect :: "peer \<Rightarrow> tree_id \<Rightarrow> unit act" where
  "ipc_disconnect N tid = abind (execute N TreeDisconnectB (Some tid)) (expect_success TreeDisconnect)"

definition get_dfs_referral :: "peer \<Rightarrow> rstring \<Rightarrow> resp_get_dfs_referral act" where
  "get_dfs_referral N path =
     abind (tree_connect_ipc N) (\<lambda>tid.
     abind (attempt (send_dfs_ioctl N tid path)) (\<lambda>result.
     abind (attempt (ipc_disconnect N tid)) (\<lambda>_.
     alift result)))"

section \<open>The resolver\<close>

record resolved_path =
  rp_server :: rstring
  rp_port :: u16
  rp_share :: rstring
  rp_remaining_path :: rstring

record dfs_target =
  dt_server :: rstring
  dt_share :: rstring
  dt_remaining_prefix :: rstring

record cached_referral =
  cf_dfs_path_prefix :: rstring
  cf_targets :: "dfs_target list"
  cf_expires_at :: instant

text \<open>The \<open>HashMap\<close> as its entries in the order in which \<open>values()\<close> happens to yield them.\<close>

record dfs_resolver =
  dr_cache :: "(rstring \<times> cached_referral) list"
  dr_cache_hits :: u64
  dr_referrals_resolved :: u64

definition dfs_resolver_new :: dfs_resolver where
  "dfs_resolver_new = \<lparr>dr_cache = [], dr_cache_hits = 0, dr_referrals_resolved = 0\<rparr>"

definition counters :: "dfs_resolver \<Rightarrow> u64 \<times> u64" where
  "counters r = (dr_cache_hits r, dr_referrals_resolved r)"

definition cache_entries :: "instant \<Rightarrow> dfs_resolver \<Rightarrow> (rstring \<times> usize \<times> duration option) list" where
  "cache_entries now r =
     map (\<lambda>(_, e). (cf_dfs_path_prefix e, length (cf_targets e),
                    if cf_expires_at e > now then Some (cf_expires_at e - now) else None)) (dr_cache r)"

text \<open>\<open>s.to_lowercase().replace('/', "\")\<close>, \<open>starts_with\<close>, \<open>trim_start_matches\<close> and \<open>splitn\<close>.\<close>

definition normalize_path :: "(rstring \<Rightarrow> rstring) \<Rightarrow> rstring \<Rightarrow> rstring" where
  "normalize_path lower s = map (\<lambda>c. if c = SLASH then BACKSLASH else c) (lower s)"

definition starts_with :: "rstring \<Rightarrow> rstring \<Rightarrow> bool" where
  "starts_with s p \<longleftrightarrow> take (length p) s = p"

definition trim_start_backslashes :: "rstring \<Rightarrow> rstring" where
  "trim_start_backslashes s = dropWhile (\<lambda>c. c = BACKSLASH) s"

fun splitn :: "nat \<Rightarrow> rchar \<Rightarrow> rstring \<Rightarrow> rstring list" where
  "splitn 0 sep s = []"
| "splitn (Suc 0) sep s = [s]"
| "splitn (Suc (Suc n)) sep s =
     (case dropWhile (\<lambda>c. c \<noteq> sep) s of
        [] \<Rightarrow> [s]
      | _ # rest \<Rightarrow> takeWhile (\<lambda>c. c \<noteq> sep) s # splitn (Suc n) sep rest)"

definition parse_unc_target :: "rstring \<Rightarrow> dfs_target option" where
  "parse_unc_target network_address =
     (case splitn 3 BACKSLASH (trim_start_backslashes network_address) of
        server # share # parts \<Rightarrow>
          let remaining_prefix = (case parts of [] \<Rightarrow> [] | p # _ \<Rightarrow> p) in
          if server = [] \<or> share = [] then None
          else Some \<lparr>dt_server = server, dt_share = share, dt_remaining_prefix = remaining_prefix\<rparr>
      | _ \<Rightarrow> None)"

text \<open>
  One round of the search for the longest live prefix. The source compares lengths in bytes; both
  prefixes are prefixes of the same string, so lengths in characters compare alike.
\<close>

definition better_match :: "instant \<Rightarrow> rstring \<Rightarrow> cached_referral \<Rightarrow> cached_referral option \<Rightarrow> cached_referral option" where
  "better_match now normalized entry best =
     (if starts_with normalized (cf_dfs_path_prefix entry) \<and> cf_expires_at entry > now
         \<and> (case best of None \<Rightarrow> True | Some b \<Rightarrow> length (cf_dfs_path_prefix entry) > length (cf_dfs_path_prefix b))
      then Some entry else best)"

definition best_match :: "instant \<Rightarrow> rstring \<Rightarrow> (rstring \<times> cached_referral) list \<Rightarrow> cached_referral option" where
  "best_match now normalized cache = fold (\<lambda>(_, entry). better_match now normalized entry) cache None"

definition resolve_target :: "rstring \<Rightarrow> dfs_target \<Rightarrow> resolved_path" where
  "resolve_target rest target =
     \<lparr>rp_server = dt_server target, rp_port = 445, rp_share = dt_share target,
      rp_remaining_path =
        (if dt_remaining_prefix target = [] then rest
         else if rest = [] then dt_remaining_prefix target
         else dt_remaining_prefix target @ [BACKSLASH] @ rest)\<rparr>"

definition resolve_from_cache ::
    "(rstring \<Rightarrow> rstring) \<Rightarrow> instant \<Rightarrow> dfs_resolver \<Rightarrow> rstring \<Rightarrow> resolved_path list option" where
  "resolve_from_cache lower now r unc_path =
     (let normalized = normalize_path lower unc_path in
      case best_match now normalized (dr_cache r) of
        None \<Rightarrow> None
      | Some entry \<Rightarrow>
          let rest = trim_start_backslashes (drop (length (cf_dfs_path_prefix entry)) normalized)
          in Some (map (resolve_target rest) (cf_targets entry)))"

text \<open>The key: the path of the first entry in UNC form, with two leading backslashes.\<close>

definition cache_key :: "(rstring \<Rightarrow> rstring) \<Rightarrow> rstring \<Rightarrow> rstring" where
  "cache_key lower dfs_path =
     (let p = normalize_path lower dfs_path in
      if \<not> starts_with p [BACKSLASH, BACKSLASH] \<and> starts_with p [BACKSLASH] then [BACKSLASH, BACKSLASH] @ tl p else p)"

definition cache_referral :: "(rstring \<Rightarrow> rstring) \<Rightarrow> instant \<Rightarrow> resp_get_dfs_referral \<Rightarrow> dfs_resolver \<Rightarrow> dfs_resolver" where
  "cache_referral lower now resp r =
     (case drr_entries resp of
        [] \<Rightarrow> r
      | first # _ \<Rightarrow>
          let dfs_path_prefix = cache_key lower (dre_dfs_path first);
              targets = List.map_filter (\<lambda>e. parse_unc_target (dre_network_address e)) (drr_entries resp)
          in if targets = [] then r
             else let ttl = max (dre_ttl first) 1
                  in r\<lparr>dr_cache := AList.update dfs_path_prefix
                         \<lparr>cf_dfs_path_prefix = dfs_path_prefix, cf_targets = targets,
                          cf_expires_at = now + unat ttl * SECOND\<rparr> (dr_cache r)\<rparr>)"

text \<open>\<open>now\<close>, \<open>now'\<close> and \<open>now''\<close>: the first look at the cache, the insertion, the second look.\<close>

definition dfs_resolve ::
    "(rstring \<Rightarrow> rstring) \<Rightarrow> peer \<Rightarrow> instant \<Rightarrow> instant \<Rightarrow> instant \<Rightarrow> rstring \<Rightarrow> dfs_resolver \<Rightarrow> history \<Rightarrow>
     (resolved_path list res \<times> dfs_resolver) \<times> history" where
  "dfs_resolve lower N now now' now'' unc_path r h =
     (case resolve_from_cache lower now r unc_path of
        Some resolved \<Rightarrow> ((Ok resolved, r\<lparr>dr_cache_hits := dr_cache_hits r + 1\<rparr>), h)
      | None \<Rightarrow>
          let referral_path = (if starts_with unc_path [BACKSLASH, BACKSLASH] then tl unc_path else unc_path)
          in case get_dfs_referral N referral_path h of
               (Ok resp, h') \<Rightarrow>
                 let r' = cache_referral lower now' resp (r\<lparr>dr_referrals_resolved := dr_referrals_resolved r + 1\<rparr>)
                 in ((case resolve_from_cache lower now'' r' unc_path of
                        Some resolved \<Rightarrow> Ok resolved
                      | None \<Rightarrow> Err (InvalidData (Malformed ''DFS referral response did not match the requested path'' [])), r'), h')
             | (Err e, h') \<Rightarrow> ((Err e, r), h')
             | (Panic, h') \<Rightarrow> ((Panic, r), h'))"

section \<open>Messages: no panic, round trip, and the layout of a server\<close>

lemma safe_read_null_terminated_loop [safe_intros]: "safe p (read_null_terminated_loop us)"
proof -
  have "case read_null_terminated_loop us c of
           Ok (x, c') \<Rightarrow> rc_data c' = rc_data c \<and> rc_pos c \<le> rc_pos c' \<and> rc_wf c'
         | Err e \<Rightarrow> error_kind_of e = InvalidDataK
         | Panic \<Rightarrow> False" if "rc_wf c" for c
    using that
  proof (induction us c rule: read_null_terminated_loop.induct)
    case (1 us c)
    have s: "safe 0 read_u16_le" by (rule safe_intros)
    show ?case
    proof (cases "read_u16_le c")
      case (Ok r)
      obtain cu c' where r: "r = (cu, c')" by fastforce
      from safe_OkD [OF s 1(2)] Ok r have c': "rc_data c' = rc_data c" "rc_pos c \<le> rc_pos c'" "rc_wf c'" by auto
      show ?thesis
      proof (cases "cu = 0")
        case True
        with Ok r c' show ?thesis by (simp add: read_null_terminated_loop.simps [of us c])
      next
        case False
        from 1(1) [OF Ok r [symmetric] False c'(3)] c' Ok r False show ?thesis
          by (auto simp: read_null_terminated_loop.simps [of us c] split: result.splits)
      qed
    qed (use safe_ErrD [OF s 1(2)] safe_no_panic [OF s 1(2)] in \<open>simp_all add: read_null_terminated_loop.simps [of us c]\<close>)
  qed
  then show ?thesis by (simp add: safe_def)
qed

lemma safe_from_utf16_or [safe_intros]: "safe p (lift (from_utf16_or msg us))"
  by (rule safe_lift) (auto simp: from_utf16_or_def from_utf16_def split: option.splits)

lemma from_utf16_or_no_panic [simp]: "from_utf16_or msg us \<noteq> Panic"
  by (simp add: from_utf16_or_def from_utf16_def split: option.splits)

text \<open>A string without NUL, which is what a NUL-terminated field can carry.\<close>

definition plain_str :: "rstring \<Rightarrow> bool" where
  "plain_str s \<longleftrightarrow> valid_str s \<and> 0 \<notin> set s"

lemma encode_utf16_char_nonzero:
  assumes "is_char c" "c \<noteq> 0" "u \<in> set (encode_utf16_char c)"
  shows "u \<noteq> 0"
proof -
  have "word_of_nat n \<noteq> (0 :: u16)" if "0 < n" "n < 65536" for n
    using that by (metis less_numeral_extra(3) unat_0 unat_of_nat_u16)
  moreover have "0xD800 + (c - 0x10000) div 0x400 < 65536" using assms(1) by (auto simp: is_char_def)
  moreover have "0xDC00 + (c - 0x10000) mod 0x400 < 65536"
  proof -
    have "(c - 0x10000) mod 0x400 < 0x400" by simp
    then show ?thesis by linarith
  qed
  ultimately show ?thesis using assms(2,3) by (auto simp: encode_utf16_char_def split: if_splits simp del: of_nat_add)
qed

lemma plain_str_units: "plain_str s \<Longrightarrow> \<forall>u\<in>set (encode_utf16 s). u \<noteq> 0"
  unfolding plain_str_def valid_str_def
  by (induction s) (auto simp: encode_utf16_def dest: encode_utf16_char_nonzero)

lemma from_utf16_or_plain: "plain_str s \<Longrightarrow> from_utf16_or msg (encode_utf16 s) = Ok s"
  by (simp add: from_utf16_or_def from_utf16_def plain_str_def decode_encode_utf16)

abbreviation nul_terminated :: "rstring \<Rightarrow> bytes" where
  "nul_terminated s \<equiv> utf16_le_bytes s @ to_le_bytes (0 :: u16)"

lemma read_null_terminated_loop_cur:
  assumes "\<forall>u\<in>set us. u \<noteq> 0"
  shows "read_null_terminated_loop acc (cur pre (concat (map to_le_bytes us) @ to_le_bytes (0 :: u16) @ post)) =
     Ok (acc @ us, cur (pre @ concat (map to_le_bytes us) @ to_le_bytes (0 :: u16)) post)"
  using assms
proof (induction us arbitrary: acc pre)
  case Nil
  then show ?case by (simp add: read_null_terminated_loop.simps [of acc] rd_simps)
next
  case (Cons u us)
  then show ?case by (simp add: read_null_terminated_loop.simps [of acc] rd_simps)
qed

lemma read_null_terminated_utf16_cur [rd_simps]:
  assumes "plain_str s"
  shows "read_null_terminated_utf16 (cur pre (utf16_le_bytes s @ to_le_bytes (0 :: u16) @ post)) =
     Ok (s, cur (pre @ utf16_le_bytes s @ to_le_bytes (0 :: u16)) post)"
  using read_null_terminated_loop_cur [OF plain_str_units [OF assms], of "[]" pre post] from_utf16_or_plain [OF assms]
  by (simp add: read_null_terminated_utf16_def utf16_le_bytes_def)

definition wf_req_get_dfs_referral :: "req_get_dfs_referral \<Rightarrow> bool" where
  "wf_req_get_dfs_referral r \<longleftrightarrow> plain_str (drq_request_file_name r)"

interpretation req_get_dfs_referral: exact_codec pack_req_get_dfs_referral unpack_req_get_dfs_referral wf_req_get_dfs_referral
  by unfold_locales
    (auto simp: pack_req_get_dfs_referral_def unpack_req_get_dfs_referral_def wf_req_get_dfs_referral_def
      wr_simps rd_simps
      intro!: safe_intros, simp add: read_null_terminated_utf16_def, intro safe_intros)

text \<open>No response makes the parser panic: every offset is checked before it is followed.\<close>

lemma read_null_terminated_at_no_panic: "read_null_terminated_at us buf pos \<noteq> Panic"
proof (induction us buf pos rule: read_null_terminated_at.induct)
  case (1 us buf pos)
  show ?case
  proof (cases "pos + 2 > length buf")
    case True
    then show ?thesis by (simp add: read_null_terminated_at.simps [of us])
  next
    case False
    then obtain cu :: u16 where cu: "(le_at 2 buf pos :: u16 res) = Ok cu" using le_at_cases [of pos 2 buf] by force
    with 1 [OF False cu] False show ?thesis by (auto simp: read_null_terminated_at.simps [of us])
  qed
qed

lemma read_offset_string_no_panic [simp]: "read_offset_string buf start off \<noteq> Panic"
  by (auto simp: read_offset_string_def read_null_terminated_utf16_at_def result_bind_eq_Panic read_null_terminated_at_no_panic)

lemma parse_referral_tail_no_panic: "pos + 10 \<le> length buf \<Longrightarrow> parse_referral_tail v buf start st fl pos \<noteq> Panic"
  by (auto simp: parse_referral_tail_def result_bind_eq_Panic le_at_no_panic)

lemma parse_referral_entry_no_panic: "parse_referral_entry v buf start \<noteq> Panic"
  by (auto simp: parse_referral_entry_def Let_def ensure_remaining_def result_bind_eq_Panic le_at_no_panic
      parse_referral_tail_no_panic)

lemma parse_referrals_no_panic: "parse_referrals n buf off es \<noteq> Panic"
  by (induction n arbitrary: off es)
    (auto simp: result_bind_eq_Panic le_at_no_panic parse_referral_entry_no_panic Let_def)

lemma read_offset_string_kind: "read_offset_string buf start off = Err e \<Longrightarrow> error_kind_of e = InvalidDataK"
proof -
  have "read_null_terminated_at us buf pos = Err e \<Longrightarrow> error_kind_of e = InvalidDataK" for us pos
  proof (induction us buf pos rule: read_null_terminated_at.induct)
    case (1 us buf pos)
    show ?case
    proof (cases "pos + 2 > length buf")
      case True
      with 1(2) show ?thesis by (auto simp: read_null_terminated_at.simps [of us])
    next
      case False
      then obtain cu :: u16 where cu: "(le_at 2 buf pos :: u16 res) = Ok cu" using le_at_cases [of pos 2 buf] by force
      with 1(1) [OF False cu] 1(2) False show ?thesis by (auto simp: read_null_terminated_at.simps [of us] split: if_splits)
    qed
  qed
  moreover assume "read_offset_string buf start off = Err e"
  ultimately show ?thesis
    by (auto simp: read_offset_string_def read_null_terminated_utf16_at_def result_bind_def from_utf16_or_def from_utf16_def
        split: result.splits option.splits)
qed

lemma result_bind_eq_Err: "result_bind r f = Err e \<longleftrightarrow> r = Err e \<or> (\<exists>x. r = Ok x \<and> f x = Err e)"
  by (cases r) simp_all

lemma le_at_not_Err: "le_at n buf pos \<noteq> Err e"
  by (simp add: le_at_def slice_def)

lemma parse_referrals_kind: "parse_referrals n buf off es = Err e \<Longrightarrow> error_kind_of e = InvalidDataK"
proof (induction n arbitrary: off es)
  case (Suc n)
  then show ?case
    by (auto simp: result_bind_eq_Err le_at_not_Err Let_def parse_referral_entry_def parse_referral_tail_def
        ensure_remaining_def dest: read_offset_string_kind split: if_splits)
qed simp

lemma safe_unpack_resp_get_dfs_referral: "safe p unpack_resp_get_dfs_referral"
proof -
  have "safe p remaining" for p
    by (auto simp: safe_def remaining_def usub_def rc_wf_def)
  then show ?thesis
    unfolding unpack_resp_get_dfs_referral_def
    by (intro safe_intros safe_lift parse_referrals_no_panic) (simp_all add: parse_referrals_kind)
qed

text \<open>
  What a server sends (MS-DFSC 2.2.4, 2.2.5): the fixed parts of the entries one after the other, 34
  bytes each, then their strings; an entry's offsets count from the start of that entry.
\<close>

definition referral_fixed :: "dfs_referral_entry \<Rightarrow> nat \<Rightarrow> bytes" where
  "referral_fixed e off =
     (let alt = off + length (nul_terminated (dre_dfs_path e));
          net = alt + length (nul_terminated (dre_dfs_alternate_path e))
      in to_le_bytes (dre_version e) @ to_le_bytes (34 :: u16) @ to_le_bytes (dre_server_type e)
         @ to_le_bytes (dre_referral_entry_flags e) @ to_le_bytes (dre_ttl e) @ to_le_bytes (word_of_nat off :: u16)
         @ to_le_bytes (word_of_nat alt :: u16) @ to_le_bytes (word_of_nat net :: u16) @ replicate 16 0)"

definition referral_strings :: "dfs_referral_entry \<Rightarrow> bytes" where
  "referral_strings e =
     nul_terminated (dre_dfs_path e) @ nul_terminated (dre_dfs_alternate_path e) @ nul_terminated (dre_network_address e)"

fun referral_fixed_parts :: "nat \<Rightarrow> dfs_referral_entry list \<Rightarrow> bytes" where
  "referral_fixed_parts gap [] = []"
| "referral_fixed_parts gap (e # es) =
     referral_fixed e (34 * length (e # es) + gap) @ referral_fixed_parts (gap + length (referral_strings e)) es"

definition referral_message :: "resp_get_dfs_referral \<Rightarrow> bytes" where
  "referral_message r =
     to_le_bytes (drr_path_consumed r) @ to_le_bytes (word_of_nat (length (drr_entries r)) :: u16)
     @ to_le_bytes (drr_header_flags r) @ referral_fixed_parts 0 (drr_entries r)
     @ concat (map referral_strings (drr_entries r))"

definition wf_referral_entry :: "dfs_referral_entry \<Rightarrow> bool" where
  "wf_referral_entry e \<longleftrightarrow>
     (dre_version e = 3 \<or> dre_version e = 4) \<and> plain_str (dre_dfs_path e) \<and> plain_str (dre_dfs_alternate_path e)
     \<and> plain_str (dre_network_address e)"

definition wf_referral :: "resp_get_dfs_referral \<Rightarrow> bool" where
  "wf_referral r \<longleftrightarrow>
     list_all wf_referral_entry (drr_entries r) \<and> length (referral_message r) < 65536"

lemma length_referral_fixed [simp]: "length (referral_fixed e off) = 34"
  by (simp add: referral_fixed_def Let_def)

lemma length_referral_fixed_parts [simp]: "length (referral_fixed_parts gap es) = 34 * length es"
  by (induction es arbitrary: gap) simp_all

lemma le_at_drop_bytes:
  assumes "drop pos buf = bs @ post" "length bs = n" "0 < n"
  shows "le_at n buf pos = Ok (from_le_bytes bs) \<and> pos + n \<le> length buf"
proof -
  from assms(1,2) have "length buf - pos = n + length post" by (metis length_append length_drop)
  with assms show ?thesis by (auto simp: le_at_def slice_def)
qed

lemma le_at_drop:
  "drop pos buf = to_le_bytes (w :: u16) @ post \<Longrightarrow> (le_at 2 buf pos :: u16 res) = Ok w \<and> pos + 2 \<le> length buf"
  "drop pos buf = to_le_bytes (x :: u32) @ post \<Longrightarrow> (le_at 4 buf pos :: u32 res) = Ok x \<and> pos + 4 \<le> length buf"
  using le_at_drop_bytes [of pos buf "to_le_bytes w" post 2, where ?'a = 16 and ?'b = error]
    le_at_drop_bytes [of pos buf "to_le_bytes x" post 4, where ?'a = 32 and ?'b = error] by auto

lemma drop_step: "drop pos buf = bs @ post \<Longrightarrow> drop (pos + length bs) buf = post"
  by (metis add.commute append_eq_conv_conj drop_drop)

lemma read_null_terminated_at_cat:
  assumes "\<forall>u\<in>set us. u \<noteq> 0" and "drop pos buf = concat (map to_le_bytes us) @ to_le_bytes (0 :: u16) @ post"
  shows "read_null_terminated_at acc buf pos = Ok (acc @ us)"
  using assms
proof (induction us arbitrary: acc pos)
  case Nil
  then have "drop pos buf = to_le_bytes (0 :: u16) @ post" by simp
  from le_at_drop(1) [OF this] show ?case by (simp add: read_null_terminated_at.simps [of acc])
next
  case (Cons u us)
  then have "drop pos buf = to_le_bytes u @ concat (map to_le_bytes us) @ to_le_bytes (0 :: u16) @ post" by simp
  from le_at_drop(1) [OF this] drop_step [OF this] Cons.IH [of "pos + 2" "acc @ [u]"] Cons.prems(1) show ?case
    by (simp add: read_null_terminated_at.simps [of acc])
qed

lemma read_offset_string_cat:
  assumes "plain_str s" and "drop (start + unat off) buf = nul_terminated s @ post"
  shows "read_offset_string buf start off = Ok s"
  using read_null_terminated_at_cat [OF plain_str_units [OF assms(1)], of "start + unat off" buf post "[]"] assms
    from_utf16_or_plain [OF assms(1)]
  by (simp add: read_offset_string_def read_null_terminated_utf16_at_def utf16_le_bytes_def)

lemma drop_at: "drop start buf = xs \<Longrightarrow> drop (start + n) buf = drop n xs"
  by (metis add.commute drop_drop)

lemma parse_referral_entry_cat:
  assumes "wf_referral_entry e" and "drop start buf = referral_fixed e off @ rest"
    and "drop (start + off) buf = referral_strings e @ post" and "off + length (referral_strings e) < 65536"
  shows "parse_referral_entry (dre_version e) buf start = Ok e"
proof -
  define alt where "alt = off + length (nul_terminated (dre_dfs_path e))"
  define net where "net = alt + length (nul_terminated (dre_dfs_alternate_path e))"
  have small: "off < 65536" "alt < 65536" "net < 65536"
    using assms(4) by (simp_all add: alt_def net_def referral_strings_def)
  note at = drop_at [OF assms(2), unfolded referral_fixed_def Let_def, folded alt_def, folded net_def]
  have f: "(le_at 2 buf (start + 4) :: u16 res) = Ok (dre_server_type e)"
    "(le_at 2 buf (start + 6) :: u16 res) = Ok (dre_referral_entry_flags e)"
    "(le_at 4 buf (start + 8) :: u32 res) = Ok (dre_ttl e)"
    "(le_at 2 buf (start + 12) :: u16 res) = Ok (word_of_nat off)"
    "(le_at 2 buf (start + 14) :: u16 res) = Ok (word_of_nat alt)"
    "(le_at 2 buf (start + 16) :: u16 res) = Ok (word_of_nat net)" and l: "start + 18 \<le> length buf"
    using le_at_drop(1) [OF at [of 4, simplified]] le_at_drop(1) [OF at [of 6, simplified]] le_at_drop(2) [OF at [of 8, simplified]]
      le_at_drop(1) [OF at [of 12, simplified]] le_at_drop(1) [OF at [of 14, simplified]] le_at_drop(1) [OF at [of 16, simplified]]
    by simp_all
  have s0: "drop (start + off) buf = nul_terminated (dre_dfs_path e) @ nul_terminated (dre_dfs_alternate_path e) @
      nul_terminated (dre_network_address e) @ post"
    using assms(3) by (simp add: referral_strings_def)
  have s1: "drop (start + alt) buf = nul_terminated (dre_dfs_alternate_path e) @ nul_terminated (dre_network_address e) @ post"
    using drop_step [of "start + off" buf "nul_terminated (dre_dfs_path e)"] s0 by (simp add: alt_def add.assoc)
  have s2: "drop (start + net) buf = nul_terminated (dre_network_address e) @ post"
    using drop_step [of "start + alt" buf "nul_terminated (dre_dfs_alternate_path e)"] s1 by (simp add: net_def add.assoc)
  have "read_offset_string buf start (word_of_nat off) = Ok (dre_dfs_path e)"
    "read_offset_string buf start (word_of_nat alt) = Ok (dre_dfs_alternate_path e)"
    "read_offset_string buf start (word_of_nat net) = Ok (dre_network_address e)"
    using assms(1) s0 s1 s2 small by (auto simp: wf_referral_entry_def intro!: read_offset_string_cat)
  then show ?thesis
    using assms(1) f f [unfolded add.commute [of start]] l
    by (auto simp: parse_referral_entry_def Let_def ensure_remaining_def parse_referral_tail_def wf_referral_entry_def)
qed

lemma parse_referrals_cat:
  assumes "list_all wf_referral_entry es"
    and "34 * length es + length mid + length (concat (map referral_strings es)) < 65536"
  shows "parse_referrals (length es) (pre @ referral_fixed_parts (length mid) es @ mid @ concat (map referral_strings es))
      (length pre) acc = Ok (acc @ es)"
  using assms
proof (induction es arbitrary: pre mid acc)
  case (Cons e es)
  define fixed where "fixed = referral_fixed e (34 * length (e # es) + length mid)"
  define rest where "rest = referral_fixed_parts (length mid + length (referral_strings e)) es"
  define buf where "buf = pre @ fixed @ rest @ mid @ referral_strings e @ concat (map referral_strings es)"
  have at: "drop (length pre + n) buf = drop n (fixed @ rest @ mid @ referral_strings e @ concat (map referral_strings es))" for n
    by (rule drop_at) (simp add: buf_def)
  have "drop (length pre) buf = to_le_bytes (dre_version e) @ to_le_bytes (34 :: u16) @ drop 4 (drop (length pre) buf)"
    using at [of 0] by (simp add: fixed_def referral_fixed_def Let_def)
  note h = le_at_drop(1) [OF this] le_at_drop(1) [OF drop_step [OF this, simplified]]
  have "parse_referral_entry (dre_version e) buf (length pre) = Ok e"
  proof (rule parse_referral_entry_cat)
    show "drop (length pre) buf = referral_fixed e (34 * length (e # es) + length mid) @ rest @ mid @ referral_strings e
        @ concat (map referral_strings es)" using at [of 0] by (simp add: fixed_def)
    show "drop (length pre + (34 * length (e # es) + length mid)) buf = referral_strings e @ concat (map referral_strings es)"
      unfolding at by (simp add: fixed_def rest_def)
  qed (use Cons.prems in simp_all)
  moreover have "parse_referrals (length es) buf (length pre + 34) (acc @ [e]) = Ok (acc @ e # es)"
    using Cons.IH [of "mid @ referral_strings e" "pre @ fixed" "acc @ [e]"] Cons.prems
    by (simp add: buf_def rest_def fixed_def)
  moreover have "length pre + 34 \<le> length buf" by (simp add: buf_def fixed_def)
  ultimately show ?case
    using h by (simp add: Let_def flip: fixed_def rest_def buf_def) (simp add: buf_def fixed_def rest_def)
qed simp

lemma referral_parses:
  assumes "wf_referral r"
  shows "run_reader unpack_resp_get_dfs_referral (referral_message r) = Ok r"
proof -
  let ?es = "drr_entries r" and ?body = "referral_fixed_parts 0 (drr_entries r) @ concat (map referral_strings (drr_entries r))"
  have small: "34 * length ?es + length (concat (map referral_strings ?es)) < 65536"
    using assms by (simp add: wf_referral_def referral_message_def)
  then have n: "unat (word_of_nat (length ?es) :: u16) = length ?es" by simp
  have "parse_referrals (length ?es) ?body 0 [] = Ok ?es"
    using parse_referrals_cat [of ?es "[]" "[]" "[]"] assms small by (simp add: wf_referral_def)
  then show ?thesis
    using read_bytes_cur [of ?body "length ?body" _ "[]"] n
    by (simp add: run_reader_def read_cursor_new_cur referral_message_def unpack_resp_get_dfs_referral_def rd_simps remaining_cur)
qed

section \<open>The cache\<close>

definition live_match :: "instant \<Rightarrow> rstring \<Rightarrow> cached_referral \<Rightarrow> bool" where
  "live_match now path e \<longleftrightarrow> starts_with path (cf_dfs_path_prefix e) \<and> cf_expires_at e > now"

text \<open>The map has one entry for each key, and the key is the prefix of its entry.\<close>

definition wf_resolver :: "dfs_resolver \<Rightarrow> bool" where
  "wf_resolver r \<longleftrightarrow> distinct (map fst (dr_cache r)) \<and> (\<forall>(k, e)\<in>set (dr_cache r). k = cf_dfs_path_prefix e \<and> cf_targets e \<noteq> [])"

lemma wf_resolver_new: "wf_resolver dfs_resolver_new"
  by (simp add: wf_resolver_def dfs_resolver_new_def)

lemma cache_referral_wf:
  assumes "wf_resolver r"
  shows "wf_resolver (cache_referral lower now resp r)"
proof -
  have u: "(k, e) \<in> set (AList.update p v xs) \<Longrightarrow> distinct (map fst xs) \<Longrightarrow> (k, e) = (p, v) \<or> (k, e) \<in> set xs" for k e p v and xs :: "(rstring \<times> cached_referral) list"
    by (induction xs) (auto split: if_splits)
  with assms show ?thesis
    by (auto simp: wf_resolver_def cache_referral_def Let_def distinct_update split: list.split dest!: u)
qed

lemma dfs_resolve_wf: "wf_resolver r \<Longrightarrow> dfs_resolve lower N now now' now'' path r h = ((res, r'), h') \<Longrightarrow> wf_resolver r'"
proof -
  have *: "wf_resolver (r\<lparr>dr_cache_hits := a\<rparr>) = wf_resolver r" "wf_resolver (r\<lparr>dr_referrals_resolved := a\<rparr>) = wf_resolver r" for r a
    by (simp_all add: wf_resolver_def)
  assume "wf_resolver r" "dfs_resolve lower N now now' now'' path r h = ((res, r'), h')"
  then show ?thesis
    by (auto simp: dfs_resolve_def Let_def * cache_referral_wf split: option.splits prod.splits result.splits)
qed

lemma fold_better_match:
  "fold (\<lambda>(_, e). better_match now path e) cache best = res \<Longrightarrow>
   (case res of
      None \<Rightarrow> best = None \<and> (\<forall>(k, e)\<in>set cache. \<not> live_match now path e)
    | Some b \<Rightarrow> (best = Some b \<or> (\<exists>k. (k, b) \<in> set cache) \<and> live_match now path b)
               \<and> (\<forall>(k, e)\<in>set cache. live_match now path e \<longrightarrow> length (cf_dfs_path_prefix e) \<le> length (cf_dfs_path_prefix b))
               \<and> (\<forall>b0. best = Some b0 \<longrightarrow> length (cf_dfs_path_prefix b0) \<le> length (cf_dfs_path_prefix b)))"
proof (induction cache arbitrary: best)
  case Nil
  then show ?case by (auto split: option.split)
next
  case (Cons ke cache)
  obtain k e where ke: "ke = (k, e)" by fastforce
  from Cons.IH [of "better_match now path e best"] Cons.prems show ?case
    by (auto simp: ke better_match_def live_match_def split: option.splits if_splits)
qed

lemma best_match_None: "best_match now path cache = None \<longleftrightarrow> (\<forall>(k, e)\<in>set cache. \<not> live_match now path e)"
proof
  assume "best_match now path cache = None"
  with fold_better_match [of now path cache None None] show "\<forall>(k, e)\<in>set cache. \<not> live_match now path e"
    by (simp add: best_match_def)
next
  assume none: "\<forall>(k, e)\<in>set cache. \<not> live_match now path e"
  show "best_match now path cache = None"
  proof (cases "best_match now path cache")
    case (Some b)
    with fold_better_match [of now path cache None "Some b"] none show ?thesis by (auto simp: best_match_def)
  qed
qed

text \<open>Two prefixes of one path that are equally long are equal, so the best match is unique.\<close>

lemma best_match_Some:
  assumes "wf_resolver r"
  shows "best_match now path (dr_cache r) = Some b \<longleftrightarrow>
     (cf_dfs_path_prefix b, b) \<in> set (dr_cache r) \<and> live_match now path b \<and>
     (\<forall>(k, e)\<in>set (dr_cache r). live_match now path e \<longrightarrow> length k \<le> length (cf_dfs_path_prefix b))"
proof -
  have best: "(cf_dfs_path_prefix b, b) \<in> set (dr_cache r) \<and> live_match now path b \<and>
     (\<forall>(k, e)\<in>set (dr_cache r). live_match now path e \<longrightarrow> length k \<le> length (cf_dfs_path_prefix b))"
    if "best_match now path (dr_cache r) = Some b" for b
    using fold_better_match [of now path "dr_cache r" None "Some b"] that assms
    by (auto simp: best_match_def wf_resolver_def)
  have "best_match now path (dr_cache r) = Some b"
    if b: "(cf_dfs_path_prefix b, b) \<in> set (dr_cache r)" "live_match now path b"
      "\<forall>(k, e)\<in>set (dr_cache r). live_match now path e \<longrightarrow> length k \<le> length (cf_dfs_path_prefix b)"
  proof (cases "best_match now path (dr_cache r)")
    case None
    with b show ?thesis by (auto simp: best_match_None)
  next
    case (Some c)
    note c = best [OF Some, THEN conjunct1] best [OF Some, THEN conjunct2, THEN conjunct1]
      best [OF Some, THEN conjunct2, THEN conjunct2]
    have "length (cf_dfs_path_prefix b) \<le> length (cf_dfs_path_prefix c)"
      using bspec [OF c(3) b(1)] b(2) by simp
    moreover have "length (cf_dfs_path_prefix c) \<le> length (cf_dfs_path_prefix b)"
      using bspec [OF b(3) c(1)] c(2) by simp
    ultimately have "cf_dfs_path_prefix c = cf_dfs_path_prefix b"
      using b(2) c(2) by (simp add: live_match_def starts_with_def)
    then have "c = b"
      using assms b(1) c(1) eq_key_imp_eq_value [of "dr_cache r" "cf_dfs_path_prefix b" c b] by (simp add: wf_resolver_def)
    with Some show ?thesis by simp
  qed
  with best show ?thesis by blast
qed

text \<open>
  What a lookup means, for the cache as a map: the targets of the live entry with the longest prefix
  of the path, each followed by what the prefix leaves of the path.
\<close>

definition resolves_to :: "instant \<Rightarrow> (rstring \<rightharpoonup> cached_referral) \<Rightarrow> rstring \<Rightarrow> resolved_path list \<Rightarrow> bool" where
  "resolves_to now cache path rs \<longleftrightarrow>
     (\<exists>k e. cache k = Some e \<and> live_match now path e \<and>
        (\<forall>k' e'. cache k' = Some e' \<longrightarrow> live_match now path e' \<longrightarrow> length k' \<le> length k) \<and>
        rs = map (resolve_target (trim_start_backslashes (drop (length k) path))) (cf_targets e))"

lemma resolve_from_cache_iff:
  assumes "wf_resolver r"
  shows "resolve_from_cache lower now r path = Some rs \<longleftrightarrow> resolves_to now (map_of (dr_cache r)) (normalize_path lower path) rs"
proof -
  have m: "map_of (dr_cache r) k = Some e \<longleftrightarrow> (k, e) \<in> set (dr_cache r)" for k e
    using assms by (auto simp: wf_resolver_def map_of_eq_Some_iff)
  have k: "(k, e) \<in> set (dr_cache r) \<Longrightarrow> k = cf_dfs_path_prefix e" for k e
    using assms by (auto simp: wf_resolver_def)
  let ?p = "normalize_path lower path"
  let ?res = "\<lambda>e. map (resolve_target (trim_start_backslashes (drop (length (cf_dfs_path_prefix e)) ?p))) (cf_targets e)"
  have "resolve_from_cache lower now r path = Some rs \<longleftrightarrow> (\<exists>e. best_match now ?p (dr_cache r) = Some e \<and> rs = ?res e)"
    by (auto simp: resolve_from_cache_def Let_def split: option.split)
  also have "\<dots> \<longleftrightarrow> resolves_to now (map_of (dr_cache r)) ?p rs"
  proof
    assume "\<exists>e. best_match now ?p (dr_cache r) = Some e \<and> rs = ?res e"
    then obtain e where e: "best_match now ?p (dr_cache r) = Some e" and rs: "rs = ?res e" by blast
    from e rs show "resolves_to now (map_of (dr_cache r)) ?p rs"
      unfolding resolves_to_def m best_match_Some [OF assms]
      by (intro exI [of _ "cf_dfs_path_prefix e"] exI [of _ e]) (simp only: simp_thms, blast)
  next
    assume "resolves_to now (map_of (dr_cache r)) ?p rs"
    then obtain k e where ke: "(k, e) \<in> set (dr_cache r)" "live_match now ?p e"
      "\<forall>k' e'. (k', e') \<in> set (dr_cache r) \<longrightarrow> live_match now ?p e' \<longrightarrow> length k' \<le> length k"
      and rs: "rs = map (resolve_target (trim_start_backslashes (drop (length k) ?p))) (cf_targets e)"
      unfolding resolves_to_def m by blast
    with k [OF ke(1)] have "best_match now ?p (dr_cache r) = Some e"
      unfolding best_match_Some [OF assms] by (simp only: simp_thms) blast
    with rs k [OF ke(1)] show "\<exists>e. best_match now ?p (dr_cache r) = Some e \<and> rs = ?res e" by blast
  qed
  finally show ?thesis .
qed

text \<open>An answer stays the same until the entry it came from expires.\<close>

lemma resolves_until_expiry:
  assumes "wf_resolver r" and "best_match now path (dr_cache r) = Some e" and "now \<le> later" and "later < cf_expires_at e"
  shows "best_match later path (dr_cache r) = Some e"
  using assms by (auto simp: best_match_Some [OF assms(1)] live_match_def)

section \<open>The exchange and a resolution\<close>

abbreviation ipc_connect_op :: "peer \<Rightarrow> request" where
  "ipc_connect_op N \<equiv> \<lparr>rq_body = TreeConnectB \<lparr>tcq_flags = 0, tcq_path = ipc_path N\<rparr>, rq_tree = None, rq_charge = 1\<rparr>"

abbreviation dfs_ioctl_op :: "tree_id \<Rightarrow> rstring \<Rightarrow> request" where
  "dfs_ioctl_op tid path \<equiv> \<lparr>rq_body = IoctlB (dfs_ioctl_request path), rq_tree = Some tid, rq_charge = 1\<rparr>"

abbreviation ipc_disconnect_op :: "tree_id \<Rightarrow> request" where
  "ipc_disconnect_op tid \<equiv> \<lparr>rq_body = TreeDisconnectB, rq_tree = Some tid, rq_charge = 1\<rparr>"

lemma snd_tree_connect_ipc: "snd (tree_connect_ipc N h) = h @ [Sent (ipc_connect_op N)]"
  by (auto simp: tree_connect_ipc_def abind_def execute_apply expect_success_def parse_body_def alift_def
      split: result.split prod.split option.split)

lemma snd_send_dfs_ioctl: "snd (send_dfs_ioctl N tid path h) = h @ [Sent (dfs_ioctl_op tid path)]"
  by (auto simp: send_dfs_ioctl_def abind_def execute_apply expect_success_def parse_body_def alift_def split: result.split prod.split)

lemma snd_ipc_disconnect: "snd (ipc_disconnect N tid h) = h @ [Sent (ipc_disconnect_op tid)]"
  by (auto simp: ipc_disconnect_def abind_def execute_apply expect_success_def alift_def split: result.split prod.split)

text \<open>Once IPC$ is connected it is disconnected again, and the outcome is that of the IOCTL.\<close>

lemma get_dfs_referral_connected:
  assumes "tree_connect_ipc N h = (Ok tid, h1)" and "send_dfs_ioctl N tid path h1 = (r, h2)" and "r \<noteq> Panic"
    and "fst (ipc_disconnect N tid h2) \<noteq> Panic"
  shows "get_dfs_referral N path h =
     (r, h @ [Sent (ipc_connect_op N), Sent (dfs_ioctl_op tid path), Sent (ipc_disconnect_op tid)])"
proof -
  have h: "h1 = h @ [Sent (ipc_connect_op N)]" "h2 = h1 @ [Sent (dfs_ioctl_op tid path)]"
    using snd_tree_connect_ipc [of N h] snd_send_dfs_ioctl [of N tid path h1] assms(1,2) by simp_all
  obtain d h3 where d: "ipc_disconnect N tid h2 = (d, h3)" by fastforce
  then have "h3 = h2 @ [Sent (ipc_disconnect_op tid)]" using snd_ipc_disconnect [of N tid h2] by simp
  then show ?thesis
    using assms d h by (cases r; cases d) (simp_all add: get_dfs_referral_def abind_def attempt_def)
qed

text \<open>The resolvers a client can hold: it starts with an empty one and only ever calls \<open>resolve\<close>.\<close>

inductive dfs_reachable :: "(rstring \<Rightarrow> rstring) \<Rightarrow> dfs_resolver \<Rightarrow> bool" for lower where
  new: "dfs_reachable lower dfs_resolver_new"
| resolve: "dfs_reachable lower r \<Longrightarrow> dfs_resolve lower N now now' now'' path r h = ((res, r'), h') \<Longrightarrow> dfs_reachable lower r'"

lemma dfs_reachable_wf: "dfs_reachable lower r \<Longrightarrow> wf_resolver r"
  by (induction rule: dfs_reachable.induct) (blast intro: wf_resolver_new dfs_resolve_wf)+

text \<open>
  C19: A lookup in the referral cache is a longest-prefix match. Whatever was resolved before, against
  whatever servers and in whatever order the hash map is walked, the cache answers exactly when a
  live entry is a prefix of the normalized path, and with the targets of the longest such entry; and
  that answer does not change until the entry expires.
\<close>

theorem referral_lookup_is_longest_prefix:
  assumes "dfs_reachable lower r"
  shows "(resolve_from_cache lower now r path = Some rs \<longleftrightarrow>
            resolves_to now (map_of (dr_cache r)) (normalize_path lower path) rs) \<and>
         (resolve_from_cache lower now r path = None \<longleftrightarrow>
            (\<forall>k e. map_of (dr_cache r) k = Some e \<longrightarrow> \<not> live_match now (normalize_path lower path) e)) \<and>
         (resolve_from_cache lower now r path = Some rs \<and> now \<le> later \<and>
            (\<forall>k e. map_of (dr_cache r) k = Some e \<and> live_match now (normalize_path lower path) e \<longrightarrow> later < cf_expires_at e) \<longrightarrow>
            resolve_from_cache lower later r path = Some rs)"
proof -
  note wf = dfs_reachable_wf [OF assms]
  have m: "map_of (dr_cache r) k = Some e \<longleftrightarrow> (k, e) \<in> set (dr_cache r)" for k e
    using wf by (auto simp: wf_resolver_def map_of_eq_Some_iff)
  have none: "resolve_from_cache lower now r path = None \<longleftrightarrow>
      (\<forall>k e. (k, e) \<in> set (dr_cache r) \<longrightarrow> \<not> live_match now (normalize_path lower path) e)"
    using best_match_None [of now "normalize_path lower path" "dr_cache r"]
    by (auto simp: resolve_from_cache_def Let_def split: option.split)
  have "resolve_from_cache lower later r path = Some rs"
    if s: "resolve_from_cache lower now r path = Some rs" "now \<le> later"
      "\<forall>k e. (k, e) \<in> set (dr_cache r) \<and> live_match now (normalize_path lower path) e \<longrightarrow> later < cf_expires_at e"
  proof -
    from s(1) obtain e where e: "best_match now (normalize_path lower path) (dr_cache r) = Some e"
      by (auto simp: resolve_from_cache_def Let_def split: option.splits)
    with s(3) have "later < cf_expires_at e" unfolding best_match_Some [OF wf] by blast
    from resolves_until_expiry [OF wf e s(2) this] e s(1) show ?thesis by (simp add: resolve_from_cache_def Let_def)
  qed
  then show ?thesis unfolding m using resolve_from_cache_iff [OF wf] none by blast
qed

lemma resolve_single_live:
  assumes "wf_resolver r" and "(cf_dfs_path_prefix e, e) \<in> set (dr_cache r)" and "live_match now (normalize_path lower path) e"
    and "\<forall>(k, e')\<in>set (dr_cache r). live_match now (normalize_path lower path) e' \<longrightarrow> e' = e"
  shows "resolve_from_cache lower now r path =
     Some (map (resolve_target (trim_start_backslashes (drop (length (cf_dfs_path_prefix e)) (normalize_path lower path)))) (cf_targets e))"
proof -
  have "best_match now (normalize_path lower path) (dr_cache r) = Some e"
    unfolding best_match_Some [OF assms(1)] using assms by (auto simp: wf_resolver_def)
  then show ?thesis by (simp add: resolve_from_cache_def Let_def)
qed

lemma set_update_other:
  "distinct (map fst xs) \<Longrightarrow> set (AList.update k v xs) = insert (k, v) (set xs - {(k', v'). k' = k})"
  by (induction xs) (auto simp: image_iff)

text \<open>A referral that is cached answers for the path, if nothing live did before.\<close>

lemma cached_referral_resolves:
  assumes "wf_resolver r" and "resolve_from_cache lower now r path = None" and "now \<le> t"
    and "drr_entries resp = first # others"
    and "targets = List.map_filter (\<lambda>e. parse_unc_target (dre_network_address e)) (first # others)" and "targets \<noteq> []"
    and "normalize_path lower path = cache_key lower (dre_dfs_path first) @ rest"
    and "t < now' + unat (max (dre_ttl first) 1) * SECOND"
  shows "resolve_from_cache lower t (cache_referral lower now' resp r) path =
     Some (map (resolve_target (trim_start_backslashes rest)) targets)"
proof -
  define e where "e = \<lparr>cf_dfs_path_prefix = cache_key lower (dre_dfs_path first), cf_targets = targets,
     cf_expires_at = now' + unat (max (dre_ttl first) 1) * SECOND\<rparr>"
  have r': "cache_referral lower now' resp r = r\<lparr>dr_cache := AList.update (cf_dfs_path_prefix e) e (dr_cache r)\<rparr>"
    using assms(4-6) by (simp add: cache_referral_def Let_def e_def)
  have none: "\<forall>(k, e)\<in>set (dr_cache r). \<not> live_match now (normalize_path lower path) e"
    using assms(2) by (auto simp: resolve_from_cache_def Let_def best_match_None split: option.splits)
  have "set (dr_cache (cache_referral lower now' resp r)) = insert (cf_dfs_path_prefix e, e) (set (dr_cache r) - {(k', v'). k' = cf_dfs_path_prefix e})"
    using assms(1) by (simp add: r' wf_resolver_def set_update_other)
  moreover have "live_match t (normalize_path lower path) e"
    using assms(7,8) by (simp add: live_match_def starts_with_def e_def)
  ultimately have "resolve_from_cache lower t (cache_referral lower now' resp r) path =
      Some (map (resolve_target (trim_start_backslashes (drop (length (cf_dfs_path_prefix e)) (normalize_path lower path)))) (cf_targets e))"
    using none assms(3) by (intro resolve_single_live cache_referral_wf assms(1)) (auto simp: live_match_def)
  then show ?thesis using assms(7) by (simp add: e_def)
qed

text \<open>What a server that follows the protocol answers: the tree of IPC$, and the referral in the IOCTL.\<close>

definition serves_referral :: "peer \<Rightarrow> history \<Rightarrow> tree_id \<Rightarrow> rstring \<Rightarrow> resp_get_dfs_referral \<Rightarrow> bool" where
  "serves_referral N h tid path resp \<longleftrightarrow>
     (let h1 = h @ [Sent (ipc_connect_op N)]; h2 = h1 @ [Sent (dfs_ioctl_op tid path)] in
      (\<exists>fr tc. pe_answer N h (ipc_connect_op N) = Ok fr \<and> hdr_command (fr_header fr) = TreeConnect \<and>
         frame_status fr = STATUS_SUCCESS \<and> hdr_tree_id (fr_header fr) = Some tid \<and>
         run_reader unpack_tree_connect_response (fr_body fr) = Ok tc) \<and>
      (\<exists>fr ioctl_resp. pe_answer N h1 (dfs_ioctl_op tid path) = Ok fr \<and> frame_status fr = STATUS_SUCCESS \<and>
         run_reader unpack_ioctl_response (fr_body fr) = Ok ioctl_resp \<and> ior_output_data ioctl_resp = referral_message resp) \<and>
      pe_answer N h2 (ipc_disconnect_op tid) \<noteq> Panic)"

lemma served_referral:
  assumes "serves_referral N h tid path resp" and "wf_referral resp"
  shows "get_dfs_referral N path h =
     (Ok resp, h @ [Sent (ipc_connect_op N), Sent (dfs_ioctl_op tid path), Sent (ipc_disconnect_op tid)])"
proof (rule get_dfs_referral_connected)
  from assms(1) show "tree_connect_ipc N h = (Ok tid, h @ [Sent (ipc_connect_op N)])"
    by (auto simp: serves_referral_def Let_def tree_connect_ipc_def abind_def execute_apply expect_success_def parse_body_def)
  from assms show "send_dfs_ioctl N tid path (h @ [Sent (ipc_connect_op N)]) =
      (Ok resp, (h @ [Sent (ipc_connect_op N)]) @ [Sent (dfs_ioctl_op tid path)])"
    by (auto simp: serves_referral_def Let_def send_dfs_ioctl_def abind_def execute_apply expect_success_def parse_body_def
        referral_parses)
  from assms(1) show "fst (ipc_disconnect N tid ((h @ [Sent (ipc_connect_op N)]) @ [Sent (dfs_ioctl_op tid path)])) \<noteq> Panic"
    by (auto simp: serves_referral_def Let_def ipc_disconnect_def abind_def execute_apply expect_success_def split: result.split)
qed simp

text \<open>
  C20: A path that the cache does not know is resolved through the server. With a server that answers
  the referral request, the path comes out as each target of the referral followed by what the
  referral's prefix leaves of it, whatever happens to the final disconnect. Exactly a connect to IPC$,
  the IOCTL and the disconnect were sent; and until the referral expires, resolving the path again
  gives the same answer and sends nothing.
\<close>

theorem referral_resolves_and_is_cached:
  assumes "dfs_reachable lower r" and "resolve_from_cache lower now r path = None"
    and "serves_referral N h tid (if starts_with path [BACKSLASH, BACKSLASH] then tl path else path) resp" and "wf_referral resp"
    and "drr_entries resp = first # others"
    and "targets = List.map_filter (\<lambda>e. parse_unc_target (dre_network_address e)) (first # others)" and "targets \<noteq> []"
    and "normalize_path lower path = cache_key lower (dre_dfs_path first) @ rest"
    and "now \<le> now''" and "now'' < now' + unat (max (dre_ttl first) 1) * SECOND"
    and "now \<le> t" and "t < now' + unat (max (dre_ttl first) 1) * SECOND"
  shows "\<exists>r'. dfs_resolve lower N now now' now'' path r h =
      ((Ok (map (resolve_target (trim_start_backslashes rest)) targets), r'),
       h @ [Sent (ipc_connect_op N), Sent (dfs_ioctl_op tid (if starts_with path [BACKSLASH, BACKSLASH] then tl path else path)),
            Sent (ipc_disconnect_op tid)]) \<and>
    (\<forall>k. dfs_resolve lower N t t1 t2 path r' k = ((Ok (map (resolve_target (trim_start_backslashes rest)) targets),
       r'\<lparr>dr_cache_hits := dr_cache_hits r' + 1\<rparr>), k))"
proof -
  let ?r = "r\<lparr>dr_referrals_resolved := dr_referrals_resolved r + 1\<rparr>"
  have wf: "wf_resolver ?r" using dfs_reachable_wf [OF assms(1)] by (simp add: wf_resolver_def)
  have miss: "resolve_from_cache lower now ?r path = None" using assms(2) by (simp add: resolve_from_cache_def)
  have "resolve_from_cache lower u (cache_referral lower now' resp ?r) path =
      Some (map (resolve_target (trim_start_backslashes rest)) targets)"
    if "now \<le> u" "u < now' + unat (max (dre_ttl first) 1) * SECOND" for u
    by (rule cached_referral_resolves [OF wf miss that(1) assms(5-8) that(2)])
  note look = this [OF assms(9,10)] this [OF assms(11,12)]
  from served_referral [OF assms(3,4)] assms(2) look show ?thesis
    by (simp add: dfs_resolve_def Let_def)
qed

text \<open>A server with one referral: \<open>\d\s\x\<close> is \<open>\\t\u\<close> for five minutes.\<close>

definition ascii_lower :: "rstring \<Rightarrow> rstring" where
  "ascii_lower s = map (\<lambda>c. if 65 \<le> c \<and> c \<le> 90 then c + 32 else c) s"

definition sample_referral :: resp_get_dfs_referral where
  "sample_referral = \<lparr>drr_path_consumed = 12, drr_header_flags = 0,
     drr_entries = [\<lparr>dre_version = 4, dre_server_type = 0, dre_referral_entry_flags = 0, dre_ttl = 300,
        dre_dfs_path = [92, 100, 92, 115, 92, 120], dre_dfs_alternate_path = [92, 100, 92, 115, 92, 120],
        dre_network_address = [92, 116, 92, 117]\<rparr>]\<rparr>"

definition dfs_peer :: peer where
  "dfs_peer =
     \<lparr>pe_params = None, pe_server_name = [100],
      pe_answer = (\<lambda>_ rq. Ok (case rq_body rq of
         TreeConnectB _ \<Rightarrow>
           (let fr = reply TreeConnect STATUS_SUCCESS (packed (pack_tree_connect_response
              \<lparr>tcr_share_type = Pipe, tcr_share_flags = 0, tcr_capabilities = 0, tcr_maximal_access = 0\<rparr>))
            in fr\<lparr>fr_header := (fr_header fr)\<lparr>hdr_tree_id := Some 5\<rparr>\<rparr>)
       | IoctlB _ \<Rightarrow>
           reply Ioctl STATUS_SUCCESS (packed (pack_ioctl_response
             \<lparr>ior_ctl_code = FSCTL_DFS_GET_REFERRALS, ior_file_id = SENTINEL, ior_flags = 0,
              ior_output_data = referral_message sample_referral\<rparr>))
       | _ \<Rightarrow> reply TreeDisconnect STATUS_ACCESS_DENIED [])),
      pe_answers = (\<lambda>_ _. Err Disconnected), pe_next = (\<lambda>_. 0)\<rparr>"

lemma sample_referral_wf: "wf_referral sample_referral"
  by (simp add: wf_referral_def sample_referral_def wf_referral_entry_def plain_str_def valid_str_def is_char_def
      referral_message_def referral_strings_def encode_utf16_def encode_utf16_char_def)

lemma dfs_peer_serves: "serves_referral dfs_peer h 5 path sample_referral"
proof -
  have "length (referral_message sample_referral) < 65536" using sample_referral_wf by (simp add: wf_referral_def)
  then have "run_reader unpack_ioctl_response (packed (pack_ioctl_response
             \<lparr>ior_ctl_code = FSCTL_DFS_GET_REFERRALS, ior_file_id = SENTINEL, ior_flags = 0,
              ior_output_data = referral_message sample_referral\<rparr>)) =
      Ok \<lparr>ior_ctl_code = FSCTL_DFS_GET_REFERRALS, ior_file_id = SENTINEL, ior_flags = 0,
              ior_output_data = referral_message sample_referral\<rparr>"
    by (intro packed_parses ioctl_response.run_roundtrip) (simp add: wf_ioctl_response_def MAX_UNPACK_BUFFER_def)
  moreover have "run_reader unpack_tree_connect_response (packed (pack_tree_connect_response tc)) = Ok tc" for tc
    by (intro packed_parses tree_connect_response.run_roundtrip) simp
  ultimately show ?thesis
    by (simp add: serves_referral_def dfs_peer_def Let_def new_request_def reply_def)
qed

lemmas dfs_eval = sample_referral_def ascii_lower_def normalize_path_def cache_key_def starts_with_def map_filter_simps
  parse_unc_target_def trim_start_backslashes_def resolve_target_def numeral_3_eq_3 resolve_from_cache_def best_match_def
  dfs_resolver_new_def SECOND_def

definition sample_resolver :: dfs_resolver where
  "sample_resolver = cache_referral ascii_lower 0 sample_referral (dfs_resolver_new\<lparr>dr_referrals_resolved := 1\<rparr>)"

lemma sample_resolver_reachable: "dfs_reachable ascii_lower sample_resolver"
proof (rule dfs_reachable.resolve [OF dfs_reachable.new])
  show "dfs_resolve ascii_lower dfs_peer 0 0 1 [92, 92, 100, 92, 115, 92, 120] dfs_resolver_new [] =
     ((Ok [\<lparr>rp_server = [116], rp_port = 445, rp_share = [117], rp_remaining_path = []\<rparr>], sample_resolver),
      [Sent (ipc_connect_op dfs_peer), Sent (dfs_ioctl_op 5 [92, 100, 92, 115, 92, 120]), Sent (ipc_disconnect_op 5)])"
    using served_referral [OF dfs_peer_serves [of "[]" "[92, 100, 92, 115, 92, 120]"] sample_referral_wf]
    by (simp add: dfs_resolve_def sample_resolver_def Let_def dfs_eval cache_referral_def better_match_def)
qed

theorem referral_lookup_is_longest_prefix_witness:
  "resolves_to 5 (map_of (dr_cache sample_resolver)) [92, 92, 100, 92, 115, 92, 120, 92, 102]
     [\<lparr>rp_server = [116], rp_port = 445, rp_share = [117], rp_remaining_path = [102]\<rparr>]"
proof -
  have "resolve_from_cache ascii_lower 5 sample_resolver [92, 92, 100, 92, 115, 92, 120, 92, 102] =
      Some [\<lparr>rp_server = [116], rp_port = 445, rp_share = [117], rp_remaining_path = [102]\<rparr>]"
    by (simp add: sample_resolver_def Let_def dfs_eval cache_referral_def better_match_def)
  moreover have "normalize_path ascii_lower [92, 92, 100, 92, 115, 92, 120, 92, 102] = [92, 92, 100, 92, 115, 92, 120, 92, 102]"
    by (simp add: dfs_eval)
  ultimately show ?thesis
    using referral_lookup_is_longest_prefix [OF sample_resolver_reachable, of 5 "[92, 92, 100, 92, 115, 92, 120, 92, 102]"] by metis
qed

theorem referral_resolves_and_is_cached_witness:
  "\<exists>r'. dfs_resolve ascii_lower dfs_peer 0 0 1 [92, 92, 68, 92, 83, 92, 88, 92, 70] dfs_resolver_new [] =
      ((Ok [\<lparr>rp_server = [116], rp_port = 445, rp_share = [117], rp_remaining_path = [102]\<rparr>], r'),
       [Sent (ipc_connect_op dfs_peer), Sent (dfs_ioctl_op 5 [92, 68, 92, 83, 92, 88, 92, 70]), Sent (ipc_disconnect_op 5)]) \<and>
    fst (fst (dfs_resolve ascii_lower dfs_peer 2 2 2 [92, 92, 68, 92, 83, 92, 88, 92, 70] r' [])) =
      Ok [\<lparr>rp_server = [116], rp_port = 445, rp_share = [117], rp_remaining_path = [102]\<rparr>]"
proof -
  have serves: "serves_referral dfs_peer [] 5 (if starts_with [92, 92, 68, 92, 83, 92, 88, 92, 70] [BACKSLASH, BACKSLASH]
      then tl [92, 92, 68, 92, 83, 92, 88, 92, 70] else [92, 92, 68, 92, 83, 92, 88, 92, 70]) sample_referral"
    by (rule dfs_peer_serves)
  have miss: "resolve_from_cache ascii_lower 0 dfs_resolver_new [92, 92, 68, 92, 83, 92, 88, 92, 70] = None"
    by (simp add: dfs_eval)
  from referral_resolves_and_is_cached [OF dfs_reachable.new miss serves sample_referral_wf _ refl, of _ "[]" "[92, 102]" 1 0 2 2 2]
  show ?thesis by (fastforce simp: dfs_eval)
qed

text \<open>
  C36: The prefix match ignores where names end. An entry for a prefix also answers for a path whose
  next character continues the last name of the prefix, so a path below \<open>...\data2\<close> is sent to the
  targets of \<open>...\data\<close>, with the rest of the name as its first component. The path that is
  left is the lower-case one, not the one that was asked for.
\<close>

theorem referral_matches_half_a_name:
  assumes "dr_cache r = [(p, e)]" and "cf_dfs_path_prefix e = p" and "now < cf_expires_at e"
    and "normalize_path lower path = p @ c # rest" and "c \<noteq> BACKSLASH"
  shows "resolve_from_cache lower now r path = Some (map (resolve_target (c # rest)) (cf_targets e))"
  using assms
  by (simp add: resolve_from_cache_def best_match_def better_match_def starts_with_def trim_start_backslashes_def Let_def)

theorem referral_matches_half_a_name_witness:
  "resolve_from_cache ascii_lower 0
     \<lparr>dr_cache = [([92, 92, 100, 92, 115, 92, 120], \<lparr>cf_dfs_path_prefix = [92, 92, 100, 92, 115, 92, 120],
        cf_targets = [\<lparr>dt_server = [116], dt_share = [117], dt_remaining_prefix = []\<rparr>], cf_expires_at = 1\<rparr>)],
      dr_cache_hits = 0, dr_referrals_resolved = 0\<rparr> [92, 92, 68, 92, 83, 92, 88, 50, 92, 70] =
   Some [\<lparr>rp_server = [116], rp_port = 445, rp_share = [117], rp_remaining_path = [50, 92, 102]\<rparr>]"
  using referral_matches_half_a_name [of
     "\<lparr>dr_cache = [([92, 92, 100, 92, 115, 92, 120], \<lparr>cf_dfs_path_prefix = [92, 92, 100, 92, 115, 92, 120],
        cf_targets = [\<lparr>dt_server = [116], dt_share = [117], dt_remaining_prefix = []\<rparr>], cf_expires_at = 1\<rparr>)],
      dr_cache_hits = 0, dr_referrals_resolved = 0\<rparr>" _ _ 0 ascii_lower "[92, 92, 68, 92, 83, 92, 88, 50, 92, 70]" 50 "[92, 102]"]
  by (simp add: normalize_path_def ascii_lower_def resolve_target_def)

end
