(* ===== verification/Smb_Shares.thy ===== *)
theory Smb_Shares
  imports Smb_Dfs
begin

text \<open>
  \<open>src/rpc/mod.rs\<close>, \<open>src/rpc/srvsvc.rs\<close> and \<open>src/client/shares.rs\<close>: DCE/RPC over the named pipe
  \<open>srvsvc\<close>, and the listing of shares with it. Connecting to IPC$ and disconnecting are written out
  again in \<open>shares.rs\<close> with the text of \<open>dfs.rs\<close>; the definitions of \<open>Smb_Dfs\<close> are used for both.
\<close>

section \<open>RPC messages\<close>

definition RPC_VERSION_MAJOR :: u8 where "RPC_VERSION_MAJOR = 5"
definition RPC_VERSION_MINOR :: u8 where "RPC_VERSION_MINOR = 0"
definition DATA_REP :: bytes where "DATA_REP = [0x10, 0, 0, 0]"
definition PDU_TYPE_REQUEST :: u8 where "PDU_TYPE_REQUEST = 0"
definition PDU_TYPE_RESPONSE :: u8 where "PDU_TYPE_RESPONSE = 2"
definition PDU_TYPE_BIND :: u8 where "PDU_TYPE_BIND = 11"
definition PDU_TYPE_BIND_ACK :: u8 where "PDU_TYPE_BIND_ACK = 12"
definition MAX_XMIT_FRAG :: u16 where "MAX_XMIT_FRAG = 4280"
definition MAX_RECV_FRAG :: u16 where "MAX_RECV_FRAG = 4280"
definition PFC_FIRST_FRAG :: u8 where "PFC_FIRST_FRAG = 0x01"
definition PFC_LAST_FRAG :: u8 where "PFC_LAST_FRAG = 0x02"

definition SRVSVC_UUID :: guid where
  "SRVSVC_UUID = \<lparr>data1 = 0x4B324FC8, data2 = 0x1670, data3 = 0x01D3,
     data4 = [0x12, 0x78, 0x5A, 0x47, 0xBF, 0x6E, 0xE1, 0x88]\<rparr>"
definition SRVSVC_VERSION :: u32 where "SRVSVC_VERSION = 3"

definition NDR_UUID :: guid where
  "NDR_UUID = \<lparr>data1 = 0x8A885D04, data2 = 0x1CEB, data3 = 0x11C9,
     data4 = [0x9F, 0xE8, 0x08, 0x00, 0x2B, 0x10, 0x48, 0x60]\<rparr>"
definition NDR_VERSION :: u32 where "NDR_VERSION = 2"

lemmas rpc_consts = RPC_VERSION_MAJOR_def RPC_VERSION_MINOR_def PDU_TYPE_REQUEST_def PDU_TYPE_RESPONSE_def
  PDU_TYPE_BIND_def PDU_TYPE_BIND_ACK_def MAX_XMIT_FRAG_def MAX_RECV_FRAG_def PFC_FIRST_FRAG_def PFC_LAST_FRAG_def
  SRVSVC_UUID_def SRVSVC_VERSION_def NDR_UUID_def NDR_VERSION_def

text \<open>The common header with a zero in place of the fragment length, which is patched in at offset 8.\<close>

definition write_rpc_header :: "u8 \<Rightarrow> u32 \<Rightarrow> unit writer" where
  "write_rpc_header ptype call_id = seq [
     write_u8 RPC_VERSION_MAJOR,
     write_u8 RPC_VERSION_MINOR,
     write_u8 ptype,
     write_u8 (PFC_FIRST_FRAG OR PFC_LAST_FRAG),
     write_bytes DATA_REP,
     write_u16_le 0,
     write_u16_le 0,
     write_u32_le call_id]"

definition patch_frag_length :: "unit writer" where
  "patch_frag_length = bnd wc_position (\<lambda>total_len. set_u16_le_at 8 (word_of_nat total_len))"

definition build_srvsvc_bind :: "u32 \<Rightarrow> unit writer" where
  "build_srvsvc_bind call_id = seq [
     write_rpc_header PDU_TYPE_BIND call_id,
     write_u16_le MAX_XMIT_FRAG,
     write_u16_le MAX_RECV_FRAG,
     write_u32_le 0,
     write_u8 1,
     write_bytes [0, 0, 0],
     write_u16_le 0,
     write_u8 1,
     write_u8 0,
     pack_guid SRVSVC_UUID,
     write_u32_le SRVSVC_VERSION,
     pack_guid NDR_UUID,
     write_u32_le NDR_VERSION,
     patch_frag_length]"

definition build_request :: "u32 \<Rightarrow> u16 \<Rightarrow> bytes \<Rightarrow> unit writer" where
  "build_request call_id opnum stub_data = seq [
     write_rpc_header PDU_TYPE_REQUEST call_id,
     write_u32_le (word_of_nat (length stub_data)),
     write_u16_le 0,
     write_u16_le opnum,
     write_bytes stub_data,
     patch_frag_length]"

text \<open>The start of every parser: the version and the type of the PDU.\<close>

definition read_rpc_type :: "u8 \<Rightarrow> string \<Rightarrow> unit reader" where
  "read_rpc_type expected msg =
     bnd read_u8 (\<lambda>version.
     bnd read_u8 (\<lambda>version_minor.
     bnd (guard (version = RPC_VERSION_MAJOR \<and> version_minor = RPC_VERSION_MINOR)
            (InvalidData (Malformed ''unexpected RPC version'' [unat version, unat version_minor]))) (\<lambda>_.
     bnd read_u8 (\<lambda>ptype.
     guard (ptype = expected) (InvalidData (Malformed msg [unat ptype]))))))"

definition read_bind_ack :: "unit reader" where
  "read_bind_ack =
     bnd (read_rpc_type PDU_TYPE_BIND_ACK ''expected BIND_ACK (type 12)'') (\<lambda>_.
     bnd read_u8 (\<lambda>flags.
     bnd (read_bytes 4) (\<lambda>data_rep.
     bnd read_u16_le (\<lambda>frag_length.
     bnd read_u16_le (\<lambda>auth_length.
     bnd read_u32_le (\<lambda>call_id.
     bnd read_u16_le (\<lambda>max_xmit_frag.
     bnd read_u16_le (\<lambda>max_recv_frag.
     bnd read_u32_le (\<lambda>assoc_group.
     bnd read_u16_le (\<lambda>sec_addr_len.
     bnd (skip (unat sec_addr_len)) (\<lambda>_.
     bnd (skip ((4 - (2 + unat sec_addr_len) mod 4) mod 4)) (\<lambda>_.
     bnd read_u8 (\<lambda>num_results.
     bnd (skip 3) (\<lambda>_.
     bnd (guard (num_results \<noteq> 0) (InvalidData (Malformed ''BIND_ACK has no context results'' []))) (\<lambda>_.
     bnd read_u16_le (\<lambda>result.
     if result \<noteq> 0
     then bnd read_u16_le (\<lambda>reason. fail (InvalidData (Malformed ''BIND rejected'' [unat result, unat reason])))
     else ret ()))))))))))))))))"

definition parse_bind_ack :: "bytes \<Rightarrow> unit res" where
  "parse_bind_ack data = run_reader read_bind_ack data"

definition read_response_fragment :: "(bytes \<times> bool) reader" where
  "read_response_fragment =
     bnd (read_rpc_type PDU_TYPE_RESPONSE ''expected RESPONSE (type 2)'') (\<lambda>_.
     bnd read_u8 (\<lambda>flags.
     bnd (read_bytes 4) (\<lambda>data_rep.
     bnd read_u16_le (\<lambda>frag_length.
     bnd read_u16_le (\<lambda>auth_length.
     bnd read_u32_le (\<lambda>call_id.
     bnd read_u32_le (\<lambda>alloc_hint.
     bnd read_u16_le (\<lambda>context_id.
     bnd read_u8 (\<lambda>cancel_count.
     bnd read_u8 (\<lambda>reserved.
     bnd position (\<lambda>header_consumed.
     bnd (guard (\<not> unat frag_length < header_consumed)
            (InvalidData (Malformed ''RPC frag_length shorter than header'' [unat frag_length, header_consumed]))) (\<lambda>_.
     bnd (lift (usub (unat frag_length) header_consumed)) (\<lambda>n.
     bnd (read_bytes n) (\<lambda>stub_data.
     ret (stub_data, flags AND PFC_LAST_FRAG \<noteq> 0)))))))))))))))"

definition parse_response_fragment :: "bytes \<Rightarrow> (bytes \<times> bool) res" where
  "parse_response_fragment data = run_reader read_response_fragment data"

definition parse_response :: "bytes \<Rightarrow> bytes res" where
  "parse_response data = result_bind (parse_response_fragment data) (\<lambda>(stub, is_last). Ok stub)"

section \<open>NetShareEnumAll\<close>

definition STYPE_DISKTREE :: u32 where "STYPE_DISKTREE = 0x00000000"
definition STYPE_PRINTQ :: u32 where "STYPE_PRINTQ = 0x00000001"
definition STYPE_DEVICE :: u32 where "STYPE_DEVICE = 0x00000002"
definition STYPE_IPC :: u32 where "STYPE_IPC = 0x00000003"
definition STYPE_SPECIAL :: u32 where "STYPE_SPECIAL = 0x80000000"
definition STYPE_BASE_MASK :: u32 where "STYPE_BASE_MASK = 0x0000FFFF"

record share_info =
  si_name :: rstring
  si_share_type :: u32
  si_comment :: rstring

definition build_net_share_enum_all_stub :: "rstring \<Rightarrow> unit writer" where
  "build_net_share_enum_all_stub server_name =
     (let name_utf16 = encode_utf16 server_name @ [0]; char_count = word_of_nat (length name_utf16) in seq [
        write_u32_le 0x00020000,
        write_u32_le char_count,
        write_u32_le 0,
        write_u32_le char_count,
        write_bytes (concat (map to_le_bytes name_utf16)),
        align_to 4,
        write_u32_le 1,
        write_u32_le 1,
        write_u32_le 0x00020004,
        write_u32_le 0,
        write_u32_le 0,
        write_u32_le 0xFFFFFFFF,
        write_u32_le 0])"

definition build_net_share_enum_all :: "u32 \<Rightarrow> rstring \<Rightarrow> unit writer" where
  "build_net_share_enum_all call_id server_name =
     build_request call_id 15 (packed (build_net_share_enum_all_stub server_name))"

text \<open>\<open>s.trim_end_matches('\0')\<close>.\<close>

definition trim_end_nuls :: "rstring \<Rightarrow> rstring" where
  "trim_end_nuls s = rev (dropWhile (\<lambda>c. c = 0) (rev s))"

definition read_ndr_string :: "rstring reader" where
  "read_ndr_string =
     bnd read_u32_le (\<lambda>max_count.
     bnd read_u32_le (\<lambda>offset.
     bnd read_u32_le (\<lambda>actual_count.
     if actual_count = 0 then ret []
     else bnd (read_utf16_le (unat actual_count * 2)) (\<lambda>s.
          bnd position (\<lambda>pos.
          let padding = (4 - pos mod 4) mod 4 in
          bnd remaining (\<lambda>left.
          bnd (if padding > 0 \<and> left \<ge> padding then skip padding else ret ()) (\<lambda>_.
          ret (trim_end_nuls s))))))))"

text \<open>The fixed part of an entry: the referent of the name, the type, the referent of the comment.\<close>

definition read_raw_entry :: "(u32 \<times> u32 \<times> u32) reader" where
  "read_raw_entry =
     bnd read_u32_le (\<lambda>name_ptr. bnd read_u32_le (\<lambda>share_type. bnd read_u32_le (\<lambda>comment_ptr.
     ret (name_ptr, share_type, comment_ptr))))"

definition read_deferred :: "u32 \<Rightarrow> rstring reader" where
  "read_deferred ptr = (if ptr \<noteq> 0 then read_ndr_string else ret [])"

fun read_shares :: "(u32 \<times> u32 \<times> u32) list \<Rightarrow> share_info list reader" where
  "read_shares [] = ret []"
| "read_shares ((name_ptr, share_type, comment_ptr) # entries) =
     bnd (read_deferred name_ptr) (\<lambda>name.
     bnd (read_deferred comment_ptr) (\<lambda>comment.
     bnd (read_shares entries) (\<lambda>shares.
     ret (\<lparr>si_name = name, si_share_type = share_type, si_comment = comment\<rparr> # shares))))"

definition read_net_share_enum_all :: "share_info list reader" where
  "read_net_share_enum_all =
     bnd read_u32_le (\<lambda>level.
     bnd (guard (level = 1) (InvalidData (Malformed ''expected share info level 1'' [unat level]))) (\<lambda>_.
     bnd read_u32_le (\<lambda>discriminant.
     bnd (guard (discriminant = 1) (InvalidData (Malformed ''expected union discriminant 1'' [unat discriminant]))) (\<lambda>_.
     bnd read_u32_le (\<lambda>container_ptr.
     if container_ptr = 0 then ret []
     else bnd read_u32_le (\<lambda>count.
          bnd read_u32_le (\<lambda>array_ptr.
          if array_ptr = 0 \<or> count = 0 then ret []
          else bnd read_u32_le (\<lambda>max_count.
               bnd (guard (\<not> max_count < count) (InvalidData (Malformed ''array max_count < entries'' [unat max_count, unat count]))) (\<lambda>_.
               bnd (repeat (unat count) read_raw_entry) read_shares)))))))))"

definition parse_net_share_enum_all_stub :: "bytes \<Rightarrow> share_info list res" where
  "parse_net_share_enum_all_stub stub = run_reader read_net_share_enum_all stub"

definition parse_net_share_enum_all_response :: "bytes \<Rightarrow> share_info list res" where
  "parse_net_share_enum_all_response data = result_bind (parse_response data) parse_net_share_enum_all_stub"

definition keeps_share :: "share_info \<Rightarrow> bool" where
  "keeps_share s \<longleftrightarrow>
     (let base_type = si_share_type s AND STYPE_BASE_MASK;
          is_disk = (base_type = STYPE_DISKTREE);
          is_special = (si_share_type s AND STYPE_SPECIAL \<noteq> 0);
          ends_with_dollar = (si_name s \<noteq> [] \<and> last (si_name s) = 36)
      in is_disk \<and> \<not> is_special \<and> \<not> ends_with_dollar)"

definition filter_disk_shares :: "share_info list \<Rightarrow> share_info list" where
  "filter_disk_shares shares = filter keeps_share shares"

section \<open>The pipe\<close>

definition PIPE_READ_BUFFER_SIZE :: u32 where "PIPE_READ_BUFFER_SIZE = 65536"

text \<open>A computation that may still be running when its fuel is used up: then it is \<open>None\<close>.\<close>

type_synonym 'a fact = "history \<Rightarrow> ('a res \<times> history) option"

definition flift :: "'a act \<Rightarrow> 'a fact" where
  "flift m h = Some (m h)"

definition fbind :: "'a fact \<Rightarrow> ('a \<Rightarrow> 'b fact) \<Rightarrow> 'b fact" where
  "fbind m f h =
     (case m h of
        None \<Rightarrow> None
      | Some (Ok x, h') \<Rightarrow> f x h'
      | Some (Err e, h') \<Rightarrow> Some (Err e, h')
      | Some (Panic, h') \<Rightarrow> Some (Panic, h'))"

definition fattempt :: "'a fact \<Rightarrow> 'a res fact" where
  "fattempt m h = (case m h of None \<Rightarrow> None | Some (Panic, h') \<Rightarrow> Some (Panic, h') | Some (r, h') \<Rightarrow> Some (Ok r, h'))"

definition open_srvsvc_pipe :: "peer \<Rightarrow> tree_id \<Rightarrow> file_id act" where
  "open_srvsvc_pipe N tid =
     abind (execute N (CreateB (create_request_of (FAM_FILE_READ_DATA OR FAM_FILE_WRITE_DATA) 0
              (FILE_SHARE_READ OR FILE_SHARE_WRITE) FileOpen 0 [115, 114, 118, 115, 118, 99])) (Some tid)) (\<lambda>fr.
     abind (expect_success Create fr) (\<lambda>_.
     abind (parse_body unpack_create_response fr) (\<lambda>resp. aret (crr_file_id resp))))"

definition write_pipe :: "peer \<Rightarrow> tree_id \<Rightarrow> file_id \<Rightarrow> bytes \<Rightarrow> unit act" where
  "write_pipe N tid fid data =
     abind (execute N (WriteB (write_request_at fid 0 data)) (Some tid)) (\<lambda>fr.
     abind (expect_success Write fr) (\<lambda>_.
     abind (parse_body unpack_write_response fr) (\<lambda>_. aret ())))"

fun read_pipe_loop :: "nat \<Rightarrow> peer \<Rightarrow> tree_id \<Rightarrow> file_id \<Rightarrow> bytes \<Rightarrow> bytes fact" where
  "read_pipe_loop 0 N tid fid message h = None"
| "read_pipe_loop (Suc fuel) N tid fid message h =
     (case execute N (ReadB (read_request_at fid 0 PIPE_READ_BUFFER_SIZE)) (Some tid) h of
        (Err e, h') \<Rightarrow> Some (Err e, h')
      | (Panic, h') \<Rightarrow> Some (Panic, h')
      | (Ok fr, h') \<Rightarrow>
          if \<not> is_success_or_partial (frame_status fr) then Some (Err (Protocol (frame_status fr) Read), h')
          else case run_reader unpack_read_response (fr_body fr) of
                 Err e \<Rightarrow> Some (Err e, h')
               | Panic \<Rightarrow> Some (Panic, h')
               | Ok resp \<Rightarrow>
                   let message' = message @ rdr_data resp in
                   if frame_status fr \<noteq> STATUS_BUFFER_OVERFLOW then Some (Ok message', h')
                   else if rdr_data resp = []
                   then Some (Err (InvalidData (Malformed ''pipe read returned BUFFER_OVERFLOW with no data'' [])), h')
                   else read_pipe_loop fuel N tid fid message' h')"

definition read_pipe_message :: "nat \<Rightarrow> peer \<Rightarrow> tree_id \<Rightarrow> file_id \<Rightarrow> bytes fact" where
  "read_pipe_message fuel N tid fid = read_pipe_loop fuel N tid fid []"

definition close_pipe :: "peer \<Rightarrow> tree_id \<Rightarrow> file_id \<Rightarrow> unit act" where
  "close_pipe N tid fid = abind (execute N (CloseB \<lparr>clq_flags = 0, clq_file_id = fid\<rparr>) (Some tid)) (expect_success Close)"

text \<open>Reading and joining fragments until the last one.\<close>

fun read_fragments :: "nat \<Rightarrow> peer \<Rightarrow> tree_id \<Rightarrow> file_id \<Rightarrow> bytes \<Rightarrow> bytes fact" where
  "read_fragments 0 N tid fid stub h = None"
| "read_fragments (Suc fuel) N tid fid stub h =
     fbind (read_pipe_message fuel N tid fid) (\<lambda>pdu.
     fbind (flift (alift (parse_response_fragment pdu))) (\<lambda>(frag_stub, is_last).
     if is_last then flift (aret (stub @ frag_stub)) else read_fragments fuel N tid fid (stub @ frag_stub))) h"

definition rpc_bind_and_request :: "nat \<Rightarrow> peer \<Rightarrow> tree_id \<Rightarrow> file_id \<Rightarrow> share_info list fact" where
  "rpc_bind_and_request fuel N tid fid =
     fbind (flift (write_pipe N tid fid (packed (build_srvsvc_bind 1)))) (\<lambda>_.
     fbind (read_pipe_message fuel N tid fid) (\<lambda>bind_ack_data.
     fbind (flift (alift (parse_bind_ack bind_ack_data))) (\<lambda>_.
     fbind (flift (write_pipe N tid fid (packed (build_net_share_enum_all 2 ([BACKSLASH, BACKSLASH] @ pe_server_name N))))) (\<lambda>_.
     fbind (read_fragments fuel N tid fid []) (\<lambda>stub.
     flift (alift (parse_net_share_enum_all_stub stub)))))))"

definition pipe_rpc_exchange :: "nat \<Rightarrow> peer \<Rightarrow> tree_id \<Rightarrow> share_info list fact" where
  "pipe_rpc_exchange fuel N tid =
     fbind (flift (open_srvsvc_pipe N tid)) (\<lambda>fid.
     fbind (fattempt (rpc_bind_and_request fuel N tid fid)) (\<lambda>result.
     fbind (flift (attempt (close_pipe N tid fid))) (\<lambda>_.
     flift (alift result))))"

definition list_shares :: "nat \<Rightarrow> peer \<Rightarrow> share_info list fact" where
  "list_shares fuel N =
     fbind (flift (tree_connect_ipc N)) (\<lambda>tid.
     fbind (fattempt (pipe_rpc_exchange fuel N tid)) (\<lambda>result.
     fbind (flift (attempt (ipc_disconnect N tid))) (\<lambda>_.
     fbind (flift (alift result)) (\<lambda>all_shares.
     flift (aret (filter_disk_shares all_shares))))))"

section \<open>No panic\<close>

lemma safe_remaining [safe_intros]: "safe p remaining"
  by (auto simp: safe_def remaining_def usub_def rc_wf_def)

lemma safe_read_rpc_type [safe_intros]: "safe p (read_rpc_type ty msg)"
  unfolding read_rpc_type_def by (intro safe_intros)

lemma safe_read_bind_ack: "safe p read_bind_ack"
  unfolding read_bind_ack_def by (intro safe_intros)

lemma safe_checked_usub:
  "(\<And>x. safe q (f x)) \<Longrightarrow> safe q (bnd (guard (\<not> n < q) (InvalidData i)) (\<lambda>_. bnd (lift (usub n q)) f))"
  by (auto simp: safe_def usub_def)

lemma safe_read_response_fragment: "safe p read_response_fragment"
  unfolding read_response_fragment_def
  by (rule safe_bnd safe_bnd_position safe_checked_usub safe_ret safe_read_rpc_type safe_read_u8 safe_read_bytes safe_read_uint)+

lemma safe_read_ndr_string [safe_intros]: "safe p read_ndr_string"
  unfolding read_ndr_string_def Let_def by (intro safe_intros)

lemma safe_read_shares [safe_intros]: "safe p (read_shares es)"
proof (induction es rule: read_shares.induct)
  case 1
  show ?case unfolding read_shares.simps by (rule safe_ret)
next
  case (2 name_ptr share_type comment_ptr entries)
  then show ?case unfolding read_shares.simps read_deferred_def by (intro safe_intros)
qed

lemma safe_read_net_share_enum_all: "safe p read_net_share_enum_all"
  unfolding read_net_share_enum_all_def read_raw_entry_def by (intro safe_intros)

section \<open>What a server sends\<close>

text \<open>A conformant and varying string (the NDR of DCE/RPC), NUL included, padded to four bytes.\<close>

definition ndr_string :: "rstring \<Rightarrow> bytes" where
  "ndr_string s =
     (let n = length (encode_utf16 s) + 1 in
      to_le_bytes (word_of_nat n :: u32) @ to_le_bytes (0 :: u32) @ to_le_bytes (word_of_nat n :: u32)
      @ nul_terminated s @ replicate ((4 - (2 * n) mod 4) mod 4) 0)"

definition share_entry :: "share_info \<Rightarrow> bytes" where
  "share_entry s = to_le_bytes (0x00020000 :: u32) @ to_le_bytes (si_share_type s) @ to_le_bytes (0x00020000 :: u32)"

text \<open>The reply of \<open>NetrShareEnum\<close> at level 1 (MS-SRVS 3.1.4.8); what follows the strings is \<open>post\<close>.\<close>

definition enum_reply :: "share_info list \<Rightarrow> bytes \<Rightarrow> bytes" where
  "enum_reply shares post =
     to_le_bytes (1 :: u32) @ to_le_bytes (1 :: u32) @ to_le_bytes (0x00020000 :: u32)
     @ to_le_bytes (word_of_nat (length shares) :: u32)
     @ (if shares = [] then to_le_bytes (0 :: u32)
        else to_le_bytes (0x00020004 :: u32) @ to_le_bytes (word_of_nat (length shares) :: u32)
             @ concat (map share_entry shares) @ concat (map (\<lambda>s. ndr_string (si_name s) @ ndr_string (si_comment s)) shares))
     @ post"

definition wf_share :: "share_info \<Rightarrow> bool" where
  "wf_share s \<longleftrightarrow> plain_str (si_name s) \<and> plain_str (si_comment s)
     \<and> length (encode_utf16 (si_name s)) < 65536 \<and> length (encode_utf16 (si_comment s)) < 65536"

lemma plain_str_snoc_nul: "plain_str s \<Longrightarrow> valid_str (s @ [0]) \<and> encode_utf16 (s @ [0]) = encode_utf16 s @ [0]"
  by (simp add: plain_str_def valid_str_def is_char_def encode_utf16_def encode_utf16_char_def)

lemma trim_end_nuls_snoc: "plain_str s \<Longrightarrow> trim_end_nuls (s @ [0]) = s"
proof -
  assume "plain_str s"
  then have "dropWhile (\<lambda>c. c = 0) (rev s) = rev s"
    by (cases "rev s") (auto simp: plain_str_def simp flip: set_rev [of s])
  then show ?thesis by (simp add: trim_end_nuls_def)
qed

lemma length_ndr_string: "length (ndr_string s) mod 4 = 0"
proof -
  have "(12 + (n + (4 - n mod 4) mod 4)) mod 4 = 0" for n :: nat
  proof -
    have "n = 4 * (n div 4) + n mod 4" "n mod 4 < 4" by simp_all
    then obtain q m where "n = 4 * q + m" "m < 4" by blast
    then show ?thesis by (cases "m = 0") simp_all
  qed
  moreover have "length (ndr_string s) = 12 + (2 * (length (encode_utf16 s) + 1) + (4 - (2 * (length (encode_utf16 s) + 1)) mod 4) mod 4)"
    by (simp add: ndr_string_def Let_def)
  ultimately show ?thesis by metis
qed

lemma read_ndr_string_cur:
  assumes "plain_str s" and "length (encode_utf16 s) < 65536" and "length pre mod 4 = 0"
  shows "read_ndr_string (cur pre (ndr_string s @ post)) = Ok (s, cur (pre @ ndr_string s) post)"
proof -
  define n where "n = length (encode_utf16 s) + 1"
  define pad where "pad = replicate ((4 - (2 * n) mod 4) mod 4) (0 :: u8)"
  have n: "unat (word_of_nat n :: u32) = n" "word_of_nat n \<noteq> (0 :: u32)"
    using assms(2) by (auto simp: n_def word_unat_eq_iff simp del: of_nat_add of_nat_Suc)
  define pre' where "pre' = pre @ to_le_bytes (word_of_nat n :: u32) @ to_le_bytes (0 :: u32) @ to_le_bytes (word_of_nat n :: u32)"
  have u: "utf16_le_bytes (s @ [0]) = nul_terminated s" "length (encode_utf16 (s @ [0])) = n"
    using plain_str_snoc_nul [OF assms(1)] by (simp_all add: utf16_le_bytes_def n_def)
  have r: "read_utf16_le (n * 2) (cur pre' (nul_terminated s @ pad @ post)) = Ok (s @ [0], cur (pre' @ nul_terminated s) (pad @ post))"
    using read_utf16_le_cur [of "s @ [0]" "n * 2" pre' "pad @ post"] plain_str_snoc_nul [OF assms(1)] unfolding u
    by (simp add: mult.commute)
  have "length (pre' @ nul_terminated s) mod 4 = (2 * n) mod 4"
    using assms(3) by (simp add: pre'_def n_def mod_add_left_eq [symmetric])
  then have p: "(4 - length (pre' @ nul_terminated s) mod 4) mod 4 = length pad" by (simp add: pad_def)
  have k: "(if 0 < length pad \<and> length pad \<le> length (pad @ post) then skip (length pad) else ret ())
      (cur (pre' @ nul_terminated s) (pad @ post)) = Ok ((), cur (pre' @ nul_terminated s @ pad) post)"
    using skip_cur [of pad "length pad" "pre' @ nul_terminated s" post] by (cases pad) simp_all
  have e: "ndr_string s @ post = to_le_bytes (word_of_nat n :: u32) @ to_le_bytes (0 :: u32) @ to_le_bytes (word_of_nat n :: u32)
      @ nul_terminated s @ pad @ post" "pre @ ndr_string s = pre' @ nul_terminated s @ pad"
    by (simp_all add: ndr_string_def Let_def n_def pad_def pre'_def)
  have "read_ndr_string (cur pre (ndr_string s @ post)) =
      bnd (read_utf16_le (n * 2)) (\<lambda>s. bnd position (\<lambda>pos. bnd remaining (\<lambda>left.
        bnd (if (4 - pos mod 4) mod 4 > 0 \<and> left \<ge> (4 - pos mod 4) mod 4 then skip ((4 - pos mod 4) mod 4) else ret ()) (\<lambda>_.
        ret (trim_end_nuls s))))) (cur pre' (nul_terminated s @ pad @ post))"
    unfolding e(1) read_ndr_string_def Let_def pre'_def by (simp add: rd_simps n)
  also have "\<dots> = Ok (s, cur (pre @ ndr_string s) post)"
    unfolding e(2) bnd_def r by (simp only: position_cur remaining_cur p k result.case prod.case comp_simps trim_end_nuls_snoc [OF assms(1)])
  finally show ?thesis .
qed

lemma read_raw_entries_cur:
  "repeat (length shares) read_raw_entry (cur pre (concat (map share_entry shares) @ post)) =
     Ok (map (\<lambda>s. (0x00020000, si_share_type s, 0x00020000)) shares, cur (pre @ concat (map share_entry shares)) post)"
  by (induction shares arbitrary: pre) (simp_all add: read_raw_entry_def share_entry_def rd_simps)

lemma read_shares_cur:
  assumes "list_all wf_share shares" and "length pre mod 4 = 0"
  shows "read_shares (map (\<lambda>s. (0x00020000, si_share_type s, 0x00020000)) shares)
      (cur pre (concat (map (\<lambda>s. ndr_string (si_name s) @ ndr_string (si_comment s)) shares) @ post)) =
    Ok (shares, cur (pre @ concat (map (\<lambda>s. ndr_string (si_name s) @ ndr_string (si_comment s)) shares)) post)"
  using assms
proof (induction shares arbitrary: pre)
  case (Cons s shares)
  have m: "length (pre @ ndr_string (si_name s)) mod 4 = 0" "length (pre @ ndr_string (si_name s) @ ndr_string (si_comment s)) mod 4 = 0"
    using Cons.prems(2) length_ndr_string [of "si_name s"] length_ndr_string [of "si_comment s"]
    by (simp_all add: mod_eq_0_iff_dvd)
  have w: "plain_str (si_name s)" "length (encode_utf16 (si_name s)) < 65536"
    "plain_str (si_comment s)" "length (encode_utf16 (si_comment s)) < 65536"
    using Cons.prems(1) by (simp_all add: wf_share_def)
  show ?case
    using Cons.IH [OF _ m(2)] Cons.prems(1) read_ndr_string_cur [OF w(1,2) Cons.prems(2)] read_ndr_string_cur [OF w(3,4) m(1)]
    by (simp add: read_deferred_def)
qed simp

lemma enum_reply_parses:
  assumes "list_all wf_share shares" and "length shares < 4294967296"
  shows "parse_net_share_enum_all_stub (enum_reply shares post) = Ok shares"
proof (cases "shares = []")
  case True
  then show ?thesis
    by (simp add: parse_net_share_enum_all_stub_def run_reader_def read_cursor_new_cur enum_reply_def read_net_share_enum_all_def rd_simps)
next
  case False
  have n: "unat (word_of_nat (length shares) :: u32) = length shares" "word_of_nat (length shares) \<noteq> (0 :: u32)"
    using assms(2) False by (auto simp: word_unat_eq_iff)
  let ?pre = "to_le_bytes (1 :: u32) @ to_le_bytes (1 :: u32) @ to_le_bytes (0x00020000 :: u32) @ to_le_bytes (word_of_nat (length shares) :: u32)
     @ to_le_bytes (0x00020004 :: u32) @ to_le_bytes (word_of_nat (length shares) :: u32)"
  have "length (concat (map share_entry shares)) = 12 * length shares"
    by (induction shares) (simp_all add: share_entry_def)
  then have m: "length (?pre @ concat (map share_entry shares)) mod 4 = 0" by (simp add: mod_eq_0_iff_dvd)
  show ?thesis
    using read_raw_entries_cur [of shares ?pre] read_shares_cur [OF assms(1) m, of post] n False
    by (simp add: parse_net_share_enum_all_stub_def run_reader_def read_cursor_new_cur enum_reply_def read_net_share_enum_all_def rd_simps)
qed

text \<open>A BIND_ACK that accepts the context, and one fragment of a response (MS-RPCE 2.2.2.4, 2.2.2.6).\<close>

definition bind_ack_pdu :: "bytes \<Rightarrow> bytes" where
  "bind_ack_pdu sec_addr =
     [5, 0, 12, 3] @ DATA_REP @ to_le_bytes (word_of_nat (56 + length sec_addr) :: u16) @ to_le_bytes (0 :: u16)
     @ to_le_bytes (1 :: u32) @ to_le_bytes (4280 :: u16) @ to_le_bytes (4280 :: u16) @ to_le_bytes (0x53F0 :: u32)
     @ to_le_bytes (word_of_nat (length sec_addr) :: u16) @ sec_addr
     @ replicate ((4 - (2 + length sec_addr) mod 4) mod 4) 0 @ [1, 0, 0, 0] @ to_le_bytes (0 :: u16) @ to_le_bytes (0 :: u16)
     @ packed (pack_guid NDR_UUID) @ to_le_bytes NDR_VERSION"

definition response_pdu :: "bool \<Rightarrow> bytes \<Rightarrow> bytes" where
  "response_pdu is_last stub =
     [5, 0, 2, if is_last then PFC_LAST_FRAG else 0] @ DATA_REP @ to_le_bytes (word_of_nat (24 + length stub) :: u16)
     @ to_le_bytes (0 :: u16) @ to_le_bytes (2 :: u32) @ to_le_bytes (word_of_nat (length stub) :: u32) @ to_le_bytes (0 :: u16) @ [0, 0] @ stub"

lemma length_DATA_REP [simp]: "length DATA_REP = 4"
  by (simp add: DATA_REP_def)

lemma skip_3_cur: "skip 3 (cur pre (a # b # c # post)) = Ok ((), cur (pre @ [a, b, c]) post)"
  using skip_cur [of "[a, b, c]" 3 pre post] by simp

lemma read_rpc_type_cur: "read_rpc_type ty msg (cur pre (5 # 0 # ty # post)) = Ok ((), cur (pre @ [5, 0, ty]) post)"
  by (simp add: read_rpc_type_def rpc_consts rd_simps)

lemma bind_ack_accepted:
  assumes "length sec_addr < 65536"
  shows "parse_bind_ack (bind_ack_pdu sec_addr) = Ok ()"
proof -
  have "unat (word_of_nat (length sec_addr) :: u16) = length sec_addr" using assms by simp
  then show ?thesis
    by (simp add: parse_bind_ack_def run_reader_def read_cursor_new_cur bind_ack_pdu_def read_bind_ack_def read_rpc_type_cur
        PDU_TYPE_BIND_ACK_def rd_simps skip_3_cur del: of_nat_add)
qed

lemma response_fragment_parses:
  assumes "length stub < 65512"
  shows "parse_response_fragment (response_pdu is_last stub) = Ok (stub, is_last)"
proof -
  have n: "unat (word_of_nat (24 + length stub) :: u16) = 24 + length stub"
    by (rule unat_of_nat_u16) (use assms in simp)
  show ?thesis
    using n read_bytes_cur [of stub "length stub" _ "[]"]
    by (simp add: parse_response_fragment_def run_reader_def read_cursor_new_cur response_pdu_def read_response_fragment_def
        read_rpc_type_cur PDU_TYPE_RESPONSE_def PFC_LAST_FRAG_def rd_simps usub_def del: of_nat_add)
qed

text \<open>The client's own PDUs carry their length: 72 bytes for the BIND, header and stub for a request.\<close>

lemma patch_frag_length_apply:
  "length a = 8 \<Longrightarrow> patch_frag_length (a @ [x, y] @ b) = Ok ((), a @ to_le_bytes (word_of_nat (10 + length b) :: u16) @ b)"
  by (simp add: patch_frag_length_def wc_position_def set_u16_le_at_def overwrite_at_def)

lemma rpc_header_bytes:
  "write_rpc_header ty call_id w =
     Ok ((), w @ [5, 0, ty, 3] @ DATA_REP @ to_le_bytes (0 :: u16) @ to_le_bytes (0 :: u16) @ to_le_bytes call_id)"
  by (simp add: write_rpc_header_def wr_simps rpc_consts)

lemma build_request_bytes:
  "run_writer (build_request call_id opnum stub) =
     Ok ([5, 0, 0, 3] @ DATA_REP @ to_le_bytes (word_of_nat (24 + length stub) :: u16) @ to_le_bytes (0 :: u16)
       @ to_le_bytes call_id @ to_le_bytes (word_of_nat (length stub) :: u32) @ to_le_bytes (0 :: u16) @ to_le_bytes opnum @ stub)"
proof -
  have z: "to_le_bytes (0 :: u16) = [0, 0]" by (simp add: to_le_bytes_def numeral_2_eq_2)
  show ?thesis
    using patch_frag_length_apply [of "[5, 0, 0, 3] @ DATA_REP" 0 0 "to_le_bytes (0 :: u16) @ to_le_bytes call_id @
      to_le_bytes (word_of_nat (length stub) :: u32) @ to_le_bytes (0 :: u16) @ to_le_bytes opnum @ stub"]
    by (simp add: run_writer_def build_request_def rpc_header_bytes wr_simps PDU_TYPE_REQUEST_def z)
qed

section \<open>The exchange\<close>

abbreviation pipe_read_op :: "tree_id \<Rightarrow> file_id \<Rightarrow> request" where
  "pipe_read_op tid fid \<equiv> \<lparr>rq_body = ReadB (read_request_at fid 0 PIPE_READ_BUFFER_SIZE), rq_tree = Some tid, rq_charge = 1\<rparr>"

abbreviation pipe_write_op :: "tree_id \<Rightarrow> file_id \<Rightarrow> bytes \<Rightarrow> request" where
  "pipe_write_op tid fid data \<equiv> \<lparr>rq_body = WriteB (write_request_at fid 0 data), rq_tree = Some tid, rq_charge = 1\<rparr>"

abbreviation pipe_close_op :: "tree_id \<Rightarrow> file_id \<Rightarrow> request" where
  "pipe_close_op tid fid \<equiv> \<lparr>rq_body = CloseB \<lparr>clq_flags = 0, clq_file_id = fid\<rparr>, rq_tree = Some tid, rq_charge = 1\<rparr>"

abbreviation pipe_create_op :: "tree_id \<Rightarrow> request" where
  "pipe_create_op tid \<equiv> \<lparr>rq_body = CreateB (create_request_of (FAM_FILE_READ_DATA OR FAM_FILE_WRITE_DATA) 0
     (FILE_SHARE_READ OR FILE_SHARE_WRITE) FileOpen 0 [115, 114, 118, 115, 118, 99]), rq_tree = Some tid, rq_charge = 1\<rparr>"

lemma fbind_simps [simp]:
  "fbind (flift m) f h = (case m h of (Ok x, h') \<Rightarrow> f x h' | (Err e, h') \<Rightarrow> Some (Err e, h') | (Panic, h') \<Rightarrow> Some (Panic, h'))"
  "flift m h = Some (m h)"
  by (simp_all add: fbind_def flift_def split: prod.split result.split)

lemma fbind_Ok: "m h = Some (Ok x, h') \<Longrightarrow> fbind m f h = f x h'"
  by (simp add: fbind_def)

text \<open>
  A message of the pipe, which the server may hand out in pieces: every READ but the last is answered
  with STATUS_BUFFER_OVERFLOW and some bytes.
\<close>

definition answers_read :: "peer \<Rightarrow> tree_id \<Rightarrow> file_id \<Rightarrow> history \<Rightarrow> nt_status \<Rightarrow> bytes \<Rightarrow> bool" where
  "answers_read N tid fid h st piece \<longleftrightarrow>
     (\<exists>fr resp. pe_answer N h (pipe_read_op tid fid) = Ok fr \<and> frame_status fr = st \<and>
        run_reader unpack_read_response (fr_body fr) = Ok resp \<and> rdr_data resp = piece)"

fun pipe_serves :: "peer \<Rightarrow> tree_id \<Rightarrow> file_id \<Rightarrow> history \<Rightarrow> bytes list \<Rightarrow> bool" where
  "pipe_serves N tid fid h [] = False"
| "pipe_serves N tid fid h [piece] = answers_read N tid fid h STATUS_SUCCESS piece"
| "pipe_serves N tid fid h (piece # p # ps) =
     (piece \<noteq> [] \<and> answers_read N tid fid h STATUS_BUFFER_OVERFLOW piece \<and>
      pipe_serves N tid fid (h @ [Sent (pipe_read_op tid fid)]) (p # ps))"

abbreviation pipe_reads :: "tree_id \<Rightarrow> file_id \<Rightarrow> bytes list \<Rightarrow> event list" where
  "pipe_reads tid fid pieces \<equiv> replicate (length pieces) (Sent (pipe_read_op tid fid))"

lemma read_pipe_loop_serves:
  "pipe_serves N tid fid h pieces \<Longrightarrow> length pieces \<le> fuel \<Longrightarrow>
   read_pipe_loop fuel N tid fid acc h = Some (Ok (acc @ concat pieces), h @ pipe_reads tid fid pieces)"
proof (induction N tid fid h pieces arbitrary: acc fuel rule: pipe_serves.induct)
  case (2 N tid fid h piece)
  then obtain f where "fuel = Suc f" by (cases fuel) auto
  with 2 show ?case
    by (auto simp: answers_read_def execute_apply is_success_or_partial_def is_success_def severity_def status_defs Let_def)
next
  case (3 N tid fid h piece p ps)
  then obtain f where "fuel = Suc f" by (cases fuel) auto
  with 3 show ?case
    by (auto simp: answers_read_def execute_apply is_success_or_partial_def is_success_def severity_def status_defs Let_def)
qed simp

text \<open>The fragments of a response: each with its part of the stub and the pieces it arrives in.\<close>

fun serves_fragments :: "peer \<Rightarrow> tree_id \<Rightarrow> file_id \<Rightarrow> history \<Rightarrow> (bytes \<times> bytes list) list \<Rightarrow> bool" where
  "serves_fragments N tid fid h [] = False"
| "serves_fragments N tid fid h [(part, pieces)] =
     (pipe_serves N tid fid h pieces \<and> concat pieces = response_pdu True part)"
| "serves_fragments N tid fid h ((part, pieces) # fr # frs) =
     (pipe_serves N tid fid h pieces \<and> concat pieces = response_pdu False part \<and>
      serves_fragments N tid fid (h @ pipe_reads tid fid pieces) (fr # frs))"

lemma read_fragments_serves:
  "serves_fragments N tid fid h frags \<Longrightarrow> \<forall>(part, pieces)\<in>set frags. length part < 65512 \<and> length pieces + length frags \<le> fuel \<Longrightarrow>
   read_fragments fuel N tid fid stub h =
     Some (Ok (stub @ concat (map fst frags)), h @ concat (map (pipe_reads tid fid \<circ> snd) frags))"
proof (induction N tid fid h frags arbitrary: stub fuel rule: serves_fragments.induct)
  case (2 N tid fid h part pieces)
  then obtain f where f: "fuel = Suc f" by (cases fuel) auto
  from 2 f have "read_pipe_message f N tid fid h = Some (Ok (response_pdu True part), h @ pipe_reads tid fid pieces)"
    unfolding read_pipe_message_def by (subst read_pipe_loop_serves) auto
  with 2 f show ?case by (simp add: fbind_Ok response_fragment_parses)
next
  case (3 N tid fid h part pieces fr frs)
  then obtain f where f: "fuel = Suc f" by (cases fuel) auto
  from 3 f have "read_pipe_message f N tid fid h = Some (Ok (response_pdu False part), h @ pipe_reads tid fid pieces)"
    unfolding read_pipe_message_def by (subst read_pipe_loop_serves) auto
  moreover have "read_fragments f N tid fid (stub @ part) (h @ pipe_reads tid fid pieces) =
      Some (Ok ((stub @ part) @ concat (map fst (fr # frs))), (h @ pipe_reads tid fid pieces) @ concat (map (pipe_reads tid fid \<circ> snd) (fr # frs)))"
    by (rule "3.IH") (use 3 f in auto)
  ultimately show ?case using 3 f by (simp add: fbind_Ok response_fragment_parses)
qed simp

definition answers_write :: "peer \<Rightarrow> tree_id \<Rightarrow> file_id \<Rightarrow> history \<Rightarrow> bytes \<Rightarrow> bool" where
  "answers_write N tid fid h data \<longleftrightarrow>
     (\<exists>fr resp. pe_answer N h (pipe_write_op tid fid data) = Ok fr \<and> frame_status fr = STATUS_SUCCESS \<and>
        run_reader unpack_write_response (fr_body fr) = Ok resp)"

lemma write_pipe_answered: "answers_write N tid fid h data \<Longrightarrow> write_pipe N tid fid data h = (Ok (), h @ [Sent (pipe_write_op tid fid data)])"
  by (auto simp: answers_write_def write_pipe_def abind_def execute_apply expect_success_def parse_body_def)

abbreviation bind_bytes :: bytes where
  "bind_bytes \<equiv> packed (build_srvsvc_bind 1)"

abbreviation enum_bytes :: "peer \<Rightarrow> bytes" where
  "enum_bytes N \<equiv> packed (build_net_share_enum_all 2 ([BACKSLASH, BACKSLASH] @ pe_server_name N))"

text \<open>
  A server that speaks the protocol over the pipe: it accepts the BIND with \<open>bind_ack_pdu addr\<close>, in the
  pieces \<open>ack\<close>, and answers the request with the fragments \<open>frags\<close>.
\<close>

definition serves_enum ::
    "peer \<Rightarrow> tree_id \<Rightarrow> file_id \<Rightarrow> history \<Rightarrow> bytes \<Rightarrow> bytes list \<Rightarrow> (bytes \<times> bytes list) list \<Rightarrow> bool" where
  "serves_enum N tid fid h addr ack frags \<longleftrightarrow>
     (let h1 = h @ [Sent (pipe_write_op tid fid bind_bytes)];
          h2 = h1 @ pipe_reads tid fid ack;
          h3 = h2 @ [Sent (pipe_write_op tid fid (enum_bytes N))]
      in answers_write N tid fid h bind_bytes \<and> pipe_serves N tid fid h1 ack \<and> concat ack = bind_ack_pdu addr \<and>
         length addr < 65536 \<and> answers_write N tid fid h2 (enum_bytes N) \<and> serves_fragments N tid fid h3 frags)"

definition enum_events :: "peer \<Rightarrow> tree_id \<Rightarrow> file_id \<Rightarrow> bytes list \<Rightarrow> (bytes \<times> bytes list) list \<Rightarrow> event list" where
  "enum_events N tid fid ack frags =
     Sent (pipe_write_op tid fid bind_bytes) # pipe_reads tid fid ack @ Sent (pipe_write_op tid fid (enum_bytes N)) #
     concat (map (pipe_reads tid fid \<circ> snd) frags)"

definition enough_fuel :: "nat \<Rightarrow> bytes list \<Rightarrow> (bytes \<times> bytes list) list \<Rightarrow> bool" where
  "enough_fuel fuel ack frags \<longleftrightarrow>
     length ack \<le> fuel \<and> (\<forall>(part, pieces)\<in>set frags. length part < 65512 \<and> length pieces + length frags \<le> fuel)"

lemma rpc_exchange_served:
  assumes "serves_enum N tid fid h addr ack frags" and "enough_fuel fuel ack frags"
    and "concat (map fst frags) = enum_reply shares post" and "list_all wf_share shares" and "length shares < 4294967296"
  shows "rpc_bind_and_request fuel N tid fid h = Some (Ok shares, h @ enum_events N tid fid ack frags)"
proof -
  define h1 where "h1 = h @ [Sent (pipe_write_op tid fid bind_bytes)]"
  define h2 where "h2 = h1 @ pipe_reads tid fid ack"
  define h3 where "h3 = h2 @ [Sent (pipe_write_op tid fid (enum_bytes N))]"
  note s = assms(1) [unfolded serves_enum_def Let_def, folded h1_def, folded h2_def, folded h3_def]
  have ack: "read_pipe_message fuel N tid fid h1 = Some (Ok (bind_ack_pdu addr), h2)"
    using s assms(2) unfolding read_pipe_message_def h2_def by (subst read_pipe_loop_serves) (auto simp: enough_fuel_def)
  have frags: "read_fragments fuel N tid fid [] h3 =
      Some (Ok (enum_reply shares post), h3 @ concat (map (pipe_reads tid fid \<circ> snd) frags))"
    using read_fragments_serves [of N tid fid h3 frags fuel "[]"] s assms(2,3) by (simp add: enough_fuel_def)
  have "rpc_bind_and_request fuel N tid fid h = Some (Ok shares, h3 @ concat (map (pipe_reads tid fid \<circ> snd) frags))"
    using s write_pipe_answered [of N tid fid h bind_bytes, folded h1_def]
      write_pipe_answered [of N tid fid h2 "enum_bytes N", folded h3_def]
    by (simp add: rpc_bind_and_request_def fbind_Ok [where m = "read_pipe_message fuel N tid fid", OF ack]
        fbind_Ok [where m = "read_fragments fuel N tid fid []", OF frags] bind_ack_accepted enum_reply_parses assms(4,5))
  then show ?thesis by (simp add: enum_events_def h3_def h2_def h1_def)
qed

text \<open>
  Whatever happens in between, the pipe is closed and IPC$ disconnected, in this order; only the
  answers to these two requests have no influence.
\<close>

lemma pipe_exchange_opened:
  assumes "open_srvsvc_pipe N tid h = (Ok fid, h1)" and "rpc_bind_and_request fuel N tid fid h1 = Some (r, h2)"
    and "r \<noteq> Panic" and "fst (close_pipe N tid fid h2) \<noteq> Panic"
  shows "pipe_rpc_exchange fuel N tid h = Some (r, h2 @ [Sent (pipe_close_op tid fid)])"
proof -
  obtain c h3 where c: "close_pipe N tid fid h2 = (c, h3)" by fastforce
  have "snd (close_pipe N tid fid h2) = h2 @ [Sent (pipe_close_op tid fid)]"
    by (auto simp: close_pipe_def abind_def execute_apply expect_success_def split: result.split)
  with c assms show ?thesis
    by (cases r; cases c) (simp_all add: pipe_rpc_exchange_def fbind_def fattempt_def flift_def attempt_def)
qed

lemma list_shares_connected:
  assumes "tree_connect_ipc N h = (Ok tid, h1)" and "pipe_rpc_exchange fuel N tid h1 = Some (r, h2)"
    and "r \<noteq> Panic" and "fst (ipc_disconnect N tid h2) \<noteq> Panic"
  shows "list_shares fuel N h =
     Some (result_bind r (\<lambda>shares. Ok (filter_disk_shares shares)), h2 @ [Sent (ipc_disconnect_op tid)])"
proof -
  obtain d h3 where d: "ipc_disconnect N tid h2 = (d, h3)" by fastforce
  with assms snd_ipc_disconnect [of N tid h2] show ?thesis
    by (cases r; cases d) (simp_all add: list_shares_def fbind_def fattempt_def flift_def attempt_def)
qed

text \<open>
  C18: Listing shares is complete and cleans up. Take a server that announces any shares, cuts the
  reply into any RPC fragments and each fragment into any pieces of pipe messages. With fuel for the
  longest of these, the listing returns exactly the announced shares that are ordinary disk shares,
  in order; and the requests sent are exactly the connect to IPC$, the open, the BIND, the request
  with one READ for each piece, the CLOSE and the disconnect, whatever the last two are answered.
\<close>

theorem share_listing_complete:
  assumes "tree_connect_ipc N h = (Ok tid, h1)" and "open_srvsvc_pipe N tid h1 = (Ok fid, h2)"
    and "serves_enum N tid fid h2 addr ack frags" and "enough_fuel fuel ack frags"
    and "concat (map fst frags) = enum_reply shares post" and "list_all wf_share shares" and "length shares < 4294967296"
    and "\<forall>k. pe_answer N k (pipe_close_op tid fid) \<noteq> Panic \<and> pe_answer N k (ipc_disconnect_op tid) \<noteq> Panic"
  shows "list_shares fuel N h =
     Some (Ok (filter keeps_share shares),
           h @ [Sent (ipc_connect_op N), Sent (pipe_create_op tid)] @ enum_events N tid fid ack frags
             @ [Sent (pipe_close_op tid fid), Sent (ipc_disconnect_op tid)])"
proof -
  have h1: "h1 = h @ [Sent (ipc_connect_op N)]" using snd_tree_connect_ipc [of N h] assms(1) by simp
  have "snd (open_srvsvc_pipe N tid h1) = h1 @ [Sent (pipe_create_op tid)]"
    by (auto simp: open_srvsvc_pipe_def abind_def execute_apply expect_success_def parse_body_def split: result.split prod.split)
  with assms(2) have h2: "h2 = h1 @ [Sent (pipe_create_op tid)]" by simp
  have c: "fst (close_pipe N tid fid k) \<noteq> Panic" "fst (ipc_disconnect N tid k) \<noteq> Panic" for k
    using assms(8) by (auto simp: close_pipe_def ipc_disconnect_def abind_def execute_apply expect_success_def split: result.split)
  show ?thesis
    using list_shares_connected [OF assms(1) pipe_exchange_opened [OF assms(2) rpc_exchange_served [OF assms(3-7)] _ c(1)] _ c(2)]
    by (simp add: filter_disk_shares_def h1 h2)
qed

text \<open>A server with a disk share and the administrative one, whose reply comes in two pieces.\<close>

definition sample_shares :: "share_info list" where
  "sample_shares =
     [\<lparr>si_name = [100], si_share_type = 0, si_comment = []\<rparr>, \<lparr>si_name = [67, 36], si_share_type = 0x80000000, si_comment = []\<rparr>]"

definition sample_enum_pdu :: bytes where
  "sample_enum_pdu = response_pdu True (enum_reply sample_shares [])"

definition pipe_piece :: "nat \<Rightarrow> nt_status \<times> bytes" where
  "pipe_piece k =
     (if k = 0 then (STATUS_SUCCESS, bind_ack_pdu [])
      else if k = 1 then (STATUS_BUFFER_OVERFLOW, take 10 sample_enum_pdu)
      else (STATUS_SUCCESS, drop 10 sample_enum_pdu))"

fun count_reads :: "history \<Rightarrow> nat" where
  "count_reads [] = 0"
| "count_reads (Sent r # h) = (case rq_body r of ReadB _ \<Rightarrow> 1 | _ \<Rightarrow> 0) + count_reads h"
| "count_reads (_ # h) = count_reads h"

lemma count_reads_append [simp]: "count_reads (h @ k) = count_reads h + count_reads k"
  by (induction h rule: count_reads.induct) simp_all

definition pipe_reply :: "nt_status \<times> bytes \<Rightarrow> frame" where
  "pipe_reply sp = reply Read (fst sp) (packed (pack_read_response
     \<lparr>rdr_data_offset = 0x50, rdr_data_remaining = 0, rdr_flags = 0, rdr_data = snd sp\<rparr>))"

definition shares_peer :: peer where
  "shares_peer =
     \<lparr>pe_params = None, pe_server_name = [100],
      pe_answer = (\<lambda>h rq. Ok (case rq_body rq of
         TreeConnectB _ \<Rightarrow>
           (let fr = reply TreeConnect STATUS_SUCCESS (packed (pack_tree_connect_response
              \<lparr>tcr_share_type = Pipe, tcr_share_flags = 0, tcr_capabilities = 0, tcr_maximal_access = 0\<rparr>))
            in fr\<lparr>fr_header := (fr_header fr)\<lparr>hdr_tree_id := Some 5\<rparr>\<rparr>)
       | CreateB _ \<Rightarrow> reply Create STATUS_SUCCESS (packed (pack_create_response (created_file SENTINEL 0)))
       | WriteB _ \<Rightarrow> reply Write STATUS_SUCCESS (packed (pack_write_response
            \<lparr>wrr_count = 0, wrr_remaining = 0, wrr_write_channel_info_offset = 0, wrr_write_channel_info_length = 0\<rparr>))
       | ReadB _ \<Rightarrow> pipe_reply (pipe_piece (count_reads h))
       | _ \<Rightarrow> reply Close STATUS_ACCESS_DENIED [])),
      pe_answers = (\<lambda>_ _. Err Disconnected), pe_next = (\<lambda>_. 0)\<rparr>"

lemma sample_shares_wf: "list_all wf_share sample_shares"
  by (simp add: sample_shares_def wf_share_def plain_str_def valid_str_def is_char_def encode_utf16_def encode_utf16_char_def)

lemma sample_enum_length: "length (enum_reply sample_shares []) < 200"
  by (simp add: enum_reply_def sample_shares_def share_entry_def ndr_string_def Let_def encode_utf16_def encode_utf16_char_def)

lemma pipe_piece_length: "length (snd (pipe_piece k)) \<le> MAX_UNPACK_BUFFER"
proof -
  have "length sample_enum_pdu < 300"
    using sample_enum_length by (simp add: sample_enum_pdu_def response_pdu_def)
  moreover have "length (bind_ack_pdu []) < 100"
    by (simp add: bind_ack_pdu_def packed_def run_writer_def pack_guid_def wr_simps NDR_UUID_def)
  ultimately show ?thesis by (auto simp: pipe_piece_def MAX_UNPACK_BUFFER_def)
qed

lemma shares_peer_reads:
  "pipe_piece (count_reads h) = (st, piece) \<Longrightarrow> answers_read shares_peer tid fid h st piece"
proof -
  assume p: "pipe_piece (count_reads h) = (st, piece)"
  have "run_reader unpack_read_response (fr_body (pipe_reply (st, piece))) =
      Ok \<lparr>rdr_data_offset = 0x50, rdr_data_remaining = 0, rdr_flags = 0, rdr_data = piece\<rparr>"
    unfolding pipe_reply_def reply_simps
    by (rule packed_parses, simp only: snd_conv, rule read_response.run_roundtrip)
      (use pipe_piece_length [of "count_reads h"] p in \<open>simp add: wf_read_response_def\<close>)
  then show ?thesis using p by (simp add: answers_read_def shares_peer_def) (simp add: pipe_reply_def)
qed

lemma shares_peer_writes: "answers_write shares_peer tid fid h data"
proof -
  have "run_reader unpack_write_response (packed (pack_write_response wr)) = Ok wr" for wr
    by (intro packed_parses write_response.run_roundtrip) simp
  then show ?thesis by (simp add: answers_write_def shares_peer_def)
qed

theorem share_listing_complete_witness:
  "\<exists>k. list_shares 5 shares_peer [] = Some (Ok [\<lparr>si_name = [100], si_share_type = 0, si_comment = []\<rparr>], k)"
proof -
  have tc: "run_reader unpack_tree_connect_response (packed (pack_tree_connect_response tc)) = Ok tc" for tc
    by (intro packed_parses tree_connect_response.run_roundtrip) simp
  have connect: "tree_connect_ipc shares_peer [] = (Ok 5, [Sent (ipc_connect_op shares_peer)])"
    by (simp add: tree_connect_ipc_def abind_def execute_apply expect_success_def parse_body_def shares_peer_def Let_def tc
        reply_def new_request_def)
  have "open": "open_srvsvc_pipe shares_peer 5 [Sent (ipc_connect_op shares_peer)] =
      (Ok SENTINEL, [Sent (ipc_connect_op shares_peer), Sent (pipe_create_op 5)])"
    using created_parses [of SENTINEL 0]
    by (simp add: open_srvsvc_pipe_def abind_def execute_apply expect_success_def parse_body_def shares_peer_def)
  let ?frags = "[(enum_reply sample_shares [], [take 10 sample_enum_pdu, drop 10 sample_enum_pdu])]"
  have serves: "serves_enum shares_peer 5 SENTINEL [Sent (ipc_connect_op shares_peer), Sent (pipe_create_op 5)] [] [bind_ack_pdu []] ?frags"
    unfolding serves_enum_def Let_def
    by (auto simp: shares_peer_writes pipe_piece_def sample_enum_pdu_def response_pdu_def intro!: shares_peer_reads)
  have fuel: "enough_fuel 5 [bind_ack_pdu []] ?frags"
    using sample_enum_length by (simp add: enough_fuel_def)
  have "filter keeps_share sample_shares = [\<lparr>si_name = [100], si_share_type = 0, si_comment = []\<rparr>]"
    by (simp add: sample_shares_def keeps_share_def Let_def STYPE_BASE_MASK_def STYPE_DISKTREE_def STYPE_SPECIAL_def)
  with share_listing_complete [OF connect "open" serves fuel _ sample_shares_wf, of "[]"] show ?thesis
    by (auto simp: shares_peer_def sample_shares_def)
qed

end
