(* ===== verification/Smb_Watcher.thy ===== *)
theory Smb_Watcher
  imports Smb_Tree
begin

text \<open>
  \<open>src/client/watcher.rs\<close>: watching a directory with CHANGE_NOTIFY. One request is always sent ahead of
  the one that is awaited, and a request that has been waiting too long is replaced.

  What the watcher observes of its connection is a \<open>watch_env\<close>: the outcome of a dispatch, of the wait
  for a response (\<open>await_long_poll_refreshable\<close>, whose deadlines are in \<open>Smb_Inner\<close>), and of a look at a
  response that may already be there, each after a given history.
\<close>

section \<open>Definitions\<close>

definition SMB2_WATCH_TREE :: u16 where "SMB2_WATCH_TREE = 0x0001"

definition DEFAULT_COMPLETION_FILTER :: u32 where
  "DEFAULT_COMPLETION_FILTER = 0x00000001 OR 0x00000002 OR 0x00000004 OR 0x00000008 OR 0x00000010 OR 0x00000040"

definition OUTPUT_BUFFER_LENGTH :: u32 where "OUTPUT_BUFFER_LENGTH = 65536"

datatype file_notify_action = Added | Removed | Modified | RenamedOldName | RenamedNewName

definition file_notify_action_from_u32 :: "u32 \<Rightarrow> file_notify_action res" where
  "file_notify_action_from_u32 v =
     (if v = 1 then Ok Added
      else if v = 2 then Ok Removed
      else if v = 3 then Ok Modified
      else if v = 4 then Ok RenamedOldName
      else if v = 5 then Ok RenamedNewName
      else Err (InvalidData (Malformed ''unknown FILE_NOTIFY_INFORMATION action'' [unat v])))"

record file_notify_event =
  fne_action :: file_notify_action
  fne_filename :: rstring

definition decode_utf16le :: "bytes \<Rightarrow> rstring res" where
  "decode_utf16le bs =
     (if length bs mod 2 \<noteq> 0 then Err (InvalidData (Malformed ''UTF-16LE filename has odd byte count'' []))
      else map_err (\<lambda>_. InvalidData (Malformed ''invalid UTF-16LE filename'' [])) (from_utf16 (u16_chunks bs)))"

text \<open>The loop over the chain of entries; \<open>offset\<close> grows by a non-zero amount in every round.\<close>

function parse_notify_loop :: "bytes \<Rightarrow> usize \<Rightarrow> file_notify_event list \<Rightarrow> file_notify_event list res" where
  "parse_notify_loop data offset events =
     (if offset + 12 > length data
      then Err (InvalidData (Malformed ''FILE_NOTIFY_INFORMATION truncated: not enough bytes for fixed fields'' []))
      else result_bind (le_at 4 data offset) (\<lambda>next_field :: u32.
           result_bind (le_at 4 data (offset + 4)) (\<lambda>action_raw :: u32.
           result_bind (le_at 4 data (offset + 8)) (\<lambda>length_field :: u32.
           let next_entry_offset = unat next_field; filename_length = unat length_field;
               filename_start = offset + 12; filename_end = filename_start + filename_length in
           if filename_end > length data
           then Err (InvalidData (Malformed ''FILE_NOTIFY_INFORMATION filename extends beyond buffer''
                       [filename_length, filename_start, length data]))
           else result_bind (slice data filename_start filename_end) (\<lambda>filename_bytes.
                result_bind (decode_utf16le filename_bytes) (\<lambda>wire_name.
                result_bind (file_notify_action_from_u32 action_raw) (\<lambda>action.
                let events' = events @ [\<lparr>fne_action = action, fne_filename = decode_path wire_name\<rparr>] in
                if next_entry_offset = 0 then Ok events'
                else parse_notify_loop data (offset + next_entry_offset) events')))))))"
  by pat_completeness auto
termination
  by (relation "measure (\<lambda>(data, offset, events). length data - offset)") auto

declare parse_notify_loop.simps [simp del]

definition parse_notify_information :: "bytes \<Rightarrow> file_notify_event list res" where
  "parse_notify_information data = (if data = [] then Ok [] else parse_notify_loop data 0 [])"

section \<open>The watcher\<close>

datatype watch_event =
    Armed change_notify_request message_id
      \<comment> \<open>a CHANGE_NOTIFY is on the wire and its waiter in the map\<close>
  | Gone message_id
      \<comment> \<open>its waiter is gone: answered, failed, or dropped\<close>
  | CancelSent message_id "u64 option"

datatype long_poll_outcome = PollAnswered frame | PollRefresh message_id "u64 option"

record watch_env =
  we_dispatch :: "watch_event list \<Rightarrow> message_id res"
  we_await :: "watch_event list \<Rightarrow> message_id \<Rightarrow> long_poll_outcome res"
  we_try_recv :: "watch_event list \<Rightarrow> message_id \<Rightarrow> frame option res"
  we_async_id :: "watch_event list \<Rightarrow> message_id \<Rightarrow> u64 option"

record watcher =
  wa_tree :: tree
  wa_file_id :: file_id
  wa_recursive :: bool
  wa_pending :: "message_id option"

definition watcher_new :: "tree \<Rightarrow> file_id \<Rightarrow> bool \<Rightarrow> watcher" where
  "watcher_new t fid recursive = \<lparr>wa_tree = t, wa_file_id = fid, wa_recursive = recursive, wa_pending = None\<rparr>"

definition tree_watch :: "peer \<Rightarrow> tree \<Rightarrow> rstring \<Rightarrow> bool \<Rightarrow> watcher act" where
  "tree_watch N t path recursive =
     abind (open_directory N t path) (\<lambda>fid. aret (watcher_new t fid recursive))"

definition notify_request :: "watcher \<Rightarrow> change_notify_request" where
  "notify_request w =
     \<lparr>cnq_flags = (if wa_recursive w then SMB2_WATCH_TREE else 0), cnq_output_buffer_length = OUTPUT_BUFFER_LENGTH,
      cnq_file_id = wa_file_id w, cnq_completion_filter = DEFAULT_COMPLETION_FILTER\<rparr>"

definition dispatch_next :: "watch_env \<Rightarrow> watcher \<Rightarrow> watch_event list \<Rightarrow> message_id res \<times> watch_event list" where
  "dispatch_next E w h =
     (case we_dispatch E h of
        Ok m \<Rightarrow> (Ok m, h @ [Armed (notify_request w) m])
      | Err e \<Rightarrow> (Err e, h)
      | Panic \<Rightarrow> (Panic, h))"

text \<open>A failed cancel is logged and forgotten.\<close>

definition retire :: "message_id \<Rightarrow> u64 option \<Rightarrow> watch_event list \<Rightarrow> watch_event list" where
  "retire m async_id h = h @ [CancelSent m async_id]"

text \<open>When the look at the sibling is an error, the sibling and then the fresh request are dropped.\<close>

definition refresh ::
    "watch_env \<Rightarrow> message_id \<Rightarrow> u64 option \<Rightarrow> watcher \<Rightarrow> watch_event list \<Rightarrow> frame option res \<times> watcher \<times> watch_event list" where
  "refresh E retired async_id w h =
     (case dispatch_next E w h of
        (Err e, h1) \<Rightarrow> (Err e, w, h1)
      | (Panic, h1) \<Rightarrow> (Panic, w, h1)
      | (Ok fresh, h1) \<Rightarrow>
          let h2 = retire retired async_id h1 in
          (case wa_pending w of
             None \<Rightarrow> (Ok None, w\<lparr>wa_pending := Some fresh\<rparr>, h2)
           | Some sibling \<Rightarrow>
               let sibling_async = we_async_id E h2 sibling in
               (case we_try_recv E h2 sibling of
                  Err e \<Rightarrow> (Err e, w\<lparr>wa_pending := None\<rparr>, h2 @ [Gone sibling, Gone fresh])
                | Panic \<Rightarrow> (Panic, w\<lparr>wa_pending := None\<rparr>, h2 @ [Gone sibling, Gone fresh])
                | Ok (Some fr) \<Rightarrow> (Ok (Some fr), w\<lparr>wa_pending := Some fresh\<rparr>, h2 @ [Gone sibling])
                | Ok None \<Rightarrow>
                    (Ok None, w\<lparr>wa_pending := Some fresh\<rparr>, retire sibling sibling_async (h2 @ [Gone sibling])))))"

text \<open>The part of the loop before the wait: the request to wait for, with the next one already sent.\<close>

definition arm :: "watch_env \<Rightarrow> watcher \<Rightarrow> watch_event list \<Rightarrow> message_id res \<times> watcher \<times> watch_event list" where
  "arm E w h =
     (case (case wa_pending w of None \<Rightarrow> dispatch_next E w h | Some m \<Rightarrow> (Ok m, h)) of
        (Err e, h1) \<Rightarrow> (Err e, w, h1)
      | (Panic, h1) \<Rightarrow> (Panic, w, h1)
      | (Ok in_flight, h1) \<Rightarrow>
          (case dispatch_next E w h1 of
             (Ok next_rx, h2) \<Rightarrow> (Ok in_flight, w\<lparr>wa_pending := Some next_rx\<rparr>, h2)
           | (Err e, h2) \<Rightarrow> (Err e, w\<lparr>wa_pending := None\<rparr>, h2 @ [Gone in_flight])
           | (Panic, h2) \<Rightarrow> (Panic, w\<lparr>wa_pending := None\<rparr>, h2 @ [Gone in_flight])))"

text \<open>One round of the loop.\<close>

definition watch_round ::
    "watch_env \<Rightarrow> watcher \<Rightarrow> watch_event list \<Rightarrow> frame option res \<times> watcher \<times> watch_event list" where
  "watch_round E w h =
     (case arm E w h of
        (Err e, w1, h1) \<Rightarrow> (Err e, w1, h1)
      | (Panic, w1, h1) \<Rightarrow> (Panic, w1, h1)
      | (Ok in_flight, w1, h1) \<Rightarrow>
          (case we_await E h1 in_flight of
             Err e \<Rightarrow> (Err e, w1, h1 @ [Gone in_flight])
           | Panic \<Rightarrow> (Panic, w1, h1 @ [Gone in_flight])
           | Ok (PollAnswered fr) \<Rightarrow> (Ok (Some fr), w1, h1 @ [Gone in_flight])
           | Ok (PollRefresh m async_id) \<Rightarrow> refresh E m async_id w1 (h1 @ [Gone in_flight])))"

fun next_frame ::
    "nat \<Rightarrow> watch_env \<Rightarrow> watcher \<Rightarrow> watch_event list \<Rightarrow> (frame res \<times> watcher \<times> watch_event list) option" where
  "next_frame 0 E w h = None"
| "next_frame (Suc fuel) E w h =
     (case watch_round E w h of
        (Err e, w', h') \<Rightarrow> Some (Err e, w', h')
      | (Panic, w', h') \<Rightarrow> Some (Panic, w', h')
      | (Ok (Some fr), w', h') \<Rightarrow> Some (Ok fr, w', h')
      | (Ok None, w', h') \<Rightarrow> next_frame fuel E w' h')"

text \<open>The end of \<open>next_events\<close>; STATUS_NOTIFY_ENUM_DIR is refused with the error of every other status.\<close>

definition events_of_frame :: "frame \<Rightarrow> file_notify_event list res" where
  "events_of_frame fr =
     (if frame_status fr \<noteq> STATUS_SUCCESS then Err (Protocol (frame_status fr) ChangeNotify)
      else result_bind (run_reader unpack_change_notify_response (fr_body fr)) (\<lambda>resp.
           parse_notify_information (cnr_output_data resp)))"

definition next_events ::
    "nat \<Rightarrow> watch_env \<Rightarrow> watcher \<Rightarrow> watch_event list \<Rightarrow> (file_notify_event list res \<times> watcher \<times> watch_event list) option" where
  "next_events fuel E w h = map_option (\<lambda>(r, w', h'). (result_bind r events_of_frame, w', h')) (next_frame fuel E w h)"

definition watcher_close :: "peer \<Rightarrow> watcher \<Rightarrow> unit act" where
  "watcher_close N w = close_handle N (wa_tree w) (wa_file_id w)"

section \<open>The chain of entries\<close>

lemma parse_notify_no_panic: "parse_notify_information data \<noteq> Panic"
proof -
  have "parse_notify_loop data offset events \<noteq> Panic" for offset events
  proof (induction data offset events rule: parse_notify_loop.induct)
    case (1 data offset events)
    show ?case
    proof (cases "offset + 12 > length data")
      case False
      obtain a b c :: u32 where abc: "(le_at 4 data offset :: u32 res) = Ok a" "(le_at 4 data (offset + 4) :: u32 res) = Ok b"
        "(le_at 4 data (offset + 8) :: u32 res) = Ok c"
        using le_at_cases [of offset 4 data] le_at_cases [of "offset + 4" 4 data] le_at_cases [of "offset + 8" 4 data] False by force
      have "decode_utf16le bs \<noteq> Panic" for bs
        by (simp add: decode_utf16le_def from_utf16_def split: option.split)
      moreover have "file_notify_action_from_u32 v \<noteq> Panic" for v by (simp add: file_notify_action_from_u32_def)
      ultimately show ?thesis
        using 1 [OF False abc refl refl refl refl] False abc
        by (auto simp: parse_notify_loop.simps [of data offset] Let_def result_bind_eq_Panic slice_def)
    qed (simp add: parse_notify_loop.simps [of data offset])
  qed
  then show ?thesis by (simp add: parse_notify_information_def)
qed

text \<open>What a server sends for a list of changes (MS-FSCC 2.4.42): every entry padded to four bytes.\<close>

fun action_code :: "file_notify_action \<Rightarrow> u32" where
  "action_code Added = 1"
| "action_code Removed = 2"
| "action_code Modified = 3"
| "action_code RenamedOldName = 4"
| "action_code RenamedNewName = 5"

definition notify_entry :: "u32 \<Rightarrow> file_notify_action \<times> rstring \<Rightarrow> bytes" where
  "notify_entry next_offset e =
     to_le_bytes next_offset @ to_le_bytes (action_code (fst e)) @ to_le_bytes (word_of_nat (2 * length (encode_utf16 (snd e))) :: u32)
     @ utf16_le_bytes (snd e)"

definition entry_size :: "file_notify_action \<times> rstring \<Rightarrow> nat" where
  "entry_size e = (let n = 12 + 2 * length (encode_utf16 (snd e)) in n + pad_len 4 n)"

fun notify_chain :: "(file_notify_action \<times> rstring) list \<Rightarrow> bytes" where
  "notify_chain [] = []"
| "notify_chain [e] = notify_entry 0 e"
| "notify_chain (e # f # es) =
     notify_entry (word_of_nat (entry_size e)) e @ replicate (pad_len 4 (12 + 2 * length (encode_utf16 (snd e)))) 0
     @ notify_chain (f # es)"

lemma action_from_code [simp]: "file_notify_action_from_u32 (action_code a) = Ok a"
  by (cases a) (simp_all add: file_notify_action_from_u32_def)

lemma decode_utf16le_of: "valid_str s \<Longrightarrow> decode_utf16le (utf16_le_bytes s) = Ok s"
  by (simp add: decode_utf16le_def from_utf16_def utf16_le_bytes_def length_concat_u16 decode_encode_utf16)

lemma le_at_4_pre: "length pre = off \<Longrightarrow> (le_at 4 (pre @ to_le_bytes (x :: u32) @ post) off :: u32 res) = Ok x"
  by simp

lemma parse_notify_entry:
  assumes "valid_str (snd e)" and "length (encode_utf16 (snd e)) < 2 ^ 30"
  shows "parse_notify_loop (pre @ notify_entry n e @ post) (length pre) events =
    (let events' = events @ [\<lparr>fne_action = fst e, fne_filename = decode_path (snd e)\<rparr>] in
     if unat n = 0 then Ok events' else parse_notify_loop (pre @ notify_entry n e @ post) (length pre + unat n) events')"
proof -
  let ?len = "word_of_nat (2 * length (encode_utf16 (snd e))) :: u32" and ?data = "pre @ notify_entry n e @ post"
  have l: "unat ?len = 2 * length (encode_utf16 (snd e))"
    by (rule unat_of_nat_u32) (use assms(2) in simp)
  have d: "?data = pre @ to_le_bytes n @ (to_le_bytes (action_code (fst e)) @ to_le_bytes ?len @ utf16_le_bytes (snd e) @ post)"
    "?data = (pre @ to_le_bytes n) @ to_le_bytes (action_code (fst e)) @ (to_le_bytes ?len @ utf16_le_bytes (snd e) @ post)"
    "?data = (pre @ to_le_bytes n @ to_le_bytes (action_code (fst e))) @ to_le_bytes ?len @ (utf16_le_bytes (snd e) @ post)"
    "?data = (pre @ to_le_bytes n @ to_le_bytes (action_code (fst e)) @ to_le_bytes ?len) @ utf16_le_bytes (snd e) @ post"
    by (simp_all add: notify_entry_def)
  have f: "(le_at 4 ?data (length pre) :: u32 res) = Ok n" "(le_at 4 ?data (length pre + 4) :: u32 res) = Ok (action_code (fst e))"
    "(le_at 4 ?data (length pre + 8) :: u32 res) = Ok ?len"
    using le_at_4_pre [of pre] le_at_4_pre [of "pre @ to_le_bytes n"] le_at_4_pre [of "pre @ to_le_bytes n @ to_le_bytes (action_code (fst e))"]
    by (simp_all only: d(1)) (simp_all add: d(1) [symmetric] d(2,3))
  have s: "slice ?data (length pre + 12) (length pre + 12 + 2 * length (encode_utf16 (snd e))) = (Ok (utf16_le_bytes (snd e)) :: bytes res)"
    unfolding d(4) by (rule slice_at) simp_all
  have "\<not> length ?data < length pre + 12" "\<not> length ?data < length pre + 12 + 2 * length (encode_utf16 (snd e))"
    by (simp_all add: notify_entry_def)
  then show ?thesis
    using f s decode_utf16le_of [OF assms(1)] l
    by (subst parse_notify_loop.simps) (simp add: Let_def)
qed

lemma notify_entry_length: "length (notify_entry n e) = 12 + 2 * length (encode_utf16 (snd e))"
  by (simp add: notify_entry_def utf16_le_bytes_def length_concat_u16)

definition notify_event :: "file_notify_action \<times> rstring \<Rightarrow> file_notify_event" where
  "notify_event e = \<lparr>fne_action = fst e, fne_filename = decode_path (snd e)\<rparr>"

definition sendable :: "file_notify_action \<times> rstring \<Rightarrow> bool" where
  "sendable e \<longleftrightarrow> valid_str (snd e) \<and> length (encode_utf16 (snd e)) < 2 ^ 29"

lemma entry_size_word:
  assumes "sendable e"
  shows "unat (word_of_nat (entry_size e) :: u32) = entry_size e" and "entry_size e \<noteq> 0"
proof -
  have "pad_len 4 n < 4" for n by (simp add: pad_len_def)
  from this [of "12 + 2 * length (encode_utf16 (snd e))"] assms show "unat (word_of_nat (entry_size e) :: u32) = entry_size e"
    by (intro unat_of_nat_u32) (simp add: entry_size_def Let_def sendable_def)
qed (simp add: entry_size_def Let_def)

lemma parse_notify_chain_at:
  assumes "es \<noteq> []" and "list_all sendable es"
  shows "parse_notify_loop (pre @ notify_chain es) (length pre) events = Ok (events @ map notify_event es)"
  using assms
proof (induction es arbitrary: pre events rule: notify_chain.induct)
  case (2 e)
  then show ?case using parse_notify_entry [of e pre 0 "[]" events] by (simp add: sendable_def notify_event_def)
next
  case (3 e f es)
  let ?n = "word_of_nat (entry_size e) :: u32" and ?pad = "replicate (pad_len 4 (12 + 2 * length (encode_utf16 (snd e)))) (0 :: u8)"
  have n: "unat ?n = entry_size e" "entry_size e \<noteq> 0" using entry_size_word 3(3) by simp_all
  have len: "length (pre @ notify_entry ?n e @ ?pad) = length pre + entry_size e"
    by (simp add: notify_entry_length entry_size_def Let_def)
  have "parse_notify_loop (pre @ notify_chain (e # f # es)) (length pre) events =
      parse_notify_loop ((pre @ notify_entry ?n e @ ?pad) @ notify_chain (f # es)) (length pre + entry_size e) (events @ [notify_event e])"
    using parse_notify_entry [of e pre ?n "?pad @ notify_chain (f # es)" events] 3(3) n by (simp add: sendable_def notify_event_def)
  also have "\<dots> = Ok ((events @ [notify_event e]) @ map notify_event (f # es))"
    unfolding len [symmetric] by (rule 3(1)) (use 3(3) in simp_all)
  finally show ?case by simp
qed simp

lemma notify_entry_not_Nil [simp]: "notify_entry n e \<noteq> []"
proof
  assume "notify_entry n e = []"
  with notify_entry_length [of n e] show False by simp
qed

lemma notify_chain_not_Nil: "es \<noteq> [] \<Longrightarrow> notify_chain es \<noteq> []"
  by (cases es rule: notify_chain.cases) simp_all

lemma parse_notify_chain:
  "list_all sendable es \<Longrightarrow> parse_notify_information (notify_chain es) = Ok (map notify_event es)"
  using parse_notify_chain_at [of es "[]" "[]"] by (cases "es = []") (simp_all add: parse_notify_information_def notify_chain_not_Nil)

section \<open>What is outstanding\<close>

text \<open>The waiters registered for CHANGE_NOTIFY requests, in the order they were sent.\<close>

fun note_watch :: "watch_event \<Rightarrow> message_id list \<Rightarrow> message_id list" where
  "note_watch (Armed q m) ms = ms @ [m]"
| "note_watch (Gone m) ms = remove1 m ms"
| "note_watch (CancelSent m a) ms = ms"

definition outstanding :: "watch_event list \<Rightarrow> message_id list" where
  "outstanding h = fold note_watch h []"

definition pending_list :: "watcher \<Rightarrow> message_id list" where
  "pending_list w = (case wa_pending w of None \<Rightarrow> [] | Some m \<Rightarrow> [m])"

text \<open>From the first event of \<open>k\<close> on, one or two requests are outstanding.\<close>

definition armed_through :: "watch_event list \<Rightarrow> watch_event list \<Rightarrow> bool" where
  "armed_through h k \<longleftrightarrow> (\<forall>j \<in> {1..length k}. length (outstanding (h @ take j k)) \<in> {1, 2})"

lemma outstanding_snoc [simp]: "outstanding (h @ [e]) = note_watch e (outstanding h)"
  by (simp add: outstanding_def)

lemma outstanding_app: "outstanding (h @ k) = fold note_watch k (outstanding h)"
  by (simp add: outstanding_def)

lemma armed_through_Nil [simp]: "armed_through h []"
  by (simp add: armed_through_def)

lemma armed_through_Cons:
  "armed_through h (e # k) \<longleftrightarrow> length (outstanding (h @ [e])) \<in> {1, 2} \<and> armed_through (h @ [e]) k"
proof -
  have "{1..length (e # k)} = insert 1 (Suc ` {1..length k})"
    by (simp add: image_Suc_atLeastAtMost) auto
  then show ?thesis by (simp add: armed_through_def del: image_Suc_atLeastAtMost length_Cons)
qed

lemma armed_through_append: "armed_through h (k @ l) \<longleftrightarrow> armed_through h k \<and> armed_through (h @ k) l"
  by (induction k arbitrary: h) (simp_all add: armed_through_Cons)

lemmas armed_simps = armed_through_append armed_through_Cons outstanding_app pending_list_def

lemma dispatch_next_cases:
  obtains m where "dispatch_next E w h = (Ok m, h @ [Armed (notify_request w) m])" "we_dispatch E h = Ok m"
  | e where "dispatch_next E w h = (Err e, h)" "we_dispatch E h = Err e"
  | "dispatch_next E w h = (Panic, h)" "we_dispatch E h = Panic"
  by (cases "we_dispatch E h") (simp_all add: dispatch_next_def)

text \<open>A healthy connection: a request can be sent, and a look at a waiter finds an answer or nothing.\<close>

definition healthy :: "watch_env \<Rightarrow> bool" where
  "healthy E \<longleftrightarrow> (\<forall>h. \<exists>m. we_dispatch E h = Ok m) \<and> (\<forall>h m. \<exists>a. we_try_recv E h m = Ok a)"

lemma not_healthy:
  "we_dispatch E h = Err e \<Longrightarrow> \<not> healthy E" "we_dispatch E h = Panic \<Longrightarrow> \<not> healthy E"
  "we_try_recv E h m = Err e \<Longrightarrow> \<not> healthy E" "we_try_recv E h m = Panic \<Longrightarrow> \<not> healthy E"
  using result.distinct(1,3) unfolding healthy_def by (metis (no_types))+

definition kept_armed :: "watch_env \<Rightarrow> watch_event list \<Rightarrow> watcher \<Rightarrow> watch_event list \<Rightarrow> bool" where
  "kept_armed E h w' h' \<longleftrightarrow> outstanding h' = pending_list w' \<and>
     (\<exists>k. h' = h @ k \<and> (healthy E \<longrightarrow> armed_through h k \<and> wa_pending w' \<noteq> None))"

lemma kept_armedI:
  "h' = h @ k \<Longrightarrow> outstanding h' = pending_list w' \<Longrightarrow> (healthy E \<Longrightarrow> armed_through h k \<and> wa_pending w' \<noteq> None) \<Longrightarrow> kept_armed E h w' h'"
  by (auto simp: kept_armed_def)

lemma kept_armed_trans:
  assumes "kept_armed E h w1 h1" and "kept_armed E h1 w2 h2"
  shows "kept_armed E h w2 h2"
proof -
  obtain k l where k: "h1 = h @ k" "h2 = h1 @ l" "healthy E \<Longrightarrow> armed_through h k" "healthy E \<Longrightarrow> armed_through h1 l"
    using assms unfolding kept_armed_def by metis
  have w2: "outstanding h2 = pending_list w2" "healthy E \<Longrightarrow> wa_pending w2 \<noteq> None"
    using assms(2) by (auto simp: kept_armed_def)
  show ?thesis
    by (rule kept_armedI [of _ _ "k @ l", OF _ w2(1)]) (use k w2(2) in \<open>simp_all add: armed_through_append\<close>)
qed

text \<open>The second dispatch of \<^const>\<open>arm\<close>, with its first request out.\<close>

lemma arm_second_keeps:
  assumes "(case wa_pending w of None \<Rightarrow> dispatch_next E w h | Some m \<Rightarrow> (Ok m, h)) = (Ok m, h @ k)"
    and "armed_through h k" and "outstanding (h @ k) = [m]"
  shows "case arm E w h of
      (Ok m, w1, h1) \<Rightarrow> (\<exists>k next. h1 = h @ k \<and> armed_through h k \<and> outstanding h1 = [m, next] \<and> wa_pending w1 = Some next)
    | (_, w1, h1) \<Rightarrow> kept_armed E h w1 h1"
proof (cases rule: dispatch_next_cases [of E w "h @ k"])
  case (1 n)
  with assms(2,3) show ?thesis
    unfolding arm_def assms(1) by (auto simp: armed_simps)
next
  case (2 e)
  with assms(2,3) not_healthy(1) [OF 2(2)] show ?thesis
    unfolding arm_def assms(1) by (auto simp: armed_simps intro!: kept_armedI [of _ _ "k @ [Gone m]"])
next
  case 3
  with assms(2,3) not_healthy(2) [OF 3(2)] show ?thesis
    unfolding arm_def assms(1) by (auto simp: armed_simps intro!: kept_armedI [of _ _ "k @ [Gone m]"])
qed

lemma arm_keeps:
  assumes "outstanding h = pending_list w"
  shows "case arm E w h of
      (Ok m, w1, h1) \<Rightarrow> (\<exists>k next. h1 = h @ k \<and> armed_through h k \<and> outstanding h1 = [m, next] \<and> wa_pending w1 = Some next)
    | (_, w1, h1) \<Rightarrow> kept_armed E h w1 h1"
proof (cases "wa_pending w")
  case None
  show ?thesis
  proof (cases rule: dispatch_next_cases [of E w h])
    case (1 m)
    show ?thesis
      by (rule arm_second_keeps [of _ _ _ m "[Armed (notify_request w) m]"]) (use 1 None assms in \<open>simp_all add: armed_simps\<close>)
  next
    case (2 e)
    with not_healthy(1) [OF 2(2)] None assms show ?thesis
      by (auto simp: arm_def intro!: kept_armedI [of _ _ "[]"])
  next
    case 3
    with not_healthy(2) [OF 3(2)] None assms show ?thesis
      by (auto simp: arm_def intro!: kept_armedI [of _ _ "[]"])
  qed
next
  case (Some m)
  show ?thesis
    by (rule arm_second_keeps [of _ _ _ m "[]"]) (use Some assms in \<open>simp_all add: pending_list_def\<close>)
qed

lemma refresh_keeps:
  assumes "outstanding h = [s]" and "wa_pending w = Some s" and "refresh E m a w h = (r, w', h')"
  shows "kept_armed E h w' h'"
proof (cases rule: dispatch_next_cases [of E w h])
  case (1 fresh)
  let ?h = "h @ [Armed (notify_request w) fresh, CancelSent m a]"
  have h: "retire m a (h @ [Armed (notify_request w) fresh]) = ?h" by (simp add: retire_def)
  show ?thesis
  proof (cases "we_try_recv E ?h s")
    case (Ok ans)
    show ?thesis
    proof (cases ans)
      case None
      with 1 assms Ok show ?thesis
        by (intro kept_armedI [of _ _ "[Armed (notify_request w) fresh, CancelSent m a, Gone s, CancelSent s (we_async_id E ?h s)]"])
          (auto simp: refresh_def retire_def armed_simps)
    next
      case (Some fr)
      with 1 assms Ok show ?thesis
        by (intro kept_armedI [of _ _ "[Armed (notify_request w) fresh, CancelSent m a, Gone s]"])
          (auto simp: refresh_def retire_def armed_simps)
    qed
  next
    case (Err e)
    with not_healthy(3) [OF Err] 1 assms show ?thesis
      by (intro kept_armedI [of _ _ "[Armed (notify_request w) fresh, CancelSent m a, Gone s, Gone fresh]"])
        (auto simp: refresh_def h armed_simps)
  next
    case Panic
    with not_healthy(4) [OF Panic] 1 assms show ?thesis
      by (intro kept_armedI [of _ _ "[Armed (notify_request w) fresh, CancelSent m a, Gone s, Gone fresh]"])
        (auto simp: refresh_def h armed_simps)
  qed
next
  case (2 e)
  with not_healthy(1) [OF 2(2)] assms show ?thesis
    by (intro kept_armedI [of _ _ "[]"]) (auto simp: refresh_def armed_simps)
next
  case 3
  with not_healthy(2) [OF 3(2)] assms show ?thesis
    by (intro kept_armedI [of _ _ "[]"]) (auto simp: refresh_def armed_simps)
qed

lemma watch_round_keeps:
  assumes "outstanding h = pending_list w" and "watch_round E w h = (r, w', h')"
  shows "kept_armed E h w' h'"
proof (cases "arm E w h")
  case (fields a w1 h1)
  show ?thesis
  proof (cases a)
    case (Ok m)
    obtain k "next" where k: "h1 = h @ k" "armed_through h k" "outstanding h1 = [m, next]" "wa_pending w1 = Some next"
      using arm_keeps [OF assms(1), of E] fields Ok by auto
    have k': "kept_armed E h w1 (h1 @ [Gone m])"
      using k by (intro kept_armedI [of _ _ "k @ [Gone m]"]) (auto simp: armed_simps)
    have "kept_armed E (h1 @ [Gone m]) w' h'" if "we_await E h1 m = Ok (PollRefresh x y)" for x y
      using that assms(2) fields Ok k by (intro refresh_keeps [of _ "next" w1 E x y r]) (simp_all add: watch_round_def outstanding_app)
    with k' assms(2) fields Ok show ?thesis
      by (auto simp: watch_round_def split: result.splits long_poll_outcome.splits intro: kept_armed_trans)
  qed (use arm_keeps [OF assms(1), of E] assms(2) fields in \<open>auto simp: watch_round_def\<close>)
qed

lemma next_frame_keeps:
  assumes "outstanding h = pending_list w" and "next_frame fuel E w h = Some (r, w', h')"
  shows "kept_armed E h w' h'"
  using assms
proof (induction fuel arbitrary: w h)
  case (Suc fuel)
  obtain a w1 h1 where a: "watch_round E w h = (a, w1, h1)" by (cases "watch_round E w h")
  have k: "kept_armed E h w1 h1" by (rule watch_round_keeps [OF Suc.prems(1) a])
  then have "outstanding h1 = pending_list w1" by (simp add: kept_armed_def)
  with Suc a k show ?case
    by (auto split: result.splits option.splits intro: kept_armed_trans)
qed simp

text \<open>The comment in \<open>refresh\<close> notwithstanding: an error from the sibling takes the replacement with it.\<close>

lemma failed_sibling_leaves_unwatched:
  assumes "outstanding h = [s]" and "wa_pending w = Some s" and "we_dispatch E h = Ok fresh"
    and "we_try_recv E (h @ [Armed (notify_request w) fresh, CancelSent m a]) s = Err e"
  shows "\<exists>h'. refresh E m a w h = (Err e, w\<lparr>wa_pending := None\<rparr>, h') \<and> outstanding h' = []"
  using assms by (simp add: refresh_def dispatch_next_def retire_def outstanding_app)

section \<open>Reports\<close>

fun is_cancel :: "watch_event \<Rightarrow> bool" where
  "is_cancel (CancelSent m a) \<longleftrightarrow> True"
| "is_cancel _ \<longleftrightarrow> False"

definition cancels :: "watch_event list \<Rightarrow> nat" where
  "cancels h = length (filter is_cancel h)"

definition reports :: "(file_notify_action \<times> rstring) list \<Rightarrow> frame \<Rightarrow> bool" where
  "reports es fr \<longleftrightarrow> frame_status fr = STATUS_SUCCESS \<and>
     fr_body fr = packed (pack_change_notify_response \<lparr>cnr_output_data = notify_chain es\<rparr>)"

lemma events_of_report:
  assumes "reports es fr" and "list_all sendable es" and "length (notify_chain es) \<le> MAX_UNPACK_BUFFER"
  shows "events_of_frame fr = Ok (map notify_event es)"
proof -
  have "run_reader unpack_change_notify_response (fr_body fr) = Ok \<lparr>cnr_output_data = notify_chain es\<rparr>"
    using assms(1,3) unfolding reports_def
    by (auto intro!: packed_parses change_notify_response.run_roundtrip simp: wf_change_notify_response_def)
  then show ?thesis using assms(1) parse_notify_chain [OF assms(2)] by (simp add: events_of_frame_def reports_def)
qed

lemma healthy_dispatch: "healthy E \<Longrightarrow> \<exists>m. dispatch_next E w h = (Ok m, h @ [Armed (notify_request w) m])"
  by (cases rule: dispatch_next_cases [of E w h]) (use not_healthy in blast)+

lemma cancels_app [simp]: "cancels (h @ k) = cancels h + cancels k"
  by (simp add: cancels_def)

lemma cancels_simps [simp]: "cancels [] = 0" "cancels (e # k) = (if is_cancel e then Suc (cancels k) else cancels k)"
  by (simp_all add: cancels_def)

lemma healthy_arm:
  assumes "healthy E"
  obtains m w1 h1 where "arm E w h = (Ok m, w1, h1)" "cancels h1 = cancels h"
proof -
  obtain m where m: "dispatch_next E w h = (Ok m, h @ [Armed (notify_request w) m])"
    using healthy_dispatch [OF assms] by blast
  obtain n where "dispatch_next E w (h @ [Armed (notify_request w) m]) = (Ok n, h @ [Armed (notify_request w) m, Armed (notify_request w) n])"
    using healthy_dispatch [OF assms, of w "h @ [Armed (notify_request w) m]"] by auto
  with m that show ?thesis by (cases "wa_pending w") (auto simp: arm_def)
qed

lemma healthy_refresh:
  assumes "healthy E"
  obtains a w' h' where "refresh E m x w h = (Ok a, w', h')" "cancels h < cancels h'"
    "a = None \<or> (\<exists>h s. we_try_recv E h s = Ok a)"
proof -
  obtain fresh where d: "dispatch_next E w h = (Ok fresh, h @ [Armed (notify_request w) fresh])"
    using healthy_dispatch [OF assms] by blast
  have r: "\<exists>a. we_try_recv E h' s = Ok a" for h' s using assms by (simp add: healthy_def)
  show ?thesis
  proof (cases "wa_pending w")
    case None
    with d that show ?thesis by (auto simp: refresh_def retire_def)
  next
    case (Some s)
    obtain a where "we_try_recv E (h @ [Armed (notify_request w) fresh, CancelSent m x]) s = Ok a" using r by blast
    with Some d that show ?thesis by (cases a) (auto simp: refresh_def retire_def)
  qed
qed

text \<open>Every frame that comes satisfies \<open>P\<close>, and the wait ends in one once \<open>N\<close> cancels are out.\<close>

definition settles :: "watch_env \<Rightarrow> (frame \<Rightarrow> bool) \<Rightarrow> nat \<Rightarrow> bool" where
  "settles E P N \<longleftrightarrow> healthy E \<and>
     (\<forall>h m. case we_await E h m of
              Ok (PollAnswered fr) \<Rightarrow> P fr
            | Ok (PollRefresh _ _) \<Rightarrow> cancels h < N
            | _ \<Rightarrow> False) \<and>
     (\<forall>h m fr. we_try_recv E h m = Ok (Some fr) \<longrightarrow> P fr)"

lemma watch_round_answers:
  assumes "settles E P N"
  shows "(\<exists>fr w' h'. watch_round E w h = (Ok (Some fr), w', h') \<and> P fr) \<or>
    (\<exists>w' h'. watch_round E w h = (Ok None, w', h') \<and> cancels h < cancels h' \<and> cancels h < N)"
proof -
  have E: "healthy E" and try_recv: "\<And>h m fr. we_try_recv E h m = Ok (Some fr) \<Longrightarrow> P fr"
    and await: "\<And>h m. case we_await E h m of
              Ok (PollAnswered fr) \<Rightarrow> P fr
            | Ok (PollRefresh _ _) \<Rightarrow> cancels h < N
            | _ \<Rightarrow> False"
    using assms by (auto simp: settles_def)
  obtain m w1 h1 where arm: "arm E w h = (Ok m, w1, h1)" "cancels h1 = cancels h" by (rule healthy_arm [OF E])
  obtain out where out: "we_await E h1 m = Ok out" using await [of h1 m] by (auto split: result.splits)
  show ?thesis
  proof (cases out)
    case (PollAnswered fr)
    then show ?thesis using out arm await [of h1 m] by (simp add: watch_round_def)
  next
    case (PollRefresh n x)
    obtain a w' h' where "refresh E n x w1 (h1 @ [Gone m]) = (Ok a, w', h')" "cancels (h1 @ [Gone m]) < cancels h'"
      "a = None \<or> (\<exists>h s. we_try_recv E h s = Ok a)" by (rule healthy_refresh [OF E])
    then show ?thesis using PollRefresh out arm await [of h1 m] try_recv by (cases a) (auto simp: watch_round_def)
  qed
qed

lemma next_frame_returns:
  assumes "settles E P N"
  shows "N \<le> fuel + cancels h \<Longrightarrow> \<exists>fr w' h'. next_frame (Suc fuel) E w h = Some (Ok fr, w', h') \<and> P fr"
proof (induction fuel arbitrary: w h)
  case 0
  then show ?case using watch_round_answers [OF assms, of w h] by auto
next
  case (Suc fuel)
  from watch_round_answers [OF assms, of w h] show ?case
  proof
    assume "\<exists>w' h'. watch_round E w h = (Ok None, w', h') \<and> cancels h < cancels h' \<and> cancels h < N"
    then obtain w' h' where r: "watch_round E w h = (Ok None, w', h')" "cancels h < cancels h'" by blast
    have "next_frame (Suc (Suc fuel)) E w h = next_frame (Suc fuel) E w' h'" using r(1) by simp
    then show ?thesis using Suc.IH [of h' w'] Suc.prems r(2) by simp
  qed auto
qed

text \<open>A quiet directory: the wait asks for a refresh until four cancels are out, then the server reports \<open>es\<close>.\<close>

definition quiet_env :: "(file_notify_action \<times> rstring) list \<Rightarrow> watch_env" where
  "quiet_env es =
     \<lparr>we_dispatch = (\<lambda>h. Ok (word_of_nat (length h))),
      we_await = (\<lambda>h m. if cancels h < 4 then Ok (PollRefresh m None)
                        else Ok (PollAnswered (reply ChangeNotify STATUS_SUCCESS
                               (packed (pack_change_notify_response \<lparr>cnr_output_data = notify_chain es\<rparr>))))),
      we_try_recv = (\<lambda>h m. Ok None), we_async_id = (\<lambda>h m. None)\<rparr>"

lemma quiet_env_settles: "settles (quiet_env es) (reports es) 4"
  by (simp add: settles_def quiet_env_def healthy_def reports_def)



text \<open>
  C17: Changes reach the caller. The wait may end in a refresh until \<open>N\<close> cancels have been sent; after that
  the server answers, with a chain of entries laid out as MS-FSCC says, as it may also through the sibling
  during a refresh. Then \<open>next_events\<close> returns, within \<open>N + 1\<close> rounds, and what it returns is the server's
  list of changes, in order, each path mapped back out of the private-use area.
\<close>

theorem watch_reports_changes:
  assumes "healthy E"
    and "\<And>h m. case we_await E h m of
              Ok (PollAnswered fr) \<Rightarrow> reports es fr
            | Ok (PollRefresh _ _) \<Rightarrow> cancels h < N
            | _ \<Rightarrow> False"
    and "\<And>h m fr. we_try_recv E h m = Ok (Some fr) \<Longrightarrow> reports es fr"
    and "list_all sendable es" and "length (notify_chain es) \<le> MAX_UNPACK_BUFFER"
  shows "\<exists>w' h'. next_events (Suc N) E w h =
    Some (Ok (map (\<lambda>(action, name). \<lparr>fne_action = action, fne_filename = decode_path name\<rparr>) es), w', h')"
proof -
  obtain fr w' h' where "next_frame (Suc N) E w h = Some (Ok fr, w', h')" "reports es fr"
    using next_frame_returns [of E "reports es" N N h w] assms(1-3) unfolding settles_def by (auto simp del: next_frame.simps)
  moreover have "map notify_event es = map (\<lambda>(action, name). \<lparr>fne_action = action, fne_filename = decode_path name\<rparr>) es"
    by (auto simp: notify_event_def)
  ultimately show ?thesis using events_of_report [OF _ assms(4,5)] by (simp add: next_events_def)
qed

theorem watch_reports_changes_witness:
  "\<exists>w h. next_events 5 (quiet_env [(Added, [97]), (Removed, [98, 92, 99])]) (watcher_new sample_tree \<lparr>persistent = 1, volatile = 2\<rparr> True) [] =
    Some (Ok [\<lparr>fne_action = Added, fne_filename = [97]\<rparr>, \<lparr>fne_action = Removed, fne_filename = [98, 47, 99]\<rparr>], w, h)"
proof -
  let ?es = "[(Added, [97]), (Removed, [98, 92, 99])] :: (file_notify_action \<times> rstring) list"
  have s: "list_all sendable ?es"
    by (simp add: sendable_def valid_str_def encode_utf16_def encode_utf16_char_def is_char_def)
  have "length (notify_chain ?es) = 34"
    by (simp add: notify_entry_length encode_utf16_def encode_utf16_char_def pad_len_def)
  then have l: "length (notify_chain ?es) \<le> MAX_UNPACK_BUFFER" by (simp add: MAX_UNPACK_BUFFER_def)
  have d: "map (\<lambda>(action, name). \<lparr>fne_action = action, fne_filename = decode_path name\<rparr>) ?es =
      [\<lparr>fne_action = Added, fne_filename = [97]\<rparr>, \<lparr>fne_action = Removed, fne_filename = [98, 47, 99]\<rparr>]"
    by (simp add: decode_path_def decode_name_map char_defs)
  have "\<exists>w' h'. next_events (Suc 4) (quiet_env ?es) (watcher_new sample_tree \<lparr>persistent = 1, volatile = 2\<rparr> True) [] =
      Some (Ok (map (\<lambda>(action, name). \<lparr>fne_action = action, fne_filename = decode_path name\<rparr>) ?es), w', h')"
    by (rule watch_reports_changes [OF _ _ _ s l])
      (use quiet_env_settles [of ?es] in \<open>auto simp only: settles_def\<close>)
  then show ?thesis unfolding d by (simp del: next_frame.simps)
qed

end
