(* ===== verification/Smb_Typed.thy ===== *)
theory Smb_Typed
  imports Smb_Shares Smb_Watcher
begin

text \<open>
  A Rust \<open>String\<close> holds Unicode scalar values only, an invariant of its type. The model's strings are lists of
  numbers, so the invariant is a theorem here: every name, path and comment that a server's bytes are turned
  into is a valid string, surrogates and private-use characters included.
\<close>

section \<open>What a computation returns\<close>

definition yields :: "('a \<Rightarrow> bool) \<Rightarrow> ('s, 'a, 'e) comp \<Rightarrow> bool" where
  "yields P m \<longleftrightarrow> (\<forall>s x s'. m s = Ok (x, s') \<longrightarrow> P x)"

definition gives :: "('a \<Rightarrow> bool) \<Rightarrow> ('a, 'e) result \<Rightarrow> bool" where
  "gives P r \<longleftrightarrow> (case r of Ok x \<Rightarrow> P x | _ \<Rightarrow> True)"

named_theorems yields_intros

lemma gives_Ok: "gives P r \<Longrightarrow> r = Ok x \<Longrightarrow> P x"
  by (simp add: gives_def)

lemma gives_simps [simp]: "gives P (Ok x) \<longleftrightarrow> P x" "gives P (Err e)" "gives P Panic"
  by (simp_all add: gives_def)

lemma gives_bind: "gives Q r \<Longrightarrow> (\<And>x. r = Ok x \<Longrightarrow> Q x \<Longrightarrow> gives P (f x)) \<Longrightarrow> gives P (result_bind r f)"
  by (cases r) simp_all

lemma gives_True: "gives (\<lambda>_. True) r"
  by (cases r) simp_all

lemma gives_bind_any: "(\<And>x. r = Ok x \<Longrightarrow> gives P (f x)) \<Longrightarrow> gives P (result_bind r f)"
  by (cases r) simp_all

lemma gives_map_err: "gives P r \<Longrightarrow> gives P (map_err f r)"
  by (cases r) simp_all

lemma yields_ret [yields_intros]: "P x \<Longrightarrow> yields P (ret x)"
  by (simp add: yields_def)

lemma yields_fail [yields_intros]: "yields P (fail e)"
  by (simp add: yields_def)

lemma yields_lift: "gives P r \<Longrightarrow> yields P (lift r)"
  by (cases r) (simp_all add: yields_def lift_def)

lemma yields_bnd: "yields Q m \<Longrightarrow> (\<And>x. Q x \<Longrightarrow> yields P (f x)) \<Longrightarrow> yields P (bnd m f)"
  unfolding yields_def by (auto split: result.splits) blast

lemma yields_any: "yields (\<lambda>_. True) m"
  by (simp add: yields_def)

lemmas yields_then = yields_bnd [OF yields_any]

lemma yields_if [yields_intros]: "(b \<Longrightarrow> yields P m) \<Longrightarrow> (\<not> b \<Longrightarrow> yields P n) \<Longrightarrow> yields P (if b then m else n)"
  by simp

lemma gives_run_reader: "yields P r \<Longrightarrow> gives P (run_reader r bs)"
  unfolding yields_def run_reader_def by (cases "r (read_cursor_new bs)") (auto, blast)

section \<open>Strings\<close>

lemma gives_from_utf16: "gives valid_str (from_utf16 us)"
  by (auto simp: from_utf16_def decode_utf16_valid split: option.splits)

lemma yields_read_utf16_le: "yields valid_str (read_utf16_le n)"
  unfolding read_utf16_le_def by (intro yields_intros yields_then yields_lift gives_from_utf16)

lemma decode_char_is_char: "is_char c \<Longrightarrow> is_char (unwrap_or (decode_char c) c)"
  by (auto simp: decode_char_def is_char_def PUA_BASE_def PUA_LAST_def Let_def)

lemma valid_decode_name: "valid_str s \<Longrightarrow> valid_str (decode_name s)"
  by (simp add: decode_name_map valid_str_def list_all_iff decode_char_is_char)

lemma valid_str_split: "valid_str s \<Longrightarrow> list_all valid_str (str_split d s)"
  by (induction s) (auto simp: valid_str_def split: list.splits)

lemma valid_push_components:
  "is_char sep \<Longrightarrow> (\<And>w. valid_str w \<Longrightarrow> valid_str (f w)) \<Longrightarrow> list_all valid_str ws \<Longrightarrow> valid_str (push_components sep f ws i)"
  by (induction ws arbitrary: i) (auto simp: valid_str_def)

lemma valid_decode_path: "valid_str s \<Longrightarrow> valid_str (decode_path s)"
  unfolding decode_path_def by (intro valid_push_components valid_str_split valid_decode_name) (simp_all add: is_char_def)

lemma valid_trim_end_nuls: "valid_str s \<Longrightarrow> valid_str (trim_end_nuls s)"
  by (auto simp: valid_str_def trim_end_nuls_def list_all_iff dest: set_dropWhileD)

section \<open>The parsers\<close>

lemma yields_entry_name:
  "yields valid_str (if 0 < (n :: u32) then bnd (read_utf16_le (unat n)) (\<lambda>s. ret (decode_name s)) else ret [])"
  by (intro yields_if yields_bnd [OF yields_read_utf16_le] yields_ret valid_decode_name) (simp_all add: valid_str_def)

lemma gives_parse_entries: "gives (list_all (\<lambda>e. valid_str (de_name e))) (parse_entries data offset)"
proof (induction data offset rule: parse_entries.induct)
  case (1 data offset)
  have n: "yields (\<lambda>(_, e). valid_str (de_name e)) read_directory_entry"
    unfolding read_directory_entry_def
    by (intro yields_bnd [OF yields_entry_name] yields_then yields_ret) simp
  show ?case
    unfolding parse_entries.simps [of data offset]
    using 1 by (auto intro!: gives_bind_any [of "slice_from data offset"] gives_bind [OF gives_run_reader [OF n]] gives_bind [of _ "parse_entries d p" for d p]) blast
qed

lemma gives_parse_notify: "gives (list_all (\<lambda>e. valid_str (fne_filename e))) (parse_notify_information data)"
proof -
  have d: "gives valid_str (decode_utf16le bs)" for bs
    by (simp add: decode_utf16le_def gives_map_err gives_from_utf16)
  have "list_all (\<lambda>e. valid_str (fne_filename e)) events \<Longrightarrow>
      gives (list_all (\<lambda>e. valid_str (fne_filename e))) (parse_notify_loop data offset events)" for offset events
  proof (induction data offset events rule: parse_notify_loop.induct)
    case (1 data offset events)
    then show ?case
      unfolding parse_notify_loop.simps [of data offset events]
      by (auto simp: Let_def intro!: gives_bind_any gives_bind [OF d] valid_decode_path) (blast intro: valid_decode_path)
  qed
  then show ?thesis by (simp add: parse_notify_information_def)
qed

lemma gives_offset_string: "gives valid_str (read_offset_string buf start off)"
  unfolding read_offset_string_def read_null_terminated_utf16_at_def from_utf16_or_def
  by (intro gives_bind_any gives_map_err gives_from_utf16)

definition referral_valid :: "dfs_referral_entry \<Rightarrow> bool" where
  "referral_valid e \<longleftrightarrow> valid_str (dre_dfs_path e) \<and> valid_str (dre_dfs_alternate_path e) \<and> valid_str (dre_network_address e)"

lemma gives_referral_tail: "gives referral_valid (parse_referral_tail v buf start ty fl pos)"
  unfolding parse_referral_tail_def
  by (intro gives_bind [OF gives_offset_string] gives_bind_any) (simp add: referral_valid_def)

lemma gives_referral_entry: "gives referral_valid (parse_referral_entry v buf start)"
  by (auto simp: parse_referral_entry_def Let_def intro!: gives_bind_any gives_referral_tail)

lemma gives_referrals: "list_all referral_valid es \<Longrightarrow> gives (list_all referral_valid) (parse_referrals n data offset es)"
  by (induction n arbitrary: offset es)
    (auto simp: Let_def intro!: gives_bind_any gives_bind [OF gives_referral_entry])

lemma yields_referral: "yields (\<lambda>r. list_all referral_valid (drr_entries r)) unpack_resp_get_dfs_referral"
  unfolding unpack_resp_get_dfs_referral_def
  by (intro yields_bnd [OF yields_lift [OF gives_referrals]] yields_then yields_ret) simp_all

lemma yields_deferred: "yields valid_str (read_deferred ptr)"
  unfolding read_deferred_def read_ndr_string_def Let_def
  by (intro yields_if yields_bnd [OF yields_read_utf16_le] yields_then yields_ret valid_trim_end_nuls) (simp_all add: valid_str_def)

definition share_valid :: "share_info \<Rightarrow> bool" where
  "share_valid s \<longleftrightarrow> valid_str (si_name s) \<and> valid_str (si_comment s)"

lemma yields_read_shares: "yields (list_all share_valid) (read_shares es)"
proof (induction es)
  case (Cons e es)
  obtain n t c where e: "e = (n, t, c)" by (cases e)
  show ?case
    unfolding e read_shares.simps
    by (intro yields_bnd [OF yields_deferred] yields_bnd [OF Cons.IH] yields_ret) (simp add: share_valid_def)
qed (simp add: yields_def)

lemma gives_shares: "gives (list_all share_valid) (parse_net_share_enum_all_stub stub)"
proof -
  have "yields (list_all share_valid) read_net_share_enum_all"
    unfolding read_net_share_enum_all_def
    by (intro yields_if yields_then yields_ret yields_read_shares) simp_all
  then show ?thesis
    unfolding parse_net_share_enum_all_stub_def by (rule gives_run_reader)
qed



end
