(* ===== verification/Smb_Send_Props.thy ===== *)
theory Smb_Send_Props
  imports Smb_Send
begin

text \<open>
  What the send path guarantees: the connection invariant is kept on every exit; a request that
  went out has its waiter, its credits spent and its ids used up; a request that failed leaves
  no waiter and gives its credits back; what travels is what the peer can verify, decrypt and
  decompress.
\<close>

section \<open>Frame conditions\<close>

definition wire_frame :: "'s inner \<Rightarrow> 's inner \<Rightarrow> bool" where
  "wire_frame i j \<longleftrightarrow> (\<exists>n. j = i\<lparr>in_crypto := (in_crypto i)\<lparr>cs_nonce_gen := n\<rparr>\<rparr>)"

lemma wire_frame_refl [simp]: "wire_frame i i"
  unfolding wire_frame_def by (rule exI [of _ "cs_nonce_gen (in_crypto i)"]) simp

lemma encrypt_bytes_frame: "encrypt_bytes K p i = (r, j) \<Longrightarrow> wire_frame i j"
  by (auto simp: encrypt_bytes_def Let_def split: option.split_asm result.split_asm)
    (auto simp: wire_frame_def)

lemma wire_form_frame: "wire_form K cp b m i = (r, j) \<Longrightarrow> wire_frame i j"
  by (auto simp: wire_form_def encrypt_bytes_frame split: if_split_asm)

lemma wire_frame_sel:
  assumes "wire_frame i j"
  shows "in_waiters j = in_waiters i" "in_resolved j = in_resolved i" "in_next_chan j = in_next_chan i"
    "in_disconnected j = in_disconnected i" "in_abandoned j = in_abandoned i" "in_credits j = in_credits i"
    "in_next_message_id j = in_next_message_id i" "in_wire j = in_wire i" "in_metrics j = in_metrics i"
    "in_compression_enabled j = in_compression_enabled i"
  using assms by (auto simp: wire_frame_def)

lemma conn_ok_fields [simp]:
  "conn_ok (i\<lparr>in_wire := x\<rparr>) = conn_ok i" "conn_ok (i\<lparr>in_crypto := c\<rparr>) = conn_ok i"
  "conn_ok (i\<lparr>in_metrics := ms, in_wire := x\<rparr>) = conn_ok i"
  by (simp_all add: conn_ok_def chan_ok_def gate_ok_def)

lemma wire_frame_conn_ok: "wire_frame i j \<Longrightarrow> conn_ok i \<Longrightarrow> conn_ok j"
  by (auto simp: wire_frame_def)

lemma send_and_count_Ok:
  assumes "send_and_count S out b i = (Ok u, j)"
  shows "out = Wrote (Ok u)" "in_waiters j = in_waiters i" "in_resolved j = in_resolved i"
    "in_next_chan j = in_next_chan i" "in_disconnected j = in_disconnected i" "in_abandoned j = in_abandoned i"
    "in_credits j = in_credits i" "in_next_message_id j = in_next_message_id i" "in_wire j = b # in_wire i"
    "in_crypto j = in_crypto i"
  using assms by (auto simp: send_and_count_def writer_job_def Let_def split: write_outcome.split_asm result.split_asm)

lemma send_and_count_Err:
  assumes "send_and_count S out b i = (Err e, j)"
  shows "j = i \<or> j = fan_error_to_waiters S Disconnected (bump m_send_failures_update i)"
  using assms
  by (auto simp: send_and_count_def writer_job_def Let_def split: write_outcome.split_asm result.split_asm if_split_asm)

lemma send_and_count_conn_ok: "send_and_count S out b i = (r, j) \<Longrightarrow> conn_ok i \<Longrightarrow> conn_ok j"
  by (auto simp: send_and_count_def writer_job_def Let_def fan_error_conn_ok
      split: write_outcome.split_asm result.split_asm if_split_asm)

section \<open>The invariant\<close>

lemma conn_ok_intros:
  "conn_ok i \<Longrightarrow> conn_ok (remove_waiter m i)"
  "conn_ok i \<Longrightarrow> conn_ok (guard_drop g i)"
  "conn_ok i \<Longrightarrow> conn_ok (mark_sent now ms i)"
  "conn_ok i \<Longrightarrow> conn_ok (snd (allocate_msg_id n i))"
  "conn_ok i \<Longrightarrow> register_waiter now m c i = Ok (g, j) \<Longrightarrow> conn_ok j"
  by (auto simp: conn_ok_def register_waiter_chan_ok register_waiter_gate_ok)

lemma drop_reservation_Ok:
  assumes "drop_reservation S r i = Ok j"
  obtains p where "reservation_drop S r (in_credits i) = Ok p" "j = i\<lparr>in_credits := p\<rparr>"
  using assms by (auto simp: drop_reservation_def result_bind_eq_Ok)

lemma abort_send_conn_ok:
  assumes "conn_ok i" "abort_send S g r e i = (x, j)"
  shows "conn_ok j"
proof -
  let ?k = "case g of Some g \<Rightarrow> guard_drop g i | None \<Rightarrow> i"
  have k: "conn_ok ?k" using assms(1) by (simp add: conn_ok_intros split: option.split)
  show ?thesis
  proof (cases "drop_reservation S r ?k")
    case (Ok l)
    then obtain p where "l = ?k\<lparr>in_credits := p\<rparr>" by (rule drop_reservation_Ok)
    with Ok k assms(2) show ?thesis by (auto simp: abort_send_def Let_def)
  qed (use k assms(2) in \<open>simp_all add: abort_send_def Let_def\<close>)
qed

lemma send_registered_conn_ok:
  assumes "conn_ok i" "send_registered K S net now cp rm mb g r i = (x, j)"
  shows "conn_ok j"
proof -
  obtain w i1 where w: "wire_form K cp mb (wg_msg_id g) i = (w, i1)" by (cases "wire_form K cp mb (wg_msg_id g) i")
  have i1: "conn_ok i1" by (rule wire_frame_conn_ok [OF wire_form_frame [OF w] assms(1)])
  show ?thesis
  proof (cases w)
    case (Ok wire)
    obtain s i2 where s: "send_and_count S (net wire) wire i1 = (s, i2)"
      by (cases "send_and_count S (net wire) wire i1")
    have i2: "conn_ok i2" by (rule send_and_count_conn_ok [OF s i1])
    have "conn_ok (if rm then remove_waiter (wg_msg_id g) i2 else i2)" using i2 by (simp add: conn_ok_intros)
    from abort_send_conn_ok [OF this] i2 show ?thesis
      using assms(2) Ok w s by (cases s) (auto simp: send_registered_def conn_ok_intros)
  qed (use assms(2) w i1 abort_send_conn_ok [OF i1] in \<open>auto simp: send_registered_def\<close>)
qed

lemma send_allocated_conn_ok:
  assumes "conn_ok i" "send_allocated K S net now cp rm c b t ch r i = (x, j)"
  shows "conn_ok j"
proof -
  obtain m i1 where m: "allocate_msg_id (ucast ch) i = (m, i1)" by (cases "allocate_msg_id (ucast ch) i")
  have i1: "conn_ok i1" using conn_ok_intros(4) [OF assms(1), of "ucast ch"] m by simp
  note u = assms(2) [unfolded send_allocated_def m Let_def prod.case] and a = abort_send_conn_ok [OF i1]
  show ?thesis
  proof (cases "pack_message (request_header S c t ch m i1) b")
    case bytes: (Ok mb)
    show ?thesis
    proof (cases "register_waiter now m c i1")
      case (Ok gi)
      obtain g i2 where gi: "gi = (g, i2)" by (cases gi)
      have "conn_ok i2" using conn_ok_intros(5) [OF i1] Ok gi by simp
      from send_registered_conn_ok [OF this] show ?thesis using u bytes Ok gi by simp
    qed (use u bytes i1 a in auto)
  qed (use u i1 a in auto)
qed

section \<open>A request that went out\<close>

lemma mark_sent_find:
  "find_waiter m i = Some w \<Longrightarrow>
   find_waiter m (mark_sent now [m] i) = Some (w\<lparr>wt_sent_at := Some now, wt_last_activity := now\<rparr>)"
  by (simp add: find_waiter_def mark_sent_def AList.map_of_map_entry)

lemma mark_sent_simps [simp]:
  "in_resolved (mark_sent now ms i) = in_resolved i" "in_next_chan (mark_sent now ms i) = in_next_chan i"
  "in_disconnected (mark_sent now ms i) = in_disconnected i" "in_credits (mark_sent now ms i) = in_credits i"
  "in_next_message_id (mark_sent now ms i) = in_next_message_id i" "in_wire (mark_sent now ms i) = in_wire i"
  by (simp_all add: mark_sent_def)

lemma allocate_msg_id_simps:
  "fst (allocate_msg_id n i) = in_next_message_id i"
  "in_next_message_id (snd (allocate_msg_id n i)) = in_next_message_id i + n"
  "in_credits (snd (allocate_msg_id n i)) = in_credits i"
  "in_crypto (snd (allocate_msg_id n i)) = in_crypto i"
  "in_disconnected (snd (allocate_msg_id n i)) = in_disconnected i"
  "in_waiters (snd (allocate_msg_id n i)) = in_waiters i"
  by (simp_all add: allocate_msg_id_def)

lemma abort_send_not_Ok: "abort_send S g r e i \<noteq> (Ok x, j)"
  by (simp add: abort_send_def Let_def split: result.split)

lemma send_registered_Ok:
  assumes "send_registered K S net now cp rm mb g r i = (Ok gm, j)"
  obtains wire i1 i2 where "gm = (g, mb)" "wire_form K cp mb (wg_msg_id g) i = (Ok wire, i1)"
    "send_and_count S (net wire) wire i1 = (Ok (), i2)" "j = mark_sent now [wg_msg_id g] i2"
proof -
  obtain w i1 where w: "wire_form K cp mb (wg_msg_id g) i = (w, i1)" by (cases "wire_form K cp mb (wg_msg_id g) i")
  with assms obtain wire where wb: "w = Ok wire" by (cases w) (auto simp: send_registered_def abort_send_not_Ok)
  obtain s i2 where s: "send_and_count S (net wire) wire i1 = (s, i2)" by (cases "send_and_count S (net wire) wire i1")
  from assms w wb s have "s = Ok () \<and> gm = (g, mb) \<and> j = mark_sent now [wg_msg_id g] i2"
    by (cases s) (auto simp: send_registered_def abort_send_not_Ok)
  with w wb s show thesis by (intro that) auto
qed

lemma send_allocated_Ok:
  assumes "send_allocated K S net now cp rm c b t ch r i = (Ok (g, mb), j)"
  obtains wire i2 i3 i4 where
    "pack_message (request_header S c t ch (in_next_message_id i) (snd (allocate_msg_id (ucast ch) i))) b = Ok mb"
    "register_waiter now (in_next_message_id i) c (snd (allocate_msg_id (ucast ch) i)) = Ok (g, i2)"
    "wire_form K cp mb (in_next_message_id i) i2 = (Ok wire, i3)"
    "send_and_count S (net wire) wire i3 = (Ok (), i4)" "j = mark_sent now [in_next_message_id i] i4"
proof -
  obtain m i1 where m: "allocate_msg_id (ucast ch) i = (m, i1)" by (cases "allocate_msg_id (ucast ch) i")
  then have m1: "m = in_next_message_id i" "snd (allocate_msg_id (ucast ch) i) = i1" by (auto simp: allocate_msg_id_def)
  note u = assms [unfolded send_allocated_def m Let_def prod.case]
  obtain b1 where p: "pack_message (request_header S c t ch m i1) b = Ok b1"
    using u by (cases "pack_message (request_header S c t ch m i1) b") (simp_all add: abort_send_not_Ok)
  obtain g1 i2 where g: "register_waiter now m c i1 = Ok (g1, i2)"
    using u p by (cases "register_waiter now m c i1") (auto simp: abort_send_not_Ok)
  from u p g have "send_registered K S net now cp rm b1 g1 r i2 = (Ok (g, mb), j)" by simp
  then obtain wire i3 i4 where "(g, mb) = (g1, b1)" "wire_form K cp b1 (wg_msg_id g1) i2 = (Ok wire, i3)"
    "send_and_count S (net wire) wire i3 = (Ok (), i4)" "j = mark_sent now [wg_msg_id g1] i4"
    by (rule send_registered_Ok)
  with p g m1 register_waiter_find [OF g] show thesis by (intro that) auto
qed

lemma send_allocated_sent:
  assumes "send_allocated K S net now cp rm c b t ch r i = (Ok (g, mb), j)"
  shows "wg_msg_id g = in_next_message_id i"
    and "in_next_message_id j = in_next_message_id i + ucast ch"
    and "in_credits j = in_credits i"
    and "\<not> in_disconnected j"
    and "find_waiter (in_next_message_id i) j = Some \<lparr>wt_tx = wg_rx g, wt_command = c, wt_registered_at = now,
           wt_sent_at = Some now, wt_last_activity = now, wt_async_id = None\<rparr>"
proof -
  obtain wire i2 i3 i4 where
      2: "register_waiter now (in_next_message_id i) c (snd (allocate_msg_id (ucast ch) i)) = Ok (g, i2)"
    and 3: "wire_form K cp mb (in_next_message_id i) i2 = (Ok wire, i3)"
    and 4: "send_and_count S (net wire) wire i3 = (Ok (), i4)" and 5: "j = mark_sent now [in_next_message_id i] i4"
    using assms by (rule send_allocated_Ok)
  note w = wire_frame_sel [OF wire_form_frame [OF 3]] and s = send_and_count_Ok [OF 4]
  note f = register_waiter_find [OF 2] and k = register_waiter_Ok [OF 2]
  show "wg_msg_id g = in_next_message_id i" using f by simp
  show "in_next_message_id j = in_next_message_id i + ucast ch" "in_credits j = in_credits i" "\<not> in_disconnected j"
    using w s k by (simp_all add: 5 allocate_msg_id_simps)
  have "find_waiter (in_next_message_id i) i4 = Some (new_waiter now c (wg_rx g))"
    using f w(1) s(2) by (simp add: find_waiter_def)
  from mark_sent_find [OF this]
  show "find_waiter (in_next_message_id i) j = Some \<lparr>wt_tx = wg_rx g, wt_command = c, wt_registered_at = now,
           wt_sent_at = Some now, wt_last_activity = now, wt_async_id = None\<rparr>"
    by (simp add: 5 new_waiter_def)
qed

section \<open>A request that failed\<close>

lemma reservation_drop_avail:
  assumes "sem_laws S" "res_in_pool r" "reservation_drop S r p = Ok q"
  shows "avail S q = avail S p + unat (res_charge r)"
  using assms pool_grant_avail(1) [OF assms(1)] by (simp add: reservation_drop_def pool_refund_def)

lemma drop_reservation_no_Err: "sem_laws S \<Longrightarrow> drop_reservation S r i \<noteq> Err e"
proof
  assume S: "sem_laws S" and "drop_reservation S r i = Err e"
  then have "pool_grant S (res_charge r) (in_credits i) = Err e"
    by (cases "pool_grant S (res_charge r) (in_credits i)")
      (auto simp: drop_reservation_def reservation_drop_def pool_refund_def split: if_split_asm)
  then show False
    using sem_add_fits [OF S, of "permits (in_credits i)" "unat (res_charge r)"]
      sem_add_overflow [OF S, of "permits (in_credits i)" "unat (res_charge r)"]
    by (cases "avail S (in_credits i) + unat (res_charge r) \<le> MAX_PERMITS")
      (auto simp: pool_grant_def split: if_split_asm)
qed

lemma abort_send_Err:
  assumes "sem_laws S" "res_in_pool r" "abort_send S g r e i = (Err e', j)"
  shows "e' = e" "avail S (in_credits j) = avail S (in_credits i) + unat (res_charge r)"
    "in_next_message_id j = in_next_message_id i" "in_disconnected j = in_disconnected i"
    "in_waiters j = (case g of Some g \<Rightarrow> AList.delete (wg_msg_id g) (in_waiters i) | None \<Rightarrow> in_waiters i)"
proof -
  let ?k = "case g of Some g \<Rightarrow> guard_drop g i | None \<Rightarrow> i"
  obtain l where l: "drop_reservation S r ?k = Ok l" "e' = e" "l = j"
    using assms(3) drop_reservation_no_Err [OF assms(1), of r ?k]
    by (cases "drop_reservation S r ?k") (auto simp: abort_send_def Let_def)
  from l(1) obtain p where p: "reservation_drop S r (in_credits ?k) = Ok p" "l = ?k\<lparr>in_credits := p\<rparr>"
    by (rule drop_reservation_Ok)
  have k: "in_credits ?k = in_credits i" "in_next_message_id ?k = in_next_message_id i"
    "in_disconnected ?k = in_disconnected i"
    "in_waiters ?k = (case g of Some g \<Rightarrow> AList.delete (wg_msg_id g) (in_waiters i) | None \<Rightarrow> in_waiters i)"
    by (simp_all split: option.split)
  show "e' = e" by (rule l(2))
  show "avail S (in_credits j) = avail S (in_credits i) + unat (res_charge r)"
    using reservation_drop_avail [OF assms(1,2) p(1)] k l p by auto
  show "in_next_message_id j = in_next_message_id i" "in_disconnected j = in_disconnected i"
    "in_waiters j = (case g of Some g \<Rightarrow> AList.delete (wg_msg_id g) (in_waiters i) | None \<Rightarrow> in_waiters i)"
    using k l p by auto
qed

lemma send_and_count_Err_sel:
  assumes "sem_laws S" "send_and_count S out b i = (Err e, j)"
  shows "avail S (in_credits j) = avail S (in_credits i)" "in_next_message_id j = in_next_message_id i"
    "in_waiters j = in_waiters i \<or> in_waiters j = []"
  using send_and_count_Err [OF assms(2)] sem_close_facts [OF assms(1)] by (auto simp: pool_close_def)

lemma delete_gone: "map_of (AList.delete m ws) m = None"
  by (simp add: AList.delete_conv')

lemma send_registered_Err:
  assumes "sem_laws S" "res_in_pool r" "send_registered K S net now cp rm mb g r i = (Err e, j)"
  shows "avail S (in_credits j) = avail S (in_credits i) + unat (res_charge r)"
    "in_next_message_id j = in_next_message_id i" "find_waiter (wg_msg_id g) j = None"
proof -
  obtain w i1 where w: "wire_form K cp mb (wg_msg_id g) i = (w, i1)" by (cases "wire_form K cp mb (wg_msg_id g) i")
  note f = wire_frame_sel [OF wire_form_frame [OF w]]
  have ab: "avail S (in_credits j) = avail S (in_credits k) + unat (res_charge r) \<and>
      in_next_message_id j = in_next_message_id k \<and> find_waiter (wg_msg_id g) j = None"
    if "abort_send S (Some g) r x k = (Err e :: (waiter_guard \<times> bytes) res, j)" for x k
    using abort_send_Err [OF assms(1,2) that] by (simp add: find_waiter_def delete_gone)
  have "avail S (in_credits j) = avail S (in_credits i) + unat (res_charge r) \<and>
      in_next_message_id j = in_next_message_id i \<and> find_waiter (wg_msg_id g) j = None"
  proof (cases w)
    case (Ok wire)
    obtain s i2 where s: "send_and_count S (net wire) wire i1 = (s, i2)" by (cases "send_and_count S (net wire) wire i1")
    with assms(3) w Ok obtain e2 where e2: "s = Err e2"
      "abort_send S (Some g) r e2 (if rm then remove_waiter (wg_msg_id g) i2 else i2) = (Err e :: (waiter_guard \<times> bytes) res, j)"
      by (cases s) (auto simp: send_registered_def)
    from ab [OF e2(2)] send_and_count_Err_sel(1,2) [OF assms(1) s [unfolded e2(1)]] f
    show ?thesis by (cases rm) simp_all
  next
    case (Err x)
    with assms(3) w ab [of x i1] f show ?thesis by (simp add: send_registered_def)
  qed (use assms(3) w in \<open>simp add: send_registered_def\<close>)
  then show "avail S (in_credits j) = avail S (in_credits i) + unat (res_charge r)"
    "in_next_message_id j = in_next_message_id i" "find_waiter (wg_msg_id g) j = None" by simp_all
qed

lemma send_allocated_Err:
  assumes "sem_laws S" "res_in_pool r" "find_waiter (in_next_message_id i) i = None"
    "send_allocated K S net now cp rm c b t ch r i = (Err e, j)"
  shows "avail S (in_credits j) = avail S (in_credits i) + unat (res_charge r)"
    "in_next_message_id j = in_next_message_id i + ucast ch" "find_waiter (in_next_message_id i) j = None"
proof -
  obtain m i1 where m: "allocate_msg_id (ucast ch) i = (m, i1)" by (cases "allocate_msg_id (ucast ch) i")
  have a: "m = in_next_message_id i" "in_credits i1 = in_credits i" "in_waiters i1 = in_waiters i"
    "in_next_message_id i1 = in_next_message_id i + ucast ch"
    using allocate_msg_id_simps [of "ucast ch" i] m by simp_all
  note u = assms(4) [unfolded send_allocated_def m Let_def prod.case]
  have ab: "avail S (in_credits j) = avail S (in_credits i) + unat (res_charge r) \<and>
      in_next_message_id j = in_next_message_id i + ucast ch \<and> find_waiter (in_next_message_id i) j = None"
    if "abort_send S None r x i1 = (Err e :: (waiter_guard \<times> bytes) res, j)" for x
    using abort_send_Err [OF assms(1,2) that] a assms(3) by (simp add: find_waiter_def)
  have "avail S (in_credits j) = avail S (in_credits i) + unat (res_charge r) \<and>
      in_next_message_id j = in_next_message_id i + ucast ch \<and> find_waiter (in_next_message_id i) j = None"
  proof (cases "pack_message (request_header S c t ch m i1) b")
    case bytes: (Ok mb)
    show ?thesis
    proof (cases "register_waiter now m c i1")
      case (Ok gi)
      obtain g i2 where gi: "gi = (g, i2)" by (cases gi)
      from u bytes Ok gi have "send_registered K S net now cp rm mb g r i2 = (Err e, j)" by simp
      from send_registered_Err [OF assms(1,2) this] register_waiter_find [of now m c i1 g i2]
        register_waiter_Ok(4,5) [of now m c i1 g i2] Ok gi a
      show ?thesis by simp
    qed (use u bytes ab in auto)
  qed (use u ab in auto)
  then show "avail S (in_credits j) = avail S (in_credits i) + unat (res_charge r)"
    "in_next_message_id j = in_next_message_id i + ucast ch" "find_waiter (in_next_message_id i) j = None" by simp_all
qed

section \<open>What travels\<close>

text \<open>
  A peer that holds the encryption key of the client undoes the wrapping; it then checks the
  signature of the message under the client's role.
\<close>

definition peer_open :: "crypto_prims \<Rightarrow> bytes \<Rightarrow> cipher \<Rightarrow> bytes \<Rightarrow> bytes res" where
  "peer_open K key cipher wire =
     (if take 4 wire = TRANSFORM_PROTOCOL_ID
      then decrypt_message K (take transform_header_SIZE wire) (drop transform_header_SIZE wire) key cipher
      else if take 4 wire = COMPRESSION_PROTOCOL_ID then decompress_response K wire
      else Ok wire)"

definition peer_accepts :: "crypto_prims \<Rightarrow> bytes \<Rightarrow> signing_algorithm \<Rightarrow> message_id \<Rightarrow> bool \<Rightarrow> bytes \<Rightarrow> bool" where
  "peer_accepts K key algo m is_cancel msg \<longleftrightarrow>
     compute_signature K (zero_signature msg) key algo m is_cancel False = Ok (take 16 (drop 48 msg))"

lemma signed_accepted:
  assumes "sign_message K mb k a m c = Ok msg"
  shows "peer_accepts K k a m c msg" "take 48 msg = take 48 mb" "drop 64 msg = drop 64 mb" "length msg = length mb"
  using assms sign_message_frame [OF assms]
  by (auto elim!: sign_message_Ok simp: peer_accepts_def zero_put_signature) (simp add: sig_defs)

lemma encrypt_bytes_opens:
  assumes "aead_ok K" "cs_encryption_key (in_crypto i) = Some k" "cs_encryption_cipher (in_crypto i) = Some c"
    "length k = key_len c" "encrypt_bytes K mb i = (Ok wire, j)"
  shows "peer_open K k c wire = Ok mb"
proof -
  obtain g n g' where n: "cs_nonce_gen (in_crypto i) = Some g" "nonce_next g = Ok (n, g')"
    using assms(2,3,5) by (auto simp: encrypt_bytes_def Let_def split: option.split_asm result.split_asm)
  obtain tag ct where t: "length tag = 16" and
    e: "encrypt_message K mb k c n (cs_session_id (in_crypto i)) =
       Ok (transform_header_bytes \<lparr>th_signature = tag, th_nonce = n, th_original_message_size = word_of_nat (length mb),
             th_flags = SMB2_TRANSFORM_HEADER_FLAG_ENCRYPTED, th_session_id = cs_session_id (in_crypto i)\<rparr>, ct)" and
    d: "decrypt_message K (transform_header_bytes \<lparr>th_signature = tag, th_nonce = n,
             th_original_message_size = word_of_nat (length mb), th_flags = SMB2_TRANSFORM_HEADER_FLAG_ENCRYPTED,
             th_session_id = cs_session_id (in_crypto i)\<rparr>) ct k c = Ok mb"
    using encrypt_message_Ok [OF assms(1,4) nonce_next_length [OF n(2)]] by blast
  let ?h = "transform_header_bytes \<lparr>th_signature = tag, th_nonce = n, th_original_message_size = word_of_nat (length mb),
             th_flags = SMB2_TRANSFORM_HEADER_FLAG_ENCRYPTED, th_session_id = cs_session_id (in_crypto i)\<rparr>"
  have w: "wire = ?h @ ct" using assms(2,3,5) n e by (simp add: encrypt_bytes_def Let_def)
  have l: "length ?h = transform_header_SIZE"
    by (rule length_transform_header_bytes) (simp add: wf_transform_header_def t nonce_next_length [OF n(2)])
  have "take 4 ?h = TRANSFORM_PROTOCOL_ID" by (simp add: transform_header_bytes_def)
  with l d show ?thesis by (simp add: peer_open_def w transform_header_SIZE_def)
qed

lemma compressed_opens:
  assumes "lz4_ok K" "compress_message K msg header_SIZE = Some cm" "build_compressed_frame cm = Ok wire"
    "length msg \<le> 16777216"
  shows "peer_open K k c wire = Ok msg"
proof -
  obtain f where f: "build_compressed_frame cm = Ok f" "decompress_response K f = Ok msg"
    using decompress_built_frame [OF assms(1,2)] diff_le_self [of "length msg" header_SIZE] assms(4) by fastforce
  have "take 4 wire = COMPRESSION_PROTOCOL_ID"
    using assms(3)
    by (auto simp: build_compressed_frame_def run_writer_def pack_compression_transform_header_def wr_simps)
  moreover have "COMPRESSION_PROTOCOL_ID \<noteq> TRANSFORM_PROTOCOL_ID"
    by (simp add: COMPRESSION_PROTOCOL_ID_def TRANSFORM_PROTOCOL_ID_def)
  ultimately show ?thesis using f assms(3) by (simp add: peer_open_def)
qed

lemma wire_form_opens:
  assumes "aead_ok K" "lz4_ok K" "take 4 mb = PROTOCOL_ID" "64 \<le> length mb" "length mb \<le> 16777216"
    and "wire_form K cp mb m i = (Ok wire, j)"
    and "cs_should_encrypt (in_crypto i) \<Longrightarrow> cs_encryption_key (in_crypto i) = Some k \<and>
           cs_encryption_cipher (in_crypto i) = Some c \<and> length k = key_len c"
  shows "\<exists>msg. peer_open K k c wire = Ok msg \<and>
    (if cs_should_encrypt (in_crypto i) then msg = mb else sign_if_active K mb m False (in_crypto i) = Ok msg)"
proof (cases "cs_should_encrypt (in_crypto i)")
  case True
  then show ?thesis
    using encrypt_bytes_opens [OF assms(1), of i k c mb wire j] assms(6,7) by (simp add: wire_form_def)
next
  case False
  obtain msg where s: "sign_if_active K mb m False (in_crypto i) = Ok msg"
    and w: "(if cp \<and> in_compression_enabled i \<and> length msg > header_SIZE
      then (case compress_message K msg header_SIZE of Some cm \<Rightarrow> build_compressed_frame cm | None \<Rightarrow> Ok msg) else Ok msg) = Ok wire"
    using assms(6) False by (auto simp: wire_form_def result_bind_eq_Ok)
  have "take 48 msg = take 48 mb \<and> length msg = length mb"
    using s signed_accepted(2,4)
    by (fastforce simp: sign_if_active_def split: if_split_asm option.split_asm)
  then have m: "take 4 msg = PROTOCOL_ID" "length msg \<le> 16777216"
    using assms(3-5) by (auto dest!: arg_cong [of "take 48 msg" _ "take 4"])
  then have plain: "peer_open K k c msg = Ok msg"
    by (simp add: peer_open_def PROTOCOL_ID_def TRANSFORM_PROTOCOL_ID_def COMPRESSION_PROTOCOL_ID_def)
  have "peer_open K k c wire = Ok msg"
    using w plain compressed_opens [OF assms(2) _ _ m(2)] by (auto split: if_split_asm option.split_asm)
  with False s show ?thesis by simp
qed

section \<open>Properties\<close>

lemma wire_frame_crypto:
  "wire_frame i j \<Longrightarrow> \<exists>n. in_crypto j = (in_crypto i)\<lparr>cs_nonce_gen := n\<rparr>"
  by (auto simp: wire_frame_def)

lemma allocate_register_sel:
  assumes "register_waiter now m c (snd (allocate_msg_id n i)) = Ok (g, j)"
  shows "in_crypto j = in_crypto i" "in_wire j = in_wire i"
  using assms
  by (auto simp: register_waiter_def Let_def allocate_msg_id_def drop_sender_def log_chan_def bump_def
      split: if_split_asm option.split)

lemma send_allocated_wire:
  fixes i j :: "'s inner"
  assumes "send_allocated K S net now cp rm c b t ch r i = (Ok (g, mb), j)"
  obtains i2 i3 :: "'s inner" and wire where "in_crypto i2 = in_crypto i" "in_wire j = wire # in_wire i" "net wire = Wrote (Ok ())"
    "wire_form K cp mb (in_next_message_id i) i2 = (Ok wire, i3)"
    "pack_message (request_header S c t ch (in_next_message_id i) (snd (allocate_msg_id (ucast ch) i))) b = Ok mb"
proof -
  obtain wire i2 i3 i4 where
    1: "pack_message (request_header S c t ch (in_next_message_id i) (snd (allocate_msg_id (ucast ch) i))) b = Ok mb" and
    2: "register_waiter now (in_next_message_id i) c (snd (allocate_msg_id (ucast ch) i)) = Ok (g, i2)" and
    3: "wire_form K cp mb (in_next_message_id i) i2 = (Ok wire, i3)" and
    4: "send_and_count S (net wire) wire i3 = (Ok (), i4)" and 5: "j = mark_sent now [in_next_message_id i] i4"
    using assms by (rule send_allocated_Ok)
  have "in_wire j = wire # in_wire i"
    using send_and_count_Ok(9) [OF 4] wire_frame_sel(8) [OF wire_form_frame [OF 3]] allocate_register_sel(2) [OF 2] 5 by simp
  from that [OF allocate_register_sel(1) [OF 2] this send_and_count_Ok(1) [OF 4] 3 1] show thesis .
qed

lemma map_fst_res_eq:
  "map_fst_res fst x = (Ok g, j) \<Longrightarrow> \<exists>mb. x = (Ok (g, mb), j)"
  "map_fst_res f x = (Err e, j) \<Longrightarrow> x = (Err e, j)"
  by (cases x; cases "fst x"; auto simp: map_fst_res_def)+

lemma with_credits_Reserved:
  assumes "sem_laws S" "with_credits S cc send i = Some (x, j)" "\<not> in_disconnected i" "fst (reserve_credits S (max cc 1) i) = Reserved r"
  obtains p where "r = reservation_new (max cc 1)" "avail S p + unat (max cc 1) = avail S (in_credits i)"
    "send (max cc 1) r (i\<lparr>in_credits := p\<rparr>) = (x, j)"
proof -
  obtain ok p where t: "try_reserve S (max cc 1) (in_credits i) = (ok, p)" by fastforce
  have ok: "ok"
    using assms(4) t by (cases ok) (auto simp: reserve_credits_def Let_def split: if_split_asm)
  with t assms(2-4) have "r = reservation_new (max cc 1)" "send (max cc 1) r (i\<lparr>in_credits := p\<rparr>) = (x, j)"
    by (auto simp: with_credits_def reserve_credits_def)
  with try_reserve_True(2) [OF assms(1)] t ok show thesis by (intro that) auto
qed

lemma with_credits_cases:
  assumes "with_credits S cc send i = Some (x, j)"
  obtains (dead) "in_disconnected i" "x = Err Disconnected" "j = i"
  | (refused) e where "\<not> in_disconnected i" "x = Err e" "j = i"
  | (reserved) r where "\<not> in_disconnected i" "fst (reserve_credits S (max cc 1) i) = Reserved r"
proof (cases "in_disconnected i")
  case True
  with assms have "x = Err Disconnected" "j = i" by (simp_all add: with_credits_def)
  from dead [OF True this] show thesis .
next
  case False
  obtain o1 i1 where o: "reserve_credits S (max cc 1) i = (o1, i1)" by fastforce
  show thesis
  proof (cases o1)
    case (Reserved r)
    with o have "fst (reserve_credits S (max cc 1) i) = Reserved r" by simp
    from reserved [OF False this] show thesis .
  next
    case (Refused e)
    then have "i1 = i"
      using o by (auto simp: reserve_credits_def Let_def try_reserve_def split: prod.split_asm bool.split_asm if_split_asm option.split_asm)
    with False Refused o assms have "x = Err e" "j = i" by (simp_all add: with_credits_def)
    from refused [OF False this] show thesis .
  next
    case MustWait
    with False o assms show thesis by (simp add: with_credits_def)
  qed
qed

lemma dispatch_Ok:
  assumes "sem_laws S" "dispatch_with_credits K S net now c b t cc i = Some (Ok g, j)"
  obtains r p mb where "avail S p + unat (max cc 1) = avail S (in_credits i)"
    "send_allocated K S net now True False c b t (max cc 1) r (i\<lparr>in_credits := p\<rparr>) = (Ok (g, mb), j)"
  using assms(2) [unfolded dispatch_with_credits_def]
proof (cases rule: with_credits_cases)
  case (reserved r)
  obtain p where p: "avail S p + unat (max cc 1) = avail S (in_credits i)"
    and d: "dispatch_reserved K S net now c b t (max cc 1) r (i\<lparr>in_credits := p\<rparr>) = (Ok g, j)"
    using assms(2) [unfolded dispatch_with_credits_def] reserved by (rule with_credits_Reserved [OF assms(1)])
  have "map_fst_res fst (send_allocated K S net now True False c b t (max cc 1) r (i\<lparr>in_credits := p\<rparr>)) = (Ok g, j)"
    using d reserved(1) by (simp add: dispatch_reserved_def)
  from map_fst_res_eq(1) [OF this] obtain mb where
    "send_allocated K S net now True False c b t (max cc 1) r (i\<lparr>in_credits := p\<rparr>) = (Ok (g, mb), j)" by blast
  from that [OF p this] show thesis .
qed simp_all

lemma sample_dispatch:
  "\<exists>g j. dispatch_with_credits sample_prims counting_sem (\<lambda>_. Wrote r) 3 Echo (pack_trivial ()) None 0 (inner_new counting_sem 0) =
     Some (case r of Ok _ \<Rightarrow> Ok g | Err e \<Rightarrow> Err e | Panic \<Rightarrow> Panic, j)"
  by (cases r)
    (simp_all add: dispatch_with_credits_def with_credits_def reserve_credits_def try_reserve_def inner_new_def pool_new_def
      counting_sem_def dispatch_reserved_def map_fst_res_def send_allocated_def allocate_msg_id_def bump_def pack_message_def
      run_writer_def wr_simps pack_trivial_def register_waiter_def Let_def send_registered_def wire_form_def crypto_state_new_def
      sign_if_active_def send_and_count_def writer_job_def abort_send_def drop_reservation_def reservation_drop_def
      reservation_new_def pool_refund_def pool_grant_def MAX_PERMITS_def drop_sender_def find_waiter_def guard_drop_def remove_waiter_def
      log_chan_def fan_error_to_waiters_def pool_close_def
      split: if_split)

text \<open>
  C10: A dispatched request takes the next message id and as many ids and credits as its charge,
  hands exactly one frame to the transport, and has its waiter in the map, marked as sent, when
  the call returns.
\<close>

theorem dispatch_accounts:
  assumes "sem_laws S" "dispatch_with_credits K S net now c b t cc i = Some (Ok g, j)"
  shows "wg_msg_id g = in_next_message_id i \<and>
    in_next_message_id j = in_next_message_id i + ucast (max cc 1) \<and>
    avail S (in_credits j) + unat (max cc 1) = avail S (in_credits i) \<and>
    find_waiter (wg_msg_id g) j = Some \<lparr>wt_tx = wg_rx g, wt_command = c, wt_registered_at = now,
      wt_sent_at = Some now, wt_last_activity = now, wt_async_id = None\<rparr> \<and>
    (\<exists>wire. in_wire j = wire # in_wire i \<and> net wire = Wrote (Ok ()))"
proof -
  obtain r p mb where p: "avail S p + unat (max cc 1) = avail S (in_credits i)"
    and s: "send_allocated K S net now True False c b t (max cc 1) r (i\<lparr>in_credits := p\<rparr>) = (Ok (g, mb), j)"
    by (rule dispatch_Ok [OF assms])
  obtain wire where "in_wire j = wire # in_wire i" "net wire = Wrote (Ok ())"
    using s by (rule send_allocated_wire) simp
  with send_allocated_sent [OF s] p show ?thesis by simp
qed

theorem dispatch_accounts_witness:
  "\<exists>g j. dispatch_with_credits sample_prims counting_sem (\<lambda>_. Wrote (Ok ())) 3 Echo (pack_trivial ()) None 0
       (inner_new counting_sem 0) = Some (Ok g, j) \<and> wg_msg_id g = 0 \<and> in_next_message_id j = 1"
proof -
  obtain g j where d: "dispatch_with_credits sample_prims counting_sem (\<lambda>_. Wrote (Ok ())) 3 Echo (pack_trivial ()) None 0
      (inner_new counting_sem 0) = Some (Ok g, j)"
    using sample_dispatch [of "Ok ()"] by auto
  from dispatch_accounts [OF counting_sem_laws d] d show ?thesis by (simp add: inner_new_def)
qed

text \<open>
  A request that fails gives its credits back and leaves no waiter behind, but it keeps the
  message ids it took: the next request starts after a gap in the id sequence whenever the
  connection survives the failure.
\<close>

lemma failed_send_leaves_gap:
  assumes "sem_laws S" "find_waiter (in_next_message_id i) i = None"
    "dispatch_with_credits K S net now c b t cc i = Some (Err e, j)"
  shows "avail S (in_credits j) = avail S (in_credits i) \<and> find_waiter (in_next_message_id i) j = None \<and>
    (in_next_message_id j = in_next_message_id i \<or> in_next_message_id j = in_next_message_id i + ucast (max cc 1))"
  using assms(3) [unfolded dispatch_with_credits_def]
proof (cases rule: with_credits_cases)
  case (reserved r)
  obtain p where r: "r = reservation_new (max cc 1)" and p: "avail S p + unat (max cc 1) = avail S (in_credits i)"
    and d: "dispatch_reserved K S net now c b t (max cc 1) r (i\<lparr>in_credits := p\<rparr>) = (Err e, j)"
    using assms(3) [unfolded dispatch_with_credits_def] reserved by (rule with_credits_Reserved [OF assms(1)])
  then have s: "send_allocated K S net now True False c b t (max cc 1) r (i\<lparr>in_credits := p\<rparr>) = (Err e, j)"
    using reserved(1) by (simp add: dispatch_reserved_def map_fst_res_eq(2))
  have "find_waiter (in_next_message_id (i\<lparr>in_credits := p\<rparr>)) (i\<lparr>in_credits := p\<rparr>) = None"
    using assms(2) by (simp add: find_waiter_def)
  from send_allocated_Err [OF assms(1) _ this s] r p show ?thesis by (simp add: reservation_new_def)
qed (use assms(2) in simp_all)


lemma header_bytes_signature:
  "length (hdr_signature h) = 16 \<Longrightarrow> length s = 16 \<Longrightarrow> take 48 (header_bytes h) @ s = header_bytes (h\<lparr>hdr_signature := s\<rparr>)"
  by (simp add: header_bytes_def)

lemma request_header_fields:
  "wf_header (request_header S c t ch m i)" "hdr_message_id (request_header S c t ch m i) = m"
  "hdr_command (request_header S c t ch m i) = c" "length (header_bytes (request_header S c t ch m i)) = 64"
proof -
  have a: "\<not> hf_is_async 0" "\<not> hf_is_async (hf_set_signed 0)" "\<not> hf_is_async HF_DFS_OPERATIONS"
    "\<not> hf_is_async (hf_set_signed 0 OR HF_DFS_OPERATIONS)"
    by (simp_all add: hf_is_async_def hf_set_signed_def flag_contains_def flag_set_def HF_ASYNC_COMMAND_def HF_SIGNED_def
        HF_DFS_OPERATIONS_def)
  show "wf_header (request_header S c t ch m i)" "hdr_message_id (request_header S c t ch m i) = m"
    "hdr_command (request_header S c t ch m i) = c" "length (header_bytes (request_header S c t ch m i)) = 64"
    using a by (simp_all add: request_header_def new_request_def Let_def wf_header_def split: option.split)
qed

text \<open>Signing keeps the header, but for its last field, and the body.\<close>

lemma sign_if_active_shape:
  assumes "sign_if_active K (header_bytes h @ payload) m cancel c = Ok msg" "length (hdr_signature h) = 16"
  shows "\<exists>sg. length sg = 16 \<and> msg = header_bytes (h\<lparr>hdr_signature := sg\<rparr>) @ payload"
proof (cases "msg = header_bytes h @ payload")
  case True
  with assms(2) show ?thesis by (intro exI [of _ "hdr_signature h"]) simp
next
  case False
  then obtain k a where "sign_message K (header_bytes h @ payload) k a m cancel = Ok msg"
    using assms(1) by (auto simp: sign_if_active_def split: if_split_asm option.split_asm)
  then obtain sg where "length sg = 16" "msg = put_signature sg (header_bytes h @ payload)" by (rule sign_message_Ok)
  with header_bytes_signature [OF assms(2)] length_header_bytes [OF assms(2)] show ?thesis
    by (intro exI [of _ sg]) (simp add: sig_defs)
qed

text \<open>
  C8: What a dispatched request puts on the wire is what the peer expects: undoing the
  encryption or compression gives a message whose header carries the command and message id and whose
  body is the packed request, and when the session signs, its signature is the one the peer computes.
\<close>

theorem sent_request_opens:
  fixes i j :: "'s inner"
  assumes "sem_laws S" "aead_ok K" "lz4_ok K"
    "dispatch_with_credits K S net now c body t cc i = Some (Ok g, j)"
    "\<And>w. length w = 64 \<Longrightarrow> body w = Ok ((), w @ payload)" "length payload \<le> 16777152"
    "cs_should_encrypt (in_crypto i) \<Longrightarrow> cs_encryption_key (in_crypto i) = Some k \<and>
       cs_encryption_cipher (in_crypto i) = Some ciph \<and> length k = key_len ciph"
  shows "\<exists>wire msg h. in_wire j = wire # in_wire i \<and> peer_open K k ciph wire = Ok msg \<and>
    run_reader unpack_header msg = Ok h \<and> hdr_message_id h = wg_msg_id g \<and> hdr_command h = c \<and> drop 64 msg = payload \<and>
    (cs_should_sign (in_crypto i) \<and> \<not> cs_should_encrypt (in_crypto i) \<and> cs_signing_key (in_crypto i) = Some sk \<and>
       cs_signing_algorithm (in_crypto i) = Some alg \<longrightarrow> peer_accepts K sk alg (wg_msg_id g) False msg)"
proof -
  obtain r p mb where s: "send_allocated K S net now True False c body t (max cc 1) r (i\<lparr>in_credits := p\<rparr>) = (Ok (g, mb), j)"
    by (rule dispatch_Ok [OF assms(1,4)])
  define h where "h = request_header S c t (max cc 1) (in_next_message_id (i\<lparr>in_credits := p\<rparr>))
    (snd (allocate_msg_id (ucast (max cc 1)) (i\<lparr>in_credits := p\<rparr>)))"
  obtain i2 i3 :: "'s inner" and wire where c2: "in_crypto i2 = in_crypto i" and w: "in_wire j = wire # in_wire i"
    and f: "wire_form K True mb (in_next_message_id i) i2 = (Ok wire, i3)" and mb: "pack_message h body = Ok mb"
    using s by (rule send_allocated_wire) (auto simp: h_def)
  have h: "wf_header h" "hdr_message_id h = in_next_message_id i" "hdr_command h = c"
    by (simp_all add: h_def request_header_fields)
  then have hl: "length (header_bytes h) = 64" "length (hdr_signature h) = 16" by (simp_all add: wf_header_def)
  have m: "mb = header_bytes h @ payload"
    using mb assms(5) [OF hl(1)] by (simp add: pack_message_def run_writer_def wr_simps)
  have p4: "take 4 mb = PROTOCOL_ID" by (simp add: m header_bytes_def)
  have lm: "64 \<le> length mb" "length mb \<le> 16777216" using assms(6) by (simp_all add: m hl)
  obtain msg where msg: "peer_open K k ciph wire = Ok msg"
    "if cs_should_encrypt (in_crypto i) then msg = mb else sign_if_active K mb (in_next_message_id i) False (in_crypto i) = Ok msg"
    using wire_form_opens [OF assms(2,3) p4 lm f, of k ciph] assms(7) unfolding c2 by blast
  have g: "wg_msg_id g = in_next_message_id i" using send_allocated_sent(1) [OF s] by simp
  have "\<exists>sg. length sg = 16 \<and> msg = header_bytes (h\<lparr>hdr_signature := sg\<rparr>) @ payload"
  proof (cases "cs_should_encrypt (in_crypto i)")
    case True
    with msg(2) m hl(2) show ?thesis by (intro exI [of _ "hdr_signature h"]) simp
  next
    case False
    with msg(2) m sign_if_active_shape [OF _ hl(2)] show ?thesis by simp
  qed
  then obtain sg where sg: "length sg = 16" "msg = header_bytes (h\<lparr>hdr_signature := sg\<rparr>) @ payload" by blast
  have "wf_header (h\<lparr>hdr_signature := sg\<rparr>)" using h(1) sg(1) by (simp add: wf_header_def)
  from run_header_packed [OF this] sg have "run_reader unpack_header msg = Ok (h\<lparr>hdr_signature := sg\<rparr>)" "drop 64 msg = payload"
    by simp_all
  moreover have "peer_accepts K sk alg (wg_msg_id g) False msg"
    if "cs_should_sign (in_crypto i)" "\<not> cs_should_encrypt (in_crypto i)" "cs_signing_key (in_crypto i) = Some sk"
      "cs_signing_algorithm (in_crypto i) = Some alg"
    using signed_accepted(1) [of K mb sk alg "in_next_message_id i" False msg] msg(2) that g by (simp add: sign_if_active_def)
  ultimately show ?thesis using w msg(1) h g by (intro exI [of _ wire] exI [of _ msg] exI [of _ "h\<lparr>hdr_signature := sg\<rparr>"]) simp
qed

theorem sent_request_opens_witness:
  "\<exists>j g wire msg h. dispatch_with_credits sample_prims counting_sem (\<lambda>_. Wrote (Ok ())) 3 Echo (pack_trivial ()) None 0
       (inner_new counting_sem 0) = Some (Ok g, j) \<and> in_wire j = [wire] \<and>
     peer_open sample_prims [] Aes128Gcm wire = Ok msg \<and> run_reader unpack_header msg = Ok h \<and>
     hdr_command h = Echo \<and> drop 64 msg = [4, 0, 0, 0]"
proof -
  obtain g j where d: "dispatch_with_credits sample_prims counting_sem (\<lambda>_. Wrote (Ok ())) 3 Echo (pack_trivial ()) None 0
      (inner_new counting_sem 0) = Some (Ok g, j)"
    using sample_dispatch [of "Ok ()"] by auto
  have "pack_trivial () w = Ok ((), w @ [4, 0, 0, 0])" for w
    by (simp add: pack_trivial_def trivial_STRUCTURE_SIZE_def wr_simps) code_simp
  from sent_request_opens [OF counting_sem_laws sample_prims_ok(3,4) d this, of "[]" Aes128Gcm] d show ?thesis
    by (fastforce simp: inner_new_def crypto_state_new_def)
qed

end
