(* ===== verification/Smb_Session.thy ===== *)
theory Smb_Session
  imports Smb_Send_Props Smb_Msg_Session
begin

text \<open>
  The life of a session: \<open>negotiate\<close> and the revival of a dead connection
  (\<open>src/client/connection.rs\<close>), and SESSION_SETUP with the choice of keys
  (\<open>src/client/session.rs\<close>). The authentication mechanism (NTLM, Kerberos) enters through the
  security buffers it produces and the session key it ends with.
\<close>

section \<open>Negotiate\<close>

definition HASH_ALGORITHM_SHA512 :: u16 where "HASH_ALGORITHM_SHA512 = 0x0001"
definition CIPHER_AES_128_CCM :: u16 where "CIPHER_AES_128_CCM = 0x0001"
definition CIPHER_AES_128_GCM :: u16 where "CIPHER_AES_128_GCM = 0x0002"
definition CIPHER_AES_256_CCM :: u16 where "CIPHER_AES_256_CCM = 0x0003"
definition CIPHER_AES_256_GCM :: u16 where "CIPHER_AES_256_GCM = 0x0004"
definition SIGNING_HMAC_SHA256 :: u16 where "SIGNING_HMAC_SHA256 = 0x0000"
definition SIGNING_AES_CMAC :: u16 where "SIGNING_AES_CMAC = 0x0001"
definition SIGNING_AES_GMAC :: u16 where "SIGNING_AES_GMAC = 0x0002"
definition COMPRESSION_LZ4 :: u16 where "COMPRESSION_LZ4 = 0x0005"

text \<open>The request; the client GUID and the salt come from the system's random source.\<close>

definition client_negotiate_request :: "guid \<Rightarrow> bytes \<Rightarrow> bool \<Rightarrow> negotiate_request" where
  "client_negotiate_request client_guid salt compression_requested =
     (let contexts = [
        PreauthIntegrity [HASH_ALGORITHM_SHA512] salt,
        Encryption [CIPHER_AES_128_GCM, CIPHER_AES_128_CCM, CIPHER_AES_256_GCM, CIPHER_AES_256_CCM],
        Signing [SIGNING_AES_GMAC, SIGNING_AES_CMAC, SIGNING_HMAC_SHA256]] @
        (if compression_requested then [Compression 0 [COMPRESSION_LZ4]] else [])
      in \<lparr>ngq_security_mode = SM_SIGNING_ENABLED,
          ngq_capabilities = CAP_DFS OR CAP_LEASING OR CAP_LARGE_MTU,
          ngq_client_guid = client_guid,
          ngq_dialects = ALL_dialects,
          ngq_negotiate_contexts = contexts\<rparr>)"

definition negotiate_send ::
    "crypto_prims \<Rightarrow> 's sem_ops \<Rightarrow> (bytes \<Rightarrow> write_outcome) \<Rightarrow> instant \<Rightarrow> guid \<Rightarrow> bytes \<Rightarrow> 's inner \<Rightarrow>
     (waiter_guard res \<times> 's inner) option" where
  "negotiate_send K S net now client_guid salt i =
     (let request = client_negotiate_request client_guid salt (in_compression_requested i) in
      case reserve_credits S 1 i of
        (MustWait, i1) \<Rightarrow> None
      | (Refused e, i1) \<Rightarrow> Some (Err e, i1)
      | (Reserved r, i1) \<Rightarrow> Some (
          let (msg_id, i2) = allocate_msg_id 1 i1;
              h = (new_request Negotiate)\<lparr>hdr_message_id := msg_id, hdr_credits := 1\<rparr>
          in case pack_message h (pack_negotiate_request request) of
               Panic \<Rightarrow> (Panic, i2)
             | Err e \<Rightarrow> abort_send S None r e i2
             | Ok req_bytes \<Rightarrow>
                 let i3 = i2\<lparr>in_preauth_hasher := preauth_update K (in_preauth_hasher i2) req_bytes\<rparr> in
                 (case register_waiter now msg_id Negotiate i3 of
                    Panic \<Rightarrow> (Panic, i3)
                  | Err e \<Rightarrow> abort_send S None r e i3
                  | Ok (g, i4) \<Rightarrow>
                      (case send_and_count S (net req_bytes) req_bytes i4 of
                         (Panic, i5) \<Rightarrow> (Panic, i5)
                       | (Err e, i5) \<Rightarrow> abort_send S (Some g) r e i5
                       | (Ok _, i5) \<Rightarrow> (Ok g, mark_sent now [msg_id] i5)))))"

fun cipher_of_code :: "u16 \<Rightarrow> cipher option" where
  "cipher_of_code c =
     (if c = CIPHER_AES_128_CCM then Some Aes128Ccm
      else if c = CIPHER_AES_128_GCM then Some Aes128Gcm
      else if c = CIPHER_AES_256_CCM then Some Aes256Ccm
      else if c = CIPHER_AES_256_GCM then Some Aes256Gcm
      else None)"

text \<open>The loop over the contexts of the response: GMAC, cipher, compression.\<close>

fun scan_contexts ::
    "negotiate_context list \<Rightarrow> bool \<times> cipher option \<times> bool \<Rightarrow> bool \<times> cipher option \<times> bool" where
  "scan_contexts [] acc = acc"
| "scan_contexts (ctx # rest) (gmac, cipher, compression) =
     scan_contexts rest
       (case ctx of
          Signing algorithms \<Rightarrow> (gmac \<or> SIGNING_AES_GMAC \<in> set algorithms, cipher, compression)
        | Encryption ciphers \<Rightarrow>
            (gmac, (case ciphers of c # _ \<Rightarrow> cipher_of_code c | [] \<Rightarrow> cipher), compression)
        | Compression _ algorithms \<Rightarrow> (gmac, cipher, compression \<or> COMPRESSION_LZ4 \<in> set algorithms)
        | _ \<Rightarrow> (gmac, cipher, compression))"

text \<open>What \<open>negotiate\<close> does with the response frame.\<close>

definition negotiate_receive :: "crypto_prims \<Rightarrow> frame \<Rightarrow> 's inner \<Rightarrow> unit res \<times> 's inner" where
  "negotiate_receive K fr i0 =
     (let i = i0\<lparr>in_preauth_hasher := preauth_update K (in_preauth_hasher i0) (fr_raw fr)\<rparr>;
          h = fr_header fr
      in if \<not> header_is_response h then
           (Err (InvalidData (Malformed ''expected a response but got a request'' [])), i)
         else if hdr_command h \<noteq> Negotiate then
           (Err (InvalidData (Malformed ''expected Negotiate response'' [])), i)
         else if hdr_status h \<noteq> STATUS_SUCCESS then (Err (Protocol (hdr_status h) Negotiate), i)
         else case run_reader unpack_negotiate_response (fr_body fr) of
           Panic \<Rightarrow> (Panic, i)
         | Err e \<Rightarrow> (Err e, i)
         | Ok resp \<Rightarrow>
             if ngr_dialect_revision resp \<notin> set ALL_dialects then
               (Err (InvalidData (Malformed ''server selected dialect which we did not offer'' [])), i)
             else if ngr_max_read_size resp < 65536 then
               (Err (InvalidData (Malformed ''MaxReadSize is below minimum 65536'' [unat (ngr_max_read_size resp)])), i)
             else if ngr_max_write_size resp < 65536 then
               (Err (InvalidData (Malformed ''MaxWriteSize is below minimum 65536'' [unat (ngr_max_write_size resp)])), i)
             else
               let (gmac, cipher, compression) = scan_contexts (ngr_negotiate_contexts resp) (False, None, False) in
               (Ok (), i\<lparr>
                  in_compression_enabled := in_compression_requested i \<and> compression,
                  in_params := Some \<lparr>
                    np_dialect = ngr_dialect_revision resp,
                    np_max_read_size = ngr_max_read_size resp,
                    np_max_write_size = ngr_max_write_size resp,
                    np_max_transact_size = ngr_max_transact_size resp,
                    np_server_guid = ngr_server_guid resp,
                    np_signing_required = signing_required (ngr_security_mode resp),
                    np_capabilities = ngr_capabilities resp,
                    np_gmac_negotiated = gmac,
                    np_cipher = cipher,
                    np_compression_supported = compression\<rparr>\<rparr>))"

section \<open>SESSION_SETUP\<close>

record session =
  se_session_id :: session_id
  se_signing_key :: bytes
  se_encryption_key :: "bytes option"
  se_decryption_key :: "bytes option"
  se_signing_algorithm :: signing_algorithm
  se_should_sign :: bool
  se_should_encrypt :: bool

definition session_setup_body :: "bytes \<Rightarrow> 's inner \<Rightarrow> session_setup_request" where
  "session_setup_body token i = \<lparr>
     ssq_flags = 0,
     ssq_security_mode = SM_SIGNING_ENABLED,
     ssq_capabilities = 0,
     ssq_channel = 0,
     ssq_previous_session_id = in_previous_session_id i,
     ssq_security_buffer = token\<rparr>"

text \<open>The checks on the response of the first and of the second round of NTLM.\<close>

definition setup_round1 :: "frame \<Rightarrow> 's inner \<Rightarrow> session_setup_response res \<times> 's inner" where
  "setup_round1 fr i =
     (let h = fr_header fr in
      if hdr_command h \<noteq> SessionSetup then
        (Err (InvalidData (Malformed ''expected SessionSetup response'' [])), i)
      else if \<not> is_more_processing_required (hdr_status h) then
        if is_error (hdr_status h) then (Err (Protocol (hdr_status h) SessionSetup), i)
        else (Err (InvalidData (Malformed
          ''expected STATUS_MORE_PROCESSING_REQUIRED, got success on first round'' [])), i)
      else
        let i1 = set_session_id (hdr_session_id h) i in
        (run_reader unpack_session_setup_response (fr_body fr), i1))"

definition setup_round2 :: "frame \<Rightarrow> 's inner \<Rightarrow> session_setup_response res \<times> 's inner" where
  "setup_round2 fr i =
     (let h = fr_header fr in
      if hdr_command h \<noteq> SessionSetup then
        (Err (InvalidData (Malformed ''expected SessionSetup response'' [])), i)
      else if hdr_status h \<noteq> STATUS_SUCCESS then (Err (Protocol (hdr_status h) SessionSetup), i)
      else case run_reader unpack_session_setup_response (fr_body fr) of
        Ok resp \<Rightarrow> (Ok resp, set_session_id (hdr_session_id h) i)
      | Err e \<Rightarrow> (Err e, i)
      | Panic \<Rightarrow> (Panic, i))"

definition setup_kerberos_round :: "frame \<Rightarrow> 's inner \<Rightarrow> session_setup_response res \<times> 's inner" where
  "setup_kerberos_round fr i =
     (let h = fr_header fr in
      if hdr_command h \<noteq> SessionSetup then
        (Err (InvalidData (Malformed ''expected SessionSetup response'' [])), i)
      else if hdr_status h \<noteq> STATUS_SUCCESS \<and> \<not> is_more_processing_required (hdr_status h) then
        (Err (Protocol (hdr_status h) SessionSetup), i)
      else
        (run_reader unpack_session_setup_response (fr_body fr), set_session_id (hdr_session_id h) i))"

text \<open>The preauth hash each flow feeds into the key derivation.\<close>

definition ntlm_preauth :: "crypto_prims \<Rightarrow> bytes \<Rightarrow> bytes \<Rightarrow> bytes \<Rightarrow> bytes \<Rightarrow> bytes" where
  "ntlm_preauth K hash req1 resp1 req2 =
     preauth_update K (preauth_update K (preauth_update K hash req1) resp1) req2"

definition kerberos_preauth :: "crypto_prims \<Rightarrow> bytes \<Rightarrow> bytes \<Rightarrow> frame \<Rightarrow> bytes" where
  "kerberos_preauth K hash req fr =
     (let h1 = preauth_update K hash req in
      if is_more_processing_required (hdr_status (fr_header fr)) then preauth_update K h1 (fr_raw fr) else h1)"

definition kerberos_session_key :: "bytes \<Rightarrow> bytes" where
  "kerberos_session_key full_key = (if length full_key > 16 then take 16 full_key else full_key)"

text \<open>The keys of a session, the same code in both flows.\<close>

definition select_keys ::
    "crypto_prims \<Rightarrow> negotiated_params \<Rightarrow> bytes \<Rightarrow> bytes \<Rightarrow> (bytes \<times> bytes option \<times> bytes option) res" where
  "select_keys K params session_key preauth_hash =
     (case np_dialect params of
        Smb3_0 \<Rightarrow> result_bind (derive_session_keys K session_key (np_dialect params) None 128) (\<lambda>keys.
          Ok (dk_signing_key keys, Some (dk_encryption_key keys), Some (dk_decryption_key keys)))
      | Smb3_0_2 \<Rightarrow> result_bind (derive_session_keys K session_key (np_dialect params) None 128) (\<lambda>keys.
          Ok (dk_signing_key keys, Some (dk_encryption_key keys), Some (dk_decryption_key keys)))
      | Smb3_1_1 \<Rightarrow>
          let key_len_bits = (case np_cipher params of
                Some Aes256Ccm \<Rightarrow> 256 | Some Aes256Gcm \<Rightarrow> 256 | _ \<Rightarrow> 128) in
          result_bind (derive_session_keys K session_key Smb3_1_1 (Some preauth_hash) key_len_bits) (\<lambda>keys.
          Ok (dk_signing_key keys, Some (dk_encryption_key keys), Some (dk_decryption_key keys)))
      | _ \<Rightarrow> Ok (session_key, None, None))"

definition establish_session ::
    "crypto_prims \<Rightarrow> negotiated_params \<Rightarrow> bytes \<Rightarrow> bytes \<Rightarrow> u16 \<Rightarrow> session_id \<Rightarrow> 's inner \<Rightarrow> (session \<times> 's inner) res" where
  "establish_session K params session_key preauth_hash flags sid i =
     result_bind (select_keys K params session_key preauth_hash) (\<lambda>(signing_key, enc, dec).
     let algorithm = algorithm_for_dialect (np_dialect params) (np_gmac_negotiated params);
         should_sign = np_signing_required params \<or> \<not> is_guest flags \<and> \<not> is_null flags;
         should_encrypt = encrypt_data flags;
         i1 = (if should_sign then activate_signing signing_key algorithm i else i);
         cipher = (case np_cipher params of Some c \<Rightarrow> c | None \<Rightarrow> Aes128Ccm);
         i2 = (if should_encrypt then
                 (case (enc, dec) of
                    (Some e, Some d) \<Rightarrow> activate_encryption e d cipher i1
                  | _ \<Rightarrow> i1)
               else i1)
     in Ok (\<lparr>se_session_id = sid, se_signing_key = signing_key, se_encryption_key = enc, se_decryption_key = dec,
             se_signing_algorithm = algorithm, se_should_sign = should_sign, se_should_encrypt = should_encrypt\<rparr>, i2))"

section \<open>Revival\<close>

record reconnect_policy =
  rp_max_attempts :: u32
  rp_initial_backoff :: duration
  rp_max_backoff :: duration
  rp_total_budget :: duration
  rp_failure_cooldown :: duration

definition reconnect_policy_default :: reconnect_policy where
  "reconnect_policy_default = \<lparr>
     rp_max_attempts = 4,
     rp_initial_backoff = 500 * MILLISECOND,
     rp_max_backoff = 8 * SECOND,
     rp_total_budget = 60 * SECOND,
     rp_failure_cooldown = 10 * SECOND\<rparr>"

text \<open>The fields of \<open>Inner\<close> that only revival uses.\<close>

record revive_state =
  rv_reviver :: bool
  rv_policy :: reconnect_policy
  rv_revivals :: u64
  rv_last_failure :: "(instant \<times> error) option"

text \<open>One attempt: dial, swap the transport in, authenticate again. Dialing and authenticating are the reviver's.\<close>

definition revive_once ::
    "'s sem_ops \<Rightarrow> unit res \<Rightarrow> ('s inner \<Rightarrow> unit res \<times> 's inner) \<Rightarrow> 's inner \<Rightarrow> unit res \<times> 's inner" where
  "revive_once S dial reauthenticate i =
     (case dial of
        Ok _ \<Rightarrow> reauthenticate (install_transport S i)
      | Err e \<Rightarrow> (Err e, i)
      | Panic \<Rightarrow> (Panic, i))"

text \<open>
  The attempt loop from \<open>attempt\<close> on with \<open>n\<close> attempts left. It returns the number of the successful
  attempt, or the error of the last one, and lists the pauses it made; \<open>None\<close> is a panic.
\<close>

primrec revive_attempts ::
    "'s sem_ops \<Rightarrow> reconnect_policy \<Rightarrow> (u32 \<Rightarrow> 's inner \<Rightarrow> unit res \<times> 's inner) \<Rightarrow> nat \<Rightarrow> u32 \<Rightarrow> duration \<Rightarrow> error \<Rightarrow> 's inner \<Rightarrow>
     ((u32 + u32 \<times> error) \<times> duration list \<times> 's inner) option" where
  "revive_attempts S policy once 0 attempt backoff last_error i = Some (Inr (rp_max_attempts policy, last_error), [], i)"
| "revive_attempts S policy once (Suc n) attempt backoff last_error i =
     (let pauses = (if attempt > 1 then [backoff] else []);
          backoff1 = (if attempt > 1 then min (backoff * 2) (rp_max_backoff policy) else backoff);
          i1 = bump m_reconnect_attempts_update i
      in case once attempt i1 of
           (Panic, _) \<Rightarrow> None
         | (Ok _, i2) \<Rightarrow> Some (Inl attempt, pauses, i2)
         | (Err e, i2) \<Rightarrow>
             map_option (\<lambda>(r, ps, j). (r, pauses @ ps, j))
               (revive_attempts S policy once n (attempt + 1) backoff1 e (mark_dead S i2)))"

text \<open>The number of attempts that the error of a revival reports when its budget ran out.\<close>

definition timed_out_attempts :: "reconnect_policy \<Rightarrow> 's inner \<Rightarrow> u32" where
  "timed_out_attempts policy i =
     (let n = unat (m_reconnect_attempts (in_metrics i)) in
      min (if n < 2 ^ 32 then word_of_nat n else 0xFFFFFFFF) (rp_max_attempts policy))"

definition give_up ::
    "u32 \<Rightarrow> duration \<Rightarrow> instant \<Rightarrow> error \<Rightarrow> rstring \<Rightarrow> revive_state \<times> 's inner \<Rightarrow> error \<times> revive_state \<times> 's inner" where
  "give_up attempts took now cause reason st =
     (let err = ReconnectFailed attempts took (error_kind_of cause) reason in
      (err, (fst st)\<lparr>rv_last_failure := Some (now, err)\<rparr>, bump m_reconnects_failed_update (snd st)))"

text \<open>
  \<open>revive\<close>: the attempt loop ran to its end (\<open>Some\<close>) or the total budget cut it off in some state
  of the connection (\<open>None\<close>). \<open>print\<close> is the \<open>Display\<close> of an error.
\<close>

definition finish_revive ::
    "'s sem_ops \<Rightarrow> (error \<Rightarrow> rstring) \<Rightarrow> (u32 + u32 \<times> error) option \<Rightarrow> duration \<Rightarrow> instant \<Rightarrow> revive_state \<times> 's inner \<Rightarrow>
     unit res \<times> revive_state \<times> 's inner" where
  "finish_revive S print outcome took now st =
     (case outcome of
        Some (Inl attempts) \<Rightarrow>
          (Ok (), (fst st)\<lparr>rv_revivals := rv_revivals (fst st) + 1, rv_last_failure := None\<rparr>,
           bump m_reconnects_succeeded_update (snd st))
      | Some (Inr (attempts, cause)) \<Rightarrow>
          let (e, st') = give_up attempts took now cause (print cause) st in (Err e, st')
      | None \<Rightarrow>
          let attempts = timed_out_attempts (rv_policy (fst st)) (snd st);
              (e, st') = give_up attempts took now Timeout (print Timeout) (fst st, mark_dead S (snd st))
          in (Err e, st'))"

text \<open>
  What \<open>reconnect_if_needed\<close> decides with the lock in hand; \<open>seen\<close> is the revival count it read
  before it queued. \<open>None\<close> means that it goes on to revive.
\<close>

definition recent_revive_failure :: "instant \<Rightarrow> revive_state \<Rightarrow> error option" where
  "recent_revive_failure now rv =
     (case rv_last_failure rv of
        None \<Rightarrow> None
      | Some (at, err) \<Rightarrow>
          if now - at < rp_failure_cooldown (rv_policy rv) then
            Some (case err of ReconnectFailed a w c r \<Rightarrow> ReconnectFailed a w c r | _ \<Rightarrow> Disconnected)
          else None)"

definition reconnect_decision :: "u64 \<Rightarrow> instant \<Rightarrow> revive_state \<Rightarrow> 's inner \<Rightarrow> unit res option" where
  "reconnect_decision seen now rv i =
     (if rv_revivals rv \<noteq> seen then Some (Ok ())
      else if \<not> in_disconnected i then Some (Ok ())
      else case recent_revive_failure now rv of
        Some verdict \<Rightarrow> Some (Err verdict)
      | None \<Rightarrow>
          if \<not> rv_reviver rv then Some (Err Disconnected)
          else if rp_max_attempts (rv_policy rv) = 0 then Some (Err Disconnected)
          else None)"

section \<open>What negotiation and key selection establish\<close>

lemma negotiate_receive_Ok:
  assumes "negotiate_receive K fr i = (Ok u, j)"
  obtains p where "in_params j = Some p" "65536 \<le> np_max_read_size p" "65536 \<le> np_max_write_size p"
    "in_compression_enabled j = (in_compression_requested i \<and> np_compression_supported p)"
    "header_is_response (fr_header fr)" "hdr_command (fr_header fr) = Negotiate"
  using assms
  by (auto simp: negotiate_receive_def Let_def not_less split: if_split_asm result.split_asm prod.split_asm)

lemma select_keys_lengths:
  assumes "hmac_ok K" "np_dialect p \<in> {Smb3_0, Smb3_0_2, Smb3_1_1}"
  shows "\<exists>sk ek dk. select_keys K p key hash = Ok (sk, Some ek, Some dk) \<and>
    length ek = length sk \<and> length dk = length sk \<and>
    length sk = (if np_dialect p = Smb3_1_1 \<and> np_cipher p \<in> {Some Aes256Ccm, Some Aes256Gcm} then 32 else 16)"
proof -
  have d: "\<exists>ks. derive_session_keys K key d h b = Ok ks \<and> length (dk_signing_key ks) = unat b div 8 \<and>
      length (dk_encryption_key ks) = unat b div 8 \<and> length (dk_decryption_key ks) = unat b div 8"
    if "d \<in> {Smb3_0, Smb3_0_2, Smb3_1_1}" "d = Smb3_1_1 \<longrightarrow> h \<noteq> None" for d h b
    by (rule derive_session_keys_lengths [OF assms(1) that])
  from assms(2) consider (a) "np_dialect p = Smb3_0" | (b) "np_dialect p = Smb3_0_2" | (c) "np_dialect p = Smb3_1_1"
    by auto
  then show ?thesis
  proof cases
    case a
    with d [of Smb3_0 None 128] show ?thesis by (auto simp: select_keys_def)
  next
    case b
    with d [of Smb3_0_2 None 128] show ?thesis by (auto simp: select_keys_def)
  next
    case c
    with d [of Smb3_1_1 "Some hash" 128] d [of Smb3_1_1 "Some hash" 256] show ?thesis
      by (auto simp: select_keys_def Let_def split: option.split cipher.split)
  qed
qed

text \<open>With a 128-bit cipher, or none, a session that signs can sign everything.\<close>

lemma sign_if_active_total:
  assumes "prims_ok K" "cs_signing_key c = Some k" "length k = 16" "64 \<le> length mb"
  shows "\<exists>msg. sign_if_active K mb m cancel c = Ok msg"
proof -
  show ?thesis
  proof (cases "cs_signing_algorithm c")
    case (Some a)
    obtain s where "compute_signature K (zero_signature mb) k a m cancel False = Ok s"
      using compute_signature_total [of K k "zero_signature mb" a m cancel False] assms(1,3) by (auto simp: prims_ok_def)
    with Some assms(2,4) show ?thesis by (simp add: sign_if_active_def sign_message_def MIN_MESSAGE_LEN_def Let_def)
  qed (use assms(2) in \<open>simp add: sign_if_active_def\<close>)
qed

text \<open>With a 256-bit cipher the derived signing key has 32 bytes, and both AES algorithms refuse it.\<close>

lemma long_key_refused:
  assumes "cmac_ok K" "length k \<noteq> 16" "a \<noteq> HmacSha256" "64 \<le> length mb"
  shows "\<exists>e. sign_message K mb k a m cancel = Err e"
  using assms
  by (cases a) (auto simp: sign_message_def MIN_MESSAGE_LEN_def Let_def compute_aes_cmac_def compute_aes_gmac_def cmac_ok_def)

lemma establish_session_crypto:
  assumes "establish_session K p key hash fl sid i = Ok (se, j)"
  shows "se_should_sign se \<Longrightarrow> cs_should_sign (in_crypto j) \<and> cs_signing_key (in_crypto j) = Some (se_signing_key se) \<and>
      cs_signing_algorithm (in_crypto j) = Some (se_signing_algorithm se)"
    and "select_keys K p key hash = Ok (se_signing_key se, se_encryption_key se, se_decryption_key se)"
    and "se_signing_algorithm se = algorithm_for_dialect (np_dialect p) (np_gmac_negotiated p)"
    and "se_encryption_key se = Some e \<Longrightarrow> se_decryption_key se = Some d \<Longrightarrow> se_should_encrypt se \<Longrightarrow>
      cs_should_encrypt (in_crypto j) \<and> cs_encryption_key (in_crypto j) = Some e \<and>
      cs_encryption_cipher (in_crypto j) = Some (case np_cipher p of Some c \<Rightarrow> c | None \<Rightarrow> Aes128Ccm)"
  using assms
  by (auto simp: establish_session_def Let_def result_bind_eq_Ok activate_signing_def activate_encryption_def
      split: if_split option.split)

section \<open>Revival is bounded\<close>

lemma revive_attempts_bounds:
  assumes "revive_attempts S p once n a b l i = Some (r, ps, j)" "unat a + n \<le> 2 ^ 32 - 1" "1 \<le> a"
  shows "length ps \<le> n" "\<forall>d\<in>set ps. d \<le> max b (rp_max_backoff p)"
    "r = Inl k \<Longrightarrow> unat a \<le> unat k \<and> unat k < unat a + n"
proof -
  have "length ps \<le> n \<and> (\<forall>d\<in>set ps. d \<le> max b (rp_max_backoff p)) \<and>
    (\<forall>k. r = Inl k \<longrightarrow> unat a \<le> unat k \<and> unat k < unat a + n)"
    using assms
  proof (induction n arbitrary: a b l i r ps j)
    case (Suc n)
    let ?b = "if a > 1 then min (b * 2) (rp_max_backoff p) else b"
    have ua: "unat (a + 1) = unat a + 1" using Suc.prems(2) by (simp add: unat_word_ariths)
    obtain x i2 where x: "once a (bump m_reconnect_attempts_update i) = (x, i2)" by fastforce
    show ?case
    proof (cases x)
      case (Ok u)
      with Suc.prems(1) x show ?thesis by (auto simp: Let_def split: if_split_asm)
    next
      case (Err e)
      with Suc.prems(1) x obtain ps' where
        rec: "revive_attempts S p once n (a + 1) ?b e (mark_dead S i2) = Some (r, ps', j)"
        and ps: "ps = (if a > 1 then [b] else []) @ ps'"
        by (auto simp: Let_def split: if_split_asm)
      have a1: "1 \<le> a + 1" using ua by (simp add: word_le_nat_alt)
      have IH: "length ps' \<le> n \<and> (\<forall>d\<in>set ps'. d \<le> max ?b (rp_max_backoff p)) \<and>
          (\<forall>k. r = Inl k \<longrightarrow> unat (a + 1) \<le> unat k \<and> unat k < unat (a + 1) + n)"
        by (rule Suc.IH [OF rec _ a1]) (use Suc.prems(2) ua in simp)
      have m: "max ?b (rp_max_backoff p) \<le> max b (rp_max_backoff p)" by auto
      from IH m ua show ?thesis unfolding ps by (fastforce split: if_split)
    qed (use Suc.prems(1) x in \<open>simp add: Let_def\<close>)
  qed auto
  then show "length ps \<le> n" "\<forall>d\<in>set ps. d \<le> max b (rp_max_backoff p)"
    "r = Inl k \<Longrightarrow> unat a \<le> unat k \<and> unat k < unat a + n" by auto
qed

text \<open>A revival that gives up leaves the connection dead.\<close>

lemma revive_attempts_dead:
  assumes "revive_attempts S p once n a b l i = Some (Inr x, ps, j)" "0 < n \<or> in_disconnected i"
  shows "in_disconnected j"
  using assms
proof (induction n arbitrary: a b l i ps j)
  case (Suc n)
  obtain x i2 where "once a (bump m_reconnect_attempts_update i) = (x, i2)" by fastforce
  with Suc.prems Suc.IH [where i = "mark_dead S i2"] show ?case
    by (cases x) (auto simp: Let_def mark_dead_def split: if_split_asm)
qed simp

section \<open>Properties\<close>

text \<open>
  A negotiation that succeeds answers a NEGOTIATE request with success, leaves read and
  write limits of at least 64 KiB, turns compression on only when both sides want it, and has fed
  the response into the preauthentication hash.
\<close>

lemma negotiate_establishes:
  assumes "negotiate_receive K fr i = (Ok (), j)"
  shows "header_is_response (fr_header fr) \<and> hdr_command (fr_header fr) = Negotiate \<and> hdr_status (fr_header fr) = STATUS_SUCCESS \<and>
    in_preauth_hasher j = preauth_update K (in_preauth_hasher i) (fr_raw fr) \<and>
    (\<exists>p. in_params j = Some p \<and> 65536 \<le> np_max_read_size p \<and> 65536 \<le> np_max_write_size p \<and>
       in_compression_enabled j = (in_compression_requested i \<and> np_compression_supported p))"
  using assms
  by (auto simp: negotiate_receive_def Let_def not_less split: if_split_asm result.split_asm prod.split_asm)

definition sample_negotiate_response :: negotiate_response where
  "sample_negotiate_response = \<lparr>
     ngr_security_mode = SM_SIGNING_ENABLED,
     ngr_dialect_revision = Smb3_1_1,
     ngr_server_guid = \<lparr>data1 = 1, data2 = 2, data3 = 3, data4 = replicate 8 4\<rparr>,
     ngr_capabilities = CAP_LARGE_MTU,
     ngr_max_transact_size = 1048576,
     ngr_max_read_size = 1048576,
     ngr_max_write_size = 1048576,
     ngr_system_time = 0,
     ngr_server_start_time = 0,
     ngr_security_buffer = [],
     ngr_negotiate_contexts = [Encryption [CIPHER_AES_256_GCM], Compression 0 [COMPRESSION_LZ4]]\<rparr>"

theorem negotiate_establishes_witness:
  "\<exists>body j p. negotiate_receive sample_prims \<lparr>fr_header = (new_request Negotiate)\<lparr>hdr_flags := HF_SERVER_TO_REDIR\<rparr>,
       fr_body = body, fr_raw = []\<rparr> (inner_new counting_sem 0) = (Ok (), j) \<and>
     in_params j = Some p \<and> np_max_read_size p = 1048576 \<and> in_compression_enabled j"
proof -
  have "wf_negotiate_response sample_negotiate_response"
    by (simp add: sample_negotiate_response_def wf_negotiate_response_def wf_guid_def is_smb311_def)
  from negotiate_response.run_roundtrip [OF this] obtain body where
    b: "run_reader unpack_negotiate_response body = Ok sample_negotiate_response" by blast
  let ?fr = "\<lparr>fr_header = (new_request Negotiate)\<lparr>hdr_flags := HF_SERVER_TO_REDIR\<rparr>, fr_body = body, fr_raw = []\<rparr>"
  obtain j p where j: "negotiate_receive sample_prims ?fr (inner_new counting_sem 0) = (Ok (), j)"
    "in_params j = Some p" "np_max_read_size p = 1048576" "np_compression_supported p"
    by (simp add: negotiate_receive_def b Let_def header_is_response_def hf_is_response_def flag_contains_def
        HF_SERVER_TO_REDIR_def new_request_def sample_negotiate_response_def ALL_dialects_def COMPRESSION_LZ4_def)
  from negotiate_establishes [OF j(1)] j show ?thesis
    by (intro exI [of _ body] exI [of _ j] exI [of _ p]) (simp add: inner_new_def)
qed

text \<open>
  C32: Setting up an SMB 3 session always yields keys, and when the session encrypts, the
  encryption and decryption keys have the length that the active cipher requires and the nonce
  counter starts from zero.
\<close>

theorem session_keys_fit_cipher:
  assumes "hmac_ok K" "np_dialect p \<in> {Smb3_0, Smb3_0_2, Smb3_1_1}" "np_dialect p = Smb3_1_1 \<or> np_cipher p = None"
  shows "\<exists>se j. establish_session K p key hash fl sid i = Ok (se, j) \<and> se_session_id se = sid \<and>
    (encrypt_data fl \<longrightarrow> (\<exists>e d c. cs_encryption_key (in_crypto j) = Some e \<and> cs_decryption_key (in_crypto j) = Some d \<and>
       cs_encryption_cipher (in_crypto j) = Some c \<and> length e = key_len c \<and> length d = key_len c \<and>
       cs_nonce_gen (in_crypto j) = Some nonce_generator_new \<and> cs_should_encrypt (in_crypto j)))"
proof -
  obtain sk ek dk where k: "select_keys K p key hash = Ok (sk, Some ek, Some dk)" "length ek = length sk" "length dk = length sk"
    "length sk = (if np_dialect p = Smb3_1_1 \<and> np_cipher p \<in> {Some Aes256Ccm, Some Aes256Gcm} then 32 else 16)"
    using select_keys_lengths [OF assms(1,2)] by blast
  have "length sk = key_len (case np_cipher p of Some c \<Rightarrow> c | None \<Rightarrow> Aes128Ccm)"
  proof (cases "np_cipher p")
    case (Some c)
    with assms(3) k(4) show ?thesis by (cases c) simp_all
  qed (use k(4) in simp)
  with k show ?thesis by (simp add: establish_session_def Let_def activate_encryption_def)
qed

definition sample_params :: "cipher \<Rightarrow> negotiated_params" where
  "sample_params c = \<lparr>np_dialect = Smb3_1_1, np_max_read_size = 65536, np_max_write_size = 65536, np_max_transact_size = 65536,
     np_server_guid = \<lparr>data1 = 0, data2 = 0, data3 = 0, data4 = replicate 8 0\<rparr>, np_signing_required = True, np_capabilities = 0,
     np_gmac_negotiated = True, np_cipher = Some c, np_compression_supported = False\<rparr>"

theorem session_keys_fit_cipher_witness:
  "\<exists>se j. establish_session sample_prims (sample_params Aes256Gcm) (replicate 16 1) (replicate 64 2) 4 9 (inner_new counting_sem 0) =
     Ok (se, j) \<and> se_session_id se = 9"
  using session_keys_fit_cipher [OF sample_prims_ok(1), of "sample_params Aes256Gcm" "replicate 16 1" "replicate 64 2" 4 9
      "inner_new counting_sem 0"]
  by (auto simp: sample_params_def)

text \<open>
  C33: With a 256-bit cipher the key derivation makes the signing key 32 bytes long, and both AES
  signing algorithms want 16: a session that has to sign then cannot sign any message.
\<close>

theorem aes256_session_cannot_sign:
  assumes "hmac_ok K" "cmac_ok K" "np_dialect p = Smb3_1_1" "np_cipher p \<in> {Some Aes256Ccm, Some Aes256Gcm}"
    "establish_session K p key hash fl sid i = Ok (se, j)" "se_should_sign se" "64 \<le> length mb"
  shows "\<exists>e. sign_if_active K mb m cancel (in_crypto j) = Err e"
proof -
  have "length (se_signing_key se) = 32"
    using select_keys_lengths [OF assms(1), of p key hash] establish_session_crypto(2) [OF assms(5)] assms(3,4) by auto
  moreover have "se_signing_algorithm se \<noteq> HmacSha256"
    using establish_session_crypto(3) [OF assms(5)] assms(3) by simp
  ultimately obtain e where "sign_message K mb (se_signing_key se) (se_signing_algorithm se) m cancel = Err e"
    using long_key_refused [OF assms(2) _ _ assms(7)] by fastforce
  with establish_session_crypto(1) [OF assms(5,6)] show ?thesis by (simp add: sign_if_active_def)
qed

theorem aes256_session_cannot_sign_witness:
  "\<exists>se j e. establish_session sample_prims (sample_params Aes256Gcm) (replicate 16 1) (replicate 64 2) 0 9 (inner_new counting_sem 0) =
     Ok (se, j) \<and> sign_if_active sample_prims (replicate 64 0) 3 False (in_crypto j) = Err e"
proof -
  let ?p = "sample_params Aes256Gcm"
  obtain sk ek dk where "select_keys sample_prims ?p (replicate 16 1) (replicate 64 2) = Ok (sk, Some ek, Some dk)"
    using select_keys_lengths [OF sample_prims_ok(1), of ?p "replicate 16 1" "replicate 64 2"] by (auto simp: sample_params_def)
  then obtain se j where e: "establish_session sample_prims ?p (replicate 16 1) (replicate 64 2) 0 9 (inner_new counting_sem 0) = Ok (se, j)"
    "se_should_sign se"
    by (simp add: establish_session_def Let_def) (simp add: sample_params_def)
  from aes256_session_cannot_sign [OF sample_prims_ok(1,2) _ _ e, of "replicate 64 0" 3 False] e(1) show ?thesis
    by (fastforce simp: sample_params_def)
qed

text \<open>
  A revival makes at most the configured number of attempts, pauses at most that often, never
  longer than the larger of the first pause and the ceiling, and leaves the connection dead when
  it gives up.
\<close>

lemma revival_bounded:
  assumes "revive_attempts S p once (unat (rp_max_attempts p)) 1 (rp_initial_backoff p) e i = Some (r, ps, j)"
    "0 < rp_max_attempts p" "unat (rp_max_attempts p) < 2 ^ 32 - 1"
  shows "length ps \<le> unat (rp_max_attempts p) \<and>
    list_all (\<lambda>d. d \<le> max (rp_initial_backoff p) (rp_max_backoff p)) ps \<and>
    (case r of Inl k \<Rightarrow> 1 \<le> k \<and> k \<le> rp_max_attempts p | Inr _ \<Rightarrow> in_disconnected j)"
proof -
  have u: "unat (1 :: u32) + unat (rp_max_attempts p) \<le> 2 ^ 32 - 1" using assms(3) by simp
  note b = revive_attempts_bounds [OF assms(1) u]
  have "in_disconnected j" if "r = Inr x" for x
    using revive_attempts_dead [of S p once "unat (rp_max_attempts p)" 1 "rp_initial_backoff p" e i x ps j] assms(1,2) that
    by (simp add: word_less_nat_alt)
  with b show ?thesis by (auto simp: list_all_iff word_le_nat_alt split: sum.split)
qed

theorem revival_bounded_witness:
  "\<exists>r ps j. revive_attempts counting_sem reconnect_policy_default (\<lambda>a i. if a < 3 then (Err Timeout, i) else (Ok (), i))
       (unat (rp_max_attempts reconnect_policy_default)) 1 (rp_initial_backoff reconnect_policy_default) Disconnected
       (inner_new counting_sem 0) = Some (r, ps, j) \<and> length ps = 2 \<and> r = Inl 3 \<and>
     list_all (\<lambda>d. d \<le> 8 * SECOND) ps"
proof -
  have n: "unat (rp_max_attempts reconnect_policy_default) = Suc (Suc (Suc (Suc 0)))"
    by (simp add: reconnect_policy_default_def)
  obtain r ps j where d: "revive_attempts counting_sem reconnect_policy_default (\<lambda>a i. if a < 3 then (Err Timeout, i) else (Ok (), i))
       (unat (rp_max_attempts reconnect_policy_default)) 1 (rp_initial_backoff reconnect_policy_default) Disconnected
       (inner_new counting_sem 0) = Some (r, ps, j)" "length ps = 2" "r = Inl 3"
    unfolding n by (simp add: Let_def)
  from revival_bounded [OF d(1)] d show ?thesis
    by (auto simp: reconnect_policy_default_def SECOND_def MILLISECOND_def max_def)
qed

end
