(* ===== verification/Smb_Machine.thy ===== *)
theory Smb_Machine
  imports Smb_Session
begin

text \<open>
  The connection as a state machine: every operation that a task performs on the shared state
  in one go (under a lock, or as one atomic access) is a step, and tasks interleave freely, so
  a run is any sequence of steps. The invariants of the waiter map hold in every reachable
  state; the lemmas at the end show what the code does across a revival.
\<close>

section \<open>Steps\<close>

inductive conn_step :: "crypto_prims \<Rightarrow> 's sem_ops \<Rightarrow> 's inner \<Rightarrow> 's inner \<Rightarrow> bool" for K S where
  step_frame: "process_frame K S now raw i = Ok (go_on, j) \<Longrightarrow> conn_step K S i j"
| step_allocate: "conn_step K S i (snd (allocate_msg_id n i))"
| step_register: "register_waiter now m c i = Ok (g, j) \<Longrightarrow> conn_step K S i j"
| step_guard_drop: "conn_step K S i (guard_drop g i)"
| step_remove: "conn_step K S i (remove_waiter m i)"
| step_mark_sent: "conn_step K S i (mark_sent now ms i)"
| step_write: "send_and_count S out b i = (r, j) \<Longrightarrow> conn_step K S i j"
| step_encrypt: "encrypt_bytes K p i = (r, j) \<Longrightarrow> conn_step K S i j"
| step_reserve: "reserve_credits S ch i = (r, j) \<Longrightarrow> conn_step K S i j"
| step_recheck: "reserve_recheck S ch started deadline now i = (r, j) \<Longrightarrow> conn_step K S i j"
| step_refund: "drop_reservation S r i = Ok j \<Longrightarrow> conn_step K S i j"
| step_tick: "await_tick S timeout now m ext i = (out, ext', j) \<Longrightarrow> conn_step K S i j"
| step_long_poll: "long_poll_tick S g budget refresh now i = (out, j) \<Longrightarrow> conn_step K S i j"
| step_stall: "conn_step K S i (snd (forgive_scheduling_stall now i))"
| step_receive_error: "conn_step K S i (fan_error_to_waiters S e i)"
| step_session_id: "conn_step K S i (set_session_id sid i)"
| step_signing: "conn_step K S i (activate_signing k a i)"
| step_encryption: "conn_step K S i (activate_encryption e d c i)"
| step_negotiated: "negotiate_receive K fr i = (r, j) \<Longrightarrow> conn_step K S i j"
| step_install: "conn_step K S i (install_transport S i)"

inductive conn_reach :: "crypto_prims \<Rightarrow> 's sem_ops \<Rightarrow> 's inner \<Rightarrow> bool" for K S where
  reach_new: "conn_reach K S (inner_new S now)"
| reach_step: "conn_reach K S i \<Longrightarrow> conn_step K S i j \<Longrightarrow> conn_reach K S j"

section \<open>The invariant\<close>

lemma inner_new_conn_ok: "conn_ok (inner_new S now)"
  by (simp add: conn_ok_def chan_ok_def gate_ok_def inner_new_def live_def)

lemma conn_ok_other_fields [simp]:
  "conn_ok (i\<lparr>in_preauth_hasher := h\<rparr>) = conn_ok i"
  "conn_ok (i\<lparr>in_compression_enabled := b\<rparr>) = conn_ok i"
  "conn_ok (i\<lparr>in_params := p\<rparr>) = conn_ok i"
  by (simp_all add: conn_ok_def chan_ok_def gate_ok_def)

lemma forgive_conn_ok: "conn_ok i \<Longrightarrow> conn_ok (snd (forgive_scheduling_stall now i))"
  by (auto simp: conn_ok_def)

lemma declare_unresponsive_conn_ok: "conn_ok i \<Longrightarrow> declare_unresponsive S d i = (e, j) \<Longrightarrow> conn_ok j"
  by (auto simp: declare_unresponsive_def fan_error_conn_ok)

lemma await_tick_conn_ok:
  assumes "conn_ok i" "await_tick S timeout now m ext i = (out, ext', j)"
  shows "conn_ok j"
proof -
  define i1 where "i1 = snd (forgive_scheduling_stall now i)"
  have i1: "conn_ok i1" unfolding i1_def by (rule forgive_conn_ok [OF assms(1)])
  let ?i2 = "bump m_response_timeouts_update (remove_waiter m i1)"
  have i2: "conn_ok ?i2" using i1 by (simp add: conn_ok_intros)
  show ?thesis
    using assms(2) i1 i2 declare_unresponsive_conn_ok [OF i2]
    unfolding await_tick_def i1_def [symmetric] Let_def
    by (auto split: option.split_asm if_split_asm prod.split_asm)
qed

lemma long_poll_tick_conn_ok:
  assumes "conn_ok i" "long_poll_tick S g b r now i = (out, j)"
  shows "conn_ok j"
proof -
  define i1 where "i1 = snd (forgive_scheduling_stall now i)"
  have i1: "conn_ok i1" unfolding i1_def by (rule forgive_conn_ok [OF assms(1)])
  let ?i2 = "bump m_response_timeouts_update (remove_waiter (wg_msg_id g) i1)"
  have i2: "conn_ok ?i2" "conn_ok (bump m_long_poll_refreshes_update (guard_drop g i1))"
    using i1 by (simp_all add: conn_ok_intros)
  show ?thesis
    using assms(2) i1 i2 declare_unresponsive_conn_ok [OF i2(1)]
    unfolding long_poll_tick_def i1_def [symmetric] Let_def
    by (auto split: option.split_asm if_split_asm prod.split_asm)
qed

lemma reserve_credits_conn_ok: "reserve_credits S ch i = (r, j) \<Longrightarrow> conn_ok i \<Longrightarrow> conn_ok j"
  by (auto simp: reserve_credits_def Let_def split: prod.split_asm bool.split_asm if_split_asm)

lemma negotiate_receive_conn_ok: "negotiate_receive K fr i = (r, j) \<Longrightarrow> conn_ok i \<Longrightarrow> conn_ok j"
  by (auto simp: negotiate_receive_def Let_def split: if_split_asm result.split_asm prod.split_asm)

lemma install_transport_conn_ok: "conn_ok i \<Longrightarrow> conn_ok (install_transport S i)"
  using fan_error_conn_ok [of i S Disconnected]
  by (simp add: install_transport_def Let_def conn_ok_def chan_ok_def gate_ok_def)

lemma conn_step_ok: "conn_step K S i j \<Longrightarrow> conn_ok i \<Longrightarrow> conn_ok j"
proof (induction rule: conn_step.induct)
  case (step_frame now raw i go_on j)
  then show ?case by (simp add: process_frame_conn_ok)
next
  case (step_register now m c i g j)
  then show ?case by (simp add: conn_ok_intros(5))
next
  case (step_write out b i r j)
  then show ?case by (simp add: send_and_count_conn_ok)
next
  case (step_encrypt p i r j)
  from step_encrypt show ?case by (rule wire_frame_conn_ok [OF encrypt_bytes_frame])
next
  case (step_refund r i j)
  then show ?case by (auto elim!: drop_reservation_Ok)
next
  case (step_reserve ch i r j)
  then show ?case by (rule reserve_credits_conn_ok)
next
  case (step_recheck ch started deadline now i r j)
  then show ?case by (simp add: reserve_recheck_def split: if_split_asm) auto
next
  case (step_tick timeout now m ext i out ext' j)
  from step_tick(2,1) show ?case by (rule await_tick_conn_ok)
next
  case (step_long_poll g budget refresh now i out j)
  from step_long_poll(2,1) show ?case by (rule long_poll_tick_conn_ok)
next
  case (step_negotiated fr i r j)
  then show ?case by (rule negotiate_receive_conn_ok)
qed (simp_all add: conn_ok_intros forgive_conn_ok fan_error_conn_ok set_session_id_def activate_signing_def
      activate_encryption_def install_transport_conn_ok)

lemma reachable_conn_ok: "conn_reach K S i \<Longrightarrow> conn_ok i"
  by (induction rule: conn_reach.induct) (auto simp: inner_new_conn_ok conn_step_ok)

section \<open>Deadlines\<close>

text \<open>A connection that is provably alive is never declared dead before the extended ceiling.\<close>

lemma await_tick_alive:
  assumes "await_tick S timeout now m ext i = (GiveUp (ServerUnresponsive d), ext', j)"
  shows "\<not> liveness_is_proven now (snd (forgive_scheduling_stall now i))"
proof -
  define i1 where "i1 = snd (forgive_scheduling_stall now i)"
  have "unresponsive_for now i1 \<noteq> None"
    using assms unfolding await_tick_def i1_def [symmetric] Let_def
    by (auto split: option.split_asm if_split_asm prod.split_asm)
  then show ?thesis using unresponsive_not_alive by (auto simp: i1_def)
qed

text \<open>A request ends with an error only after its whole silence budget.\<close>

lemma await_tick_budget:
  assumes "await_tick S timeout now m ext i = (GiveUp e, ext', j)"
  shows "\<exists>w. find_waiter m (snd (forgive_scheduling_stall now i)) = Some w \<and> timeout \<le> now - wt_last_activity w"
proof -
  define i1 where "i1 = snd (forgive_scheduling_stall now i)"
  obtain d where "waiter_idle_for now m i1 = Some d" "timeout \<le> d"
    using assms unfolding await_tick_def i1_def [symmetric] Let_def
    by (auto simp: not_less split: option.split_asm if_split_asm prod.split_asm)
  then show ?thesis by (auto simp: waiter_idle_for_def i1_def)
qed

text \<open>A stall of the process is taken off the request's idle time in full.\<close>

lemma forgive_idle:
  assumes "forgive_scheduling_stall now i = (Some gap, j)" "find_waiter m i = Some w"
  shows "waiter_idle_for now m j = Some (now - wt_last_activity w - gap)"
proof -
  have "in_waiters j = map (\<lambda>(m, w). (m, w\<lparr>wt_registered_at := wt_registered_at w + gap,
      wt_last_activity := wt_last_activity w + gap, wt_sent_at := map_option (\<lambda>t. t + gap) (wt_sent_at w)\<rparr>)) (in_waiters i)"
    using assms(1) by (auto simp: forgive_scheduling_stall_def Let_def split: if_split_asm)
  then have "find_waiter m j = Some (w\<lparr>wt_registered_at := wt_registered_at w + gap,
      wt_last_activity := wt_last_activity w + gap, wt_sent_at := map_option (\<lambda>t. t + gap) (wt_sent_at w)\<rparr>)"
    using assms(2) by (simp add: find_waiter_def map_of_map)
  then show ?thesis by (simp add: waiter_idle_for_def)
qed

text \<open>Forgiving twice at one instant forgives once.\<close>

lemma forgive_idempotent:
  assumes "forgive_scheduling_stall now i = (r, j)"
  shows "fst (forgive_scheduling_stall now j) = None \<or> (case in_keepalive_after i of Some a \<Rightarrow> a | None \<Rightarrow> KEEPALIVE_AFTER) = 0"
  using assms
  by (auto simp: forgive_scheduling_stall_def Let_def bump_def split: if_split_asm option.split)

section \<open>Across a revival\<close>

lemma install_transport_fresh:
  "in_waiters (install_transport S i) = []" "in_next_message_id (install_transport S i) = 0"
  "in_crypto (install_transport S i) = crypto_state_new" "\<not> in_disconnected (install_transport S i)"
  "in_abandoned (install_transport S i) = []"
  "in_previous_session_id (install_transport S i) = cs_session_id (in_crypto i)"
  "in_next_chan (install_transport S i) = in_next_chan i"
  "in_resolved (install_transport S i) = in_resolved (fan_error_to_waiters S Disconnected i)"
  by (simp_all add: install_transport_def Let_def)

lemma install_transport_credits:
  "sem_laws S \<Longrightarrow> avail S (in_credits (install_transport S i)) = 1"
  "sem_laws S \<Longrightarrow> \<not> pool_is_closed S (in_credits (install_transport S i))"
  by (simp_all add: install_transport_def Let_def pool_reset_def pool_is_closed_def sem_new_facts)

text \<open>Every caller that waited on the old transport hears about it.\<close>

lemma install_transport_resolves:
  assumes "conn_ok i" "find_waiter m i = Some w"
  shows "guard_recv \<lparr>wg_msg_id = m, wg_rx = wt_tx w\<rparr> (install_transport S i) = Some (Err Disconnected)"
proof -
  let ?j = "install_transport S i"
  have "(m, w) \<in> set (in_waiters i)" using assms(2) by (simp add: find_waiter_def map_of_SomeD)
  then have "(wt_tx w, Some (Err Disconnected)) \<in> set (in_resolved ?j)"
    unfolding install_transport_fresh fan_error_simps by force
  moreover have "chan_ok ?j" using install_transport_conn_ok [OF assms(1)] by (simp add: conn_ok_def)
  ultimately show ?thesis
    using guard_recv_resolved [of ?j "\<lparr>wg_msg_id = m, wg_rx = wt_tx w\<rparr>" "Some (Err Disconnected)"] by simp
qed

text \<open>
  Message ids start again at 0. A guard from before the revival that is dropped after it removes
  whatever waiter holds its id now, and that caller's wait ends with \<open>Disconnected\<close>.
\<close>

lemma stale_guard_evicts:
  assumes "conn_ok i" "find_waiter (wg_msg_id old) i = Some w"
  shows "find_waiter (wg_msg_id old) (guard_drop old i) = None"
    and "guard_recv \<lparr>wg_msg_id = wg_msg_id old, wg_rx = wt_tx w\<rparr> (guard_drop old i) = Some (Err Disconnected)"
proof -
  show "find_waiter (wg_msg_id old) (guard_drop old i) = None"
    by (simp add: find_waiter_def delete_gone)
  have "(wt_tx w, None) \<in> set (in_resolved (guard_drop old i))"
    using assms(2) by (simp add: guard_drop_def Let_def remove_waiter_def drop_sender_def)
  moreover have "chan_ok (guard_drop old i)" using assms(1) by (auto simp: conn_ok_def)
  ultimately show "guard_recv \<lparr>wg_msg_id = wg_msg_id old, wg_rx = wt_tx w\<rparr> (guard_drop old i) = Some (Err Disconnected)"
    using guard_recv_resolved [of "guard_drop old i" "\<lparr>wg_msg_id = wg_msg_id old, wg_rx = wt_tx w\<rparr>" None] by simp
qed

text \<open>A request that timed out is not remembered as abandoned: its late response counts as stray.\<close>

lemma timed_out_not_abandoned:
  assumes "await_tick S timeout now m ext i = (GiveUp Timeout, ext', j)"
  shows "in_abandoned j = in_abandoned i" "find_waiter m j = None"
proof -
  define i1 where "i1 = snd (forgive_scheduling_stall now i)"
  have j: "j = bump m_response_timeouts_update (remove_waiter m i1)"
    using assms unfolding await_tick_def i1_def [symmetric] Let_def
    by (auto simp: declare_unresponsive_def split: option.split_asm if_split_asm prod.split_asm)
  have "in_abandoned i1 = in_abandoned i"
    by (simp add: i1_def forgive_scheduling_stall_def Let_def)
  then show "in_abandoned j = in_abandoned i" "find_waiter m j = None" by (simp_all add: j)
qed

lemma late_response_stray:
  assumes "find_waiter m i = None" "m \<notin> set (in_abandoned i)"
  shows "m_responses_stray (in_metrics (route (m, r) i)) = m_responses_stray (in_metrics i) + 1"
  using assms by (simp add: route_def take_waiter_def)

section \<open>Properties\<close>

text \<open>
  C2: In every state a connection can reach, by any interleaving of its tasks: no two outstanding
  requests share a message id, every response channel ever handed out either belongs to a
  request that is still outstanding or was answered, exactly once, and once the connection is down
  every caller has its answer.
\<close>

theorem no_caller_is_lost:
  assumes "conn_reach K S i"
  shows "distinct (map fst (in_waiters i)) \<and> distinct (map fst (in_resolved i)) \<and>
    (\<forall>c. c < in_next_chan i \<longleftrightarrow> c \<in> wt_tx ` snd ` set (in_waiters i) \<or> c \<in> fst ` set (in_resolved i)) \<and>
    wt_tx ` snd ` set (in_waiters i) \<inter> fst ` set (in_resolved i) = {} \<and>
    (in_disconnected i \<longrightarrow> in_waiters i = [] \<and> (\<forall>g. wg_rx g < in_next_chan i \<longrightarrow> guard_recv g i \<noteq> None))"
proof -
  have ok: "chan_ok i" "gate_ok i" using reachable_conn_ok [OF assms] by (simp_all add: conn_ok_def)
  have l: "set (live (in_waiters i)) = wt_tx ` snd ` set (in_waiters i)" by (simp add: live_def image_comp)
  from ok(1) have "(\<forall>c. c < in_next_chan i \<longleftrightarrow> c \<in> wt_tx ` snd ` set (in_waiters i) \<or> c \<in> fst ` set (in_resolved i))"
    unfolding chan_ok_def l [symmetric] by (metis Un_iff lessThan_iff)
  moreover have "in_disconnected i \<longrightarrow> in_waiters i = []" using ok(2) by (simp add: gate_ok_def)
  ultimately show ?thesis
    using ok disconnected_all_resolved [OF ok] l by (auto simp: chan_ok_def)
qed

theorem no_caller_is_lost_witness:
  "\<exists>i. conn_reach sample_prims counting_sem i \<and> in_disconnected i \<and> in_next_chan i = 1 \<and>
     guard_recv \<lparr>wg_msg_id = 5, wg_rx = 0\<rparr> i \<noteq> None"
proof -
  let ?a = "inner_new counting_sem 0"
  obtain g j where r: "register_waiter 3 5 Read ?a = Ok (g, j)" "in_next_chan j = 1"
    by (simp add: register_waiter_def inner_new_def)
  have "conn_reach sample_prims counting_sem j"
    by (rule reach_step [OF reach_new [of _ _ 0] step_register [OF r(1)]])
  from reach_step [OF this step_receive_error [of _ _ _ Disconnected]]
  have "conn_reach sample_prims counting_sem (fan_error_to_waiters counting_sem Disconnected j)" .
  with no_caller_is_lost [OF this] r(2) show ?thesis
    by (intro exI [of _ "fan_error_to_waiters counting_sem Disconnected j"]) simp
qed

text \<open>
  C23: A request is given up only after it has been idle for its whole budget. While the server is
  provably alive the request is never blamed on the connection, and it is given six times the
  budget.
\<close>

theorem deadline_verdicts:
  assumes "await_tick S timeout now m ext i = (GiveUp e, ext', j)"
  defines "i1 \<equiv> snd (forgive_scheduling_stall now i)"
  shows "\<exists>w. find_waiter m i1 = Some w \<and> timeout \<le> now - wt_last_activity w \<and>
    (if liveness_is_proven now i1 then e = Timeout \<and> timeout * 6 \<le> now - wt_last_activity w
     else e = Timeout \<or> (\<exists>d. e = ServerUnresponsive d \<and> unresponsive_for now i1 = Some d))"
proof -
  obtain d where d: "waiter_idle_for now m i1 = Some d" "timeout \<le> d" "\<not> (d < timeout * 6 \<and> liveness_is_proven now i1)"
    and e: "e = (case unresponsive_for now i1 of Some s \<Rightarrow> ServerUnresponsive s | None \<Rightarrow> Timeout)"
    using assms(1) unfolding await_tick_def i1_def [symmetric] Let_def
    by (auto simp: not_less declare_unresponsive_def ALIVE_DEADLINE_FACTOR_def split: option.split_asm if_split_asm prod.split_asm)
  then obtain w where w: "find_waiter m i1 = Some w" "d = now - wt_last_activity w" by (auto simp: waiter_idle_for_def)
  show ?thesis
  proof (cases "unresponsive_for now i1")
    case None
    with d e w show ?thesis by auto
  next
    case (Some s)
    with unresponsive_not_alive [OF Some] d e w show ?thesis by auto
  qed
qed

lemma sample_timeout:
  "\<exists>j. await_tick counting_sem (30 * SECOND) (40 * SECOND) 5 False (sample_conn\<lparr>in_last_scheduled_at := 40 * SECOND\<rparr>) =
     (GiveUp Timeout, False, j)"
proof -
  let ?i = "sample_conn\<lparr>in_last_scheduled_at := 40 * SECOND\<rparr>"
  have i: "snd (forgive_scheduling_stall (40 * SECOND) ?i) = ?i"
    by (simp add: forgive_scheduling_stall_def Let_def sample_conn_def inner_new_def KEEPALIVE_AFTER_def SECOND_def)
  have u: "unresponsive_for (40 * SECOND) ?i = None"
    by (simp add: unresponsive_for_def quiet_for_def sent_instants_def sample_conn_def new_waiter_def inner_new_def map_filter_simps)
  show ?thesis
    unfolding await_tick_def i u Let_def
    by (simp add: waiter_idle_for_def find_waiter_def sample_conn_def new_waiter_def SECOND_def liveness_is_proven_def
        server_silent_for_def inner_new_def KEEPALIVE_AFTER_def)
qed

theorem deadline_verdicts_witness:
  "\<exists>j w. await_tick counting_sem (30 * SECOND) (40 * SECOND) 5 False (sample_conn\<lparr>in_last_scheduled_at := 40 * SECOND\<rparr>) =
     (GiveUp Timeout, False, j) \<and>
     find_waiter 5 (snd (forgive_scheduling_stall (40 * SECOND) (sample_conn\<lparr>in_last_scheduled_at := 40 * SECOND\<rparr>))) = Some w"
proof -
  obtain j where j: "await_tick counting_sem (30 * SECOND) (40 * SECOND) 5 False (sample_conn\<lparr>in_last_scheduled_at := 40 * SECOND\<rparr>) =
     (GiveUp Timeout, False, j)" using sample_timeout by blast
  from deadline_verdicts [OF j] j show ?thesis by blast
qed

text \<open>
  Swapping in a fresh transport leaves nothing of the old session in force: no waiters, ids from
  0, no keys, a single credit; every caller that was waiting hears \<open>Disconnected\<close>, and the old
  session id is kept for the new SESSION_SETUP.
\<close>

lemma fresh_transport_is_clean:
  assumes "conn_ok i" "sem_laws S" "find_waiter m i = Some w"
  shows "let j = install_transport S i in
    in_waiters j = [] \<and> in_next_message_id j = 0 \<and> in_crypto j = crypto_state_new \<and> \<not> in_disconnected j \<and>
    avail S (in_credits j) = 1 \<and> in_previous_session_id j = cs_session_id (in_crypto i) \<and>
    guard_recv \<lparr>wg_msg_id = m, wg_rx = wt_tx w\<rparr> j = Some (Err Disconnected)"
  using install_transport_fresh [of S i] install_transport_credits(1) [OF assms(2), of i] install_transport_resolves [OF assms(1,3), of S]
  by (simp add: Let_def)

text \<open>
  C38: A guard from before a revival that is dropped after it evicts the waiter of whatever new
  request has its message id, although that request is unrelated; the new caller hears
  \<open>Disconnected\<close>.
\<close>

theorem stale_guard_evicts_new_request:
  assumes "conn_ok i" "wg_rx old < in_next_chan i"
    "register_waiter now (wg_msg_id old) c (install_transport S i) = Ok (g, j)"
  shows "wg_rx g \<noteq> wg_rx old \<and> find_waiter (wg_msg_id old) (guard_drop old j) = None \<and>
    guard_recv g (guard_drop old j) = Some (Err Disconnected)"
proof -
  have j: "conn_ok j" by (rule conn_ok_intros(5) [OF install_transport_conn_ok [OF assms(1)] assms(3)])
  have g: "g = \<lparr>wg_msg_id = wg_msg_id old, wg_rx = in_next_chan i\<rparr>"
    using assms(3) by (auto simp: register_waiter_def Let_def install_transport_fresh split: if_split_asm)
  have f: "find_waiter (wg_msg_id old) j = Some (new_waiter now c (wg_rx g))"
    using register_waiter_find [OF assms(3)] by simp
  from stale_guard_evicts [OF j f] g assms(2) show ?thesis by (simp add: new_waiter_def)
qed

theorem stale_guard_evicts_new_request_witness:
  "\<exists>g j. register_waiter 9 5 Write (install_transport counting_sem sample_conn) = Ok (g, j) \<and>
     guard_recv g (guard_drop \<lparr>wg_msg_id = 5, wg_rx = 0\<rparr> j) = Some (Err Disconnected)"
proof -
  obtain g j where r: "register_waiter 9 (wg_msg_id \<lparr>wg_msg_id = 5, wg_rx = 0\<rparr>) Write (install_transport counting_sem sample_conn) = Ok (g, j)"
    by (simp add: register_waiter_def install_transport_fresh Let_def)
  have "wg_rx \<lparr>wg_msg_id = 5, wg_rx = 0\<rparr> < in_next_chan sample_conn" by (simp add: sample_conn_def)
  from stale_guard_evicts_new_request [OF sample_conn_ok this r] r show ?thesis by auto
qed

text \<open>
  The response to a request that was given up for slowness counts as stray and not as late: the
  timeout removes the waiter before its guard is dropped, so the id is never remembered as
  abandoned.
\<close>

lemma late_after_timeout_is_stray:
  assumes "await_tick S timeout now m ext i = (GiveUp Timeout, ext', j)" "m \<notin> set (in_abandoned i)" "wg_msg_id g = m"
  shows "let k = guard_drop g j in
    m_responses_stray (in_metrics (route (m, r) k)) = m_responses_stray (in_metrics k) + 1 \<and>
    m_responses_late_after_drop (in_metrics (route (m, r) k)) = m_responses_late_after_drop (in_metrics k)"
proof -
  note t = timed_out_not_abandoned [OF assms(1)]
  have "in_abandoned (guard_drop g j) = in_abandoned j" "find_waiter m (guard_drop g j) = None"
    using t(2) assms(3) by (simp_all add: guard_drop_def find_waiter_def)
  with t assms(2) show ?thesis by (simp add: route_def take_waiter_def Let_def)
qed


end
