(* ===== verification/Spec2Isabelle.thy ===== *)
theory Spec2Isabelle
  imports Smb_Msg_Create Smb_Create_Context Smb_Transport Smb_Name Smb_Ntlm Smb_Peer Smb_Stream Smb_Durable Smb_Typed Smb_Machine
begin

text \<open>
  A verification development for \<open>smb2\<close>, an SMB 2/3 client library in Rust.

  \<^bold>\<open>The program.\<close> A caller asks a \<open>Tree\<close> (\<open>src/client/tree.rs\<close>) for a file operation. The
  operation builds request bodies (\<open>src/msg/\<close>, written with the cursors of \<open>src/pack/\<close>) and
  hands them to a \<open>Connection\<close> (\<open>src/client/connection.rs\<close>), which reserves credits
  (\<open>src/client/credits.rs\<close>), allocates message ids, registers a waiter, signs or encrypts
  (\<open>src/crypto/\<close>), and writes a length-prefixed frame to a TCP stream (\<open>src/transport/\<close>). A receiver
  task reads frames, decrypts, decompresses, splits compounds, checks signatures and hands every
  response to the waiter with its message id. Before that, \<open>negotiate\<close> and SESSION_SETUP
  (\<open>src/client/session.rs\<close>, with the tokens of \<open>src/auth/\<close>) agree on the dialect and on keys; after a
  failure a \<open>SessionReviver\<close> swaps in a new transport under the same connection.

  \<^bold>\<open>Conventions.\<close> \<open>Smb_Prelude\<close>: an integer type \<open>uN\<close> is an \<open>N word\<close>, so it wraps where the source
  wraps; \<open>usize\<close> is \<open>nat\<close>; a fallible function returns \<open>Ok\<close>, \<open>Err\<close> or \<open>Panic\<close>, and \<open>Panic\<close> is what an
  out-of-range slice or an underflowing subtraction gives. Crates are parameters: the
  cryptographic primitives are the record \<open>crypto_prims\<close> with hypotheses \<open>hmac_ok\<close>, \<open>cmac_ok\<close>, \<open>aead_ok\<close>,
  \<open>lz4_ok\<close>, \<open>sha512_ok\<close>; MD4 and HMAC-MD5 are \<open>ntlm_prims\<close>; tokio's semaphore is \<open>sem_ops\<close> with
  \<open>sem_laws\<close>. Every property that assumes one of these has a witness at a concrete instance.

  \<^bold>\<open>The theories, in the order of the code.\<close>

  \<^item> \<open>Smb_Types\<close>, \<open>Smb_Error\<close> (\<open>src/types/\<close>, \<open>src/error.rs\<close>): codes, flags, NTSTATUS values, the error
    type with its classification and retry rule.
  \<^item> \<open>Smb_Pack\<close> (\<open>src/pack/\<close>): cursors, UTF-16, \<open>Guid\<close>, \<open>FileTime\<close>. The locale \<open>codec\<close> is the contract of a
    type with both \<open>Pack\<close> and \<open>Unpack\<close>, \<open>exact_codec\<close> adds that the parser stops where the writer
    stopped; \<open>safe\<close> says that a reader neither panics nor leaves its buffer.
  \<^item> \<open>Smb_Header\<close>, \<open>Smb_Msg_Session\<close>, \<open>Smb_Msg_File\<close>, \<open>Smb_Msg_Negotiate\<close>, \<open>Smb_Msg_Create\<close>,
    \<open>Smb_Msg_Wrap\<close>, \<open>Smb_Create_Context\<close> (\<open>src/msg/\<close>): one record, writer, parser and
    well-formedness predicate per message, each an interpretation of the codec locales.
  \<^item> \<open>Smb_Name\<close> (\<open>src/name.rs\<close>): file names and paths and their wire form.
  \<^item> \<open>Smb_Transport\<close> (\<open>src/transport/\<close>): TCP framing over a byte stream, with the locale \<open>transport\<close> for
    what the connection expects of a transport.
  \<^item> \<open>Smb_Crypto\<close> (\<open>src/crypto/\<close>): signing, encryption, nonces, compression, key derivation, preauthentication
    hash.
  \<^item> \<open>Smb_Spnego\<close>, \<open>Smb_Ntlm\<close> (\<open>src/auth/\<close>): DER, SPNEGO tokens, NTLMv2 with RC4 and the MIC; \<open>ntlm_server\<close>
    is the other side of the exchange, written from the protocol document, as the specification.
  \<^item> \<open>Smb_Credits\<close> (\<open>src/client/credits.rs\<close>): the credit pool and its reservations, and the account as a
    step relation.
  \<^item> \<open>Smb_Frame\<close>, \<open>Smb_Inner\<close>, \<open>Smb_Receive\<close>, \<open>Smb_Send\<close> (\<open>src/client/connection.rs\<close>): compounds and the
    compression wrapper; the shared state \<open>Inner\<close> with waiters, clocks and deadlines; \<open>receiver_loop\<close>
    one frame at a time; the send path of single requests, compounds, CANCEL and the keepalive probe.
    \<open>Smb_Delivery\<close> and \<open>Smb_Send_Props\<close> prove what the two paths guarantee.
  \<^item> \<open>Smb_Session\<close> (\<open>src/client/connection.rs\<close>, \<open>src/client/session.rs\<close>): negotiation, SESSION_SETUP, the choice
    of keys, revival.
  \<^item> \<open>Smb_Machine\<close>: the connection as a step relation in which tasks interleave freely, its invariants, and
    what happens across a revival.
  \<^item> \<open>Smb_Peer\<close>: what an operation observes of the connection: the answer to a request after a given
    history. The operations of \<open>Tree\<close> are computations over such a peer, and a statement for every peer
    is a statement for every server and every order of completion.
  \<^item> \<open>Smb_Dir\<close>, \<open>Smb_Tree\<close> (\<open>src/client/tree.rs\<close>): directory and information records; connect, open, list,
    stat, rename, delete, compound read and write.
  \<^item> \<open>Smb_Pipelined\<close> (\<open>src/client/tree.rs\<close>): the sliding windows of the pipelined and streamed transfers.
  \<^item> \<open>Smb_Stream\<close> (\<open>src/client/stream.rs\<close>): \<open>FileDownload\<close>, \<open>FileReader\<close>, \<open>FileUpload\<close>, \<open>FileWriter\<close>.
  \<^item> \<open>Smb_Copy\<close> (\<open>src/client/copy.rs\<close>): server-side copy with its batches and limits.
  \<^item> \<open>Smb_Dfs\<close> (\<open>src/msg/dfs.rs\<close>, \<open>src/client/dfs.rs\<close>): DFS referrals and the resolver with its cache.
  \<^item> \<open>Smb_Shares\<close> (\<open>src/rpc\<close>, \<open>src/client/shares.rs\<close>): share enumeration over DCE/RPC on a named pipe.
  \<^item> \<open>Smb_Durable\<close> (\<open>src/client/durable.rs\<close>): durable handles, their identity and their reclaim.
  \<^item> \<open>Smb_Watcher\<close> (\<open>src/client/watcher.rs\<close>): the change watcher with its pre-issued request and its refresh.
  \<^item> \<open>Smb_Typed\<close>: that the strings made from a server's bytes are Rust strings.

  \<^bold>\<open>What is shown.\<close> For the wire formats: everything packed parses back, no parser panics on any
  bytes. For the connection: credits are conserved, ids are not reused, every caller gets exactly
  one answer, the answer is the response with its own id, a signed response is delivered only
  with a valid signature, nonces do not repeat. For authentication: the NTLM server accepts and
  derives the same key. For the file operations: pipelined, streamed and pushed
  transfers refine reading and writing a byte string in whatever order the server answers, a listing is
  complete, handles are released. A reclaimed handle is the same file
  or is given back; the watcher never leaves the directory unwatched on a healthy connection; a share
  listing survives any fragmentation; the referral cache is a longest-prefix match. Where the code falls short of its own comments or of its intention, a
  property states what it does instead (the properties of kind error).

  \<^bold>\<open>Bounds and fuel.\<close> Loops over a buffer are \<open>function\<close>s with a measure. A call that must wait
  for credits is \<open>None\<close> at the point of the wait; \<open>revive_attempts\<close> recurses on the attempts that
  the policy allows. A loop whose length the server decides
  (\<open>query_directory_loop\<close>, \<open>copy_loop\<close>, \<open>read_pipe_loop\<close>, \<open>next_frame\<close>) takes fuel and is \<open>None\<close> when it was not enough; the properties say
  which fuel is, or that none is.

  \<^bold>\<open>Not modelled.\<close> Task scheduling, timers and the bounded write queue; logging and diagnostics; the
  Kerberos exchange (its token and key are arguments of the session model); the facade \<open>SmbClient\<close> of
  \<open>src/client/mod.rs\<close>, with its own rules for following DFS redirects, recovering a tree after a lost session
  and retrying reads but not changes; the sequential batches of \<open>src/client/pipeline.rs\<close>; test
  support, examples and benchmarks.
\<close>

section \<open>The wire formats\<close>


text \<open>A value parses back: packing it succeeds and parsing the bytes returns it.\<close>

definition parses_back :: "('a \<Rightarrow> unit writer) \<Rightarrow> 'a reader \<Rightarrow> 'a \<Rightarrow> bool" where
  "parses_back pack unpack x \<longleftrightarrow> (\<exists>bs. run_writer (pack x) = Ok bs \<and> run_reader unpack bs = Ok x)"

text \<open>
  The messages that set a connection up parse back to what was packed: the header,
  NEGOTIATE with its contexts, SESSION_SETUP and TREE_CONNECT, for every value their length fields can
  hold.
\<close>

lemma setup_messages_roundtrip:
  assumes "wf_header h" "wf_negotiate_request nq" "wf_negotiate_response nr" "wf_session_setup_request sq"
    "wf_session_setup_response sr" "wf_tree_connect_request tq"
  shows "parses_back pack_header unpack_header h \<and>
    parses_back pack_negotiate_request unpack_negotiate_request nq \<and>
    parses_back pack_negotiate_response unpack_negotiate_response nr \<and>
    parses_back pack_session_setup_request unpack_session_setup_request sq \<and>
    parses_back pack_session_setup_response unpack_session_setup_response sr \<and>
    parses_back pack_tree_connect_request unpack_tree_connect_request tq \<and>
    parses_back pack_tree_connect_response unpack_tree_connect_response tr"
  using header.run_roundtrip [OF assms(1)] negotiate_request.run_roundtrip [OF assms(2)]
    negotiate_response.run_roundtrip [OF assms(3)] session_setup_request.run_roundtrip [OF assms(4)]
    session_setup_response.run_roundtrip [OF assms(5)] tree_connect_request.run_roundtrip [OF assms(6)]
    tree_connect_response.run_roundtrip [OF TrueI, of tr]
  by (simp add: parses_back_def)

theorem setup_messages_roundtrip_witness:
  "parses_back pack_header unpack_header (new_request Negotiate) \<and>
   parses_back pack_negotiate_response unpack_negotiate_response sample_negotiate_response \<and>
   parses_back pack_session_setup_request unpack_session_setup_request (session_setup_body [1, 2, 3] (inner_new counting_sem 0))"
proof -
  let ?nq = "client_negotiate_request \<lparr>data1 = 1, data2 = 2, data3 = 3, data4 = replicate 8 4\<rparr> (replicate 32 5) True"
  let ?sq = "session_setup_body [1, 2, 3] (inner_new counting_sem 0)"
  have "wf_header (new_request Negotiate)"
    by (simp add: wf_header_def new_request_def hf_is_async_def flag_contains_def HF_ASYNC_COMMAND_def)
  moreover have "wf_negotiate_request ?nq"
    by (simp add: wf_negotiate_request_def client_negotiate_request_def wf_guid_def has_smb311_def ALL_dialects_def)
  moreover have "wf_negotiate_response sample_negotiate_response"
    by (simp add: sample_negotiate_response_def wf_negotiate_response_def wf_guid_def is_smb311_def)
  moreover have "wf_session_setup_request ?sq"
    by (simp add: wf_session_setup_request_def session_setup_body_def SM_SIGNING_ENABLED_def)
  moreover have "wf_session_setup_response \<lparr>ssr_session_flags = 0, ssr_security_buffer = [9]\<rparr>"
    by (simp add: wf_session_setup_response_def)
  moreover have "wf_tree_connect_request \<lparr>tcq_flags = 0, tcq_path = [92, 92, 115]\<rparr>"
    by (simp add: wf_tree_connect_request_def valid_str_def is_char_def encode_utf16_def encode_utf16_char_def)
  ultimately show ?thesis
    using setup_messages_roundtrip [of "new_request Negotiate" ?nq sample_negotiate_response ?sq
        "\<lparr>ssr_session_flags = 0, ssr_security_buffer = [9]\<rparr>" "\<lparr>tcq_flags = 0, tcq_path = [92, 92, 115]\<rparr>"
        "\<lparr>tcr_share_type = Disk, tcr_share_flags = 0, tcr_capabilities = 0, tcr_maximal_access = 0\<rparr>"]
    by blast
qed

text \<open>
  C29: The messages that work on files parse back to what was packed: CREATE, READ, WRITE,
  LOCK, IOCTL, QUERY_INFO, SET_INFO, QUERY_DIRECTORY and CHANGE_NOTIFY, for every value their length
  fields and the 16 MiB parse limit can hold.
\<close>

theorem file_messages_roundtrip:
  assumes "wf_create_request cq" "wf_create_response cr" "wf_read_request rq" "wf_read_response rr" "wf_write_request wq"
    "wf_lock_request lq" "wf_ioctl_request iq" "wf_ioctl_response ir" "wf_query_info_request qq" "wf_output_response outr"
    "wf_set_info_request siq" "wf_query_directory_request dq" "wf_change_notify_response nr"
  shows "parses_back pack_create_request unpack_create_request cq \<and>
    parses_back pack_create_response unpack_create_response cr \<and>
    parses_back pack_read_request unpack_read_request rq \<and>
    parses_back pack_read_response unpack_read_response rr \<and>
    parses_back pack_write_request unpack_write_request wq \<and>
    parses_back pack_lock_request unpack_lock_request lq \<and>
    parses_back pack_ioctl_request unpack_ioctl_request iq \<and>
    parses_back pack_ioctl_response unpack_ioctl_response ir \<and>
    parses_back pack_query_info_request unpack_query_info_request qq \<and>
    parses_back pack_output_response unpack_output_response outr \<and>
    parses_back pack_set_info_request unpack_set_info_request siq \<and>
    parses_back pack_query_directory_request unpack_query_directory_request dq \<and>
    parses_back pack_change_notify_response unpack_change_notify_response nr"
  using create_request.run_roundtrip [OF assms(1)] create_response.run_roundtrip [OF assms(2)]
    read_request.run_roundtrip [OF assms(3)] read_response.run_roundtrip [OF assms(4)]
    write_request.run_roundtrip [OF assms(5)] lock_request.run_roundtrip [OF assms(6)]
    ioctl_request.run_roundtrip [OF assms(7)] ioctl_response.run_roundtrip [OF assms(8)]
    query_info_request.run_roundtrip [OF assms(9)] output_response.run_roundtrip [OF assms(10)]
    set_info_request.run_roundtrip [OF assms(11)] query_directory_request.run_roundtrip [OF assms(12)]
    change_notify_response.run_roundtrip [OF assms(13)]
  by (simp only: parses_back_def)

theorem file_messages_roundtrip_witness:
  "\<exists>cq dq. crq_name cq = [97, 46, 116, 120, 116] \<and> parses_back pack_create_request unpack_create_request cq \<and>
     qdq_file_name dq = [42] \<and> parses_back pack_query_directory_request unpack_query_directory_request dq"
proof -
  let ?f = "\<lparr>persistent = 7, volatile = 8\<rparr>"
  let ?cq = "\<lparr>crq_requested_oplock_level = OplockNone, crq_impersonation_level = Impersonation, crq_desired_access = 1,
    crq_file_attributes = 0, crq_share_access = 7, crq_create_disposition = FileOpen, crq_create_options = 0,
    crq_name = [97, 46, 116, 120, 116], crq_create_contexts = []\<rparr>"
  let ?cr = "\<lparr>crr_oplock_level = OplockNone, crr_flags = 0, crr_create_action = FileOpened, crr_creation_time = 1,
    crr_last_access_time = 2, crr_last_write_time = 3, crr_change_time = 4, crr_allocation_size = 5, crr_end_of_file = 6,
    crr_file_attributes = 0, crr_file_id = ?f, crr_create_contexts = []\<rparr>"
  let ?rq = "\<lparr>rdq_padding = 80, rdq_flags = 0, rdq_length = 100, rdq_offset = 0, rdq_file_id = ?f, rdq_minimum_count = 0,
    rdq_channel = 0, rdq_remaining_bytes = 0, rdq_read_channel_info = []\<rparr>"
  let ?rr = "\<lparr>rdr_data_offset = 80, rdr_data_remaining = 0, rdr_flags = 0, rdr_data = [1, 2, 3]\<rparr>"
  let ?wq = "\<lparr>wrq_data_offset = 112, wrq_offset = 0, wrq_file_id = ?f, wrq_channel = 0, wrq_remaining_bytes = 0,
    wrq_write_channel_info_offset = 0, wrq_write_channel_info_length = 0, wrq_flags = 0, wrq_data = [4, 5]\<rparr>"
  let ?lq = "\<lparr>lkq_lock_sequence = 0, lkq_file_id = ?f, lkq_locks = [\<lparr>le_offset = 0, le_length = 10, le_flags = 2\<rparr>]\<rparr>"
  let ?iq = "\<lparr>ioq_ctl_code = 1, ioq_file_id = ?f, ioq_max_input_response = 0, ioq_max_output_response = 64, ioq_flags = 1,
    ioq_input_data = [1]\<rparr>"
  let ?ir = "\<lparr>ior_ctl_code = 1, ior_file_id = ?f, ior_flags = 0, ior_output_data = [2]\<rparr>"
  let ?qq = "\<lparr>qiq_info_type = InfoFile, qiq_file_info_class = 18, qiq_output_buffer_length = 1024,
    qiq_additional_information = 0, qiq_flags = 0, qiq_file_id = ?f, qiq_input_buffer = []\<rparr>"
  let ?siq = "\<lparr>siq_info_type = InfoFile, siq_file_info_class = 13, siq_additional_information = 0, siq_file_id = ?f,
    siq_buffer = [1]\<rparr>"
  let ?dq = "\<lparr>qdq_file_information_class = FileBothDirectoryInformation, qdq_flags = 0, qdq_file_index = 0, qdq_file_id = ?f,
    qdq_output_buffer_length = 65536, qdq_file_name = [42]\<rparr>"
  have "wf_create_request ?cq" "wf_query_directory_request ?dq"
    by (simp_all add: wf_create_request_def wf_query_directory_request_def valid_str_def is_char_def encode_utf16_def encode_utf16_char_def)
  from file_messages_roundtrip [OF this(1) _ _ _ _ _ _ _ _ _ _ this(2), of ?cr ?rq ?rr ?wq ?lq ?iq ?ir ?qq
      "\<lparr>or_output_buffer = [1]\<rparr>" ?siq "\<lparr>cnr_output_data = [3]\<rparr>"]
  show ?thesis
    by (intro exI [of _ ?cq] exI [of _ ?dq])
      (simp add: wf_create_response_def wf_read_request_def wf_read_response_def wf_write_request_def wf_lock_request_def
        wf_ioctl_request_def wf_ioctl_response_def wf_query_info_request_def wf_output_response_def wf_set_info_request_def
        wf_change_notify_response_def MAX_UNPACK_BUFFER_def)
qed

section \<open>A request and its response\<close>

text \<open>
  C1: From dispatch to delivery over TCP: once a request has been dispatched on a reachable
  connection, a response frame for it that the server writes to the stream is received whole,
  whatever follows it, and processing it hands exactly that response to the caller's guard. The
  connection invariant holds afterwards and the credits of the response are banked on top of what the
  request left.
\<close>

theorem request_response_over_tcp:
  assumes "sem_laws S" "conn_reach K S i"
    "dispatch_with_credits K S net now c body t cc i = Some (Ok g, j)"
    "wf_header h" "hdr_message_id h = wg_msg_id g" "wg_msg_id g \<noteq> UNSOLICITED" "hdr_next_command h = 0"
    "\<not> is_pending (hdr_status h)" "hdr_status h \<noteq> STATUS_NETWORK_SESSION_EXPIRED"
    "check_signature K (header_bytes h @ payload) False h (in_crypto j) = Ok None"
    "length payload < 16777152" "avail S (in_credits j) + unat (hdr_credits h) \<le> MAX_PERMITS"
  shows "\<exists>f k. tcp_send (header_bytes h @ payload) s = Ok ((), s @ f) \<and>
    tcp_receive (f @ rest) = Ok (header_bytes h @ payload, rest) \<and>
    process_frame K S later (header_bytes h @ payload) j = Ok (True, k) \<and> conn_ok k \<and>
    guard_recv g k = Some (Ok \<lparr>fr_header = h, fr_body = payload, fr_raw = header_bytes h @ payload\<rparr>) \<and>
    avail S (in_credits k) + unat (max cc 1) = avail S (in_credits i) + unat (hdr_credits h)"
proof -
  let ?raw = "header_bytes h @ payload"
  have l: "length (header_bytes h) = 64" using assms(4) by (simp add: wf_header_def)
  have "tcp_deliverable ?raw" using assms(11) l by (simp add: tcp_deliverable_def MAX_FRAME_SIZE_def)
  from tcp.receive_send [OF this] obtain f where
    f: "tcp_send ?raw s = Ok ((), s @ f)" "tcp_receive (f @ rest) = Ok (?raw, rest)" by blast
  obtain r p mb where p: "avail S p + unat (max cc 1) = avail S (in_credits i)"
    and d: "send_allocated K S net now True False c body t (max cc 1) r (i\<lparr>in_credits := p\<rparr>) = (Ok (g, mb), j)"
    by (rule dispatch_Ok [OF assms(1,3)])
  have "conn_ok (i\<lparr>in_credits := p\<rparr>)" using reachable_conn_ok [OF assms(2)] by simp
  from send_allocated_conn_ok [OF this d] have j: "conn_ok j" .
  note w = send_allocated_sent(5) [OF d] and m = send_allocated_sent(1) [OF d] and cr = send_allocated_sent(3) [OF d]
  have w': "find_waiter (wg_msg_id g) j = Some \<lparr>wt_tx = wg_rx g, wt_command = c, wt_registered_at = now,
      wt_sent_at = Some now, wt_last_activity = now, wt_async_id = None\<rparr>" using w m by simp
  obtain k where k: "process_frame K S later ?raw j = Ok (True, k)" "conn_ok k"
    "guard_recv \<lparr>wg_msg_id = wg_msg_id g, wg_rx = wg_rx g\<rparr> k = Some (Ok \<lparr>fr_header = h, fr_body = drop 64 ?raw, fr_raw = ?raw\<rparr>)"
    "avail S (in_credits k) = avail S (in_credits j) + unat (hdr_credits h)"
    by (rule process_frame_delivers [OF j assms(1) w' run_header_packed [OF assms(4)] assms(7,5,6,8,9,10,12), where now = later]) simp
  have "guard_recv g k = guard_recv \<lparr>wg_msg_id = wg_msg_id g, wg_rx = wg_rx g\<rparr> k" by (simp add: guard_recv_def)
  with f k l p cr show ?thesis by (intro exI [of _ f] exI [of _ k]) simp
qed

theorem request_response_over_tcp_witness:
  "\<exists>g j f k. dispatch_with_credits sample_prims counting_sem (\<lambda>_. Wrote (Ok ())) 3 Echo (pack_trivial ()) None 0
       (inner_new counting_sem 0) = Some (Ok g, j) \<and>
     tcp_receive (f @ [1]) = Ok (header_bytes ((sample_response HF_SERVER_TO_REDIR)\<lparr>hdr_message_id := 0\<rparr>) @ [7], [1]) \<and>
     process_frame sample_prims counting_sem 5 (header_bytes ((sample_response HF_SERVER_TO_REDIR)\<lparr>hdr_message_id := 0\<rparr>) @ [7]) j =
       Ok (True, k) \<and>
     guard_recv g k = Some (Ok \<lparr>fr_header = (sample_response HF_SERVER_TO_REDIR)\<lparr>hdr_message_id := 0\<rparr>, fr_body = [7],
       fr_raw = header_bytes ((sample_response HF_SERVER_TO_REDIR)\<lparr>hdr_message_id := 0\<rparr>) @ [7]\<rparr>)"
proof -
  let ?h = "(sample_response HF_SERVER_TO_REDIR)\<lparr>hdr_message_id := 0\<rparr>"
  obtain g j where d: "dispatch_with_credits sample_prims counting_sem (\<lambda>_. Wrote (Ok ())) 3 Echo (pack_trivial ()) None 0
      (inner_new counting_sem 0) = Some (Ok g, j)"
    using sample_dispatch [of "Ok ()"] by auto
  obtain r p mb where p: "avail counting_sem p + unat (max 0 1 :: u16) = avail counting_sem (in_credits (inner_new counting_sem 0))"
    and s: "send_allocated sample_prims counting_sem (\<lambda>_. Wrote (Ok ())) 3 True False Echo (pack_trivial ()) None (max 0 1) r
      ((inner_new counting_sem 0)\<lparr>in_credits := p\<rparr>) = (Ok (g, mb), j)"
    by (rule dispatch_Ok [OF counting_sem_laws d])
  have g: "wg_msg_id g = 0" using send_allocated_sent(1) [OF s] by (simp add: inner_new_def)
  have a: "avail counting_sem (in_credits j) + unat (hdr_credits ?h) \<le> MAX_PERMITS"
    using send_allocated_sent(3) [OF s] p by (simp add: inner_new_def pool_new_def sample_response_def counting_sem_def MAX_PERMITS_def)
  have "cs_should_sign (in_crypto j) = False"
    using s by (rule send_allocated_Ok) (auto simp: mark_sent_def inner_new_def crypto_state_new_def dest!: wire_form_frame wire_frame_crypto send_and_count_Ok(10) allocate_register_sel(1))
  then have sg: "check_signature sample_prims (header_bytes ?h @ [7]) False ?h (in_crypto j) = Ok None"
    by (simp add: check_signature_def)
  have "wf_header ?h" by (simp add: wf_header_def sample_response_def new_request_def)
  from request_response_over_tcp [OF counting_sem_laws reach_new d this _ _ _ _ _ sg _ a, where s = "[]" and rest = "[1]" and later = 5]
  show ?thesis using d g by (auto simp: UNSOLICITED_def)
qed

end
